(* ===== verification/Prelude.thy ===== *)
theory Prelude
  imports Main "HOL-Library.Word"
begin

text \<open>
  Shared ground of the development: the machine integer types of the Go sources, the result
  type of fallible Go code (a returned \<open>error\<close>, a run-time panic, or the exhaustion of the
  fuel that bounds a loop without a termination argument), Go's slice and index expressions
  with their bounds checks, the little-endian codecs of \<open>encoding/binary\<close>, and the
  \<open>sort.Search\<close> of the standard library.  The collections \<open>go_simps\<close> and
  \<open>res_elims\<close> carry the component proofs.
\<close>

unbundle bit_operations_syntax

named_theorems go_simps "unfolding of Go's slice, index and result plumbing"
named_theorems res_elims "inversion of successful results"
named_theorems fuel_free_intros "operations whose model never runs out of fuel"

section \<open>Machine integers\<close>

type_synonym u8 = "8 word"
type_synonym u16 = "16 word"
type_synonym u32 = "32 word"
type_synonym u64 = "64 word"

text \<open>
  A Go \<open>int64\<close> is kept as its 64-bit pattern (\<open>sint\<close> reads it); a Go \<open>int\<close> is a HOL
  \<open>int\<close> with the wrap-around at 64 bits written out by \<open>wrap64\<close> wherever the source
  computes with a value that may leave the range.
\<close>

type_synonym i64 = "64 word"

definition wrap64 :: "int \<Rightarrow> int" where
  "wrap64 x = signed_take_bit 63 x"

lemma wrap64_id [simp]: "- (2 ^ 63) \<le> x \<Longrightarrow> x < 2 ^ 63 \<Longrightarrow> wrap64 x = x"
  by (simp add: wrap64_def signed_take_bit_int_eq_self)

lemma wrap64_lower: "- (2 ^ 63) \<le> wrap64 x"
  unfolding wrap64_def using signed_take_bit_int_greater_eq_minus_exp [of 63 x] by simp

lemma wrap64_upper: "wrap64 x < 2 ^ 63"
  unfolding wrap64_def using signed_take_bit_int_less_exp [of 63 x] by simp

lemma wrap64_over: "2 ^ 63 \<le> x \<Longrightarrow> x < 2 ^ 64 \<Longrightarrow> wrap64 x = x - 2 ^ 64"
proof -
  assume x: "2 ^ 63 \<le> x" "x < 2 ^ 64"
  have "wrap64 x = take_bit 64 (x + 2 ^ 63) - 2 ^ 63"
    by (simp add: wrap64_def signed_take_bit_eq_take_bit_shift)
  also have "x + 2 ^ 63 = (x + 2 ^ 63 - 2 ^ 64) + 2 ^ 64" by simp
  also have "take_bit 64 \<dots> = take_bit 64 (x + 2 ^ 63 - 2 ^ 64)"
    by (simp only: take_bit_eq_mod mod_add_self2)
  also have "\<dots> = x + 2 ^ 63 - 2 ^ 64"
    by (rule take_bit_int_eq_self) (use x in simp_all)
  finally show ?thesis by simp
qed

abbreviation go_int :: "int \<Rightarrow> bool" where
  "go_int x \<equiv> - (2 ^ 63) \<le> x \<and> x < 2 ^ 63"

lemma sint_go_int: "go_int (sint (w :: 64 word))"
  using sint_ge [of w] sint_lt [of w] by simp

lemma go_int_uint32: "go_int (uint (w :: 32 word))"
proof
  show "- (2 ^ 63) \<le> uint w" by (rule order_trans [OF _ uint_ge_0]) simp
  have "uint w < 2 ^ LENGTH(32)" by (rule unsigned_less)
  then show "uint w < 2 ^ 63" by simp
qed

text \<open>A sum that wraps comes out below both summands, so it never passes for a larger index.\<close>

lemma wrap64_add_ge:
  assumes "0 \<le> p" "p < 2 ^ 63" "go_int n" "p \<le> wrap64 (p + n)"
  shows "0 \<le> n \<and> wrap64 (p + n) = p + n"
proof (cases "p + n < 2 ^ 63")
  case True
  with assms show ?thesis by simp
next
  case False
  with assms wrap64_over [of "p + n"] show ?thesis by simp
qed

lemma unat_drop_bit_div: "unat (drop_bit n w) = unat w div 2 ^ n"
  by (subst unat_drop_bit_eq) (rule drop_bit_eq_div)

text \<open>The bits of the masks the decoders use (words reduce to these by \<open>bit_simps\<close>).\<close>

lemma bit_int_7f: "bit (0x7f :: int) n \<longleftrightarrow> n < 7"
proof -
  have "(0x7f :: int) = mask 7" by (simp add: mask_eq_exp_minus_1)
  then show ?thesis by (simp only: bit_mask_iff) auto
qed

lemma bit_int_40: "bit (0x40 :: int) n \<longleftrightarrow> n = 6"
proof -
  have "(0x40 :: int) = 2 ^ 6" by simp
  then show ?thesis by (simp only: bit_exp_iff) auto
qed

lemma bit_int_80: "bit (0x80 :: int) n \<longleftrightarrow> n = 7"
proof -
  have "(0x80 :: int) = 2 ^ 7" by simp
  then show ?thesis by (simp only: bit_exp_iff) auto
qed

lemmas mask_bits = bit_int_7f bit_int_40 bit_int_80

lemma byte_less_80_iff: "b < 0x80 \<longleftrightarrow> \<not> bit (b :: u8) 7"
proof -
  have "unat b < 256" using unsigned_less [of b] by simp
  then have "unat b div 128 < 2" by (simp add: less_mult_imp_div_less)
  then have "odd (unat b div 128) \<longleftrightarrow> unat b div 128 \<noteq> 0" by (auto simp: less_2_cases_iff)
  moreover have "bit (unat b) 7 = bit b 7" by (simp add: bit_unsigned_iff)
  moreover have "bit (unat b) 7 = odd (unat b div 128)" by (simp add: bit_iff_odd)
  ultimately show ?thesis by (auto simp add: word_less_nat_alt div_eq_0_iff)
qed

lemma byte_and_80_iff: "b AND 0x80 = 0 \<longleftrightarrow> \<not> bit (b :: u8) 7"
  using and_exp_eq_0_iff_not_bit [of b 7] by simp

lemma byte_and_40_iff: "b AND 0x40 = 0 \<longleftrightarrow> \<not> bit (b :: u8) 6"
  using and_exp_eq_0_iff_not_bit [of b 6] by simp

section \<open>Results of fallible code\<close>

text \<open>
  The errors the sources return, one constructor for each \<open>newError\<close>, \<open>newErrorf\<close> or
  \<open>fmt.Errorf\<close> site of the modelled code (\<open>src/debugger/error.go\<close> keeps only a message).
\<close>

datatype (plugins only: code) go_error =
    EOF                          \<comment> \<open>a \<open>cfiReader\<close> read past the end\<close>
  | SliceRange                   \<comment> \<open>\<open>cfiReader.slice\<close> wants more bytes than there are\<close>
  | BadLEB                       \<comment> \<open>\<open>binary.Uvarint\<close> reported an overflow or a short buffer\<close>
  | BadPointerFormat u8
  | BadPointerApplication u8
  | UnknownRegister int
  | RegisterTypeMismatch string
  | PtraceFailed                 \<comment> \<open>an errno of a \<open>ptrace\<close> request\<close>
  | CIEOutOfRange u64
  | ZeroLengthCIE
  | Dwarf64
  | BadCIEId u32
  | BadCIEVersion u8
  | FDEOutOfRange u64
  | BadFDELength u32
  | NotAnFDE u64
  | NoEntrySize u8
  | NoFDE u64
  | UnknownDwarfRegister int
  | StackUnderflow
  | BadPick u8
  | DivisionByZero
  | ImplicitOverflow
  | UnsupportedOp u8
  | UnknownOp u8
  | MemoryFailed u64
  | NoDwarfData
  | NoFunctionAt u64
  | CompositeFrameBase
  | BadFrameBaseKind
  | RuleStackEmpty
  | UnknownCFI u8
  | CFANotAddress
  | VMReadFailed
  | BreakpointExists u64
  | NoSuchBreakpoint int
  | RegistersUnavailable
  | BadDebugRegister int
  | NoFreeDebugRegister
  | BadStoppointSize int
  | ExecuteWatchpoint
  | Misaligned u64 int
  | WatchpointExists u64
  | NoSuchWatchpoint int
  | NoStoppointTriggered
  | StoppointNotFound nat u64
  | NoSuchThread int
  | WaitFailed
  | InvalidPID
  | AttachFailed
  | LaunchFailed
  | NoDIE u32                    \<comment> \<open>no entry at a \<open>.debug_info\<close> offset\<close>
  | NoAttribute u32              \<comment> \<open>the entry at an offset lacks the attribute\<close>
  | BadAttribute                 \<comment> \<open>an attribute value or class the code does not take\<close>
  | LocOutOfRange u64
  | NoLocSection
  | OptimizedOut
  | UnknownType
  | BadInteger string
  | BadFloat string
  | BadVector string
  | BadFormat string
  | BadName string
  | NotFound string
  | NoCode string int
  | CannotSet string int

datatype failure =
    Panic                        \<comment> \<open>a Go run-time panic\<close>
  | Error go_error               \<comment> \<open>a returned error\<close>
  | OutOfFuel                    \<comment> \<open>the fuel of the model ran out: the Go loop runs on\<close>

type_synonym 'a res = "failure + 'a"

definition rbind :: "'a res \<Rightarrow> ('a \<Rightarrow> 'b res) \<Rightarrow> 'b res" where
  "rbind m f = (case m of Inl e \<Rightarrow> Inl e | Inr x \<Rightarrow> f x)"

lemma rbind_Inl [simp]: "rbind (Inl e) f = Inl e"
  by (simp add: rbind_def)

lemma rbind_Inr [simp]: "rbind (Inr x) f = f x"
  by (simp add: rbind_def)

lemma rbind_eq_Inr [simp]: "rbind m f = Inr y \<longleftrightarrow> (\<exists>x. m = Inr x \<and> f x = Inr y)"
  by (cases m) auto

lemma rbind_eq_Inl: "rbind m f = Inl e \<longleftrightarrow> m = Inl e \<or> (\<exists>x. m = Inr x \<and> f x = Inl e)"
  by (cases m) auto

lemma rbind_assoc: "rbind (rbind m f) g = rbind m (\<lambda>x. rbind (f x) g)"
  by (cases m) auto

lemma rbind_cong [fundef_cong]:
  "m = m' \<Longrightarrow> (\<And>x. m' = Inr x \<Longrightarrow> f x = f' x) \<Longrightarrow> rbind m f = rbind m' f'"
  by (cases m') auto

definition is_ok :: "'a res \<Rightarrow> bool" where
  "is_ok m \<longleftrightarrow> (\<exists>x. m = Inr x)"

lemma is_ok_simps [simp]: "is_ok (Inr x)" "\<not> is_ok (Inl e)"
  by (auto simp: is_ok_def)

text \<open>Code that recovers from an error of \<open>m\<close> by continuing with \<open>d\<close>; a panic is not caught.\<close>

definition on_error :: "'a res \<Rightarrow> 'b res \<Rightarrow> ('a \<Rightarrow> 'b res) \<Rightarrow> 'b res" where
  "on_error m d f =
     (case m of Inr x \<Rightarrow> f x | Inl (Error e) \<Rightarrow> d | Inl Panic \<Rightarrow> Inl Panic | Inl OutOfFuel \<Rightarrow> Inl OutOfFuel)"

lemma on_error_simps [simp]:
  "on_error (Inr x) d f = f x" "on_error (Inl (Error e)) d f = d" "on_error (Inl Panic) d f = Inl Panic"
  by (simp_all add: on_error_def)

text \<open>Results of code whose loops all end.\<close>

definition fuel_free :: "'a res \<Rightarrow> bool" where
  "fuel_free m \<longleftrightarrow> m \<noteq> Inl OutOfFuel"

lemma fuel_free_simps [simp]:
  "fuel_free (Inr x)" "fuel_free (Inl f) \<longleftrightarrow> f \<noteq> OutOfFuel"
  by (simp_all add: fuel_free_def)

lemma fuel_free_rbind [fuel_free_intros]:
  "fuel_free m \<Longrightarrow> (\<And>x. m = Inr x \<Longrightarrow> fuel_free (f x)) \<Longrightarrow> fuel_free (rbind m f)"
  by (cases m) (auto simp: fuel_free_def)

lemma fuel_free_if [fuel_free_intros]:
  "(b \<Longrightarrow> fuel_free m) \<Longrightarrow> (\<not> b \<Longrightarrow> fuel_free n) \<Longrightarrow> fuel_free (if b then m else n)"
  by simp

lemma fuel_free_prod [fuel_free_intros]:
  "(\<And>a b. p = (a, b) \<Longrightarrow> fuel_free (f a b)) \<Longrightarrow> fuel_free (case p of (a, b) \<Rightarrow> f a b)"
  by (cases p) simp

lemma fuel_free_option [fuel_free_intros]:
  "(m = None \<Longrightarrow> fuel_free d) \<Longrightarrow> (\<And>x. m = Some x \<Longrightarrow> fuel_free (f x)) \<Longrightarrow>
    fuel_free (case m of None \<Rightarrow> d | Some x \<Rightarrow> f x)"
  by (cases m) simp_all

lemma fuel_free_on_error [fuel_free_intros]:
  "fuel_free m \<Longrightarrow> fuel_free d \<Longrightarrow> (\<And>x. m = Inr x \<Longrightarrow> fuel_free (f x)) \<Longrightarrow> fuel_free (on_error m d f)"
  by (auto simp: on_error_def fuel_free_def split: sum.splits failure.splits)

section \<open>Binary search\<close>

text \<open>
  \<open>sort.Search(n, f)\<close> is \<open>search f 0 n\<close>; the predicate may fail.  (The midpoint is computed in
  unsigned arithmetic by the library, so it does not overflow.)
\<close>

function search :: "(int \<Rightarrow> bool res) \<Rightarrow> int \<Rightarrow> int \<Rightarrow> int res" where
  "search f i j =
     (if i < j then
        rbind (f ((i + j) div 2)) (\<lambda>b.
          if b then search f i ((i + j) div 2) else search f ((i + j) div 2 + 1) j)
      else Inr i)"
  by pat_completeness auto
termination by (relation "measure (\<lambda>(f, i, j). nat (j - i))") auto

declare search.simps [simp del]

lemma fuel_free_search [fuel_free_intros]:
  "(\<And>h. fuel_free (f h)) \<Longrightarrow> fuel_free (search f i j)"
  by (induction f i j rule: search.induct)
    (subst search.simps, auto intro!: fuel_free_intros)

text \<open>Where the predicate does not fail, the search ends between a false and a true.\<close>

lemma search_boundary:
  assumes "i \<le> j" "\<And>h. i \<le> h \<Longrightarrow> h < j \<Longrightarrow> f h = Inr (p h)"
  shows "\<exists>k. search f i j = Inr k \<and> i \<le> k \<and> k \<le> j \<and> (i < k \<longrightarrow> \<not> p (k - 1)) \<and> (k < j \<longrightarrow> p k)"
  using assms
proof (induction f i j rule: search.induct)
  case (1 f i j)
  show ?case
  proof (cases "i < j")
    case True
    let ?h = "(i + j) div 2"
    have h: "i \<le> ?h" "?h < j" using True by auto
    then have f: "f ?h = Inr (p ?h)" using "1.prems" by simp
    show ?thesis
    proof (cases "p ?h")
      case pt: True
      obtain k where "search f i ?h = Inr k" "i \<le> k" "k \<le> ?h" "i < k \<longrightarrow> \<not> p (k - 1)" "k < ?h \<longrightarrow> p k"
        using "1.IH"(1) [OF True f pt h(1)] "1.prems"(2) h by auto
      with f pt True h show ?thesis by (cases "k = ?h") (auto simp: search.simps [of f i j])
    next
      case False
      obtain k where "search f (?h + 1) j = Inr k" "?h + 1 \<le> k" "k \<le> j"
        "?h + 1 < k \<longrightarrow> \<not> p (k - 1)" "k < j \<longrightarrow> p k"
        using "1.IH"(2) [OF True f False] "1.prems"(2) h by auto
      with f False True h show ?thesis
        by (cases "k = ?h + 1") (auto simp: search.simps [of f i j])
    qed
  next
    case False
    with "1.prems"(1) show ?thesis by (auto simp: search.simps [of f j j])
  qed
qed

text \<open>For a monotone predicate that boundary is the least index where it holds.\<close>

lemma search_least:
  assumes "i \<le> j" "\<And>h. i \<le> h \<Longrightarrow> h < j \<Longrightarrow> f h = Inr (p h)"
    and mono: "\<And>h h'. i \<le> h \<Longrightarrow> h \<le> h' \<Longrightarrow> h' < j \<Longrightarrow> p h \<Longrightarrow> p h'"
  shows "\<exists>k. search f i j = Inr k \<and> i \<le> k \<and> k \<le> j \<and>
    (\<forall>h. i \<le> h \<and> h < k \<longrightarrow> \<not> p h) \<and> (\<forall>h. k \<le> h \<and> h < j \<longrightarrow> p h)"
proof -
  obtain k where k: "search f i j = Inr k" "i \<le> k" "k \<le> j" "i < k \<longrightarrow> \<not> p (k - 1)" "k < j \<longrightarrow> p k"
    using search_boundary [of i j f p] assms(1,2) by auto
  moreover have "\<not> p h" if "i \<le> h" "h < k" for h
    using k(3,4) mono [of h "k - 1"] that by auto
  moreover have "p h" if "k \<le> h" "h < j" for h
    using k(2,5) mono [of k h] that by auto
  ultimately show ?thesis by blast
qed

section \<open>Slices and indices\<close>

text \<open>\<open>xs[i]\<close>, \<open>xs[i:]\<close> and \<open>xs[i:j]\<close> with Go's bounds checks (length and capacity agree).\<close>

definition go_index :: "'a list \<Rightarrow> int \<Rightarrow> 'a res" where
  "go_index xs i = (if 0 \<le> i \<and> i < int (length xs) then Inr (xs ! nat i) else Inl Panic)"

definition go_from :: "'a list \<Rightarrow> int \<Rightarrow> 'a list res" where
  "go_from xs i = (if 0 \<le> i \<and> i \<le> int (length xs) then Inr (drop (nat i) xs) else Inl Panic)"

definition go_slice :: "'a list \<Rightarrow> int \<Rightarrow> int \<Rightarrow> 'a list res" where
  "go_slice xs i j =
     (if 0 \<le> i \<and> i \<le> j \<and> j \<le> int (length xs)
      then Inr (take (nat (j - i)) (drop (nat i) xs)) else Inl Panic)"

lemma go_index_Inr [res_elims]:
  "go_index xs i = Inr x \<longleftrightarrow> 0 \<le> i \<and> i < int (length xs) \<and> x = xs ! nat i"
  by (auto simp: go_index_def)

lemma go_from_Inr [res_elims]:
  "go_from xs i = Inr ys \<longleftrightarrow> 0 \<le> i \<and> i \<le> int (length xs) \<and> ys = drop (nat i) xs"
  by (auto simp: go_from_def)

lemma go_slice_Inr [res_elims]:
  "go_slice xs i j = Inr ys \<longleftrightarrow>
     0 \<le> i \<and> i \<le> j \<and> j \<le> int (length xs) \<and> ys = take (nat (j - i)) (drop (nat i) xs)"
  by (auto simp: go_slice_def)

lemma fuel_free_slices [simp, fuel_free_intros]:
  "fuel_free (go_index xs i)" "fuel_free (go_from xs i)" "fuel_free (go_slice xs i j)"
  by (simp_all add: go_index_def go_from_def go_slice_def)

text \<open>\<open>copy(dst[off:], src)\<close>: as many elements as both sides have.\<close>

definition go_copy :: "'a list \<Rightarrow> 'a list \<Rightarrow> 'a list" where
  "go_copy dst src = take (length dst) src @ drop (length src) dst"

lemma length_go_copy [simp]: "length (go_copy dst src) = length dst"
  by (simp add: go_copy_def)

lemma go_copy_nth:
  "i < length dst \<Longrightarrow> go_copy dst src ! i = (if i < length src then src ! i else dst ! i)"
  by (auto simp: go_copy_def nth_append)

text \<open>Overwriting the window \<open>[off, off + length src)\<close> of a byte array.\<close>

definition overwrite :: "nat \<Rightarrow> 'a list \<Rightarrow> 'a list \<Rightarrow> 'a list" where
  "overwrite off src dst = take off dst @ src @ drop (off + length src) dst"

definition window :: "nat \<Rightarrow> nat \<Rightarrow> 'a list \<Rightarrow> 'a list" where
  "window off n xs = take n (drop off xs)"

lemma length_overwrite [simp]:
  "off + length src \<le> length dst \<Longrightarrow> length (overwrite off src dst) = length dst"
  by (simp add: overwrite_def)

lemma length_window [simp]: "off + n \<le> length xs \<Longrightarrow> length (window off n xs) = n"
  by (simp add: window_def)

lemma overwrite_nth:
  assumes "off + length src \<le> length dst" "i < length dst"
  shows "overwrite off src dst ! i =
    (if off \<le> i \<and> i < off + length src then src ! (i - off) else dst ! i)"
  using assms by (auto simp: overwrite_def nth_append min_def)

lemma window_nth: "off + n \<le> length xs \<Longrightarrow> i < n \<Longrightarrow> window off n xs ! i = xs ! (off + i)"
  by (simp add: window_def)

lemma window_overwrite_same:
  "off + length src \<le> length dst \<Longrightarrow> window off (length src) (overwrite off src dst) = src"
  by (simp add: overwrite_def window_def)

lemma window_overwrite_disjoint:
  assumes "off + length src \<le> length dst" "a + n \<le> length dst"
    and "a + n \<le> off \<or> off + length src \<le> a"
  shows "window a n (overwrite off src dst) = window a n dst"
  using assms by (intro nth_equalityI) (auto simp: window_nth overwrite_nth)

lemma overwrite_overwrite_same:
  assumes "off + length a \<le> length dst" "length b = length a"
  shows "overwrite off b (overwrite off a dst) = overwrite off b dst"
  using assms by (intro nth_equalityI) (auto simp: overwrite_nth)

lemma overwrite_commute:
  assumes "off + length a \<le> length dst" "off' + length b \<le> length dst"
    and "off + length a \<le> off' \<or> off' + length b \<le> off"
  shows "overwrite off' b (overwrite off a dst) = overwrite off a (overwrite off' b dst)"
  using assms by (intro nth_equalityI) (auto simp: overwrite_nth)

lemma overwrite_window_id:
  "off + n \<le> length dst \<Longrightarrow> overwrite off (window off n dst) dst = dst"
  by (intro nth_equalityI) (auto simp: overwrite_nth window_nth)

section \<open>Little-endian codecs\<close>

fun le_nat :: "u8 list \<Rightarrow> nat" where
  "le_nat [] = 0"
| "le_nat (b # bs) = unat b + 256 * le_nat bs"

definition le_bytes :: "nat \<Rightarrow> 'a::len word \<Rightarrow> u8 list" where
  "le_bytes n w = map (\<lambda>i. ucast (drop_bit (8 * i) w)) [0..<n]"

definition le_word :: "u8 list \<Rightarrow> 'a::len word" where
  "le_word bs = of_nat (le_nat bs)"

lemma le_word_simps [simp, code]:
  "le_word [] = 0"
  "le_word (b # bs) = ucast b + 256 * le_word bs"
  by (simp_all add: le_word_def unsigned_ucast_eq)

lemma length_le_bytes [simp]: "length (le_bytes n w) = n"
  by (simp add: le_bytes_def)

lemma le_nat_bound: "le_nat bs < 256 ^ length bs"
proof (induction bs)
  case (Cons b bs)
  have "unat b < 256" using unsigned_less [of b] by simp
  with Cons show ?case by simp
qed simp

lemma le_bytes_Suc: "le_bytes (Suc n) w = ucast w # le_bytes n (drop_bit 8 w)"
  unfolding le_bytes_def upt_conv_Cons [OF zero_less_Suc] map_Suc_upt [symmetric]
  by (simp add: o_def drop_bit_drop_bit add.commute)

lemma le_nat_le_bytes: "le_nat (le_bytes n (w :: 'a::len word)) = unat w mod 256 ^ n"
proof (induction n arbitrary: w)
  case 0
  then show ?case by (simp add: le_bytes_def)
next
  case (Suc n)
  have low: "unat (ucast w :: u8) = unat w mod 256"
    by (simp add: unsigned_ucast_eq take_bit_eq_mod)
  have high: "unat (drop_bit 8 w) = unat w div 256"
    by (simp add: unat_drop_bit_eq [of 8 w] drop_bit_eq_div [of 8 "unat w"])
  show ?case
    by (simp add: le_bytes_Suc Suc.IH low high mod_mult2_eq)
qed

lemma le_word_le_bytes:
  assumes "LENGTH('a) \<le> 8 * n"
  shows "le_word (le_bytes n (w :: 'a::len word)) = w"
proof -
  have "unat w < 2 ^ LENGTH('a)" by (rule unsigned_less)
  also have "\<dots> \<le> 2 ^ (8 * n)" using assms by simp
  also have "\<dots> = 256 ^ n" by (simp add: power_mult)
  finally show ?thesis by (simp add: le_word_def le_nat_le_bytes)
qed

lemma digit_inject:
  assumes "a < 256" "b < 256" "a + 256 * m = b + 256 * (n :: nat)"
  shows "a = b \<and> m = n"
proof -
  have "a = b"
    using assms(1,2) arg_cong [OF assms(3), of "\<lambda>x. x mod 256"] by simp
  with assms(3) show ?thesis by simp
qed

lemma le_nat_inject:
  "length xs = length ys \<Longrightarrow> le_nat xs = le_nat ys \<Longrightarrow> xs = ys"
proof (induction xs ys rule: list_induct2)
  case (Cons x xs y ys)
  have "unat x < 256" "unat y < 256" using unsigned_less [of x] unsigned_less [of y] by simp_all
  with Cons.prems digit_inject [of "unat x" "unat y" "le_nat xs" "le_nat ys"]
  have "unat x = unat y \<and> le_nat xs = le_nat ys" by simp
  with Cons.IH show ?case by (simp add: word_unat_eq_iff)
qed simp

lemma le_bytes_le_word:
  assumes "8 * length bs \<le> LENGTH('a)"
  shows "le_bytes (length bs) (le_word bs :: 'a::len word) = bs"
proof (rule le_nat_inject)
  have "le_nat bs < 256 ^ length bs" by (rule le_nat_bound)
  also have "(256 :: nat) ^ length bs = 2 ^ (8 * length bs)" by (simp add: power_mult)
  also have "\<dots> \<le> 2 ^ LENGTH('a)" using assms by simp
  finally have "unat (le_word bs :: 'a word) = le_nat bs"
    by (simp add: le_word_def unat_of_nat take_bit_nat_eq_self)
  then show "le_nat (le_bytes (length bs) (le_word bs :: 'a word)) = le_nat bs"
    using le_nat_bound [of bs] by (simp add: le_nat_le_bytes)
qed simp

lemma le_word_take: "length bs = n \<Longrightarrow> le_word (take n (bs @ cs)) = le_word bs"
  by simp

section \<open>Signed arithmetic\<close>

text \<open>
  Go's \<open>/\<close> on \<open>int64\<close> truncates towards zero, and the quotient of the least value by \<open>-1\<close> wraps
  to the least value; \<open>>>\<close> on \<open>int64\<close> is arithmetic, for every shift count.
\<close>

definition int_quot :: "int \<Rightarrow> int \<Rightarrow> int" where
  "int_quot x y = sgn x * sgn y * (\<bar>x\<bar> div \<bar>y\<bar>)"

definition sdiv64 :: "i64 \<Rightarrow> i64 \<Rightarrow> i64" where
  "sdiv64 a b = word_of_int (int_quot (sint a) (sint b))"

definition shift_count :: "u64 \<Rightarrow> nat" where
  "shift_count b = (if b < 64 then unat b else 64)"

lemma sdiv64_min: "sdiv64 (0x8000000000000000) (- 1) = 0x8000000000000000"
  by (simp add: sdiv64_def int_quot_def)

section \<open>Lookup by a key\<close>

lemma find_key_unique:
  assumes "distinct (filter P (map f xs))" "x \<in> set xs" "P (f x)"
  shows "find (\<lambda>y. f y = f x) xs = Some x"
  using assms
proof (induction xs)
  case (Cons a xs)
  show ?case
  proof (cases "f a = f x")
    case True
    with Cons.prems(1,3) have "f x \<notin> f ` set xs" by (simp add: image_iff)
    then have "x \<notin> set xs" by blast
    with True Cons.prems(2) show ?thesis by simp
  next
    case False
    with Cons.prems have "distinct (filter P (map f xs))" "x \<in> set xs"
      by (simp_all split: if_splits) auto
    with Cons.IH Cons.prems(3) False show ?thesis by simp
  qed
qed simp

lemma find_Some_iff_mem: "find P xs = Some x \<Longrightarrow> x \<in> set xs \<and> P x"
  by (induction xs) (auto split: if_splits)

end
