(* ===== verification/Effects.thy ===== *)
theory Effects
  imports Prelude
begin

text \<open>
  Go methods that change the state behind their receiver: state transformers that return a
  result together with the new state.  A returned error keeps the changes made so far.  The
  combinators are sequencing with Go's \<open>if err != nil { return err }\<close>, a call whose error the
  caller inspects or drops, and a \<open>range\<close> loop.  \<open>keeps\<close> is preservation of a state predicate on
  every branch, with one rule per combinator.
\<close>

type_synonym ('s, 'a) st = "'s \<Rightarrow> 'a res \<times> 's"

named_theorems keeps_intros "preservation rules of the combinators and operations"

definition mret :: "'a \<Rightarrow> ('s, 'a) st" where
  "mret x s = (Inr x, s)"

definition mfail :: "go_error \<Rightarrow> ('s, 'a) st" where
  "mfail e s = (Inl (Error e), s)"

definition mpanic :: "('s, 'a) st" where
  "mpanic s = (Inl Panic, s)"

definition mbind :: "('s, 'a) st \<Rightarrow> ('a \<Rightarrow> ('s, 'b) st) \<Rightarrow> ('s, 'b) st" where
  "mbind m f s = (case m s of (Inl e, s') \<Rightarrow> (Inl e, s') | (Inr x, s') \<Rightarrow> f x s')"

text \<open>A computation that only reads the state.\<close>

definition mget :: "('s \<Rightarrow> 'a res) \<Rightarrow> ('s, 'a) st" where
  "mget f s = (f s, s)"

definition mmodify :: "('s \<Rightarrow> 's) \<Rightarrow> ('s, unit) st" where
  "mmodify f s = (Inr (), f s)"

text \<open>A call whose error the caller looks at (or ignores); a panic still propagates.\<close>

definition mtry :: "('s, 'a) st \<Rightarrow> ('s, go_error + 'a) st" where
  "mtry m s = (case m s of
      (Inr x, s') \<Rightarrow> (Inr (Inr x), s')
    | (Inl (Error e), s') \<Rightarrow> (Inr (Inl e), s')
    | (Inl Panic, s') \<Rightarrow> (Inl Panic, s')
    | (Inl OutOfFuel, s') \<Rightarrow> (Inl OutOfFuel, s'))"

definition mdrop :: "('s, 'a) st \<Rightarrow> ('s, unit) st" where
  "mdrop m = mbind (mtry m) (\<lambda>_. mret ())"

fun mfor :: "'a list \<Rightarrow> ('a \<Rightarrow> ('s, unit) st) \<Rightarrow> ('s, unit) st" where
  "mfor [] f = mret ()"
| "mfor (x # xs) f = mbind (f x) (\<lambda>_. mfor xs f)"

lemma mbind_simps [simp]:
  "mbind (mret x) f = f x"
  "mbind (mfail e) f = mfail e"
  "mbind mpanic f = mpanic"
  by (auto simp: mbind_def mret_def mfail_def mpanic_def)

lemma mbind_cong [fundef_cong]:
  assumes "m s = m' s" "\<And>x s'. m' s = (Inr x, s') \<Longrightarrow> f x s' = f' x s'"  "s = t"
  shows "mbind m f s = mbind m' f' t"
  using assms by (auto simp: mbind_def split: prod.splits sum.splits)

lemma mbind_assoc: "mbind (mbind m f) g = mbind m (\<lambda>x. mbind (f x) g)"
  by (rule ext) (simp add: mbind_def split: prod.splits sum.splits)

lemma mbind_eq_Inr:
  "mbind m f s = (Inr y, t) \<longleftrightarrow> (\<exists>x s'. m s = (Inr x, s') \<and> f x s' = (Inr y, t))"
  by (auto simp: mbind_def split: prod.splits sum.splits)

lemma mtry_eq_Inr:
  "mtry m s = (Inr y, t) \<longleftrightarrow>
    (\<exists>x. y = Inr x \<and> m s = (Inr x, t)) \<or> (\<exists>e. y = Inl e \<and> m s = (Inl (Error e), t))"
  by (auto simp: mtry_def split: prod.splits sum.splits failure.splits)

lemma mret_eq [simp]: "mret x s = (r, t) \<longleftrightarrow> r = Inr x \<and> t = s"
  by (auto simp: mret_def)

lemma mfail_eq [simp]: "mfail e s = (r, t) \<longleftrightarrow> r = Inl (Error e) \<and> t = s"
  by (auto simp: mfail_def)

lemma mpanic_eq [simp]: "mpanic s = (r, t) \<longleftrightarrow> r = Inl Panic \<and> t = s"
  by (auto simp: mpanic_def)

lemma mget_eq [simp]: "mget f s = (r, t) \<longleftrightarrow> r = f s \<and> t = s"
  by (auto simp: mget_def)

lemma mmodify_eq [simp]: "mmodify f s = (r, t) \<longleftrightarrow> r = Inr () \<and> t = f s"
  by (auto simp: mmodify_def)

lemma mdrop_eq_Inr:
  "mdrop m s = (Inr u, t) \<longleftrightarrow> (\<exists>r. m s = (r, t) \<and> r \<noteq> Inl Panic \<and> r \<noteq> Inl OutOfFuel)"
  by (auto simp: mdrop_def mbind_def mtry_def mret_def
      split: prod.splits sum.splits failure.splits)

lemmas m_inv = mbind_eq_Inr mtry_eq_Inr mdrop_eq_Inr

lemmas m_defs = mbind_def mtry_def mdrop_def mret_def mfail_def mpanic_def mget_def mmodify_def

lemma mfor_append: "mfor (xs @ ys) f = mbind (mfor xs f) (\<lambda>_. mfor ys f)"
  by (induction xs) (simp_all add: mbind_assoc)

section \<open>Preservation\<close>

definition keeps :: "('s \<Rightarrow> bool) \<Rightarrow> ('s, 'a) st \<Rightarrow> bool" where
  "keeps P m \<longleftrightarrow> (\<forall>s. P s \<longrightarrow> P (snd (m s)))"

lemma keepsD: "keeps P m \<Longrightarrow> P s \<Longrightarrow> m s = (r, t) \<Longrightarrow> P t"
  by (metis keeps_def snd_conv)

lemma keepsI: "(\<And>s r t. P s \<Longrightarrow> m s = (r, t) \<Longrightarrow> P t) \<Longrightarrow> keeps P m"
  by (simp add: keeps_def) (metis prod.collapse)

text \<open>For an operation whose body looks at the state before it runs.\<close>

lemma keeps_at: "(\<And>s. P s \<Longrightarrow> P (snd (f s))) \<Longrightarrow> keeps P f"
  by (simp add: keeps_def)

lemma keeps_app: "keeps P m \<Longrightarrow> P s \<Longrightarrow> P (snd (m s))"
  by (simp add: keeps_def)

lemma keeps_basic [keeps_intros]:
  "keeps P (mret x)" "keeps P (mfail e)" "keeps P mpanic" "keeps P (mget g)"
  by (simp_all add: keeps_def m_defs)

lemma keeps_mmodify [keeps_intros]: "(\<And>s. P s \<Longrightarrow> P (f s)) \<Longrightarrow> keeps P (mmodify f)"
  by (simp add: keeps_def mmodify_def)

lemma keeps_mbind [keeps_intros]:
  "keeps P m \<Longrightarrow> (\<And>x. keeps P (f x)) \<Longrightarrow> keeps P (mbind m f)"
  by (fastforce simp: keeps_def mbind_def split: prod.splits sum.splits)

lemma keeps_mtry [keeps_intros]: "keeps P m \<Longrightarrow> keeps P (mtry m)"
  by (fastforce simp: keeps_def mtry_def split: prod.splits sum.splits failure.splits)

lemma keeps_mdrop [keeps_intros]: "keeps P m \<Longrightarrow> keeps P (mdrop m)"
  by (simp add: mdrop_def keeps_intros)

lemma keeps_mfor [keeps_intros]:
  "(\<And>x. x \<in> set xs \<Longrightarrow> keeps P (f x)) \<Longrightarrow> keeps P (mfor xs f)"
  by (induction xs) (auto intro!: keeps_intros)

lemma keeps_if [keeps_intros]:
  "(b \<Longrightarrow> keeps P m) \<Longrightarrow> (\<not> b \<Longrightarrow> keeps P n) \<Longrightarrow> keeps P (if b then m else n)"
  by simp

lemma keeps_option [keeps_intros]:
  "(m = None \<Longrightarrow> keeps P d) \<Longrightarrow> (\<And>x. m = Some x \<Longrightarrow> keeps P (f x)) \<Longrightarrow>
    keeps P (case m of None \<Rightarrow> d | Some x \<Rightarrow> f x)"
  by (cases m) simp_all

lemma keeps_sum [keeps_intros]:
  "(\<And>x. m = Inl x \<Longrightarrow> keeps P (f x)) \<Longrightarrow> (\<And>x. m = Inr x \<Longrightarrow> keeps P (g x)) \<Longrightarrow>
    keeps P (case m of Inl x \<Rightarrow> f x | Inr x \<Rightarrow> g x)"
  by (cases m) simp_all

lemma keeps_prod [keeps_intros]:
  "(\<And>a b. p = (a, b) \<Longrightarrow> keeps P (f a b)) \<Longrightarrow> keeps P (case p of (a, b) \<Rightarrow> f a b)"
  by (cases p) simp

end
