(* ===== verification/Stoppoints.thy ===== *)
theory Stoppoints
  imports Effects
begin

text \<open>
  The stoppoint records and their ordered collections: \<open>BreakpointSite\<close> and
  \<open>breakpointSiteCollection\<close> of \<open>src/debugger/breakpoint_site.go\<close>, \<open>Watchpoint\<close> and
  \<open>watchpointCollection\<close> of \<open>watchpoint.go\<close>, \<open>StoppointMode\<close> of \<open>stoppoint_mode.go\<close>.  The locale
  \<open>stoppoint_collection\<close> is the contract of an ordered collection keyed by id and address; both
  collections provide it, and the process relies on its lemmas.
\<close>

type_synonym i32 = "32 word"

section \<open>Records\<close>

datatype StoppointMode = StoppointModeExecute | StoppointModeWrite | StoppointModeReadWrite

text \<open>
  The back pointer \<open>proc\<close> is the process state that the operations take; \<open>onHit\<close> names an
  installed handler.
\<close>

record BreakpointSite =
  bp_id :: i32
  bp_pid :: int
  bp_address :: u64
  bp_isEnabled :: bool
  bp_savedData :: u8
  bp_isHardware :: bool
  bp_isInternal :: bool
  bp_hardwareRegisterIndex :: int
  bp_onHit :: "nat option"

record Watchpoint =
  wp_id :: i32
  wp_address :: u64
  wp_mode :: StoppointMode
  wp_size :: int
  wp_isEnabled :: bool
  wp_hardwareRegisterIndex :: int
  wp_data :: u64
  wp_previousData :: u64

definition InstallHitHandler :: "nat \<Rightarrow> BreakpointSite \<Rightarrow> BreakpointSite" where
  "InstallHitHandler h b = b\<lparr>bp_onHit := Some h\<rparr>"

definition AtAddress :: "BreakpointSite \<Rightarrow> u64 \<Rightarrow> bool" where
  "AtAddress b addr \<longleftrightarrow> bp_address b = addr"

definition InRange :: "BreakpointSite \<Rightarrow> u64 \<Rightarrow> u64 \<Rightarrow> bool" where
  "InRange b low high \<longleftrightarrow> low \<le> bp_address b \<and> bp_address b < high"

section \<open>Collections\<close>

fun remove_first :: "('a \<Rightarrow> bool) \<Rightarrow> 'a list \<Rightarrow> bool \<times> 'a list" where
  "remove_first P [] = (False, [])"
| "remove_first P (x # xs) =
     (if P x then (True, xs) else let (b, ys) = remove_first P xs in (b, x # ys))"

record breakpointSiteCollection =
  sites :: "BreakpointSite list"

definition site_push :: "BreakpointSite \<Rightarrow> breakpointSiteCollection \<Rightarrow> breakpointSiteCollection" where
  "site_push site c = c\<lparr>sites := sites c @ [site]\<rparr>"

definition containsID :: "breakpointSiteCollection \<Rightarrow> i32 \<Rightarrow> bool" where
  "containsID c i \<longleftrightarrow> list_ex (\<lambda>s. bp_id s = i) (sites c)"

definition containsAddress :: "breakpointSiteCollection \<Rightarrow> u64 \<Rightarrow> bool" where
  "containsAddress c addr \<longleftrightarrow> list_ex (\<lambda>s. bp_address s = addr) (sites c)"

definition enabledAtAddress :: "breakpointSiteCollection \<Rightarrow> u64 \<Rightarrow> BreakpointSite option" where
  "enabledAtAddress c addr = find (\<lambda>s. bp_address s = addr \<and> bp_isEnabled s) (sites c)"

definition enabledSoftwareAtAddress :: "breakpointSiteCollection \<Rightarrow> u64 \<Rightarrow> BreakpointSite option" where
  "enabledSoftwareAtAddress c addr =
     find (\<lambda>s. bp_address s = addr \<and> bp_isEnabled s \<and> \<not> bp_isHardware s) (sites c)"

definition getByID :: "breakpointSiteCollection \<Rightarrow> i32 \<Rightarrow> BreakpointSite option" where
  "getByID c i = find (\<lambda>s. bp_id s = i) (sites c)"

definition getByAddress :: "breakpointSiteCollection \<Rightarrow> u64 \<Rightarrow> BreakpointSite option" where
  "getByAddress c addr = find (\<lambda>s. bp_address s = addr) (sites c)"

definition removeByID :: "i32 \<Rightarrow> breakpointSiteCollection \<Rightarrow> bool \<times> breakpointSiteCollection" where
  "removeByID i c = (let (b, xs) = remove_first (\<lambda>s. bp_id s = i) (sites c) in (b, c\<lparr>sites := xs\<rparr>))"

definition removeByAddress :: "u64 \<Rightarrow> breakpointSiteCollection \<Rightarrow> bool \<times> breakpointSiteCollection" where
  "removeByAddress addr c =
     (let (b, xs) = remove_first (\<lambda>s. bp_address s = addr) (sites c) in (b, c\<lparr>sites := xs\<rparr>))"

definition getInRegion :: "breakpointSiteCollection \<Rightarrow> u64 \<Rightarrow> u64 \<Rightarrow> BreakpointSite list" where
  "getInRegion c low high =
     filter (\<lambda>s. bp_isEnabled s \<and> \<not> bp_isHardware s \<and> InRange s low high) (sites c)"

definition sites_size :: "breakpointSiteCollection \<Rightarrow> int" where
  "sites_size c = int (length (sites c))"

definition sites_empty :: "breakpointSiteCollection \<Rightarrow> bool" where
  "sites_empty c \<longleftrightarrow> length (sites c) = 0"

record watchpointCollection =
  points :: "Watchpoint list"

definition wp_push :: "Watchpoint \<Rightarrow> watchpointCollection \<Rightarrow> watchpointCollection" where
  "wp_push wp c = c\<lparr>points := points c @ [wp]\<rparr>"

definition wp_containsAddress :: "watchpointCollection \<Rightarrow> u64 \<Rightarrow> bool" where
  "wp_containsAddress c addr \<longleftrightarrow> list_ex (\<lambda>wp. wp_address wp = addr) (points c)"

definition wp_getByID :: "watchpointCollection \<Rightarrow> i32 \<Rightarrow> Watchpoint option" where
  "wp_getByID c i = find (\<lambda>wp. wp_id wp = i) (points c)"

definition wp_removeByID :: "i32 \<Rightarrow> watchpointCollection \<Rightarrow> bool \<times> watchpointCollection" where
  "wp_removeByID i c = (let (b, xs) = remove_first (\<lambda>wp. wp_id wp = i) (points c) in (b, c\<lparr>points := xs\<rparr>))"

definition points_size :: "watchpointCollection \<Rightarrow> int" where
  "points_size c = int (length (points c))"

section \<open>The contract of a collection\<close>

text \<open>
  \<open>elems\<close> is the order of insertion; a lookup by id returns the first element with that id, and
  a removal takes out exactly that element.
\<close>

locale stoppoint_collection =
  fixes elems :: "'c \<Rightarrow> 's list"
    and ident :: "'s \<Rightarrow> i32"
    and addr :: "'s \<Rightarrow> u64"
    and add :: "'s \<Rightarrow> 'c \<Rightarrow> 'c"
    and has_addr :: "'c \<Rightarrow> u64 \<Rightarrow> bool"
    and lookup :: "'c \<Rightarrow> i32 \<Rightarrow> 's option"
    and remove :: "i32 \<Rightarrow> 'c \<Rightarrow> bool \<times> 'c"
  assumes elems_add: "elems (add x c) = elems c @ [x]"
    and has_addr_iff: "has_addr c a \<longleftrightarrow> a \<in> addr ` set (elems c)"
    and lookup_Some: "lookup c i = Some x \<longleftrightarrow>
      (\<exists>xs ys. elems c = xs @ x # ys \<and> ident x = i \<and> (\<forall>y\<in>set xs. ident y \<noteq> i))"
    and remove_found: "elems c = xs @ x # ys \<Longrightarrow> ident x = i \<Longrightarrow> (\<forall>y\<in>set xs. ident y \<noteq> i) \<Longrightarrow>
      fst (remove i c) \<and> elems (snd (remove i c)) = xs @ ys"
    and remove_missing: "lookup c i = None \<Longrightarrow> \<not> fst (remove i c) \<and> elems (snd (remove i c)) = elems c"
begin

lemma lookup_mem: "lookup c i = Some x \<Longrightarrow> x \<in> set (elems c) \<and> ident x = i"
  by (auto simp: lookup_Some)

lemma lookup_None: "lookup c i = None \<longleftrightarrow> i \<notin> ident ` set (elems c)"
proof
  assume n: "lookup c i = None"
  show "i \<notin> ident ` set (elems c)"
  proof
    assume "i \<in> ident ` set (elems c)"
    then have "\<exists>x\<in>set (elems c). ident x = i" by auto
    then obtain xs x ys where "elems c = xs @ x # ys" "ident x = i" "\<forall>y\<in>set xs. ident y \<noteq> i"
      by (rule split_list_first_propE)
    then have "lookup c i = Some x" using lookup_Some by blast
    with n show False by simp
  qed
next
  assume "i \<notin> ident ` set (elems c)"
  then show "lookup c i = None" using lookup_mem by (cases "lookup c i") force+
qed

lemma remove_cases:
  obtains (missing) "lookup c i = None" "\<not> fst (remove i c)" "elems (snd (remove i c)) = elems c"
  | (found) x xs ys where "lookup c i = Some x" "ident x = i" "elems c = xs @ x # ys"
      "fst (remove i c)" "elems (snd (remove i c)) = xs @ ys"
proof (cases "lookup c i")
  case None
  then show ?thesis using remove_missing missing by blast
next
  case (Some x)
  then obtain xs ys where *: "elems c = xs @ x # ys" "ident x = i" "\<forall>y\<in>set xs. ident y \<noteq> i"
    using lookup_Some by blast
  from remove_found [OF *] Some * show ?thesis using found by blast
qed

definition addrs_distinct :: "'c \<Rightarrow> bool" where
  "addrs_distinct c \<longleftrightarrow> distinct (map addr (elems c))"

lemma add_distinct: "addrs_distinct c \<Longrightarrow> \<not> has_addr c (addr x) \<Longrightarrow> addrs_distinct (add x c)"
  by (auto simp: addrs_distinct_def elems_add has_addr_iff)

lemma remove_distinct: "addrs_distinct c \<Longrightarrow> addrs_distinct (snd (remove i c))"
  by (cases rule: remove_cases [of c i]) (auto simp: addrs_distinct_def)

lemma remove_subset: "set (elems (snd (remove i c))) \<subseteq> set (elems c)"
  by (cases rule: remove_cases [of c i]) auto

lemma remove_set:
  assumes "addrs_distinct c" "lookup c i = Some x"
  shows "set (elems (snd (remove i c))) = set (elems c) - {x}"
proof (cases rule: remove_cases [of c i])
  case (found y xs ys)
  then have "x \<notin> set xs \<and> x \<notin> set ys" using assms by (auto simp: addrs_distinct_def)
  with found assms show ?thesis by auto
qed (use assms in simp)

lemma lookup_add_fresh:
  assumes "i \<notin> ident ` set (elems c)" "ident x = i"
  shows "lookup (add x c) i = Some x"
proof -
  have "elems (add x c) = elems c @ x # []" by (simp add: elems_add)
  moreover have "\<forall>y\<in>set (elems c). ident y \<noteq> i" using assms(1) by blast
  ultimately show ?thesis using assms(2) unfolding lookup_Some by blast
qed

lemma lookup_add_other:
  assumes "lookup c i = Some y"
  shows "lookup (add x c) i = Some y"
proof -
  from assms obtain xs ys where *: "elems c = xs @ y # ys" "ident y = i" "\<forall>z\<in>set xs. ident z \<noteq> i"
    unfolding lookup_Some by blast
  then have "elems (add x c) = xs @ y # (ys @ [x])" using elems_add by simp
  with * show ?thesis unfolding lookup_Some by blast
qed

end

section \<open>The two collections provide the contract\<close>

lemma find_split:
  "find P xs = Some x \<longleftrightarrow> (\<exists>us vs. xs = us @ x # vs \<and> P x \<and> (\<forall>y\<in>set us. \<not> P y))"
proof
  assume "find P xs = Some x"
  then obtain i where i: "i < length xs" "P (xs ! i)" "x = xs ! i" "\<forall>j<i. \<not> P (xs ! j)"
    by (auto simp: find_Some_iff)
  then have "xs = take i xs @ x # drop (Suc i) xs" by (simp add: id_take_nth_drop)
  moreover have "\<forall>y\<in>set (take i xs). \<not> P y" using i by (auto simp: in_set_conv_nth)
  ultimately show "\<exists>us vs. xs = us @ x # vs \<and> P x \<and> (\<forall>y\<in>set us. \<not> P y)" using i by blast
next
  have "\<forall>y\<in>set us. \<not> P y \<Longrightarrow> P x \<Longrightarrow> find P (us @ x # vs) = Some x" for us vs
    by (induction us) auto
  then show "\<exists>us vs. xs = us @ x # vs \<and> P x \<and> (\<forall>y\<in>set us. \<not> P y) \<Longrightarrow> find P xs = Some x" by blast
qed

lemma remove_first_found: "\<forall>y\<in>set us. \<not> P y \<Longrightarrow> P x \<Longrightarrow> remove_first P (us @ x # vs) = (True, us @ vs)"
  by (induction us) auto

lemma remove_first_missing: "find P xs = None \<Longrightarrow> remove_first P xs = (False, xs)"
  by (induction xs) (auto split: if_splits)

interpretation bpc: stoppoint_collection sites bp_id bp_address site_push containsAddress getByID removeByID
  by unfold_locales
    (auto simp: site_push_def containsAddress_def list_ex_iff image_iff getByID_def find_split removeByID_def
      remove_first_found remove_first_missing split: prod.splits)

interpretation wpc: stoppoint_collection points wp_id wp_address wp_push wp_containsAddress wp_getByID wp_removeByID
  by unfold_locales
    (auto simp: wp_push_def wp_containsAddress_def list_ex_iff image_iff wp_getByID_def find_split
      wp_removeByID_def remove_first_found remove_first_missing split: prod.splits)

end
