(* ===== verification/Register_Info.thy ===== *)
theory Register_Info
  imports Prelude
begin

text \<open>
  The register table of \<open>src/debugger/register_info.go\<close>: every x86-64 register with its DWARF
  number and its window in the Linux \<open>struct user\<close>, in the order of the source, and the
  three lookups.  The facts proved of it (unique names and DWARF numbers, every window inside
  one of the three areas of the register cache) are what the rest of the debugger relies on.
\<close>

section \<open>The register table\<close>

datatype RegisterType =
  RegisterTypeGPR | RegisterTypeSubGPR | RegisterTypeFPR | RegisterTypeDR

datatype RegisterFormat =
  RegisterFormatUint | RegisterFormatDoubleFloat | RegisterFormatLongDouble | RegisterFormatVector

record RegisterInfo =
  ri_ID :: nat
  ri_Name :: string
  ri_DwarfID :: int
  ri_Size :: int
  ri_Offset :: int
  ri_Type :: RegisterType
  ri_Format :: RegisterFormat

text \<open>A literal of the table: the \<open>ID\<close> is zero until \<open>init\<close> sets it.\<close>

definition regInfo :: "string \<Rightarrow> int \<Rightarrow> int \<Rightarrow> int \<Rightarrow> RegisterType \<Rightarrow> RegisterFormat \<Rightarrow> RegisterInfo" where
  "regInfo name dwarf sz off ty fmt =
     \<lparr>ri_ID = 0, ri_Name = name, ri_DwarfID = dwarf, ri_Size = sz, ri_Offset = off,
      ri_Type = ty, ri_Format = fmt\<rparr>"

definition offR15 :: int where "offR15 = 0"
definition offR14 :: int where "offR14 = 8"
definition offR13 :: int where "offR13 = 16"
definition offR12 :: int where "offR12 = 24"
definition offRbp :: int where "offRbp = 32"
definition offRbx :: int where "offRbx = 40"
definition offR11 :: int where "offR11 = 48"
definition offR10 :: int where "offR10 = 56"
definition offR9 :: int where "offR9 = 64"
definition offR8 :: int where "offR8 = 72"
definition offRax :: int where "offRax = 80"
definition offRcx :: int where "offRcx = 88"
definition offRdx :: int where "offRdx = 96"
definition offRsi :: int where "offRsi = 104"
definition offRdi :: int where "offRdi = 112"
definition offOrigRax :: int where "offOrigRax = 120"
definition offRip :: int where "offRip = 128"
definition offCs :: int where "offCs = 136"
definition offEflags :: int where "offEflags = 144"
definition offRsp :: int where "offRsp = 152"
definition offSs :: int where "offSs = 160"
definition offFsBase :: int where "offFsBase = 168"
definition offGsBase :: int where "offGsBase = 176"
definition offDs :: int where "offDs = 184"
definition offEs :: int where "offEs = 192"
definition offFs :: int where "offFs = 200"
definition offGs :: int where "offGs = 208"
definition offFPR :: int where "offFPR = 224"
definition fprCwd :: int where "fprCwd = offFPR + 0"
definition fprSwd :: int where "fprSwd = offFPR + 2"
definition fprFtw :: int where "fprFtw = offFPR + 4"
definition fprFop :: int where "fprFop = offFPR + 6"
definition fprRip :: int where "fprRip = offFPR + 8"
definition fprRdp :: int where "fprRdp = offFPR + 16"
definition fprMxcsr :: int where "fprMxcsr = offFPR + 24"
definition fprMxcrMask :: int where "fprMxcrMask = offFPR + 28"
definition fprStSpace :: int where "fprStSpace = offFPR + 32"
definition fprXmmSpace :: int where "fprXmmSpace = offFPR + 160"
definition offDebugReg :: int where "offDebugReg = 848"

lemmas offset_defs =
  offR15_def offR14_def offR13_def offR12_def offRbp_def offRbx_def
  offR11_def offR10_def offR9_def offR8_def offRax_def offRcx_def
  offRdx_def offRsi_def offRdi_def offOrigRax_def offRip_def offCs_def
  offEflags_def offRsp_def offSs_def offFsBase_def offGsBase_def offDs_def
  offEs_def offFs_def offGs_def offFPR_def fprCwd_def fprSwd_def
  fprFtw_def fprFop_def fprRip_def fprRdp_def fprMxcsr_def fprMxcrMask_def
  fprStSpace_def fprXmmSpace_def offDebugReg_def

definition gprInfos :: "RegisterInfo list" where
  "gprInfos = [
     regInfo ''rax'' 0 8 offRax RegisterTypeGPR RegisterFormatUint,
     regInfo ''rdx'' 1 8 offRdx RegisterTypeGPR RegisterFormatUint,
     regInfo ''rcx'' 2 8 offRcx RegisterTypeGPR RegisterFormatUint,
     regInfo ''rbx'' 3 8 offRbx RegisterTypeGPR RegisterFormatUint,
     regInfo ''rsi'' 4 8 offRsi RegisterTypeGPR RegisterFormatUint,
     regInfo ''rdi'' 5 8 offRdi RegisterTypeGPR RegisterFormatUint,
     regInfo ''rbp'' 6 8 offRbp RegisterTypeGPR RegisterFormatUint,
     regInfo ''rsp'' 7 8 offRsp RegisterTypeGPR RegisterFormatUint,
     regInfo ''r8'' 8 8 offR8 RegisterTypeGPR RegisterFormatUint,
     regInfo ''r9'' 9 8 offR9 RegisterTypeGPR RegisterFormatUint,
     regInfo ''r10'' 10 8 offR10 RegisterTypeGPR RegisterFormatUint,
     regInfo ''r11'' 11 8 offR11 RegisterTypeGPR RegisterFormatUint,
     regInfo ''r12'' 12 8 offR12 RegisterTypeGPR RegisterFormatUint,
     regInfo ''r13'' 13 8 offR13 RegisterTypeGPR RegisterFormatUint,
     regInfo ''r14'' 14 8 offR14 RegisterTypeGPR RegisterFormatUint,
     regInfo ''r15'' 15 8 offR15 RegisterTypeGPR RegisterFormatUint,
     regInfo ''rip'' 16 8 offRip RegisterTypeGPR RegisterFormatUint,
     regInfo ''eflags'' 49 8 offEflags RegisterTypeGPR RegisterFormatUint,
     regInfo ''cs'' 51 8 offCs RegisterTypeGPR RegisterFormatUint,
     regInfo ''fs'' 54 8 offFs RegisterTypeGPR RegisterFormatUint,
     regInfo ''gs'' 55 8 offGs RegisterTypeGPR RegisterFormatUint,
     regInfo ''ss'' 52 8 offSs RegisterTypeGPR RegisterFormatUint,
     regInfo ''ds'' 53 8 offDs RegisterTypeGPR RegisterFormatUint,
     regInfo ''es'' 50 8 offEs RegisterTypeGPR RegisterFormatUint,
     regInfo ''orig_rax'' (-1) 8 offOrigRax RegisterTypeGPR RegisterFormatUint]"

definition sub32Infos :: "RegisterInfo list" where
  "sub32Infos = [
     regInfo ''eax'' (-1) 4 offRax RegisterTypeSubGPR RegisterFormatUint,
     regInfo ''edx'' (-1) 4 offRdx RegisterTypeSubGPR RegisterFormatUint,
     regInfo ''ecx'' (-1) 4 offRcx RegisterTypeSubGPR RegisterFormatUint,
     regInfo ''ebx'' (-1) 4 offRbx RegisterTypeSubGPR RegisterFormatUint,
     regInfo ''esi'' (-1) 4 offRsi RegisterTypeSubGPR RegisterFormatUint,
     regInfo ''edi'' (-1) 4 offRdi RegisterTypeSubGPR RegisterFormatUint,
     regInfo ''ebp'' (-1) 4 offRbp RegisterTypeSubGPR RegisterFormatUint,
     regInfo ''esp'' (-1) 4 offRsp RegisterTypeSubGPR RegisterFormatUint,
     regInfo ''r8d'' (-1) 4 offR8 RegisterTypeSubGPR RegisterFormatUint,
     regInfo ''r9d'' (-1) 4 offR9 RegisterTypeSubGPR RegisterFormatUint,
     regInfo ''r10d'' (-1) 4 offR10 RegisterTypeSubGPR RegisterFormatUint,
     regInfo ''r11d'' (-1) 4 offR11 RegisterTypeSubGPR RegisterFormatUint,
     regInfo ''r12d'' (-1) 4 offR12 RegisterTypeSubGPR RegisterFormatUint,
     regInfo ''r13d'' (-1) 4 offR13 RegisterTypeSubGPR RegisterFormatUint,
     regInfo ''r14d'' (-1) 4 offR14 RegisterTypeSubGPR RegisterFormatUint,
     regInfo ''r15d'' (-1) 4 offR15 RegisterTypeSubGPR RegisterFormatUint]"

definition sub16Infos :: "RegisterInfo list" where
  "sub16Infos = [
     regInfo ''ax'' (-1) 2 offRax RegisterTypeSubGPR RegisterFormatUint,
     regInfo ''dx'' (-1) 2 offRdx RegisterTypeSubGPR RegisterFormatUint,
     regInfo ''cx'' (-1) 2 offRcx RegisterTypeSubGPR RegisterFormatUint,
     regInfo ''bx'' (-1) 2 offRbx RegisterTypeSubGPR RegisterFormatUint,
     regInfo ''si'' (-1) 2 offRsi RegisterTypeSubGPR RegisterFormatUint,
     regInfo ''di'' (-1) 2 offRdi RegisterTypeSubGPR RegisterFormatUint,
     regInfo ''bp'' (-1) 2 offRbp RegisterTypeSubGPR RegisterFormatUint,
     regInfo ''sp'' (-1) 2 offRsp RegisterTypeSubGPR RegisterFormatUint,
     regInfo ''r8w'' (-1) 2 offR8 RegisterTypeSubGPR RegisterFormatUint,
     regInfo ''r9w'' (-1) 2 offR9 RegisterTypeSubGPR RegisterFormatUint,
     regInfo ''r10w'' (-1) 2 offR10 RegisterTypeSubGPR RegisterFormatUint,
     regInfo ''r11w'' (-1) 2 offR11 RegisterTypeSubGPR RegisterFormatUint,
     regInfo ''r12w'' (-1) 2 offR12 RegisterTypeSubGPR RegisterFormatUint,
     regInfo ''r13w'' (-1) 2 offR13 RegisterTypeSubGPR RegisterFormatUint,
     regInfo ''r14w'' (-1) 2 offR14 RegisterTypeSubGPR RegisterFormatUint,
     regInfo ''r15w'' (-1) 2 offR15 RegisterTypeSubGPR RegisterFormatUint]"

definition high8Infos :: "RegisterInfo list" where
  "high8Infos = [
     regInfo ''ah'' (-1) 1 (offRax + 1) RegisterTypeSubGPR RegisterFormatUint,
     regInfo ''bh'' (-1) 1 (offRbx + 1) RegisterTypeSubGPR RegisterFormatUint,
     regInfo ''ch'' (-1) 1 (offRcx + 1) RegisterTypeSubGPR RegisterFormatUint,
     regInfo ''dh'' (-1) 1 (offRdx + 1) RegisterTypeSubGPR RegisterFormatUint]"

definition low8Infos :: "RegisterInfo list" where
  "low8Infos = [
     regInfo ''al'' (-1) 1 offRax RegisterTypeSubGPR RegisterFormatUint,
     regInfo ''bl'' (-1) 1 offRbx RegisterTypeSubGPR RegisterFormatUint,
     regInfo ''cl'' (-1) 1 offRcx RegisterTypeSubGPR RegisterFormatUint,
     regInfo ''dl'' (-1) 1 offRdx RegisterTypeSubGPR RegisterFormatUint,
     regInfo ''sil'' (-1) 1 offRsi RegisterTypeSubGPR RegisterFormatUint,
     regInfo ''dil'' (-1) 1 offRdi RegisterTypeSubGPR RegisterFormatUint,
     regInfo ''bpl'' (-1) 1 offRbp RegisterTypeSubGPR RegisterFormatUint,
     regInfo ''spl'' (-1) 1 offRsp RegisterTypeSubGPR RegisterFormatUint,
     regInfo ''r8b'' (-1) 1 offR8 RegisterTypeSubGPR RegisterFormatUint,
     regInfo ''r9b'' (-1) 1 offR9 RegisterTypeSubGPR RegisterFormatUint,
     regInfo ''r10b'' (-1) 1 offR10 RegisterTypeSubGPR RegisterFormatUint,
     regInfo ''r11b'' (-1) 1 offR11 RegisterTypeSubGPR RegisterFormatUint,
     regInfo ''r12b'' (-1) 1 offR12 RegisterTypeSubGPR RegisterFormatUint,
     regInfo ''r13b'' (-1) 1 offR13 RegisterTypeSubGPR RegisterFormatUint,
     regInfo ''r14b'' (-1) 1 offR14 RegisterTypeSubGPR RegisterFormatUint,
     regInfo ''r15b'' (-1) 1 offR15 RegisterTypeSubGPR RegisterFormatUint]"

definition fpInfos :: "RegisterInfo list" where
  "fpInfos = [
     regInfo ''fcw'' 65 2 fprCwd RegisterTypeFPR RegisterFormatUint,
     regInfo ''fsw'' 66 2 fprSwd RegisterTypeFPR RegisterFormatUint,
     regInfo ''ftw'' (-1) 2 fprFtw RegisterTypeFPR RegisterFormatUint,
     regInfo ''fop'' (-1) 2 fprFop RegisterTypeFPR RegisterFormatUint,
     regInfo ''frip'' (-1) 8 fprRip RegisterTypeFPR RegisterFormatUint,
     regInfo ''frdp'' (-1) 8 fprRdp RegisterTypeFPR RegisterFormatUint,
     regInfo ''mxcsr'' 64 4 fprMxcsr RegisterTypeFPR RegisterFormatUint,
     regInfo ''mxcsrmask'' (-1) 4 fprMxcrMask RegisterTypeFPR RegisterFormatUint]"

definition stInfos :: "RegisterInfo list" where
  "stInfos = [
     regInfo ''st0'' 33 16 (fprStSpace + 0 * 16) RegisterTypeFPR RegisterFormatLongDouble,
     regInfo ''st1'' 34 16 (fprStSpace + 1 * 16) RegisterTypeFPR RegisterFormatLongDouble,
     regInfo ''st2'' 35 16 (fprStSpace + 2 * 16) RegisterTypeFPR RegisterFormatLongDouble,
     regInfo ''st3'' 36 16 (fprStSpace + 3 * 16) RegisterTypeFPR RegisterFormatLongDouble,
     regInfo ''st4'' 37 16 (fprStSpace + 4 * 16) RegisterTypeFPR RegisterFormatLongDouble,
     regInfo ''st5'' 38 16 (fprStSpace + 5 * 16) RegisterTypeFPR RegisterFormatLongDouble,
     regInfo ''st6'' 39 16 (fprStSpace + 6 * 16) RegisterTypeFPR RegisterFormatLongDouble,
     regInfo ''st7'' 40 16 (fprStSpace + 7 * 16) RegisterTypeFPR RegisterFormatLongDouble]"

definition mmInfos :: "RegisterInfo list" where
  "mmInfos = [
     regInfo ''mm0'' 41 8 (fprStSpace + 0 * 16) RegisterTypeFPR RegisterFormatVector,
     regInfo ''mm1'' 42 8 (fprStSpace + 1 * 16) RegisterTypeFPR RegisterFormatVector,
     regInfo ''mm2'' 43 8 (fprStSpace + 2 * 16) RegisterTypeFPR RegisterFormatVector,
     regInfo ''mm3'' 44 8 (fprStSpace + 3 * 16) RegisterTypeFPR RegisterFormatVector,
     regInfo ''mm4'' 45 8 (fprStSpace + 4 * 16) RegisterTypeFPR RegisterFormatVector,
     regInfo ''mm5'' 46 8 (fprStSpace + 5 * 16) RegisterTypeFPR RegisterFormatVector,
     regInfo ''mm6'' 47 8 (fprStSpace + 6 * 16) RegisterTypeFPR RegisterFormatVector,
     regInfo ''mm7'' 48 8 (fprStSpace + 7 * 16) RegisterTypeFPR RegisterFormatVector]"

definition xmmInfos :: "RegisterInfo list" where
  "xmmInfos = [
     regInfo ''xmm0'' 17 16 (fprXmmSpace + 0 * 16) RegisterTypeFPR RegisterFormatVector,
     regInfo ''xmm1'' 18 16 (fprXmmSpace + 1 * 16) RegisterTypeFPR RegisterFormatVector,
     regInfo ''xmm2'' 19 16 (fprXmmSpace + 2 * 16) RegisterTypeFPR RegisterFormatVector,
     regInfo ''xmm3'' 20 16 (fprXmmSpace + 3 * 16) RegisterTypeFPR RegisterFormatVector,
     regInfo ''xmm4'' 21 16 (fprXmmSpace + 4 * 16) RegisterTypeFPR RegisterFormatVector,
     regInfo ''xmm5'' 22 16 (fprXmmSpace + 5 * 16) RegisterTypeFPR RegisterFormatVector,
     regInfo ''xmm6'' 23 16 (fprXmmSpace + 6 * 16) RegisterTypeFPR RegisterFormatVector,
     regInfo ''xmm7'' 24 16 (fprXmmSpace + 7 * 16) RegisterTypeFPR RegisterFormatVector,
     regInfo ''xmm8'' 25 16 (fprXmmSpace + 8 * 16) RegisterTypeFPR RegisterFormatVector,
     regInfo ''xmm9'' 26 16 (fprXmmSpace + 9 * 16) RegisterTypeFPR RegisterFormatVector,
     regInfo ''xmm10'' 27 16 (fprXmmSpace + 10 * 16) RegisterTypeFPR RegisterFormatVector,
     regInfo ''xmm11'' 28 16 (fprXmmSpace + 11 * 16) RegisterTypeFPR RegisterFormatVector,
     regInfo ''xmm12'' 29 16 (fprXmmSpace + 12 * 16) RegisterTypeFPR RegisterFormatVector,
     regInfo ''xmm13'' 30 16 (fprXmmSpace + 13 * 16) RegisterTypeFPR RegisterFormatVector,
     regInfo ''xmm14'' 31 16 (fprXmmSpace + 14 * 16) RegisterTypeFPR RegisterFormatVector,
     regInfo ''xmm15'' 32 16 (fprXmmSpace + 15 * 16) RegisterTypeFPR RegisterFormatVector]"

definition drInfos :: "RegisterInfo list" where
  "drInfos = [
     regInfo ''dr0'' (-1) 8 (offDebugReg + 0 * 8) RegisterTypeDR RegisterFormatUint,
     regInfo ''dr1'' (-1) 8 (offDebugReg + 1 * 8) RegisterTypeDR RegisterFormatUint,
     regInfo ''dr2'' (-1) 8 (offDebugReg + 2 * 8) RegisterTypeDR RegisterFormatUint,
     regInfo ''dr3'' (-1) 8 (offDebugReg + 3 * 8) RegisterTypeDR RegisterFormatUint,
     regInfo ''dr4'' (-1) 8 (offDebugReg + 4 * 8) RegisterTypeDR RegisterFormatUint,
     regInfo ''dr5'' (-1) 8 (offDebugReg + 5 * 8) RegisterTypeDR RegisterFormatUint,
     regInfo ''dr6'' (-1) 8 (offDebugReg + 6 * 8) RegisterTypeDR RegisterFormatUint,
     regInfo ''dr7'' (-1) 8 (offDebugReg + 7 * 8) RegisterTypeDR RegisterFormatUint]"

text \<open>The table, and \<open>init\<close>, which numbers it.\<close>

definition registerTable :: "RegisterInfo list" where
  "registerTable =
     gprInfos @ sub32Infos @ sub16Infos @ high8Infos @ low8Infos @ fpInfos @ stInfos @ mmInfos
     @ xmmInfos @ drInfos"

definition registerInfos :: "RegisterInfo list" where
  "registerInfos = map2 (\<lambda>i info. info\<lparr>ri_ID := i\<rparr>) [0..<length registerTable] registerTable"

definition AllRegisterInfos :: "RegisterInfo list" where
  "AllRegisterInfos = registerInfos"

definition RegisterInfoByID :: "int \<Rightarrow> RegisterInfo option" where
  "RegisterInfoByID i =
     (if i < 0 \<or> int (length registerInfos) \<le> i then None else Some (registerInfos ! nat i))"

definition RegisterInfoByName :: "string \<Rightarrow> RegisterInfo option" where
  "RegisterInfoByName name = find (\<lambda>info. ri_Name info = name) registerInfos"

definition RegisterInfoByDwarf :: "int \<Rightarrow> RegisterInfo option" where
  "RegisterInfoByDwarf dwarfID =
     (if dwarfID < 0 then None else find (\<lambda>info. ri_DwarfID info = dwarfID) registerInfos)"

section \<open>Facts of the table\<close>

lemmas table_defs =
  registerTable_def gprInfos_def sub32Infos_def sub16Infos_def high8Infos_def low8Infos_def
  fpInfos_def stInfos_def mmInfos_def xmmInfos_def drInfos_def

text \<open>The three areas of the register cache, as \<open>bytesForOffset\<close> tells them apart.\<close>

datatype area = AreaGPR | AreaFPR | AreaDR

definition area_of :: "int \<Rightarrow> area" where
  "area_of off =
     (if off < 216 then AreaGPR else if offFPR \<le> off \<and> off < offFPR + 512 then AreaFPR else AreaDR)"

definition area_base :: "area \<Rightarrow> int" where
  "area_base a = (case a of AreaGPR \<Rightarrow> 0 | AreaFPR \<Rightarrow> offFPR | AreaDR \<Rightarrow> offDebugReg)"

definition area_size :: "area \<Rightarrow> int" where
  "area_size a = (case a of AreaGPR \<Rightarrow> 216 | AreaFPR \<Rightarrow> 512 | AreaDR \<Rightarrow> 64)"

definition in_area :: "int \<Rightarrow> int \<Rightarrow> bool" where
  "in_area off n \<longleftrightarrow>
     (let a = area_of off in area_base a \<le> off \<and> 0 \<le> n \<and> off + n \<le> area_base a + area_size a)"

text \<open>
  A well-formed entry: its window, and the eight bytes from its offset (which the unwinder
  writes), lie in one area; a register that is not in the floating-point area has its whole
  aligned word in the same area (\<open>Write\<close> pokes that word); the size fits the format.
\<close>

definition info_ok :: "RegisterInfo \<Rightarrow> bool" where
  "info_ok info \<longleftrightarrow>
     in_area (ri_Offset info) (ri_Size info) \<and> in_area (ri_Offset info) 8 \<and>
     (area_of (ri_Offset info) = AreaFPR \<longleftrightarrow> ri_Type info = RegisterTypeFPR) \<and>
     (ri_Type info \<noteq> RegisterTypeFPR \<longrightarrow>
        in_area (ri_Offset info - ri_Offset info mod 8) 8 \<and>
        area_of (ri_Offset info - ri_Offset info mod 8) = area_of (ri_Offset info) \<and>
        ri_Offset info mod 8 + ri_Size info \<le> 8) \<and>
     (case ri_Format info of
        RegisterFormatUint \<Rightarrow> ri_Size info \<in> {1, 2, 4, 8}
      | RegisterFormatDoubleFloat \<Rightarrow> ri_Size info = 8
      | RegisterFormatLongDouble \<Rightarrow> ri_Size info = 16
      | RegisterFormatVector \<Rightarrow> ri_Size info \<in> {8, 16})"

lemma length_registerTable: "length registerTable = 125"
  by (simp add: table_defs)

lemma length_registerInfos: "length registerInfos = 125"
  by (simp add: registerInfos_def length_registerTable)

lemma registerInfos_nth:
  "i < 125 \<Longrightarrow> registerInfos ! i = (registerTable ! i)\<lparr>ri_ID := i\<rparr>"
  by (simp add: registerInfos_def length_registerTable)

lemma info_ok_update [simp]: "info_ok (info\<lparr>ri_ID := i\<rparr>) = info_ok info"
  by (simp add: info_ok_def split: RegisterFormat.split)

lemma registerTable_ok: "list_all info_ok registerTable"
  by (simp add: table_defs info_ok_def in_area_def area_of_def area_base_def area_size_def
      regInfo_def offset_defs Let_def)

lemma registerInfos_ok: "info \<in> set registerInfos \<Longrightarrow> info_ok info"
  using registerTable_ok
  by (auto simp: in_set_conv_nth length_registerInfos registerInfos_nth list_all_length
      length_registerTable)

lemma registerTable_names: "distinct (map ri_Name registerTable)"
  by (simp add: table_defs regInfo_def)

lemma registerTable_dwarf: "distinct (filter (\<lambda>d. 0 \<le> d) (map ri_DwarfID registerTable))"
  by (simp add: table_defs regInfo_def)

lemma map_key_registerInfos:
  assumes "\<And>info i. f (info\<lparr>ri_ID := i\<rparr>) = f info"
  shows "map f registerInfos = map f registerTable"
  by (rule nth_equalityI) (auto simp: length_registerInfos length_registerTable registerInfos_nth assms)

lemma RegisterInfoByName_complete:
  "info \<in> set registerInfos \<Longrightarrow> RegisterInfoByName (ri_Name info) = Some info"
  unfolding RegisterInfoByName_def
  by (rule find_key_unique [where P = "\<lambda>_. True"])
    (simp_all add: map_key_registerInfos registerTable_names)

lemma RegisterInfoByDwarf_complete:
  "info \<in> set registerInfos \<Longrightarrow> 0 \<le> ri_DwarfID info \<Longrightarrow>
    RegisterInfoByDwarf (ri_DwarfID info) = Some info"
  unfolding RegisterInfoByDwarf_def
  by (simp, rule find_key_unique [where P = "\<lambda>d. 0 \<le> d"])
    (simp_all add: map_key_registerInfos registerTable_dwarf)

lemma RegisterInfoByName_sound:
  "RegisterInfoByName name = Some info \<Longrightarrow> info \<in> set registerInfos \<and> ri_Name info = name"
  unfolding RegisterInfoByName_def by (rule find_Some_iff_mem)

lemma RegisterInfoByDwarf_sound:
  "RegisterInfoByDwarf d = Some info \<Longrightarrow> info \<in> set registerInfos \<and> ri_DwarfID info = d \<and> 0 \<le> d"
  unfolding RegisterInfoByDwarf_def by (auto split: if_splits dest: find_Some_iff_mem)

lemma RegisterInfoByID_inverse:
  assumes "info \<in> set registerInfos"
  shows "RegisterInfoByID (int (ri_ID info)) = Some info"
proof -
  obtain i where "i < 125" "info = registerInfos ! i"
    using assms by (auto simp: in_set_conv_nth length_registerInfos)
  then show ?thesis
    by (simp add: RegisterInfoByID_def length_registerInfos registerInfos_nth)
qed

text \<open>The entries that the debugger looks up by name.\<close>

definition entry_at :: "nat \<Rightarrow> RegisterInfo" where
  "entry_at i = registerInfos ! i"

lemma entry_at_mem: "i < 125 \<Longrightarrow> entry_at i \<in> set registerInfos"
  by (simp add: entry_at_def length_registerInfos)

lemma entry_at_eq: "i < 125 \<Longrightarrow> entry_at i = (registerTable ! i)\<lparr>ri_ID := i\<rparr>"
  by (simp add: entry_at_def registerInfos_nth)

lemma byName:
  assumes "i < 125" "ri_Name (registerTable ! i) = name"
  shows "RegisterInfoByName name = Some (entry_at i)"
  using RegisterInfoByName_complete [OF entry_at_mem [OF assms(1)]] assms
  by (simp add: entry_at_eq)

lemma byDwarf:
  assumes "i < 125" "ri_DwarfID (registerTable ! i) = d" "0 \<le> d"
  shows "RegisterInfoByDwarf d = Some (entry_at i)"
  using RegisterInfoByDwarf_complete [OF entry_at_mem [OF assms(1)]] assms
  by (simp add: entry_at_eq)

definition ripInfo :: RegisterInfo where
  "ripInfo = (regInfo ''rip'' 16 8 128 RegisterTypeGPR RegisterFormatUint)\<lparr>ri_ID := 16\<rparr>"

definition rspInfo :: RegisterInfo where
  "rspInfo = (regInfo ''rsp'' 7 8 152 RegisterTypeGPR RegisterFormatUint)\<lparr>ri_ID := 7\<rparr>"

lemma entry_rip: "entry_at 16 = ripInfo"
  by (simp add: entry_at_eq ripInfo_def table_defs offset_defs)

lemma entry_rsp: "entry_at 7 = rspInfo"
  by (simp add: entry_at_eq rspInfo_def table_defs offset_defs)

lemma lookup_rip [simp]: "RegisterInfoByName ''rip'' = Some ripInfo" "RegisterInfoByDwarf 16 = Some ripInfo"
  using byName [of 16 "''rip''"] byDwarf [of 16 16]
  by (simp_all add: entry_rip) (simp_all add: table_defs regInfo_def)

lemma lookup_rsp [simp]: "RegisterInfoByName ''rsp'' = Some rspInfo" "RegisterInfoByDwarf 7 = Some rspInfo"
  using byName [of 7 "''rsp''"] byDwarf [of 7 7]
  by (simp_all add: entry_rsp) (simp_all add: table_defs regInfo_def)

text \<open>
  Every entry of the register table is found by its number, by its name and by
  its DWARF number (where it has one), and a lookup returns only entries that answer to the key.
\<close>

theorem register_lookup:
  assumes "info \<in> set registerInfos"
  shows "RegisterInfoByID (int (ri_ID info)) = Some info \<and>
    (\<forall>n. RegisterInfoByName n = Some info \<longleftrightarrow> n = ri_Name info) \<and>
    (\<forall>d. RegisterInfoByDwarf d = Some info \<longleftrightarrow> 0 \<le> d \<and> d = ri_DwarfID info)"
proof (intro conjI allI)
  show "RegisterInfoByID (int (ri_ID info)) = Some info" by (rule RegisterInfoByID_inverse [OF assms])
  show "RegisterInfoByName n = Some info \<longleftrightarrow> n = ri_Name info" for n
    using RegisterInfoByName_complete [OF assms] RegisterInfoByName_sound [of n info] by blast
  show "RegisterInfoByDwarf d = Some info \<longleftrightarrow> 0 \<le> d \<and> d = ri_DwarfID info" for d
    using RegisterInfoByDwarf_complete [OF assms] RegisterInfoByDwarf_sound [of d info] by blast
qed

theorem register_lookup_witness:
  "RegisterInfoByID 7 = Some rspInfo \<and> RegisterInfoByName ''rsp'' = Some rspInfo"
  using register_lookup [of rspInfo] entry_at_mem [of 7] entry_rsp
  by (simp add: rspInfo_def regInfo_def)

end
