(* ===== verification/Registers.thy ===== *)
theory Registers
  imports Register_Info "HOL-Library.Multiset"
begin

text \<open>
  The register cache of \<open>src/debugger/registers_linux.go\<close> (and \<open>cloneRegisters\<close>,
  \<open>writeRegisterValue\<close> of \<open>unwind.go\<close>).  The cache is three byte arrays with the layout of
  the Linux \<open>struct user\<close>; a register is a window of one of them, and sub-registers alias
  their parents.  The kernel's side of a write (\<open>PTRACE_POKEUSER\<close>, \<open>PTRACE_SETFPREGS\<close>) is a
  parameter.  The locale \<open>register_file\<close> states the laws of reading and writing windows; the
  stack unwinder relies on it for the independence of its register restores.
\<close>

unbundle bit_operations_syntax

section \<open>The cache\<close>

record Registers =
  g_pid :: int
  gprs :: "u8 list"      \<comment> \<open>\<open>syscall.PtraceRegs\<close>, 216 bytes\<close>
  fprs :: "u8 list"      \<comment> \<open>\<open>fpRegs\<close>, 512 bytes\<close>
  dregs :: "u8 list"     \<comment> \<open>\<open>[8]uint64\<close>, 64 bytes\<close>

definition regs_ok :: "Registers \<Rightarrow> bool" where
  "regs_ok r \<longleftrightarrow> length (gprs r) = 216 \<and> length (fprs r) = 512 \<and> length (dregs r) = 64"

definition backing :: "area \<Rightarrow> Registers \<Rightarrow> u8 list" where
  "backing a r = (case a of AreaGPR \<Rightarrow> gprs r | AreaFPR \<Rightarrow> fprs r | AreaDR \<Rightarrow> dregs r)"

definition set_backing :: "area \<Rightarrow> u8 list \<Rightarrow> Registers \<Rightarrow> Registers" where
  "set_backing a bs r =
     (case a of AreaGPR \<Rightarrow> r\<lparr>gprs := bs\<rparr> | AreaFPR \<Rightarrow> r\<lparr>fprs := bs\<rparr> | AreaDR \<Rightarrow> r\<lparr>dregs := bs\<rparr>)"

text \<open>
  \<open>bytesForOffset\<close> returns a slice of the backing array.  Reading through it is
  \<open>bytesForOffset\<close>; writing bytes through it is \<open>storeBytes\<close>.
\<close>

definition bytesForOffset :: "Registers \<Rightarrow> int \<Rightarrow> int \<Rightarrow> u8 list res" where
  "bytesForOffset r off n =
     (let a = area_of off; local = off - area_base a
      in go_slice (backing a r) local (local + n))"

definition storeBytes :: "Registers \<Rightarrow> int \<Rightarrow> u8 list \<Rightarrow> Registers res" where
  "storeBytes r off bs =
     (let a = area_of off; local = off - area_base a
      in rbind (go_slice (backing a r) local (local + int (length bs))) (\<lambda>_.
           Inr (set_backing a (overwrite (nat local) bs (backing a r)) r)))"

section \<open>Values\<close>

text \<open>The dynamic types that \<open>Read\<close> returns and \<open>Write\<close> accepts; a \<open>float64\<close> is its bit pattern.\<close>

datatype regval =
    VU8 u8 | VU16 u16 | VU32 u32 | VU64 u64
  | VI8 u8 | VI16 u16 | VI32 u32 | VI64 u64
  | VF64 u64
  | VB8 "u8 list" | VB16 "u8 list"
  | VNil

definition Read :: "Registers \<Rightarrow> RegisterInfo \<Rightarrow> regval res" where
  "Read r info =
     rbind (bytesForOffset r (ri_Offset info) (ri_Size info)) (\<lambda>raw.
       case ri_Format info of
          RegisterFormatUint \<Rightarrow> Inr
            (if ri_Size info = 1 then VU8 (raw ! 0)
             else if ri_Size info = 2 then VU16 (le_word raw)
             else if ri_Size info = 4 then VU32 (le_word raw)
             else if ri_Size info = 8 then VU64 (le_word raw)
             else VNil)
        | RegisterFormatDoubleFloat \<Rightarrow>
            (if length raw < 8 then Inl Panic else Inr (VF64 (le_word (take 8 raw))))
        | RegisterFormatLongDouble \<Rightarrow> Inr (VB16 (go_copy (replicate 16 0) raw))
        | RegisterFormatVector \<Rightarrow> Inr
            (if ri_Size info = 8 then VB8 (go_copy (replicate 8 0) raw)
             else VB16 (go_copy (replicate 16 0) raw)))"

definition ReadByID :: "Registers \<Rightarrow> int \<Rightarrow> regval res" where
  "ReadByID r i =
     (case RegisterInfoByID i of None \<Rightarrow> Inl (Error (UnknownRegister i)) | Some info \<Rightarrow> Read r info)"

text \<open>The type assertion \<open>regs.Read(info).(uint64)\<close>, which panics on any other type.\<close>

definition as_u64 :: "regval \<Rightarrow> u64 res" where
  "as_u64 v = (case v of VU64 w \<Rightarrow> Inr w | _ \<Rightarrow> Inl Panic)"

definition readRegisterUint64 :: "Registers \<Rightarrow> RegisterInfo \<Rightarrow> u64 res" where
  "readRegisterUint64 r info = rbind (Read r info) as_u64"

text \<open>\<open>encodeValue\<close>: the 16-byte buffer, or \<open>None\<close> for the negative return.\<close>

definition put64 :: "u64 \<Rightarrow> u8 list" where
  "put64 w = le_bytes 8 w @ replicate 8 0"

definition encodeValue :: "RegisterInfo \<Rightarrow> regval \<Rightarrow> u8 list option" where
  "encodeValue info val =
     (let n = ri_Size info in
      case val of
        VU8 v \<Rightarrow> if n < 1 then None else Some (put64 (ucast v))
      | VU16 v \<Rightarrow> if n < 2 then None else Some (put64 (ucast v))
      | VU32 v \<Rightarrow> if n < 4 then None else Some (put64 (ucast v))
      | VU64 v \<Rightarrow> if n < 8 then None else Some (put64 v)
      | VI8 v \<Rightarrow> if n < 1 then None else Some (put64 (scast v))
      | VI16 v \<Rightarrow> if n < 2 then None else Some (put64 (scast v))
      | VI32 v \<Rightarrow> if n < 4 then None else Some (put64 (scast v))
      | VI64 v \<Rightarrow> if n < 8 then None else Some (put64 v)
      | VF64 v \<Rightarrow>
          if ri_Format info = RegisterFormatDoubleFloat \<and> 8 \<le> n then Some (put64 v) else None
      | VB8 bs \<Rightarrow> if n < 8 then None else Some (go_copy (replicate 16 0) bs)
      | VB16 bs \<Rightarrow> if n < 16 then None else Some (go_copy (replicate 16 0) bs)
      | VNil \<Rightarrow> None)"

section \<open>Writing\<close>

text \<open>
  The kernel requests on a tracee's register area, as parameters over a kernel state: the
  \<open>ptrace\<close> wrappers of \<open>ptrace_linux.go\<close>, each with its result or \<open>None\<close> for an errno.
\<close>

record 'k user_ops =
  peekUser :: "int \<Rightarrow> int \<Rightarrow> 'k \<Rightarrow> u64 option"
  pokeUser :: "int \<Rightarrow> int \<Rightarrow> u64 \<Rightarrow> 'k \<Rightarrow> 'k option"
  getRegs :: "int \<Rightarrow> 'k \<Rightarrow> u8 list option"
  setRegs :: "int \<Rightarrow> u8 list \<Rightarrow> 'k \<Rightarrow> 'k option"
  getFPRegs :: "int \<Rightarrow> 'k \<Rightarrow> u8 list option"
  setFPRegs :: "int \<Rightarrow> u8 list \<Rightarrow> 'k \<Rightarrow> 'k option"

text \<open>
  \<open>readAll\<close> fills the three arrays in turn; a failure leaves what was read so far in place.
\<close>

fun readDebugRegs :: "'k user_ops \<Rightarrow> 'k \<Rightarrow> nat list \<Rightarrow> Registers \<Rightarrow> unit res \<times> Registers" where
  "readDebugRegs os k [] r = (Inr (), r)"
| "readDebugRegs os k (i # is) r =
     (case peekUser os (g_pid r) (offDebugReg + int i * 8) k of
        None \<Rightarrow> (Inl (Error PtraceFailed), r)
      | Some val \<Rightarrow> readDebugRegs os k is (r\<lparr>dregs := overwrite (i * 8) (le_bytes 8 val) (dregs r)\<rparr>))"

definition readAll :: "'k user_ops \<Rightarrow> 'k \<Rightarrow> Registers \<Rightarrow> unit res \<times> Registers" where
  "readAll os k r =
     (case getRegs os (g_pid r) k of
        None \<Rightarrow> (Inl (Error PtraceFailed), r)
      | Some g \<Rightarrow>
        (case getFPRegs os (g_pid r) k of
           None \<Rightarrow> (Inl (Error PtraceFailed), r\<lparr>gprs := g\<rparr>)
         | Some f \<Rightarrow> readDebugRegs os k [0..<8] (r\<lparr>gprs := g, fprs := f\<rparr>)))"

definition alignDown8 :: "int \<Rightarrow> int" where
  "alignDown8 off = off AND NOT 7"

text \<open>
  \<open>Write\<close> updates the cache first and then the tracee; a kernel error leaves the cache
  updated.  The result is the error, if any, with the new cache and kernel state.
\<close>

definition Write ::
  "'k user_ops \<Rightarrow> RegisterInfo \<Rightarrow> regval \<Rightarrow> Registers \<Rightarrow> 'k \<Rightarrow> unit res \<times> Registers \<times> 'k" where
  "Write os info val r k =
     (case encodeValue info val of
        None \<Rightarrow> (Inl (Error (RegisterTypeMismatch (ri_Name info))), r, k)
      | Some buf \<Rightarrow>
        (case rbind (go_slice buf 0 (ri_Size info)) (storeBytes r (ri_Offset info)) of
           Inl e \<Rightarrow> (Inl e, r, k)
         | Inr r' \<Rightarrow>
           if ri_Type info = RegisterTypeFPR then
             (case setFPRegs os (g_pid r') (fprs r') k of
                None \<Rightarrow> (Inl (Error PtraceFailed), r', k)
              | Some k' \<Rightarrow> (Inr (), r', k'))
           else
             (case bytesForOffset r' (alignDown8 (ri_Offset info)) 8 of
                Inl e \<Rightarrow> (Inl e, r', k)
              | Inr word \<Rightarrow>
                (case pokeUser os (g_pid r') (alignDown8 (ri_Offset info)) (le_word word) k of
                   None \<Rightarrow> (Inl (Error PtraceFailed), r', k)
                 | Some k' \<Rightarrow> (Inr (), r', k')))))"

definition WriteByID ::
  "'k user_ops \<Rightarrow> int \<Rightarrow> regval \<Rightarrow> Registers \<Rightarrow> 'k \<Rightarrow> unit res \<times> Registers \<times> 'k" where
  "WriteByID os i val r k =
     (case RegisterInfoByID i of
        None \<Rightarrow> (Inl (Error (UnknownRegister i)), r, k)
      | Some info \<Rightarrow> Write os info val r k)"

definition WriteFPRs :: "'k user_ops \<Rightarrow> Registers \<Rightarrow> 'k \<Rightarrow> unit res \<times> 'k" where
  "WriteFPRs os r k =
     (case setFPRegs os (g_pid r) (fprs r) k of
        None \<Rightarrow> (Inl (Error PtraceFailed), k) | Some k' \<Rightarrow> (Inr (), k'))"

definition WriteGPRs :: "'k user_ops \<Rightarrow> Registers \<Rightarrow> 'k \<Rightarrow> unit res \<times> 'k" where
  "WriteGPRs os r k =
     (case setRegs os (g_pid r) (gprs r) k of
        None \<Rightarrow> (Inl (Error PtraceFailed), k) | Some k' \<Rightarrow> (Inr (), k'))"

definition cloneRegisters :: "Registers \<Rightarrow> Registers" where
  "cloneRegisters src = \<lparr>g_pid = 0, gprs = gprs src, fprs = fprs src, dregs = dregs src\<rparr>"

definition writeRegisterValue :: "Registers \<Rightarrow> RegisterInfo \<Rightarrow> u64 \<Rightarrow> Registers res" where
  "writeRegisterValue r info val =
     rbind (bytesForOffset r (ri_Offset info) 8) (\<lambda>_. storeBytes r (ri_Offset info) (le_bytes 8 val))"

section \<open>Windows\<close>

lemma backing_set_backing [simp]:
  "backing a (set_backing a bs r) = bs"
  "a \<noteq> b \<Longrightarrow> backing a (set_backing b bs r) = backing a r"
  by (cases a; cases b; simp add: backing_def set_backing_def)+

lemma set_backing_set_backing:
  "set_backing a bs (set_backing a cs r) = set_backing a bs r"
  "a \<noteq> b \<Longrightarrow> set_backing a bs (set_backing b cs r) = set_backing b cs (set_backing a bs r)"
  by (cases a; cases b; simp add: set_backing_def)+

lemma length_backing: "regs_ok r \<Longrightarrow> int (length (backing a r)) = area_size a"
  by (cases a) (simp_all add: regs_ok_def backing_def area_size_def)

lemma regs_ok_set_backing:
  "regs_ok r \<Longrightarrow> length bs = length (backing a r) \<Longrightarrow> regs_ok (set_backing a bs r)"
  by (cases a) (simp_all add: regs_ok_def backing_def set_backing_def)

text \<open>The window of \<open>n\<close> bytes at \<open>off\<close>, as plain lists, when it lies in one area.\<close>

definition get_window :: "int \<Rightarrow> int \<Rightarrow> Registers \<Rightarrow> u8 list" where
  "get_window off n r = window (nat (off - area_base (area_of off))) (nat n) (backing (area_of off) r)"

definition put_window :: "int \<Rightarrow> u8 list \<Rightarrow> Registers \<Rightarrow> Registers" where
  "put_window off bs r =
     set_backing (area_of off)
       (overwrite (nat (off - area_base (area_of off))) bs (backing (area_of off) r)) r"

lemma in_areaD:
  assumes "regs_ok r" "in_area off n"
  shows "0 \<le> off - area_base (area_of off)" "0 \<le> n"
    and "off - area_base (area_of off) + n \<le> int (length (backing (area_of off) r))"
  using assms length_backing [OF assms(1), of "area_of off"] by (auto simp: in_area_def Let_def)

lemma in_area_nat:
  assumes "regs_ok r" "in_area off n"
  shows "nat (off - area_base (area_of off)) + nat n \<le> length (backing (area_of off) r)"
  using in_areaD [OF assms] by linarith

lemma bytesForOffset_window:
  assumes "regs_ok r" "in_area off n"
  shows "bytesForOffset r off n = Inr (get_window off n r)"
  using in_areaD [OF assms]
  by (simp add: bytesForOffset_def go_slice_def get_window_def window_def Let_def)

lemma storeBytes_window:
  assumes "regs_ok r" "in_area off (int (length bs))"
  shows "storeBytes r off bs = Inr (put_window off bs r)"
  using in_areaD [OF assms]
  by (simp add: storeBytes_def go_slice_def put_window_def Let_def)

lemma length_get_window:
  "regs_ok r \<Longrightarrow> in_area off n \<Longrightarrow> length (get_window off n r) = nat n"
  unfolding get_window_def by (rule length_window) (rule in_area_nat)

lemma regs_ok_put_window:
  assumes "regs_ok r" "in_area off (int (length bs))"
  shows "regs_ok (put_window off bs r)"
  unfolding put_window_def using assms in_area_nat [OF assms]
  by (intro regs_ok_set_backing) simp_all

lemma g_pid_put_window [simp]: "g_pid (put_window off bs r) = g_pid r"
  by (simp add: put_window_def set_backing_def split: area.split)

text \<open>Two windows are apart when no byte of one is a byte of the other.\<close>

definition apart :: "int \<Rightarrow> int \<Rightarrow> int \<Rightarrow> int \<Rightarrow> bool" where
  "apart off n off' n' \<longleftrightarrow> off + n \<le> off' \<or> off' + n' \<le> off"

lemma get_put_same:
  assumes "regs_ok r" "in_area off (int (length bs))"
  shows "get_window off (int (length bs)) (put_window off bs r) = bs"
  using in_area_nat [OF assms] by (simp add: get_window_def put_window_def window_overwrite_same)

lemma area_of_apart:
  assumes "in_area off n" "in_area off' n'" "apart off n off' n'" "area_of off = area_of off'"
  shows "nat (off - area_base (area_of off)) + nat n \<le> nat (off' - area_base (area_of off')) \<or>
    nat (off' - area_base (area_of off')) + nat n' \<le> nat (off - area_base (area_of off))"
  using assms by (auto simp: in_area_def apart_def Let_def nat_le_iff nat_add_distrib [symmetric])

lemma get_put_apart:
  assumes "regs_ok r" "in_area off (int (length bs))" "in_area off' n"
    and "apart off (int (length bs)) off' n"
  shows "get_window off' n (put_window off bs r) = get_window off' n r"
proof (cases "area_of off' = area_of off")
  case True
  have "window (nat (off' - area_base (area_of off))) (nat n)
      (overwrite (nat (off - area_base (area_of off))) bs (backing (area_of off) r)) =
    window (nat (off' - area_base (area_of off))) (nat n) (backing (area_of off) r)"
    using in_area_nat [OF assms(1,2)] in_area_nat [OF assms(1,3)] area_of_apart [OF assms(2,3,4)] True
    by (intro window_overwrite_disjoint) auto
  with True show ?thesis by (simp add: get_window_def put_window_def)
next
  case False
  then show ?thesis by (simp add: get_window_def put_window_def)
qed

lemma put_put_apart:
  assumes "regs_ok r" "in_area off (int (length bs))" "in_area off' (int (length cs))"
    and "apart off (int (length bs)) off' (int (length cs))"
  shows "put_window off' cs (put_window off bs r) = put_window off bs (put_window off' cs r)"
proof (cases "area_of off' = area_of off")
  case True
  have "overwrite (nat (off' - area_base (area_of off))) cs
      (overwrite (nat (off - area_base (area_of off))) bs (backing (area_of off) r)) =
    overwrite (nat (off - area_base (area_of off))) bs
      (overwrite (nat (off' - area_base (area_of off))) cs (backing (area_of off) r))"
    using in_area_nat [OF assms(1,2)] in_area_nat [OF assms(1,3)] area_of_apart [OF assms(2,3,4)] True
    by (intro overwrite_commute) auto
  with True show ?thesis by (simp add: put_window_def set_backing_set_backing)
next
  case False
  then have "area_of off \<noteq> area_of off'" by simp
  with False show ?thesis
    by (simp add: put_window_def set_backing_set_backing(2) [of "area_of off'" "area_of off"])
qed

section \<open>The contract of a register file\<close>

text \<open>
  What the unwinder relies on: restoring one register leaves the independent ones alone, so
  that a set of restores of independent registers may be done in any order (Go iterates over
  the rule map in no fixed order).
\<close>

locale register_file =
  fixes ok :: "'rf \<Rightarrow> bool"
    and valid :: "'r \<Rightarrow> bool"
    and get :: "'r \<Rightarrow> 'rf \<Rightarrow> u64"
    and put :: "'r \<Rightarrow> u64 \<Rightarrow> 'rf \<Rightarrow> 'rf"
    and indep :: "'r \<Rightarrow> 'r \<Rightarrow> bool"
  assumes ok_put: "ok s \<Longrightarrow> valid r \<Longrightarrow> ok (put r v s)"
    and get_put_own: "ok s \<Longrightarrow> valid r \<Longrightarrow> get r (put r v s) = v"
    and get_put_indep: "ok s \<Longrightarrow> valid r \<Longrightarrow> valid q \<Longrightarrow> indep r q \<Longrightarrow> get q (put r v s) = get q s"
    and put_put_indep: "ok s \<Longrightarrow> valid r \<Longrightarrow> valid q \<Longrightarrow> indep r q \<Longrightarrow>
      put q w (put r v s) = put r v (put q w s)"
begin

lemma ok_fold_put:
  "ok s \<Longrightarrow> (\<forall>(r, v)\<in>set ps. valid r) \<Longrightarrow> ok (fold (\<lambda>(r, v). put r v) ps s)"
  by (induction ps arbitrary: s) (auto simp: ok_put)

lemma get_fold_put_other:
  assumes "ok s" "valid q" "\<forall>(r, v)\<in>set ps. valid r \<and> indep r q"
  shows "get q (fold (\<lambda>(r, v). put r v) ps s) = get q s"
  using assms
proof (induction ps arbitrary: s)
  case (Cons p ps)
  obtain r v where p: "p = (r, v)" by (cases p)
  with Cons.prems have r: "valid r" "indep r q" by auto
  have "get q (fold (\<lambda>(r, v). put r v) ps (put r v s)) = get q (put r v s)"
    by (rule Cons.IH) (use Cons.prems r in \<open>auto simp: ok_put\<close>)
  with p r Cons.prems show ?case by (simp add: get_put_indep)
qed simp

lemma get_fold_put:
  assumes "ok s" "(q, w) \<in> set ps" "distinct (map fst ps)"
    and "\<forall>(r, v)\<in>set ps. valid r"
    and "\<forall>(r, v)\<in>set ps. \<forall>(r', v')\<in>set ps. r \<noteq> r' \<longrightarrow> indep r r'"
  shows "get q (fold (\<lambda>(r, v). put r v) ps s) = w"
  using assms
proof (induction ps arbitrary: s)
  case (Cons p ps)
  obtain r v where p: "p = (r, v)" by (cases p)
  have r: "valid r" using Cons.prems(4) p by simp
  show ?case
  proof (cases "(q, w) \<in> set ps")
    case True
    have "get q (fold (\<lambda>(r, v). put r v) ps (put r v s)) = w"
      by (rule Cons.IH [OF _ True]) (use Cons.prems r in \<open>auto simp: ok_put\<close>)
    with p show ?thesis by simp
  next
    case False
    with Cons.prems(2) p have q: "r = q" "v = w" by auto
    have "get q (fold (\<lambda>(r, v). put r v) ps (put q w s)) = get q (put q w s)"
    proof (rule get_fold_put_other)
      have "r' \<noteq> q" if "(r', v') \<in> set ps" for r' v'
        using that Cons.prems(3) p q by (auto simp: image_iff)
      with Cons.prems(4,5) p q show "\<forall>(r', v')\<in>set ps. valid r' \<and> indep r' q" by fastforce
    qed (use Cons.prems r q in \<open>auto simp: ok_put\<close>)
    with p q r Cons.prems(1) show ?thesis by (simp add: get_put_own)
  qed
qed simp

lemma fold_put_swap:
  assumes "ok s" "valid q" "\<forall>(r, v)\<in>set ps. valid r \<and> indep r q"
  shows "fold (\<lambda>(r, v). put r v) ps (put q w s) = put q w (fold (\<lambda>(r, v). put r v) ps s)"
  using assms
proof (induction ps arbitrary: s)
  case (Cons p ps)
  obtain r v where p: "p = (r, v)" by (cases p)
  with Cons.prems have r: "valid r" "indep r q" by auto
  have "fold (\<lambda>(r, v). put r v) ps (put q w (put r v s)) =
      put q w (fold (\<lambda>(r, v). put r v) ps (put r v s))"
    by (rule Cons.IH) (use Cons.prems r in \<open>auto simp: ok_put\<close>)
  with p r Cons.prems(1,2) show ?case by (simp add: put_put_indep [symmetric])
qed simp

lemma fold_put_perm:
  assumes "ok s" "mset ps = mset qs" "distinct (map fst ps)"
    and "\<forall>(r, v)\<in>set ps. valid r"
    and "\<forall>(r, v)\<in>set ps. \<forall>(r', v')\<in>set ps. r \<noteq> r' \<longrightarrow> indep r r'"
  shows "fold (\<lambda>(r, v). put r v) ps s = fold (\<lambda>(r, v). put r v) qs s"
  using assms
proof (induction ps arbitrary: qs s)
  case (Cons p ps)
  obtain r v where p: "p = (r, v)" by (cases p)
  obtain as bs where qs: "qs = as @ (r, v) # bs"
    using Cons.prems(2) p by (metis list.set_intros(1) mset_eq_setD split_list)
  have m: "mset ps = mset (as @ bs)" using Cons.prems(2) p qs by simp
  have sub: "set as \<subseteq> set ps" using mset_eq_setD [OF m] by auto
  have "r' \<noteq> r" if "(r', v') \<in> set ps" for r' v'
    using that Cons.prems(3) p by (auto simp: image_iff)
  with sub p Cons.prems(4,5) have as: "\<forall>(r', v')\<in>set as. valid r' \<and> indep r' r" by fastforce
  have "valid r" using Cons.prems(4) p by simp
  then have "fold (\<lambda>(r, v). put r v) ps (put r v s) = fold (\<lambda>(r, v). put r v) (as @ bs) (put r v s)"
    by (intro Cons.IH [OF _ m]) (use Cons.prems p in \<open>auto simp: ok_put\<close>)
  also have "\<dots> = fold (\<lambda>(r, v). put r v) bs (put r v (fold (\<lambda>(r, v). put r v) as s))"
    using fold_put_swap [OF Cons.prems(1) \<open>valid r\<close> as] by simp
  finally show ?case using p qs by simp
qed simp

end

text \<open>The register cache provides the contract, for the eight-byte restores of the unwinder.\<close>

definition get8 :: "RegisterInfo \<Rightarrow> Registers \<Rightarrow> u64" where
  "get8 info r = le_word (get_window (ri_Offset info) 8 r)"

definition put8 :: "RegisterInfo \<Rightarrow> u64 \<Rightarrow> Registers \<Rightarrow> Registers" where
  "put8 info v r = put_window (ri_Offset info) (le_bytes 8 v) r"

definition apart8 :: "RegisterInfo \<Rightarrow> RegisterInfo \<Rightarrow> bool" where
  "apart8 i j \<longleftrightarrow> apart (ri_Offset i) 8 (ri_Offset j) 8"

lemma info_ok_area8: "info_ok info \<Longrightarrow> in_area (ri_Offset info) 8"
  by (simp add: info_ok_def)

lemma info_ok_area: "info_ok info \<Longrightarrow> in_area (ri_Offset info) (ri_Size info)"
  by (simp add: info_ok_def)

interpretation rf: register_file regs_ok info_ok get8 put8 apart8
proof unfold_locales
  fix s r v assume "regs_ok s" "info_ok r"
  then show "regs_ok (put8 r v s)" "get8 r (put8 r v s) = v"
    using regs_ok_put_window [of s "ri_Offset r" "le_bytes 8 v"] info_ok_area8 [of r]
      get_put_same [of s "ri_Offset r" "le_bytes 8 v"]
    by (simp_all add: put8_def get8_def le_word_le_bytes)
next
  fix s r q v w assume "regs_ok s" "info_ok r" "info_ok q" "apart8 r q"
  then show "get8 q (put8 r v s) = get8 q s" "put8 q w (put8 r v s) = put8 r v (put8 q w s)"
    using get_put_apart [of s "ri_Offset r" "le_bytes 8 v" "ri_Offset q" 8]
      put_put_apart [of s "ri_Offset r" "le_bytes 8 v" "ri_Offset q" "le_bytes 8 w"]
    by (simp_all add: put8_def get8_def info_ok_area8 apart8_def)
qed

lemma writeRegisterValue_put8:
  "regs_ok r \<Longrightarrow> info_ok info \<Longrightarrow> writeRegisterValue r info v = Inr (put8 info v r)"
  by (simp add: writeRegisterValue_def bytesForOffset_window info_ok_area8 storeBytes_window put8_def)

lemma regs_ok_clone [simp]: "regs_ok (cloneRegisters r) = regs_ok r"
  by (simp add: regs_ok_def cloneRegisters_def)

section \<open>Reading and writing registers\<close>

lemma encodeValue_length: "encodeValue info v = Some buf \<Longrightarrow> length buf = 16"
  by (auto simp: encodeValue_def put64_def Let_def split: regval.splits if_splits)

lemma info_ok_size: "info_ok info \<Longrightarrow> 1 \<le> ri_Size info \<and> ri_Size info \<le> 16"
  by (auto simp: info_ok_def split: RegisterFormat.splits)

text \<open>What \<open>Read\<close> makes of the bytes of a register.\<close>

definition decode :: "RegisterInfo \<Rightarrow> u8 list \<Rightarrow> regval" where
  "decode info bs =
     (case ri_Format info of
        RegisterFormatUint \<Rightarrow>
          if ri_Size info = 1 then VU8 (bs ! 0) else if ri_Size info = 2 then VU16 (le_word bs)
          else if ri_Size info = 4 then VU32 (le_word bs) else VU64 (le_word bs)
      | RegisterFormatDoubleFloat \<Rightarrow> VF64 (le_word bs)
      | RegisterFormatLongDouble \<Rightarrow> VB16 bs
      | RegisterFormatVector \<Rightarrow> if ri_Size info = 8 then VB8 bs else VB16 bs)"

lemma go_copy_all: "length dst = length src \<Longrightarrow> go_copy dst src = src"
  by (simp add: go_copy_def)

lemma Read_decode:
  assumes "regs_ok r" "info_ok info"
  shows "Read r info = Inr (decode info (get_window (ri_Offset info) (ri_Size info) r))"
  using assms bytesForOffset_window [OF assms(1) info_ok_area [OF assms(2)]]
    length_get_window [OF assms(1) info_ok_area [OF assms(2)]]
  by (auto simp: Read_def decode_def go_copy_all info_ok_def split: RegisterFormat.splits)

lemma take_area:
  assumes "info_ok info" "length buf = 16"
  shows "int (length (take (nat (ri_Size info)) buf)) = ri_Size info"
  using info_ok_size [OF assms(1)] assms(2) by (auto simp: min_def)

lemma Write_cache:
  assumes "regs_ok r" "info_ok info" "encodeValue info v = Some buf"
    and "Write os info v r k = (res, r', k')"
  shows "r' = put_window (ri_Offset info) (take (nat (ri_Size info)) buf) r"
proof -
  let ?bs = "take (nat (ri_Size info)) buf"
  have len: "int (length ?bs) = ri_Size info"
    by (rule take_area [OF assms(2) encodeValue_length [OF assms(3)]])
  then have "storeBytes r (ri_Offset info) ?bs = Inr (put_window (ri_Offset info) ?bs r)"
    using storeBytes_window [OF assms(1)] info_ok_area [OF assms(2)] by simp
  moreover have "go_slice buf 0 (ri_Size info) = Inr ?bs"
    using encodeValue_length [OF assms(3)] info_ok_size [OF assms(2)] by (simp add: go_slice_def)
  ultimately show ?thesis
    using assms(3,4) by (auto simp: Write_def split: if_splits option.splits sum.splits)
qed

lemma Write_regs_ok:
  assumes "regs_ok r" "info_ok info" "Write os info v r k = (res, r', k')"
  shows "regs_ok r'"
proof (cases "encodeValue info v")
  case None
  with assms show ?thesis by (simp add: Write_def)
next
  case (Some buf)
  show ?thesis
    unfolding Write_cache [OF assms(1,2) Some assms(3)]
    using take_area [OF assms(2) encodeValue_length [OF Some]] info_ok_area [OF assms(2)] assms(1)
    by (intro regs_ok_put_window) simp_all
qed

text \<open>
  The 64-bit value an integer is widened to: unsigned integers zero-extended, signed ones
  sign-extended; and its width in bytes.
\<close>

definition widen :: "regval \<Rightarrow> u64 option" where
  "widen v =
     (case v of
        VU8 w \<Rightarrow> Some (ucast w) | VU16 w \<Rightarrow> Some (ucast w) | VU32 w \<Rightarrow> Some (ucast w) | VU64 w \<Rightarrow> Some w
      | VI8 w \<Rightarrow> Some (scast w) | VI16 w \<Rightarrow> Some (scast w) | VI32 w \<Rightarrow> Some (scast w) | VI64 w \<Rightarrow> Some w
      | _ \<Rightarrow> None)"

definition width :: "regval \<Rightarrow> int" where
  "width v =
     (case v of
        VU8 _ \<Rightarrow> 1 | VI8 _ \<Rightarrow> 1 | VU16 _ \<Rightarrow> 2 | VI16 _ \<Rightarrow> 2 | VU32 _ \<Rightarrow> 4 | VI32 _ \<Rightarrow> 4
      | VU64 _ \<Rightarrow> 8 | VI64 _ \<Rightarrow> 8 | VF64 _ \<Rightarrow> 8 | VB8 _ \<Rightarrow> 8 | VB16 _ \<Rightarrow> 16 | VNil \<Rightarrow> 0)"

definition truncate_to :: "int \<Rightarrow> u64 \<Rightarrow> regval" where
  "truncate_to n w =
     (if n = 1 then VU8 (ucast w) else if n = 2 then VU16 (ucast w)
      else if n = 4 then VU32 (ucast w) else VU64 w)"

lemma take_le_bytes: "n \<le> m \<Longrightarrow> take n (le_bytes m w) = le_bytes n w"
  by (simp add: le_bytes_def take_map)

lemma le_word_le_bytes_ucast:
  assumes "8 * n = LENGTH('b)"
  shows "(le_word (le_bytes n (w :: 'a::len word)) :: 'b::len word) = ucast w"
proof -
  have "(256 :: nat) ^ n = 2 ^ LENGTH('b)" by (simp add: power_mult assms [symmetric])
  then show ?thesis
    by (simp add: le_word_def le_nat_le_bytes word_unat_eq_iff unsigned_of_nat take_bit_eq_mod
        unsigned_ucast_eq)
qed

lemma encodeValue_widen:
  "widen v = Some w \<Longrightarrow>
     encodeValue info v = (if ri_Size info < width v then None else Some (put64 w))"
  by (auto simp: widen_def width_def encodeValue_def Let_def split: regval.splits)

lemma decode_widen:
  assumes "info_ok info" "ri_Format info = RegisterFormatUint"
  shows "decode info (take (nat (ri_Size info)) (put64 w)) = truncate_to (ri_Size info) w"
proof -
  have "ri_Size info \<in> {1, 2, 4, 8}" using assms by (simp add: info_ok_def)
  moreover have "le_bytes (Suc 0) w ! 0 = (ucast w :: u8)" by (simp add: le_bytes_def)
  ultimately show ?thesis
    using assms(2)
    by (auto simp: decode_def truncate_to_def put64_def take_le_bytes le_word_le_bytes_ucast)
qed

lemma Write_Read_decode:
  assumes "regs_ok r" "info_ok info" "encodeValue info v = Some buf"
    and "Write os info v r k = (res, r', k')"
  shows "Read r' info = Inr (decode info (take (nat (ri_Size info)) buf))"
proof -
  let ?bs = "take (nat (ri_Size info)) buf"
  have len: "int (length ?bs) = ri_Size info"
    by (rule take_area [OF assms(2) encodeValue_length [OF assms(3)]])
  then have "get_window (ri_Offset info) (ri_Size info) r' = ?bs"
    using get_put_same [OF assms(1), of "ri_Offset info" ?bs] info_ok_area [OF assms(2)]
    by (simp add: Write_cache [OF assms])
  then show ?thesis
    by (simp add: Read_decode [OF Write_regs_ok [OF assms(1,2,4)] assms(2)])
qed

text \<open>
  Writing an integer to an integer register of at least its width and reading
  the register back gives the integer, zero- or sign-extended to 64 bits and cut to the
  register's size, whatever the kernel answered.
\<close>

theorem write_read_int:
  assumes "regs_ok r" "info \<in> set registerInfos" "ri_Format info = RegisterFormatUint"
    and "widen v = Some w" "width v \<le> ri_Size info"
    and "Write os info v r k = (res, r', k')"
  shows "Read r' info = Inr (truncate_to (ri_Size info) w)"
  using Write_Read_decode [OF assms(1) registerInfos_ok [OF assms(2)] _ assms(6)] assms(3,4,5)
    encodeValue_widen [OF assms(4)] decode_widen [OF registerInfos_ok [OF assms(2)] assms(3)]
  by simp

definition zero_regs :: Registers where
  "zero_regs =
     \<lparr>g_pid = 1, gprs = replicate 216 0, fprs = replicate 512 0, dregs = replicate 64 0\<rparr>"

text \<open>
  A sample tracee whose register area is itself a register cache and whose requests all
  succeed; \<open>sample_view\<close> reads a kernel state that is not one as all zero.
\<close>

definition sample_view :: "Registers \<Rightarrow> Registers" where
  "sample_view k = (if regs_ok k \<and> g_pid k = 1 then k else zero_regs)"

definition sample_ops :: "Registers user_ops" where
  "sample_ops =
     \<lparr>peekUser = (\<lambda>pid off k. Some (le_word (get_window off 8 (sample_view k)))),
      pokeUser = (\<lambda>pid off w k. Some (put_window off (le_bytes 8 w) (sample_view k))),
      getRegs = (\<lambda>pid k. Some (gprs (sample_view k))),
      setRegs = (\<lambda>pid bs k. Some ((sample_view k)\<lparr>gprs := bs\<rparr>)),
      getFPRegs = (\<lambda>pid k. Some (fprs (sample_view k))),
      setFPRegs = (\<lambda>pid bs k. Some ((sample_view k)\<lparr>fprs := bs\<rparr>))\<rparr>"

lemma zero_regs_ok [simp]: "regs_ok zero_regs"
  by (simp add: regs_ok_def zero_regs_def)

lemma rip_mem [simp]: "ripInfo \<in> set registerInfos"
  using entry_at_mem [of 16] by (simp add: entry_rip)

theorem write_read_int_witness:
  "Read (fst (snd (Write sample_ops ripInfo (VI32 (- 2)) zero_regs zero_regs))) ripInfo =
     Inr (VU64 0xfffffffffffffffe)"
  using write_read_int [of zero_regs ripInfo "VI32 (- 2)" "- 2" sample_ops zero_regs
      "fst (Write sample_ops ripInfo (VI32 (- 2)) zero_regs zero_regs)"
      "fst (snd (Write sample_ops ripInfo (VI32 (- 2)) zero_regs zero_regs))"
      "snd (snd (Write sample_ops ripInfo (VI32 (- 2)) zero_regs zero_regs))"]
  by (simp add: widen_def width_def truncate_to_def) (simp add: ripInfo_def regInfo_def)

text \<open>
  A register write leaves the shape of the cache, the tracee's id and every
  register whose window is apart from the written one as they were, on every outcome.
\<close>

theorem write_frame:
  assumes "regs_ok r" "info \<in> set registerInfos" "other \<in> set registerInfos"
    and "apart (ri_Offset info) (ri_Size info) (ri_Offset other) (ri_Size other)"
    and "Write os info v r k = (res, r', k')"
  shows "regs_ok r' \<and> g_pid r' = g_pid r \<and> Read r' other = Read r other"
proof -
  note ok = registerInfos_ok [OF assms(2)] registerInfos_ok [OF assms(3)]
  have r': "regs_ok r'" by (rule Write_regs_ok [OF assms(1) ok(1) assms(5)])
  show ?thesis
  proof (cases "encodeValue info v")
    case None
    with assms r' show ?thesis by (simp add: Write_def)
  next
    case (Some buf)
    note c = Write_cache [OF assms(1) ok(1) Some assms(5)]
    have len: "int (length (take (nat (ri_Size info)) buf)) = ri_Size info"
      by (rule take_area [OF ok(1) encodeValue_length [OF Some]])
    have "get_window (ri_Offset other) (ri_Size other) r' =
        get_window (ri_Offset other) (ri_Size other) r"
      unfolding c using assms(4) info_ok_area [OF ok(1)] info_ok_area [OF ok(2)]
      by (intro get_put_apart [OF assms(1)]) (simp_all only: len)
    moreover have "g_pid r' = g_pid r" by (simp add: c)
    ultimately show ?thesis using r' by (simp add: Read_decode [OF _ ok(2)] assms(1))
  qed
qed

theorem write_frame_witness:
  "Read (fst (snd (Write sample_ops ripInfo (VU64 5) zero_regs zero_regs))) rspInfo =
     Read zero_regs rspInfo"
  using write_frame [of zero_regs ripInfo rspInfo sample_ops "VU64 5" zero_regs
      "fst (Write sample_ops ripInfo (VU64 5) zero_regs zero_regs)"
      "fst (snd (Write sample_ops ripInfo (VU64 5) zero_regs zero_regs))"
      "snd (snd (Write sample_ops ripInfo (VU64 5) zero_regs zero_regs))"]
    entry_at_mem [of 7]
  by (simp add: entry_rsp) (simp add: ripInfo_def rspInfo_def regInfo_def apart_def)

section \<open>The cache and the tracee\<close>

text \<open>
  What the requests do, from \<open>ptrace(2)\<close>, for a view \<open>view k\<close> of the register area of the tracee:
  \<open>PTRACE_PEEKUSER\<close> and \<open>PTRACE_POKEUSER\<close> transfer one word of it, the \<open>GETREGS\<close> and \<open>SETFPREGS\<close>
  families one of its parts.
\<close>

definition user_laws :: "'k user_ops \<Rightarrow> int \<Rightarrow> ('k \<Rightarrow> Registers) \<Rightarrow> bool" where
  "user_laws os pid view \<longleftrightarrow>
     (\<forall>k. regs_ok (view k) \<and> g_pid (view k) = pid) \<and>
     (\<forall>k off w. in_area off 8 \<longrightarrow> peekUser os pid off k = Some w \<longrightarrow>
        w = le_word (get_window off 8 (view k))) \<and>
     (\<forall>k k' off w. in_area off 8 \<longrightarrow> pokeUser os pid off w k = Some k' \<longrightarrow>
        view k' = put_window off (le_bytes 8 w) (view k)) \<and>
     (\<forall>k bs. getRegs os pid k = Some bs \<longrightarrow> bs = gprs (view k)) \<and>
     (\<forall>k bs. getFPRegs os pid k = Some bs \<longrightarrow> bs = fprs (view k)) \<and>
     (\<forall>k k' bs. length bs = 216 \<longrightarrow> setRegs os pid bs k = Some k' \<longrightarrow> view k' = (view k)\<lparr>gprs := bs\<rparr>) \<and>
     (\<forall>k k' bs. length bs = 512 \<longrightarrow> setFPRegs os pid bs k = Some k' \<longrightarrow> view k' = (view k)\<lparr>fprs := bs\<rparr>)"

lemma user_laws_dest:
  assumes "user_laws os pid view"
  shows "regs_ok (view k)" "g_pid (view k) = pid"
    and "in_area off 8 \<Longrightarrow> peekUser os pid off k = Some w \<Longrightarrow> w = le_word (get_window off 8 (view k))"
    and "in_area off 8 \<Longrightarrow> pokeUser os pid off w k = Some k' \<Longrightarrow>
      view k' = put_window off (le_bytes 8 w) (view k)"
    and "getRegs os pid k = Some bs \<Longrightarrow> bs = gprs (view k)"
    and "getFPRegs os pid k = Some bs \<Longrightarrow> bs = fprs (view k)"
    and "length bs = 512 \<Longrightarrow> setFPRegs os pid bs k = Some k' \<Longrightarrow> view k' = (view k)\<lparr>fprs := bs\<rparr>"
  using assms unfolding user_laws_def by blast+

lemma overwrite_inside:
  assumes "A \<le> off" "off + length bs \<le> A + n" "A + n \<le> length d"
  shows "overwrite A (window A n (overwrite off bs d)) d = overwrite off bs d"
  using assms by (intro nth_equalityI) (auto simp: overwrite_nth window_nth)

lemma put_window_inside:
  assumes "regs_ok r" "in_area A 8" "area_of A = area_of off" "A \<le> off"
    and "off + int (length bs) \<le> A + 8"
  shows "put_window A (get_window A 8 (put_window off bs r)) r = put_window off bs r"
proof -
  let ?d = "backing (area_of off) r" and ?b = "area_base (area_of off)"
  have 0: "0 \<le> A - ?b" using in_areaD(1) [OF assms(1,2)] assms(3) by simp
  have "overwrite (nat (A - ?b)) (window (nat (A - ?b)) 8 (overwrite (nat (off - ?b)) bs ?d)) ?d =
      overwrite (nat (off - ?b)) bs ?d"
    using in_area_nat [OF assms(1,2), unfolded assms(3)] assms(4,5) 0
    by (intro overwrite_inside; linarith)
  with assms(3) show ?thesis by (simp add: put_window_def get_window_def)
qed

lemma alignDown8_mod: "alignDown8 off = off - off mod 8"
proof -
  have "off AND NOT (mask 3) = push_bit 3 (drop_bit 3 off)"
    by (rule bit_eqI) (auto simp: bit_simps)
  then have "(off AND NOT 7) + take_bit 3 off = off"
    using bits_ident [of 3 off] by (simp add: mask_eq_exp_minus_1)
  then show ?thesis by (simp add: alignDown8_def take_bit_eq_mod)
qed

text \<open>
  C5 (refinement).  A register write that succeeds keeps the cache equal to the tracee's
  registers: the cache before and after is exactly the register area of the tracee.
\<close>

theorem write_coherent:
  assumes "user_laws os (g_pid r) view" "view k = r" "info \<in> set registerInfos"
    and "Write os info v r k = (Inr (), r', k')"
  shows "view k' = r'"
proof -
  note ok = registerInfos_ok [OF assms(3)]
  have r: "regs_ok r" using user_laws_dest(1) [OF assms(1), of k] assms(2) by simp
  obtain buf where buf: "encodeValue info v = Some buf"
    using assms(4) by (cases "encodeValue info v") (auto simp: Write_def)
  note c = Write_cache [OF r ok buf assms(4)]
  have r': "regs_ok r'" by (rule Write_regs_ok [OF r ok assms(4)])
  have len: "int (length (take (nat (ri_Size info)) buf)) = ri_Size info"
    by (rule take_area [OF ok encodeValue_length [OF buf]])
  have pid: "g_pid r' = g_pid r" by (simp add: c)
  show ?thesis
  proof (cases "ri_Type info = RegisterTypeFPR")
    case True
    then have "setFPRegs os (g_pid r') (fprs r') k = Some k'"
      using assms(4) buf by (auto simp: Write_def split: option.splits sum.splits)
    then have "view k' = r\<lparr>fprs := fprs r'\<rparr>"
      using user_laws_dest(7) [OF assms(1), of "fprs r'" k k'] pid assms(2) r'
      by (simp add: regs_ok_def)
    moreover have "area_of (ri_Offset info) = AreaFPR" using ok True by (simp add: info_ok_def)
    ultimately show ?thesis by (simp add: c put_window_def set_backing_def)
  next
    case False
    let ?A = "alignDown8 (ri_Offset info)"
    have A: "in_area ?A 8" "area_of ?A = area_of (ri_Offset info)" "?A \<le> ri_Offset info"
      "ri_Offset info + ri_Size info \<le> ?A + 8"
      using ok False by (auto simp: info_ok_def alignDown8_mod)
    note w = bytesForOffset_window [OF r' A(1)]
    have "pokeUser os (g_pid r') ?A (le_word (get_window ?A 8 r')) k = Some k'"
      using assms(4) buf False w by (auto simp: Write_def split: option.splits sum.splits)
    then have "view k' = put_window ?A (le_bytes 8 (le_word (get_window ?A 8 r') :: u64)) r"
      using user_laws_dest(4) [OF assms(1) A(1)] pid assms(2) by simp
    also have "le_bytes 8 (le_word (get_window ?A 8 r') :: u64) = get_window ?A 8 r'"
      using le_bytes_le_word [of "get_window ?A 8 r'", where 'a = 64] length_get_window [OF r' A(1)]
      by simp
    also have "put_window ?A (get_window ?A 8 r') r = r'"
      unfolding c using A by (intro put_window_inside [OF r]) (simp_all only: len)
    finally show ?thesis .
  qed
qed

lemma sample_view_ok [simp]: "regs_ok (sample_view k)" "g_pid (sample_view k) = 1"
  by (simp_all add: sample_view_def zero_regs_def regs_ok_def)

lemma sample_view_id: "regs_ok k \<Longrightarrow> g_pid k = 1 \<Longrightarrow> sample_view k = k"
  by (simp add: sample_view_def)

lemma sample_laws: "user_laws sample_ops 1 sample_view"
proof -
  have "sample_view (put_window off (le_bytes 8 w) (sample_view k)) =
      put_window off (le_bytes 8 w) (sample_view k)" if "in_area off 8" for off k and w :: u64
    using that by (intro sample_view_id regs_ok_put_window) simp_all
  moreover have "sample_view ((sample_view k)\<lparr>gprs := bs\<rparr>) = (sample_view k)\<lparr>gprs := bs\<rparr>"
    if "length bs = 216" for k bs
    using that sample_view_ok(1) [of k] by (intro sample_view_id) (simp_all add: regs_ok_def)
  moreover have "sample_view ((sample_view k)\<lparr>fprs := bs\<rparr>) = (sample_view k)\<lparr>fprs := bs\<rparr>"
    if "length bs = 512" for k bs
    using that sample_view_ok(1) [of k] by (intro sample_view_id) (simp_all add: regs_ok_def)
  ultimately show ?thesis by (auto simp: user_laws_def sample_ops_def)
qed

lemma zero_regs_view [simp]: "sample_view zero_regs = zero_regs" "g_pid zero_regs = 1"
  by (simp_all add: sample_view_def zero_regs_def)

lemma Write_gpr_sample:
  assumes "regs_ok r" "g_pid r = 1" "info_ok info" "ri_Size info = 8" "ri_Offset info mod 8 = 0"
    "ri_Type info \<noteq> RegisterTypeFPR"
  shows "Write sample_ops info (VU64 w) r r = (Inr (), put8 info w r, put8 info w r)"
proof -
  have ok: "regs_ok (put8 info w r)" by (rule rf.ok_put [OF assms(1,3)])
  have "go_slice (put64 w) 0 8 = Inr (le_bytes 8 w)" by (simp add: go_slice_def put64_def)
  moreover have "storeBytes r (ri_Offset info) (le_bytes 8 w) = Inr (put8 info w r)"
    using storeBytes_window [OF assms(1)] info_ok_area8 [OF assms(3)] by (simp add: put8_def)
  moreover have "get_window (ri_Offset info) 8 (put8 info w r) = le_bytes 8 w"
    using get_put_same [OF assms(1), of "ri_Offset info" "le_bytes 8 w"] info_ok_area8 [OF assms(3)]
    by (simp add: put8_def)
  ultimately show ?thesis
    using assms bytesForOffset_window [OF ok info_ok_area8 [OF assms(3)]]
    by (simp add: Write_def encodeValue_def alignDown8_mod sample_ops_def sample_view_id put8_def
        le_word_le_bytes)
qed

lemma rip_ok [simp]: "info_ok ripInfo"
  by (simp add: registerInfos_ok)

lemma ripInfo_fields [simp]:
  "ri_Size ripInfo = 8" "ri_Offset ripInfo = 128" "ri_Type ripInfo = RegisterTypeGPR"
  "ri_Format ripInfo = RegisterFormatUint"
  by (simp_all add: ripInfo_def regInfo_def)

theorem write_coherent_witness:
  "sample_view (put8 ripInfo 5 zero_regs) = put8 ripInfo 5 zero_regs"
  by (rule write_coherent [of sample_ops zero_regs sample_view zero_regs ripInfo "VU64 5"])
    (simp_all add: sample_laws Write_gpr_sample)

lemma windows_determine:
  assumes "length d = 64" "length e = 64" "\<forall>i<8. window (i * 8) 8 d = window (i * 8) 8 e"
  shows "d = e"
proof (rule nth_equalityI)
  fix j assume "j < length d"
  then have j: "j < 64" "j div 8 < 8" using assms(1) by auto
  have "window (j div 8 * 8) 8 d ! (j mod 8) = window (j div 8 * 8) 8 e ! (j mod 8)"
    using assms(3) j by simp
  moreover have "j div 8 * 8 + 8 \<le> 64" using j by simp
  ultimately show "d ! j = e ! j" using assms(1,2) by (simp add: window_nth)
qed (simp add: assms)

lemma get_window_debug:
  "i < 8 \<Longrightarrow> get_window (offDebugReg + int i * 8) 8 r = window (i * 8) 8 (dregs r)"
  "i < 8 \<Longrightarrow> in_area (offDebugReg + int i * 8) 8"
  by (simp_all add: get_window_def in_area_def area_of_def area_base_def area_size_def backing_def
      offset_defs Let_def nat_mult_distrib)

lemma readDebugRegs_view:
  assumes "user_laws os (g_pid r) view" "length (dregs r) = 64" "\<forall>i\<in>set is. i < 8"
    and "readDebugRegs os k is r = (Inr (), r')"
  shows "r' = r\<lparr>dregs := dregs r'\<rparr> \<and> length (dregs r') = 64 \<and>
    (\<forall>i<8. i \<in> set is \<or> window (i * 8) 8 (dregs r) = window (i * 8) 8 (dregs (view k)) \<longrightarrow>
       window (i * 8) 8 (dregs r') = window (i * 8) 8 (dregs (view k)))"
  using assms
proof (induction "is" arbitrary: r)
  case (Cons i "is")
  let ?w = "window (i * 8) 8 (dregs (view k))"
  let ?s = "r\<lparr>dregs := overwrite (i * 8) ?w (dregs r)\<rparr>"
  have i: "i < 8" "i * 8 + 8 \<le> 64" using Cons.prems(3) by auto
  have lw: "length ?w = 8"
    using user_laws_dest(1) [OF Cons.prems(1), of k] i by (simp add: regs_ok_def)
  obtain w where w: "peekUser os (g_pid r) (offDebugReg + int i * 8) k = Some w"
    using Cons.prems(4) by (auto split: option.splits)
  have "w = le_word ?w"
    using user_laws_dest(3) [OF Cons.prems(1) get_window_debug(2) [OF i(1)] w]
    by (simp add: get_window_debug i)
  then have "le_bytes 8 w = ?w" using le_bytes_le_word [of ?w, where 'a = 64] lw by simp
  with Cons.prems(4) w have rest: "readDebugRegs os k is ?s = (Inr (), r')" by simp
  have s: "length (dregs ?s) = 64" using Cons.prems(2) i lw by simp
  have keep: "window (j * 8) 8 (dregs ?s) = (if j = i then ?w else window (j * 8) 8 (dregs r))"
    if "j < 8" for j
  proof -
    have "j = i \<or> j * 8 + 8 \<le> i * 8 \<or> i * 8 + 8 \<le> j * 8" by arith
    with that i Cons.prems(2) lw window_overwrite_same [of "i * 8" ?w "dregs r"]
      window_overwrite_disjoint [of "i * 8" ?w "dregs r" "j * 8" 8] show ?thesis by auto
  qed
  note IH = Cons.IH [OF _ s _ rest]
  show ?case using IH Cons.prems(1,3) keep by (simp add: ball_Un)
qed auto

text \<open>
  \<open>readAll\<close>, when it succeeds, makes the cache equal to the tracee's registers,
  whatever the cache held before.
\<close>

theorem readAll_coherent:
  assumes "user_laws os (g_pid r) view" "regs_ok r" "readAll os k r = (Inr (), r')"
  shows "r' = view k"
proof -
  let ?v = "view k"
  let ?s = "r\<lparr>gprs := gprs ?v, fprs := fprs ?v\<rparr>"
  have rest: "readDebugRegs os k [0..<8] ?s = (Inr (), r')"
    using assms(3) user_laws_dest(5,6) [OF assms(1), of k]
    by (auto simp: readAll_def split: option.splits)
  have r': "r' = ?s\<lparr>dregs := dregs r'\<rparr>" "length (dregs r') = 64"
    "\<forall>i<8. window (i * 8) 8 (dregs r') = window (i * 8) 8 (dregs ?v)"
    using readDebugRegs_view [OF _ _ _ rest, of view] assms(1,2) by (simp_all add: regs_ok_def)
  have "dregs r' = dregs ?v"
    using user_laws_dest(1) [OF assms(1), of k] r'(2,3)
    by (intro windows_determine) (simp_all add: regs_ok_def)
  with r'(1) have "r' = ?s\<lparr>dregs := dregs ?v\<rparr>" by simp
  then show ?thesis using user_laws_dest(2) [OF assms(1), of k] by simp
qed

lemma readAll_sample: "readAll sample_ops k r = (Inr (), snd (readAll sample_ops k r))"
  by (simp add: readAll_def sample_ops_def upt_rec numeral_eq_Suc)

theorem readAll_coherent_witness:
  "snd (readAll sample_ops (put8 ripInfo 5 zero_regs) zero_regs) = put8 ripInfo 5 zero_regs"
  using readAll_coherent [of sample_ops zero_regs sample_view "put8 ripInfo 5 zero_regs"]
    readAll_sample [of "put8 ripInfo 5 zero_regs" zero_regs] rf.ok_put [of zero_regs ripInfo 5]
  by (simp add: sample_laws sample_view_id put8_def)

lemma take_drop_le_bytes:
  "d + n \<le> m \<Longrightarrow> take n (drop d (le_bytes m w)) = le_bytes n (drop_bit (8 * d) w)"
  by (rule nth_equalityI) (simp_all add: le_bytes_def drop_bit_drop_bit algebra_simps)

text \<open>
  A sub-register aliases its parent: it reads as the bits of the parent's
  64-bit value that its offset and size select (\<open>al\<close>, \<open>ah\<close>, \<open>ax\<close> and \<open>eax\<close> inside \<open>rax\<close>).
\<close>

theorem sub_register_alias:
  assumes "regs_ok r" "sub \<in> set registerInfos" "parent \<in> set registerInfos"
    and "ri_Format sub = RegisterFormatUint" "ri_Format parent = RegisterFormatUint" "ri_Size parent = 8"
    and "ri_Offset parent \<le> ri_Offset sub" "ri_Offset sub + ri_Size sub \<le> ri_Offset parent + 8"
    and "area_of (ri_Offset sub) = area_of (ri_Offset parent)"
    and "Read r parent = Inr (VU64 w)"
  shows "Read r sub =
    Inr (truncate_to (ri_Size sub) (drop_bit (8 * nat (ri_Offset sub - ri_Offset parent)) w))"
proof -
  note ok = registerInfos_ok [OF assms(2)] registerInfos_ok [OF assms(3)]
  let ?d = "nat (ri_Offset sub - ri_Offset parent)" and ?n = "nat (ri_Size sub)"
  have p: "get_window (ri_Offset parent) 8 r = le_bytes 8 w"
    using assms(5,6,10) le_bytes_le_word [of "get_window (ri_Offset parent) 8 r", where 'a = 64]
      length_get_window [OF assms(1) info_ok_area8 [OF ok(2)]]
    by (auto simp: Read_decode [OF assms(1) ok(2)] decode_def)
  have sub: "?d + ?n \<le> 8" using assms(7,8) info_ok_size [OF ok(1)] by simp
  have "get_window (ri_Offset sub) (ri_Size sub) r =
      take ?n (drop ?d (get_window (ri_Offset parent) 8 r))"
  proof -
    let ?b = "area_base (area_of (ri_Offset parent))"
    have "nat (ri_Offset sub - ?b) = ?d + nat (ri_Offset parent - ?b)"
      using assms(7) in_areaD(1) [OF assms(1) info_ok_area8 [OF ok(2)]] by linarith
    with assms(9) sub show ?thesis
      by (simp add: get_window_def window_def take_drop add.commute min_def)
  qed
  also have "\<dots> = le_bytes ?n (drop_bit (8 * ?d) w)"
    unfolding p using sub by (rule take_drop_le_bytes)
  also have "\<dots> = take ?n (put64 (drop_bit (8 * ?d) w))"
    using sub by (simp add: put64_def take_le_bytes)
  finally show ?thesis
    by (simp add: Read_decode [OF assms(1) ok(1)] decode_widen [OF ok(1) assms(4)])
qed

lemma entry_rax: "entry_at 0 = regInfo ''rax'' 0 8 80 RegisterTypeGPR RegisterFormatUint"
  by (simp add: entry_at_eq table_defs regInfo_def offset_defs)

lemma entry_ah: "entry_at 57 = (regInfo ''ah'' (-1) 1 81 RegisterTypeSubGPR RegisterFormatUint)\<lparr>ri_ID := 57\<rparr>"
  by (simp add: entry_at_eq table_defs offset_defs)

theorem sub_register_alias_witness:
  "Read (put8 (entry_at 0) 0x1234 zero_regs) (entry_at 57) = Inr (VU8 0x12)"
proof -
  have ok: "info_ok (entry_at 0)" "regs_ok (put8 (entry_at 0) 0x1234 zero_regs)"
    using rf.ok_put [of zero_regs "entry_at 0"] by (simp_all add: registerInfos_ok entry_at_mem)
  have "Read (put8 (entry_at 0) 0x1234 zero_regs) (entry_at 0) = Inr (VU64 0x1234)"
    using rf.get_put_own [of zero_regs "entry_at 0" "0x1234"] ok
    by (simp add: Read_decode) (simp add: decode_def get8_def entry_rax regInfo_def)
  from sub_register_alias [OF ok(2) entry_at_mem [of 57] entry_at_mem [of 0] _ _ _ _ _ _ this]
  show ?thesis
    by (simp add: entry_rax entry_ah regInfo_def area_of_def truncate_to_def drop_bit_eq_div)
qed

text \<open>The registers with DWARF numbers 0 to 16 are apart, so their restores are independent.\<close>

lemma gpr_offsets:
  "map (\<lambda>i. ri_Offset (registerTable ! i)) [0..<17] =
     [80, 96, 88, 40, 104, 112, 32, 152, 72, 64, 56, 48, 24, 16, 8, 0, 128]"
  by (simp add: table_defs regInfo_def offset_defs upt_rec numeral_eq_Suc)

lemma gpr_dwarf: "map (\<lambda>i. ri_DwarfID (registerTable ! i)) [0..<17] = map int [0..<17]"
  by (simp add: table_defs regInfo_def upt_rec numeral_eq_Suc)

lemma byDwarf_gpr:
  assumes "i < 17"
  shows "RegisterInfoByDwarf (int i) = Some (entry_at i)"
proof -
  have "ri_DwarfID (registerTable ! i) = int i"
    using arg_cong [OF gpr_dwarf, of "\<lambda>xs. xs ! i"] assms by simp
  then show ?thesis using assms by (intro byDwarf) simp_all
qed

lemma gpr_apart:
  assumes "i < 17" "j < 17" "i \<noteq> j"
  shows "apart8 (entry_at i) (entry_at j)"
proof -
  let ?os = "[80, 96, 88, 40, 104, 112, 32, 152, 72, 64, 56, 48, 24, 16, 8, 0, 128] :: int list"
  have o: "ri_Offset (entry_at i) = ?os ! i" if "i < 17" for i
    using arg_cong [OF gpr_offsets, of "\<lambda>xs. xs ! i"] that by (simp add: entry_at_eq)
  have "distinct ?os" by simp
  then have ne: "?os ! i \<noteq> ?os ! j" using assms by (simp add: nth_eq_iff_index_eq)
  have m: "?os ! i mod 8 = 0" if "i < 17" for i
  proof -
    have "list_all (\<lambda>x. x mod 8 = 0) ?os" by simp
    then show ?thesis using that unfolding list_all_length by simp
  qed
  show ?thesis
    unfolding apart8_def apart_def using o [OF assms(1)] o [OF assms(2)] ne m [OF assms(1)] m [OF assms(2)]
    by presburger
qed

lemma gpr_read:
  assumes "i < 17" "regs_ok r"
  shows "readRegisterUint64 r (entry_at i) = Inr (get8 (entry_at i) r)"
proof -
  have "list_all (\<lambda>i. ri_Size (registerTable ! i) = 8 \<and> ri_Format (registerTable ! i) = RegisterFormatUint) [0..<17]"
    by (simp add: table_defs regInfo_def upt_rec numeral_eq_Suc)
  then have "ri_Size (entry_at i) = 8" "ri_Format (entry_at i) = RegisterFormatUint"
    using assms(1) by (simp_all add: list_all_iff entry_at_eq)
  then show ?thesis
    using Read_decode [OF assms(2), of "entry_at i"] assms(1) registerInfos_ok [OF entry_at_mem, of i]
    by (simp add: readRegisterUint64_def decode_def as_u64_def get8_def)
qed

lemma get8_clone [simp]: "get8 info (cloneRegisters r) = get8 info r"
  by (simp add: get8_def get_window_def backing_def cloneRegisters_def split: area.split)

end
