(* ===== verification/Memory.thy ===== *)
theory Memory
  imports Prelude
begin

text \<open>
  The tracee's memory: \<open>processVMReadv\<close> of \<open>src/debugger/memory_linux.go\<close> with its splitting into
  page-bounded chunks, and \<open>ReadMemory\<close> and \<open>WriteMemory\<close> of \<open>process.go\<close>.  The kernel requests
  are parameters; \<open>mem_laws\<close> states what \<open>ptrace(2)\<close> and \<open>process_vm_readv(2)\<close> document of them,
  for a view of the kernel state as a map from addresses to bytes.
\<close>

unbundle bit_operations_syntax

section \<open>The kernel requests\<close>

text \<open>
  \<open>PTRACE_PEEKDATA\<close>, \<open>PTRACE_POKEDATA\<close> and \<open>process_vm_readv\<close> (for a list of remote chunks, the
  bytes transferred), each \<open>None\<close> for an errno.
\<close>

record 'k mem_ops =
  peekData :: "int \<Rightarrow> u64 \<Rightarrow> 'k \<Rightarrow> u64 option"
  pokeData :: "int \<Rightarrow> u64 \<Rightarrow> u64 \<Rightarrow> 'k \<Rightarrow> 'k option"
  vmReadv :: "int \<Rightarrow> (u64 \<times> u64) list \<Rightarrow> 'k \<Rightarrow> u8 list option"

section \<open>Reading\<close>

text \<open>The remote chunks: each ends at a page boundary or with the read.\<close>

lemma page_chunk_pos: "0 < (4096 :: u64) - cur mod 4096"
proof -
  have "unat (cur mod 4096) < 4096" by (simp add: unat_mod)
  then have "cur mod 4096 < 4096" by (simp add: word_less_nat_alt)
  then have "4096 - cur mod 4096 \<noteq> 0" by auto
  then show ?thesis by (simp add: word_gt_0)
qed

function remoteIov :: "u64 \<Rightarrow> u64 \<Rightarrow> (u64 \<times> u64) list" where
  "remoteIov cur remaining =
     (if remaining = 0 then []
      else let chunk = min (4096 - cur mod 4096) remaining
           in (cur, chunk) # remoteIov (cur + chunk) (remaining - chunk))"
  by pat_completeness auto
termination
proof (relation "measure (\<lambda>(cur, remaining). unat remaining)")
  fix cur remaining chunk :: u64
  assume r: "remaining \<noteq> 0" and c: "chunk = min (4096 - cur mod 4096) remaining"
  have "0 < chunk" "chunk \<le> remaining"
    using r c page_chunk_pos [of cur] by (simp_all add: min_def word_gt_0)
  then show "((cur + chunk, remaining - chunk), cur, remaining) \<in> measure (\<lambda>(cur, remaining). unat remaining)"
    by (simp add: unat_sub word_less_nat_alt word_le_nat_alt)
qed simp

declare remoteIov.simps [simp del]

text \<open>
  \<open>make([]byte, amount)\<close> panics on a negative amount and \<open>&buf[0]\<close> on an empty buffer; the
  result is the prefix of the buffer that the kernel filled.
\<close>

definition processVMReadv :: "'k mem_ops \<Rightarrow> int \<Rightarrow> u64 \<Rightarrow> int \<Rightarrow> 'k \<Rightarrow> u8 list res" where
  "processVMReadv ms pid addr amount k =
     (if amount \<le> 0 then Inl Panic
      else case vmReadv ms pid (remoteIov addr (word_of_int amount)) k of
             None \<Rightarrow> Inl (Error VMReadFailed) | Some bs \<Rightarrow> Inr bs)"

definition ReadMemory :: "'k mem_ops \<Rightarrow> int \<Rightarrow> u64 \<Rightarrow> int \<Rightarrow> 'k \<Rightarrow> u8 list res" where
  "ReadMemory ms pid addr amount k = processVMReadv ms pid addr amount k"

section \<open>Writing\<close>

definition word_align :: "u64 \<Rightarrow> u64" where
  "word_align a = a AND NOT 7"

lemma word_align_sub: "a - word_align a = a AND 7"
proof -
  have "a = (a AND NOT 7) + (a AND 7)"
    by (subst disjunctive_add) (auto simp: bit_simps intro!: bit_eqI)
  then show ?thesis unfolding word_align_def by (metis add_diff_cancel_left')
qed

lemma and_7_less: "unat (a AND 7 :: u64) < 8"
proof -
  have "a AND 7 = take_bit 3 a" by (simp add: take_bit_eq_mask mask_eq_exp_minus_1)
  then have "unat (a AND 7) = unat a mod 8" by (simp add: unsigned_take_bit_eq take_bit_eq_mod unat_mod)
  then show ?thesis by simp
qed

lemma byteOff_less: "unat (a - word_align a) < 8"
  by (simp add: word_align_sub and_7_less)

text \<open>
  The loop of \<open>WriteMemory\<close>: \<open>cur\<close> is \<open>addr + offset\<close> and \<open>bs\<close> the data from \<open>offset\<close> on.  An
  unaligned or short piece is merged into the word around it.
\<close>

function write_loop :: "'k mem_ops \<Rightarrow> int \<Rightarrow> u64 \<Rightarrow> u8 list \<Rightarrow> 'k \<Rightarrow> unit res \<times> 'k" where
  "write_loop ms pid cur bs k =
     (if bs = [] then (Inr (), k)
      else if cur \<noteq> word_align cur \<or> length bs < 8 then
        (case peekData ms pid (word_align cur) k of
           None \<Rightarrow> (Inl (Error PtraceFailed), k)
         | Some existing \<Rightarrow>
           (let byteOff = unat (cur - word_align cur); n = min (8 - byteOff) (length bs);
                word = overwrite byteOff (take n bs) (le_bytes 8 existing)
            in case pokeData ms pid (word_align cur) (le_word word) k of
                 None \<Rightarrow> (Inl (Error PtraceFailed), k)
               | Some k' \<Rightarrow> write_loop ms pid (cur + of_nat n) (drop n bs) k'))
      else
        (case pokeData ms pid cur (le_word (take 8 bs)) k of
           None \<Rightarrow> (Inl (Error PtraceFailed), k)
         | Some k' \<Rightarrow> write_loop ms pid (cur + 8) (drop 8 bs) k'))"
  by pat_completeness auto
termination
  by (relation "measure (\<lambda>(ms, pid, cur, bs, k). length bs)")
    (use byteOff_less in \<open>auto simp: Let_def min_def not_le intro: diff_less\<close>)

declare write_loop.simps [simp del]

definition WriteMemory :: "'k mem_ops \<Rightarrow> int \<Rightarrow> u64 \<Rightarrow> u8 list \<Rightarrow> 'k \<Rightarrow> unit res \<times> 'k" where
  "WriteMemory ms pid addr bs k = write_loop ms pid addr bs k"

section \<open>The laws of the kernel\<close>

definition bytes_at :: "(u64 \<Rightarrow> u8) \<Rightarrow> u64 \<Rightarrow> nat \<Rightarrow> u8 list" where
  "bytes_at m a n = map (\<lambda>i. m (a + of_nat i)) [0..<n]"

definition store :: "u64 \<Rightarrow> u8 list \<Rightarrow> (u64 \<Rightarrow> u8) \<Rightarrow> u64 \<Rightarrow> u8" where
  "store a bs m = (\<lambda>x. if unat (x - a) < length bs then bs ! unat (x - a) else m x)"

definition mem_laws :: "'k mem_ops \<Rightarrow> int \<Rightarrow> ('k \<Rightarrow> u64 \<Rightarrow> u8) \<Rightarrow> bool" where
  "mem_laws ms pid view \<longleftrightarrow>
     (\<forall>k a w. peekData ms pid a k = Some w \<longrightarrow> w = le_word (bytes_at (view k) a 8)) \<and>
     (\<forall>k a w k'. pokeData ms pid a w k = Some k' \<longrightarrow> view k' = store a (le_bytes 8 w) (view k)) \<and>
     (\<forall>k iov bs. vmReadv ms pid iov k = Some bs \<longrightarrow>
        (\<exists>n. bs = take n (concat (map (\<lambda>(a, len). bytes_at (view k) a (unat len)) iov))))"

lemma mem_laws_dest:
  assumes "mem_laws ms pid view"
  shows "peekData ms pid a k = Some w \<Longrightarrow> w = le_word (bytes_at (view k) a 8)"
    and "pokeData ms pid a w k = Some k' \<Longrightarrow> view k' = store a (le_bytes 8 w) (view k)"
    and "vmReadv ms pid iov k = Some bs \<Longrightarrow>
      \<exists>n. bs = take n (concat (map (\<lambda>(a, len). bytes_at (view k) a (unat len)) iov))"
  using assms unfolding mem_laws_def by blast+

section \<open>Byte ranges\<close>

lemma length_bytes_at [simp]: "length (bytes_at m a n) = n"
  by (simp add: bytes_at_def)

lemma bytes_at_nth [simp]: "i < n \<Longrightarrow> bytes_at m a n ! i = m (a + of_nat i)"
  by (simp add: bytes_at_def)

lemma bytes_at_append: "bytes_at m a (n + k) = bytes_at m a n @ bytes_at m (a + of_nat n) k"
proof (rule nth_equalityI)
  fix i assume i: "i < length (bytes_at m a (n + k))"
  show "bytes_at m a (n + k) ! i = (bytes_at m a n @ bytes_at m (a + of_nat n) k) ! i"
  proof (cases "i < n")
    case False
    then obtain j where "i = n + j" using le_Suc_ex not_less by blast
    with i show ?thesis by (simp add: nth_append add.assoc)
  qed (use i in \<open>simp add: nth_append\<close>)
qed simp

lemma le_bytes_bytes_at: "le_bytes 8 (le_word (bytes_at m a 8) :: u64) = bytes_at m a 8"
  using le_bytes_le_word [of "bytes_at m a 8", where 'a = 64] by simp

lemma in_range_shift:
  assumes "b + n \<le> 8"
  shows "unat (d - of_nat b :: u64) < n \<longleftrightarrow> b \<le> unat d \<and> unat d < b + n"
    and "b \<le> unat d \<Longrightarrow> unat (d - of_nat b :: u64) = unat d - b"
proof -
  have b: "unat (of_nat b :: u64) = b" using assms by (simp add: unat_of_nat take_bit_nat_eq_self)
  show "unat (d - of_nat b :: u64) < n \<longleftrightarrow> b \<le> unat d \<and> unat d < b + n"
    using assms by (auto simp: unat_sub_if' b)
  show "unat (d - of_nat b :: u64) = unat d - b" if "b \<le> unat d"
    using that by (simp add: unat_sub_if' b)
qed

lemma store_merge:
  assumes "length bs = n" "b + n \<le> 8"
  shows "store a (overwrite b bs (bytes_at m a 8)) m = store (a + of_nat b) bs m"
proof
  fix x
  have d: "x - (a + of_nat b) = (x - a) - of_nat b" by simp
  have m: "m (a + of_nat (unat (x - a))) = m x" by simp
  show "store a (overwrite b bs (bytes_at m a 8)) m x = store (a + of_nat b) bs m x"
  proof (cases "unat (x - a) < 8")
    case True
    then show ?thesis
      using assms m in_range_shift [OF assms(2), of "x - a"]
      by (auto simp: store_def d overwrite_nth)
  next
    case False
    then show ?thesis using assms in_range_shift(1) [OF assms(2), of "x - a"]
      by (simp add: store_def d)
  qed
qed

lemma store_append:
  assumes "length xs + length ys \<le> 2 ^ 64" "length xs \<le> 8"
  shows "store (a + of_nat (length xs)) ys (store a xs m) = store a (xs @ ys) m"
proof
  fix x
  let ?d = "x - a" and ?n = "length xs"
  have s: "x - (a + of_nat ?n) = ?d - of_nat ?n" by simp
  have n: "unat (of_nat ?n :: u64) = ?n" using assms(2) by (simp add: unat_of_nat take_bit_nat_eq_self)
  show "store (a + of_nat ?n) ys (store a xs m) x = store a (xs @ ys) m x"
  proof (cases "?n \<le> unat ?d")
    case True
    then have "unat (?d - of_nat ?n) = unat ?d - ?n" by (simp add: unat_sub_if' n)
    with True show ?thesis unfolding store_def s by (auto simp: nth_append)
  next
    case False
    then have "unat (?d - of_nat ?n) = unat ?d + 2 ^ 64 - ?n" by (simp add: unat_sub_if' n)
    with False assms(1) show ?thesis unfolding store_def s by (auto simp: nth_append)
  qed
qed

section \<open>Reads and writes against the view\<close>

lemma remoteIov_step:
  assumes "remaining \<noteq> 0" "chunk = min (4096 - cur mod 4096) (remaining :: u64)"
  shows "0 < unat chunk" "unat chunk \<le> unat remaining" "unat (cur mod 4096) + unat chunk \<le> 4096"
proof -
  have "0 < chunk" "chunk \<le> remaining"
    using assms page_chunk_pos [of cur] by (simp_all add: min_def word_gt_0)
  moreover have "chunk \<le> 4096 - cur mod 4096" using assms(2) min.cobounded1 by blast
  ultimately show "0 < unat chunk" "unat chunk \<le> unat remaining"
    by (simp_all add: word_less_nat_alt word_le_nat_alt)
  have m: "unat (cur mod 4096) < 4096" by (simp add: unat_mod)
  then have "unat (4096 - cur mod 4096) = 4096 - unat (cur mod 4096)" by (simp add: unat_sub_if')
  moreover have "chunk \<le> 4096 - cur mod 4096" using assms(2) min.cobounded1 by blast
  ultimately have "unat chunk \<le> 4096 - unat (cur mod 4096)" by (simp add: word_le_nat_alt)
  with m show "unat (cur mod 4096) + unat chunk \<le> 4096" by linarith
qed

lemma remoteIov_covers:
  "concat (map (\<lambda>(a, len). bytes_at m a (unat len)) (remoteIov cur remaining)) =
     bytes_at m cur (unat remaining) \<and>
   list_all (\<lambda>(a, len). 0 < unat len \<and> unat (a mod 4096) + unat len \<le> 4096) (remoteIov cur remaining)"
proof (induction cur remaining rule: remoteIov.induct)
  case (1 cur remaining)
  show ?case
  proof (cases "remaining = 0")
    case True
    then show ?thesis by (simp add: remoteIov.simps [of cur 0] bytes_at_def)
  next
    case False
    define chunk where "chunk = min (4096 - cur mod 4096) remaining"
    note step = remoteIov_step [OF False chunk_def]
    have "unat remaining = unat chunk + unat (remaining - chunk)"
      using step(2) by (simp add: unat_sub_if')
    then have "bytes_at m cur (unat remaining) =
        bytes_at m cur (unat chunk) @ bytes_at m (cur + chunk) (unat (remaining - chunk))"
      by (simp add: bytes_at_append)
    moreover have "remoteIov cur remaining = (cur, chunk) # remoteIov (cur + chunk) (remaining - chunk)"
      using False by (simp add: remoteIov.simps [of cur remaining] chunk_def Let_def)
    ultimately show ?thesis
      using "1.IH" [OF False chunk_def] step by simp
  qed
qed

lemma ReadMemory_bytes:
  assumes "mem_laws ms pid view" "ReadMemory ms pid addr amount k = Inr bs" "amount < 2 ^ 63"
  shows "bs = take (length bs) (bytes_at (view k) addr (nat amount))" "length bs \<le> nat amount"
proof -
  have amt: "unat (word_of_int amount :: u64) = nat amount" if "0 < amount"
    using assms(3) that by (simp add: unsigned_of_int take_bit_int_eq_self)
  from assms(2) have "0 < amount" and v: "vmReadv ms pid (remoteIov addr (word_of_int amount)) k = Some bs"
    by (auto simp: ReadMemory_def processVMReadv_def split: if_splits option.splits)
  then obtain n where "bs = take n (bytes_at (view k) addr (nat amount))"
    using mem_laws_dest(3) [OF assms(1) v] remoteIov_covers [of "view k" addr "word_of_int amount"]
    by (auto simp: amt)
  then show "bs = take (length bs) (bytes_at (view k) addr (nat amount))"
    by (metis append_eq_conv_conj append_take_drop_id)
  then show "length bs \<le> nat amount" by (metis length_bytes_at length_take min.cobounded1)
qed

text \<open>
  A successful \<open>ReadMemory\<close> returns a prefix of the tracee's bytes at the
  address, and no chunk it asks the kernel for is empty or crosses a page.  A short result is a
  success: a caller that indexes past it panics.
\<close>

theorem ReadMemory_prefix:
  assumes "mem_laws ms pid view" "ReadMemory ms pid addr amount k = Inr bs" "amount < 2 ^ 63"
  shows "bs = take (length bs) (bytes_at (view k) addr (nat amount)) \<and> length bs \<le> nat amount \<and>
    list_all (\<lambda>(a, len). 0 < unat len \<and> unat (a mod 4096) + unat len \<le> 4096)
      (remoteIov addr (word_of_int amount))"
  using ReadMemory_bytes [OF assms] remoteIov_covers by blast

lemma write_piece:
  assumes "mem_laws ms pid view" "peekData ms pid (word_align cur) k = Some existing"
    and "b = unat (cur - word_align cur)" "length ds \<le> 8 - b"
    and "pokeData ms pid (word_align cur) (le_word (overwrite b ds (le_bytes 8 existing))) k = Some k'"
  shows "view k' = store cur ds (view k)"
proof -
  have b: "b + length ds \<le> 8" using assms(3,4) byteOff_less [of cur] by simp
  have e: "le_bytes 8 existing = bytes_at (view k) (word_align cur) 8"
    using mem_laws_dest(1) [OF assms(1,2)] le_bytes_bytes_at by simp
  let ?w = "overwrite b ds (bytes_at (view k) (word_align cur) 8)"
  have "le_bytes 8 (le_word ?w :: u64) = ?w"
    using le_bytes_le_word [of ?w, where 'a = 64] b by simp
  then have "view k' = store (word_align cur) ?w (view k)"
    using mem_laws_dest(2) [OF assms(1,5)] e by simp
  also have "\<dots> = store (word_align cur + of_nat b) ds (view k)" by (rule store_merge [OF refl b])
  also have "word_align cur + of_nat b = cur" by (simp add: assms(3))
  finally show ?thesis .
qed

lemma write_full_word:
  assumes "mem_laws ms pid view" "8 \<le> length bs" "pokeData ms pid cur (le_word (take 8 bs)) k = Some k'"
  shows "view k' = store cur (take 8 bs) (view k)"
  using mem_laws_dest(2) [OF assms(1,3)] le_bytes_le_word [of "take 8 bs", where 'a = 64] assms(2) by simp

lemma store_take_drop:
  assumes "n \<le> 8" "n \<le> length bs" "length bs \<le> 2 ^ 64"
  shows "store (cur + of_nat n) (drop n bs) (store cur (take n bs) m) = store cur bs m"
  using store_append [of "take n bs" "drop n bs" cur m] assms by simp

lemma write_loop_view:
  assumes "mem_laws ms pid view"
  shows "write_loop ms pid cur bs k = (Inr (), k') \<Longrightarrow> length bs \<le> 2 ^ 64 \<Longrightarrow>
    view k' = store cur bs (view k)"
  using assms
proof (induction ms pid cur bs k rule: write_loop.induct)
  case (1 ms pid cur bs k)
  consider "bs = []" | "bs \<noteq> []" "cur \<noteq> word_align cur \<or> length bs < 8"
    | "bs \<noteq> []" "\<not> (cur \<noteq> word_align cur \<or> length bs < 8)" by blast
  then show ?case
  proof cases
    case a: 1
    then show ?thesis using "1.prems" by (simp add: write_loop.simps [of ms pid cur "[]"] store_def)
  next
    case a: 2
    let ?b = "unat (cur - word_align cur)"
    let ?n = "min (8 - ?b) (length bs)"
    from "1.prems" a obtain existing k1 where
      pk: "peekData ms pid (word_align cur) k = Some existing"
      and po: "pokeData ms pid (word_align cur)
        (le_word (overwrite ?b (take ?n bs) (le_bytes 8 existing))) k = Some k1"
      and rest: "write_loop ms pid (cur + of_nat ?n) (drop ?n bs) k1 = (Inr (), k')"
      by (subst (asm) write_loop.simps) (auto simp: Let_def split: option.splits)
    have "view k' = store (cur + of_nat ?n) (drop ?n bs) (view k1)"
      using "1.IH"(1) [OF a pk refl refl refl po rest] "1.prems" by simp
    also have "view k1 = store cur (take ?n bs) (view k)"
      by (rule write_piece [OF "1.prems"(3) pk refl _ po]) simp
    finally show ?thesis using store_take_drop "1.prems"(2) by simp
  next
    case a: 3
    from "1.prems" a obtain k1 where
      po: "pokeData ms pid cur (le_word (take 8 bs)) k = Some k1"
      and rest: "write_loop ms pid (cur + 8) (drop 8 bs) k1 = (Inr (), k')"
      by (subst (asm) write_loop.simps) (auto split: option.splits)
    have "view k' = store (cur + 8) (drop 8 bs) (view k1)"
      using "1.IH"(2) [OF a po rest] "1.prems" by simp
    also have "view k1 = store cur (take 8 bs) (view k)"
      using write_full_word [OF "1.prems"(3) _ po] a by simp
    finally show ?thesis using store_take_drop [of 8 bs cur] "1.prems"(2) a by simp
  qed
qed

text \<open>
  C22 (functional).  A successful \<open>WriteMemory\<close> changes exactly the bytes of the written range, at
  every address and length: the words at the two ends keep their other bytes.
\<close>

theorem WriteMemory_stores:
  assumes "mem_laws ms pid view" "WriteMemory ms pid addr bs k = (Inr (), k')" "length bs \<le> 2 ^ 64"
  shows "view k' = store addr bs (view k)"
  using write_loop_view [OF assms(1)] assms(2,3) by (simp add: WriteMemory_def)

section \<open>A concrete kernel\<close>

text \<open>The kernel state is the memory itself; a read of an unmapped range fails.\<close>

definition flat_ops :: "(u64 \<Rightarrow> bool) \<Rightarrow> (u64 \<Rightarrow> u8) mem_ops" where
  "flat_ops mapped =
     \<lparr>peekData = (\<lambda>pid a k. if list_all mapped (map (\<lambda>i. a + of_nat i) [0..<8])
                            then Some (le_word (bytes_at k a 8)) else None),
      pokeData = (\<lambda>pid a w k. if list_all mapped (map (\<lambda>i. a + of_nat i) [0..<8])
                              then Some (store a (le_bytes 8 w) k) else None),
      vmReadv = (\<lambda>pid iov k. Some (concat (map (\<lambda>(a, len). bytes_at k a (unat len))
                   (takeWhile (\<lambda>(a, len). mapped a) iov))))\<rparr>"

lemma flat_ops_laws: "mem_laws (flat_ops mapped) pid (\<lambda>k. k)"
proof -
  have "\<exists>n. concat (map f (takeWhile P xs)) = take n (concat (map f xs))" for f :: "'b \<Rightarrow> u8 list" and P xs
    by (metis append_eq_conv_conj concat_append map_append takeWhile_dropWhile_id)
  then show ?thesis by (auto simp: mem_laws_def flat_ops_def split: if_splits)
qed

lemma flat_read:
  assumes "0 < amount" "amount < 2 ^ 63" "list_all (\<lambda>(a, len). mapped a) (remoteIov addr (word_of_int amount))"
  shows "ReadMemory (flat_ops mapped) pid addr amount k = Inr (bytes_at k addr (nat amount))"
proof -
  have tw: "takeWhile (\<lambda>(a, len). mapped a) (remoteIov addr (word_of_int amount)) = remoteIov addr (word_of_int amount)"
    using assms(3) by (simp add: takeWhile_eq_all_conv list_all_iff)
  have "unat (word_of_int amount :: u64) = nat amount"
    using assms(1,2) by (simp add: unsigned_of_int take_bit_int_eq_self)
  then show ?thesis using assms(1) remoteIov_covers [of k addr "word_of_int amount"]
    by (simp add: ReadMemory_def processVMReadv_def flat_ops_def tw)
qed

definition code_page :: "u64 \<Rightarrow> u8" where
  "code_page a = ucast (a mod 251)"

definition one_page :: "u64 \<Rightarrow> bool" where
  "one_page a \<longleftrightarrow> 0x401000 \<le> a \<and> a < 0x402000"

text \<open>A read of 16 bytes that runs off the only mapped page returns the 8 bytes of that page.\<close>

lemma flat_short_read:
  "ReadMemory (flat_ops one_page) 7 0x401ff8 16 code_page = Inr (bytes_at code_page 0x401ff8 8)"
  by code_simp

theorem ReadMemory_prefix_witness:
  "bytes_at code_page 0x401ff8 8 = take 8 (bytes_at code_page 0x401ff8 16)"
  using ReadMemory_prefix [OF flat_ops_laws flat_short_read] by simp

lemma flat_write:
  "fst (WriteMemory (flat_ops one_page) 7 0x401005 [1, 2, 3, 4, 5, 6, 7, 8, 9, 10, 11, 12] code_page) = Inr ()"
  by code_simp

theorem WriteMemory_stores_witness:
  "snd (WriteMemory (flat_ops one_page) 7 0x401005 [1, 2, 3, 4, 5, 6, 7, 8, 9, 10, 11, 12] code_page) =
     store 0x401005 [1, 2, 3, 4, 5, 6, 7, 8, 9, 10, 11, 12] code_page"
proof -
  let ?bs = "[1, 2, 3, 4, 5, 6, 7, 8, 9, 10, 11, 12] :: u8 list"
  let ?w = "WriteMemory (flat_ops one_page) 7 0x401005 ?bs code_page"
  have "?w = (Inr (), snd ?w)" using flat_write by (rule prod_eqI [OF trans]) simp_all
  then show ?thesis by (rule WriteMemory_stores [OF flat_ops_laws]) simp
qed

end
