(* ===== verification/Process_State.thy ===== *)
theory Process_State
  imports Stoppoints Registers Memory "HOL-Library.AList"
begin

text \<open>
  The state of a traced process, \<open>Process\<close> and \<open>ThreadState\<close> of \<open>src/debugger/process.go\<close>, with
  the parsing of wait statuses, the syscall catch policy and the program counter operations.
  The thread map is an association list; the order in which Go ranges over it is a parameter,
  like the kernel.
\<close>

unbundle bit_operations_syntax

section \<open>States and stop reasons\<close>

datatype ProcessState = ProcessStopped | ProcessRunning | ProcessExited | ProcessTerminated

datatype TrapType =
  TrapSingleStep | TrapSoftwareBreak | TrapHardwareBreak | TrapSyscall | TrapClone | TrapUnknown

record SyscallInformation =
  si_ID :: u16
  si_Entry :: bool
  si_Args :: "u64 list"
  si_Ret :: i64

record StopReason =
  sr_Reason :: ProcessState
  sr_Info :: u8
  sr_TID :: int
  sr_TrapReason :: "TrapType option"
  sr_SyscallInfo :: "SyscallInformation option"

text \<open>The zero value, and the literals that leave the pointers nil.\<close>

definition stop :: "ProcessState \<Rightarrow> u8 \<Rightarrow> int \<Rightarrow> StopReason" where
  "stop st info tid = \<lparr>sr_Reason = st, sr_Info = info, sr_TID = tid, sr_TrapReason = None, sr_SyscallInfo = None\<rparr>"

abbreviation SIGTRAP :: u8 where "SIGTRAP \<equiv> 5"
abbreviation SIGSTOP :: u8 where "SIGSTOP \<equiv> 19"
abbreviation SIGKILL :: u8 where "SIGKILL \<equiv> 9"
abbreviation SIGCONT :: u8 where "SIGCONT \<equiv> 18"

definition ptraceEventClone :: u32 where "ptraceEventClone = 3"
definition ptraceOTraceSysGood :: u64 where "ptraceOTraceSysGood = 1"
definition ptraceOTraceClone :: u64 where "ptraceOTraceClone = 8"
definition wall :: u64 where "wall = 0x40000000"

text \<open>\<open>syscall.WaitStatus\<close> of the Go standard library on Linux.\<close>

definition ws_Exited :: "u32 \<Rightarrow> bool" where "ws_Exited w \<longleftrightarrow> w AND 0x7F = 0"
definition ws_Signaled :: "u32 \<Rightarrow> bool" where "ws_Signaled w \<longleftrightarrow> w AND 0x7F \<noteq> 0x7F \<and> w AND 0x7F \<noteq> 0"
definition ws_Stopped :: "u32 \<Rightarrow> bool" where "ws_Stopped w \<longleftrightarrow> w AND 0xFF = 0x7F"

definition newStopReason :: "int \<Rightarrow> u32 \<Rightarrow> StopReason" where
  "newStopReason tid ws =
     (if ws_Stopped ws \<and> drop_bit 8 ws = 5 OR push_bit 8 ptraceEventClone then
        (stop ProcessStopped SIGTRAP tid)\<lparr>sr_TrapReason := Some TrapClone\<rparr>
      else if ws_Exited ws then stop ProcessExited (ucast (drop_bit 8 ws AND 0xFF)) tid
      else if ws_Signaled ws then stop ProcessTerminated (ucast (ws AND 0x7F)) tid
      else if ws_Stopped ws then stop ProcessStopped (ucast (drop_bit 8 ws AND 0xFF)) tid
      else stop ProcessStopped 0 tid)"

section \<open>Syscall catch policies\<close>

record SyscallCatchPolicy =
  cp_mode :: int
  cp_toCatch :: "int list"

definition CatchNoSyscalls :: SyscallCatchPolicy where
  "CatchNoSyscalls = \<lparr>cp_mode = 0, cp_toCatch = []\<rparr>"

definition CatchAllSyscalls :: SyscallCatchPolicy where
  "CatchAllSyscalls = \<lparr>cp_mode = 2, cp_toCatch = []\<rparr>"

definition CatchSomeSyscalls :: "int list \<Rightarrow> SyscallCatchPolicy" where
  "CatchSomeSyscalls ids = \<lparr>cp_mode = 1, cp_toCatch = ids\<rparr>"

definition IsNone :: "SyscallCatchPolicy \<Rightarrow> bool" where
  "IsNone s \<longleftrightarrow> cp_mode s = 0"

definition policy_contains :: "SyscallCatchPolicy \<Rightarrow> int \<Rightarrow> bool" where
  "policy_contains s i \<longleftrightarrow> list_ex (\<lambda>c. c = i) (cp_toCatch s)"

section \<open>Threads and the process\<close>

record ThreadState =
  ts_TID :: int
  ts_Regs :: Registers
  ts_State :: ProcessState
  ts_Reason :: StopReason
  ts_PendingSigstop :: bool
  ts_ExpectingSyscallExit :: bool

text \<open>
  The fields of \<open>Process\<close>, then what its operations change outside it: the kernel, the two global
  id counters, and the number of \<open>LockOSThread\<close> calls in force.  The callbacks (\<open>onHit\<close> handlers
  and the lifecycle notification with the \<open>target\<close> behind it) are fields of the parameter below.
\<close>

record 'k Process =
  p_pid :: int
  terminateOnEnd :: bool
  isAttached :: bool
  p_state :: ProcessState
  threads :: "(int \<times> ThreadState) list"
  currentThread :: int
  breakpointSites :: breakpointSiteCollection
  watchpoints :: watchpointCollection
  syscallCatchPolicy :: SyscallCatchPolicy
  kernel :: 'k
  breakpointIDCounter :: i32
  watchpointIDCounter :: i32
  osThreadLocks :: int

text \<open>
  What the process calls that is not in the sources: the kernel requests, the iteration order of
  Go's maps, and the callbacks.  A request is \<open>None\<close> for an errno; \<open>wait4\<close> returns the thread
  and its status; \<open>start\<close> is \<open>exec.Cmd.Start\<close> (with or without tracing) and \<open>taskDir\<close> the
  names under \<open>/proc/<pid>/task\<close>.
\<close>

record 'k env =
  user :: "'k user_ops"
  memory :: "'k mem_ops"
  sys_cont :: "int \<Rightarrow> 'k \<Rightarrow> 'k option"
  sys_singleStep :: "int \<Rightarrow> 'k \<Rightarrow> 'k option"
  sys_syscall :: "int \<Rightarrow> 'k \<Rightarrow> 'k option"
  sys_setOptions :: "int \<Rightarrow> u64 \<Rightarrow> 'k \<Rightarrow> 'k option"
  sys_getSigInfo :: "int \<Rightarrow> 'k \<Rightarrow> i32 option"
  sys_wait4 :: "int \<Rightarrow> u64 \<Rightarrow> 'k \<Rightarrow> ((int \<times> u32) \<times> 'k) option"
  sys_tgkill :: "int \<Rightarrow> int \<Rightarrow> u8 \<Rightarrow> 'k \<Rightarrow> 'k option"
  sys_kill :: "int \<Rightarrow> u8 \<Rightarrow> 'k \<Rightarrow> 'k option"
  sys_detach :: "int \<Rightarrow> 'k \<Rightarrow> 'k option"
  sys_seize :: "int \<Rightarrow> 'k \<Rightarrow> 'k option"
  sys_interrupt :: "int \<Rightarrow> 'k \<Rightarrow> 'k option"
  sys_start :: "bool \<Rightarrow> 'k \<Rightarrow> (int \<times> 'k) option"
  sys_taskDir :: "int \<Rightarrow> 'k \<Rightarrow> string list option"
  rangeOrder :: "int list \<Rightarrow> int list"
  onHit :: "nat \<Rightarrow> ('k Process, bool) st"
  onLifecycle :: "StopReason \<Rightarrow> 'k Process \<Rightarrow> 'k Process"

definition range_law :: "'k env \<Rightarrow> bool" where
  "range_law E \<longleftrightarrow> (\<forall>xs. set (rangeOrder E xs) = set xs \<and> (distinct xs \<longrightarrow> distinct (rangeOrder E xs)))"

definition thread_of :: "int \<Rightarrow> 'k Process \<Rightarrow> ThreadState option" where
  "thread_of tid p = map_of (threads p) tid"

definition tids :: "'k env \<Rightarrow> 'k Process \<Rightarrow> int list" where
  "tids E p = rangeOrder E (map fst (threads p))"

definition upd_thread :: "int \<Rightarrow> (ThreadState \<Rightarrow> ThreadState) \<Rightarrow> 'k Process \<Rightarrow> 'k Process" where
  "upd_thread tid f p = p\<lparr>threads := AList.map_entry tid f (threads p)\<rparr>"

definition SetCurrentThread :: "int \<Rightarrow> 'k Process \<Rightarrow> 'k Process" where
  "SetCurrentThread tid p = (if thread_of tid p \<noteq> None then p\<lparr>currentThread := tid\<rparr> else p)"

text \<open>A kernel request whose errno is returned as an error.\<close>

definition request :: "('k \<Rightarrow> 'k option) \<Rightarrow> ('k Process, unit) st" where
  "request f p = (case f (kernel p) of
      None \<Rightarrow> (Inl (Error PtraceFailed), p) | Some k \<Rightarrow> (Inr (), p\<lparr>kernel := k\<rparr>))"

definition wait4 :: "'k env \<Rightarrow> int \<Rightarrow> u64 \<Rightarrow> ('k Process, int \<times> u32) st" where
  "wait4 E tid opts p = (case sys_wait4 E tid opts (kernel p) of
      None \<Rightarrow> (Inl (Error WaitFailed), p) | Some (r, k) \<Rightarrow> (Inr r, p\<lparr>kernel := k\<rparr>))"

section \<open>Registers of a thread\<close>

text \<open>
  The current thread's register cache; a missing thread is the nil that the callers test.
\<close>

definition Registers_of :: "'k Process \<Rightarrow> Registers option" where
  "Registers_of p = map_option ts_Regs (thread_of (currentThread p) p)"

text \<open>
  \<open>thread.Regs.Write\<close> for a tracked thread (a nil dereference panics) and
  \<open>thread.Regs.Read(info).(uint64)\<close>.
\<close>

definition writeReg :: "'k env \<Rightarrow> int \<Rightarrow> RegisterInfo \<Rightarrow> u64 \<Rightarrow> ('k Process, unit) st" where
  "writeReg E tid info v p = (case thread_of tid p of
      None \<Rightarrow> (Inl Panic, p)
    | Some t \<Rightarrow>
        (let (r, rs, k) = Write (user E) info (VU64 v) (ts_Regs t) (kernel p)
         in (r, (upd_thread tid (\<lambda>t. t\<lparr>ts_Regs := rs\<rparr>) p)\<lparr>kernel := k\<rparr>)))"

definition readReg :: "int \<Rightarrow> RegisterInfo \<Rightarrow> 'k Process \<Rightarrow> u64 res" where
  "readReg tid info p = (case thread_of tid p of
      None \<Rightarrow> Inl Panic
    | Some t \<Rightarrow> readRegisterUint64 (ts_Regs t) info)"

definition GetPC :: "'k Process \<Rightarrow> u64 res" where
  "GetPC p = (case Registers_of p of
      None \<Rightarrow> Inl (Error RegistersUnavailable)
    | Some regs \<Rightarrow>
        (case RegisterInfoByName ''rip'' of
           None \<Rightarrow> Inl (Error (UnknownRegister 16))
         | Some info \<Rightarrow> readRegisterUint64 regs info))"

definition SetPC :: "'k env \<Rightarrow> u64 \<Rightarrow> ('k Process, unit) st" where
  "SetPC E addr p = (case Registers_of p of
      None \<Rightarrow> (Inl (Error RegistersUnavailable), p)
    | Some regs \<Rightarrow>
        (case RegisterInfoByName ''rip'' of
           None \<Rightarrow> (Inl (Error (UnknownRegister 16)), p)
         | Some info \<Rightarrow> writeReg E (currentThread p) info addr p))"

definition getPCForThread :: "int \<Rightarrow> 'k Process \<Rightarrow> u64 res" where
  "getPCForThread tid p = (case thread_of tid p of
      None \<Rightarrow> Inl (Error (NoSuchThread tid))
    | Some t \<Rightarrow>
        (case RegisterInfoByName ''rip'' of
           None \<Rightarrow> Inl (Error (UnknownRegister 16))
         | Some info \<Rightarrow> readRegisterUint64 (ts_Regs t) info))"

definition setPCForThread :: "'k env \<Rightarrow> int \<Rightarrow> u64 \<Rightarrow> ('k Process, unit) st" where
  "setPCForThread E tid addr p = (case thread_of tid p of
      None \<Rightarrow> (Inl (Error (NoSuchThread tid)), p)
    | Some t \<Rightarrow>
        (case RegisterInfoByName ''rip'' of
           None \<Rightarrow> (Inl (Error (UnknownRegister 16)), p)
         | Some info \<Rightarrow> writeReg E tid info addr p))"

definition EnableThreadTracking :: "'k env \<Rightarrow> ('k Process, unit) st" where
  "EnableThreadTracking E p =
     mfor (tids E p) (\<lambda>tid. request (sys_setOptions E tid (ptraceOTraceSysGood OR ptraceOTraceClone))) p"

definition SetSyscallCatchPolicy :: "SyscallCatchPolicy \<Rightarrow> 'k Process \<Rightarrow> 'k Process" where
  "SetSyscallCatchPolicy policy p =
     p\<lparr>syscallCatchPolicy := policy,
       threads := map (\<lambda>(tid, t). (tid, t\<lparr>ts_ExpectingSyscallExit := False\<rparr>)) (threads p)\<rparr>"

section \<open>Well-formed processes\<close>

text \<open>
  Thread ids are unique, every entry is filed under its own id, and every register cache has the
  shape of the kernel's \<open>struct user\<close>.
\<close>

definition threads_ok :: "(int \<times> ThreadState) list \<Rightarrow> bool" where
  "threads_ok ts \<longleftrightarrow> distinct (map fst ts) \<and>
     (\<forall>(tid, t)\<in>set ts. ts_TID t = tid \<and> g_pid (ts_Regs t) = tid \<and> regs_ok (ts_Regs t))"

lemma thread_of_upd [simp]:
  "thread_of tid' (upd_thread tid f p) =
     (if tid' = tid then map_option f (thread_of tid p) else thread_of tid' p)"
  by (simp add: thread_of_def upd_thread_def map_of_map_entry fun_eq_iff split: option.splits)

lemma keys_map_entry: "map fst (AList.map_entry k f al) = map fst al"
  by (induction al) auto

lemma keys_upd [simp]: "map fst (threads (upd_thread tid f p)) = map fst (threads p)"
  by (simp add: upd_thread_def keys_map_entry)

lemma thread_of_kernel [simp]: "thread_of tid (p\<lparr>kernel := k\<rparr>) = thread_of tid p"
  by (simp add: thread_of_def)

lemma map_entry_cong: "map_of al k = Some t \<Longrightarrow> f t = g t \<Longrightarrow> AList.map_entry k f al = AList.map_entry k g al"
  by (induction al) (auto split: if_splits)

lemma upd_thread_cong: "thread_of tid p = Some t \<Longrightarrow> f t = g t \<Longrightarrow> upd_thread tid f p = upd_thread tid g p"
  by (simp add: upd_thread_def thread_of_def map_entry_cong [of "threads p" tid t f g])

lemma set_map_entry:
  "distinct (map fst al) \<Longrightarrow> (k', v) \<in> set (AList.map_entry k f al) \<longleftrightarrow>
    (if k' = k then (\<exists>u. (k, u) \<in> set al \<and> v = f u) else (k', v) \<in> set al)"
  by (induction al) (auto simp: image_iff)

lemma threads_ok_upd:
  assumes "threads_ok (threads p)"
    and "\<And>t. regs_ok (ts_Regs t) \<Longrightarrow> ts_TID (f t) = ts_TID t \<and> regs_ok (ts_Regs (f t)) \<and>
      g_pid (ts_Regs (f t)) = g_pid (ts_Regs t)"
  shows "threads_ok (threads (upd_thread tid f p))"
proof -
  have d: "distinct (map fst (threads p))" using assms(1) by (simp add: threads_ok_def)
  have "ts_TID t = i \<and> g_pid (ts_Regs t) = i \<and> regs_ok (ts_Regs t)"
    if "(i, t) \<in> set (AList.map_entry tid f (threads p))" for i t
  proof (cases "i = tid")
    case True
    with that obtain u where u: "(i, u) \<in> set (threads p)" "t = f u" by (auto simp: set_map_entry [OF d])
    then have "ts_TID u = i \<and> g_pid (ts_Regs u) = i \<and> regs_ok (ts_Regs u)"
      using assms(1) by (auto simp: threads_ok_def)
    with u(2) assms(2) [of u] show ?thesis by simp
  next
    case False
    with that have "(i, t) \<in> set (threads p)" by (simp add: set_map_entry [OF d])
    then show ?thesis using assms(1) by (auto simp: threads_ok_def)
  qed
  then show ?thesis using d by (auto simp: threads_ok_def upd_thread_def keys_map_entry)
qed

lemma threads_okD:
  assumes "threads_ok (threads p)" "thread_of tid p = Some t"
  shows "regs_ok (ts_Regs t)" "g_pid (ts_Regs t) = tid" "ts_TID t = tid"
proof -
  have m: "(tid, t) \<in> set (threads p)" using assms(2) by (simp add: thread_of_def map_of_SomeD)
  have "\<forall>e\<in>set (threads p). case e of (tid, t) \<Rightarrow>
      ts_TID t = tid \<and> g_pid (ts_Regs t) = tid \<and> regs_ok (ts_Regs t)"
    using assms(1) by (simp add: threads_ok_def)
  from bspec [OF this m] show "regs_ok (ts_Regs t)" "g_pid (ts_Regs t) = tid" "ts_TID t = tid" by simp_all
qed

text \<open>The 8-byte integer registers: a read returns the window, a write replaces it in the cache.\<close>

definition wide :: "RegisterInfo \<Rightarrow> bool" where
  "wide info \<longleftrightarrow> info_ok info \<and> ri_Size info = 8 \<and> ri_Format info = RegisterFormatUint \<and>
     ri_Type info \<noteq> RegisterTypeFPR"

lemma readRegisterUint64_wide:
  assumes "regs_ok r" "wide info"
  shows "readRegisterUint64 r info = Inr (get8 info r)"
  using assms bytesForOffset_window [OF assms(1), of "ri_Offset info" 8] info_ok_area8 [of info]
  by (simp add: readRegisterUint64_def Read_def wide_def as_u64_def get8_def)

lemma Write_wide:
  assumes "regs_ok r" "wide info" "Write os info (VU64 v) r k = (res, r', k')"
  shows "r' = put8 info v r \<and> res \<noteq> Inl Panic \<and> res \<noteq> Inl OutOfFuel"
proof -
  have e: "encodeValue info (VU64 v) = Some (put64 v)" using assms(2) by (simp add: encodeValue_def wide_def)
  have i: "info_ok info" using assms(2) by (simp add: wide_def)
  have r': "r' = put8 info v r"
    using Write_cache [OF assms(1) i e assms(3)] assms(2) by (simp add: wide_def put8_def put64_def)
  have ok: "regs_ok (put8 info v r)" by (rule rf.ok_put [OF assms(1) i])
  have "in_area (alignDown8 (ri_Offset info)) 8"
    using i assms(2) by (simp add: wide_def info_ok_def alignDown8_mod)
  then have b: "\<exists>w. bytesForOffset (put8 info v r) (alignDown8 (ri_Offset info)) 8 = Inr w"
    using bytesForOffset_window [OF ok] by blast
  have s: "storeBytes r (ri_Offset info) (le_bytes 8 v) = Inr (put8 info v r)"
    using storeBytes_window [OF assms(1)] info_ok_area8 [OF i] by (simp add: put8_def)
  show ?thesis using r' assms(2,3) e s b
    by (auto simp: Write_def wide_def go_slice_def put64_def split: if_splits option.splits)
qed

lemma readReg_wide:
  assumes "thread_of tid p = Some t" "regs_ok (ts_Regs t)" "wide info"
  shows "readReg tid info p = Inr (get8 info (ts_Regs t))"
  using assms by (simp add: readReg_def readRegisterUint64_wide)

lemma writeReg_wide:
  assumes "thread_of tid p = Some t" "regs_ok (ts_Regs t)" "wide info" "writeReg E tid info v p = (res, p')"
  shows "\<exists>k. p' = (upd_thread tid (\<lambda>t. t\<lparr>ts_Regs := put8 info v (ts_Regs t)\<rparr>) p)\<lparr>kernel := k\<rparr>"
    and "res \<noteq> Inl Panic \<and> res \<noteq> Inl OutOfFuel"
proof -
  obtain r rs k where w: "Write (user E) info (VU64 v) (ts_Regs t) (kernel p) = (r, rs, k)"
    by (metis prod_cases3)
  note e = Write_wide [OF assms(2,3) w]
  have "upd_thread tid (\<lambda>t. t\<lparr>ts_Regs := rs\<rparr>) p =
      upd_thread tid (\<lambda>t. t\<lparr>ts_Regs := put8 info v (ts_Regs t)\<rparr>) p"
    by (rule upd_thread_cong [OF assms(1)]) (simp add: e)
  then show "\<exists>k. p' = (upd_thread tid (\<lambda>t. t\<lparr>ts_Regs := put8 info v (ts_Regs t)\<rparr>) p)\<lparr>kernel := k\<rparr>"
    using assms(1,4) w by (auto simp: writeReg_def)
  show "res \<noteq> Inl Panic \<and> res \<noteq> Inl OutOfFuel" using assms(1,4) w e by (auto simp: writeReg_def)
qed

lemma wide_rip [simp]: "wide ripInfo"
  by (simp add: wide_def)

section \<open>A concrete environment\<close>

text \<open>
  The kernel state is the memory of one mapped page; register requests succeed without a trace
  in it and every thread reports a trap when waited for.
\<close>

definition flat_user :: "'k user_ops" where
  "flat_user = \<lparr>peekUser = (\<lambda>tid off k. Some 0), pokeUser = (\<lambda>tid off w k. Some k),
     getRegs = (\<lambda>tid k. Some (replicate 216 0)), setRegs = (\<lambda>tid bs k. Some k),
     getFPRegs = (\<lambda>tid k. Some (replicate 512 0)), setFPRegs = (\<lambda>tid bs k. Some k)\<rparr>"

definition flat_env :: "(u64 \<Rightarrow> u8) env" where
  "flat_env = \<lparr>user = flat_user, memory = flat_ops one_page,
     sys_cont = (\<lambda>tid k. Some k), sys_singleStep = (\<lambda>tid k. Some k), sys_syscall = (\<lambda>tid k. Some k),
     sys_setOptions = (\<lambda>tid opts k. Some k), sys_getSigInfo = (\<lambda>tid k. Some 2),
     sys_wait4 = (\<lambda>tid opts k. Some ((if tid = - 1 then 1 else tid, 0x57F), k)),
     sys_tgkill = (\<lambda>pid tid sig k. Some k), sys_kill = (\<lambda>pid sig k. Some k), sys_detach = (\<lambda>tid k. Some k),
     sys_seize = (\<lambda>tid k. Some k), sys_interrupt = (\<lambda>tid k. Some k),
     sys_start = (\<lambda>debug k. Some (1, k)), sys_taskDir = (\<lambda>pid k. Some [''1'', ''2'']), rangeOrder = rev,
     onHit = (\<lambda>h. mret False), onLifecycle = (\<lambda>r p. p)\<rparr>"

definition flat_thread :: "int \<Rightarrow> ThreadState" where
  "flat_thread tid = \<lparr>ts_TID = tid, ts_Regs = zero_regs\<lparr>g_pid := tid\<rparr>, ts_State = ProcessStopped,
     ts_Reason = stop ProcessStopped 0 0, ts_PendingSigstop = False, ts_ExpectingSyscallExit = False\<rparr>"

definition flat_proc :: "(u64 \<Rightarrow> u8) Process" where
  "flat_proc = \<lparr>p_pid = 1, terminateOnEnd = True, isAttached = True, p_state = ProcessStopped,
     threads = [(1, flat_thread 1), (2, flat_thread 2)], currentThread = 1,
     breakpointSites = \<lparr>sites = []\<rparr>, watchpoints = \<lparr>points = []\<rparr>, syscallCatchPolicy = CatchNoSyscalls,
     kernel = code_page, breakpointIDCounter = 0, watchpointIDCounter = 0, osThreadLocks = 1\<rparr>"

lemma flat_range [simp]: "range_law flat_env"
  by (simp add: range_law_def flat_env_def)

lemma flat_memory [simp]: "memory flat_env = flat_ops one_page" "user flat_env = flat_user"
  by (simp_all add: flat_env_def)

lemma flat_threads_ok [simp]: "threads_ok (threads flat_proc)"
  by (simp add: threads_ok_def flat_proc_def flat_thread_def zero_regs_def regs_ok_def)

lemma flat_current [simp]:
  "thread_of (currentThread flat_proc) flat_proc = Some (flat_thread 1)" "p_pid flat_proc = 1"
  "sites (breakpointSites flat_proc) = []" "kernel flat_proc = code_page"
  by (simp_all add: flat_proc_def thread_of_def)

end
