(* ===== verification/Debug_Registers.thy ===== *)
theory Debug_Registers
  imports Process_State
begin

text \<open>
  Hardware stoppoints, the debug register operations of \<open>src/debugger/process.go\<close>: a slot
  \<open>i\<close> is the address register \<open>DR<i>\<close>, the local enable bit \<open>2 * i\<close> of \<open>DR7\<close> and the four
  condition and length bits from bit \<open>16 + 4 * i\<close>.  \<open>armed\<close> reads the slots back as a map from
  slots to the kind of stoppoint, and the operations refine updates of that map.
\<close>

unbundle bit_operations_syntax

section \<open>The operations\<close>

text \<open>\<open>info, _ := RegisterInfoByName(name)\<close>: the zero value when the name is unknown.\<close>

definition infoNamed :: "string \<Rightarrow> RegisterInfo" where
  "infoNamed name = (case RegisterInfoByName name of
      Some info \<Rightarrow> info | None \<Rightarrow> regInfo '''' 0 0 0 RegisterTypeGPR RegisterFormatUint)"

definition drNames :: "string list" where
  "drNames = [''dr0'', ''dr1'', ''dr2'', ''dr3'']"

definition drInfo :: "nat \<Rightarrow> RegisterInfo" where
  "drInfo index = infoNamed (drNames ! index)"

definition dr6Info :: RegisterInfo where "dr6Info = infoNamed ''dr6''"
definition dr7Info :: RegisterInfo where "dr7Info = infoNamed ''dr7''"

fun find_free :: "nat list \<Rightarrow> u64 \<Rightarrow> nat res" where
  "find_free [] control = Inl (Error NoFreeDebugRegister)"
| "find_free (i # is) control =
     (if control AND push_bit (2 * i) 1 = 0 then Inr i else find_free is control)"

definition findFreeStoppointRegister :: "u64 \<Rightarrow> nat res" where
  "findFreeStoppointRegister control = find_free [0..<4] control"

definition encodeHardwareStoppointMode :: "StoppointMode \<Rightarrow> u64" where
  "encodeHardwareStoppointMode mode = (case mode of
      StoppointModeExecute \<Rightarrow> 0 | StoppointModeWrite \<Rightarrow> 1 | StoppointModeReadWrite \<Rightarrow> 3)"

definition encodeHardwareStoppointSize :: "int \<Rightarrow> u64 res" where
  "encodeHardwareStoppointSize sz =
     (if sz = 1 then Inr 0 else if sz = 2 then Inr 1 else if sz = 4 then Inr 3
      else if sz = 8 then Inr 2 else Inl (Error (BadStoppointSize sz)))"

text \<open>The new \<open>DR7\<close>: set the enable bit, clear the condition and length bits, put in the new ones.\<close>

definition dr7_set :: "u64 \<Rightarrow> nat \<Rightarrow> u64 \<Rightarrow> u64 \<Rightarrow> u64" where
  "dr7_set control index modeEnc sizeEnc =
     (let c1 = control OR push_bit (2 * index) 1;
          c2 = c1 AND NOT (push_bit (16 + 4 * index) 0xF)
      in c2 OR push_bit (16 + 4 * index) (modeEnc OR push_bit 2 sizeEnc))"

definition dr7_clear :: "u64 \<Rightarrow> nat \<Rightarrow> u64" where
  "dr7_clear control index =
     (control AND NOT (push_bit (2 * index) 1)) AND NOT (push_bit (16 + 4 * index) 0xF)"

text \<open>
  Replication to the other threads ignores the errors of their writes.  The two operations write
  the address and the control register in the order the source has.
\<close>

definition replicate_to :: "'k env \<Rightarrow> nat \<Rightarrow> u64 \<Rightarrow> u64 \<Rightarrow> int \<Rightarrow> ('k Process, unit) st" where
  "replicate_to E index addr control tid q =
     (if tid = currentThread q \<or> thread_of tid q = None then (Inr (), q)
      else mbind (mdrop (writeReg E tid (drInfo index) addr))
             (\<lambda>_. mdrop (writeReg E tid dr7Info control)) q)"

definition replicate_dr :: "'k env \<Rightarrow> nat \<Rightarrow> u64 \<Rightarrow> u64 \<Rightarrow> ('k Process, unit) st" where
  "replicate_dr E index addr control p =
     mfor (tids E p) (replicate_to E index addr control) p"

definition setHardwareStoppoint :: "'k env \<Rightarrow> u64 \<Rightarrow> StoppointMode \<Rightarrow> int \<Rightarrow> ('k Process, nat) st" where
  "setHardwareStoppoint E addr mode sz p =
     (if Registers_of p = None then (Inl (Error RegistersUnavailable), p)
      else mbind (mget (readReg (currentThread p) dr7Info)) (\<lambda>control.
           mbind (mget (\<lambda>_. findFreeStoppointRegister control)) (\<lambda>index.
           mbind (mget (\<lambda>_. encodeHardwareStoppointSize sz)) (\<lambda>sizeEnc.
           mbind (writeReg E (currentThread p) (drInfo index) addr) (\<lambda>_.
           let control' = dr7_set control index (encodeHardwareStoppointMode mode) sizeEnc in
           mbind (writeReg E (currentThread p) dr7Info control') (\<lambda>_.
           mbind (replicate_dr E index addr control') (\<lambda>_.
           mret index)))))) p)"

definition SetHardwareBreakpoint :: "'k env \<Rightarrow> u64 \<Rightarrow> ('k Process, nat) st" where
  "SetHardwareBreakpoint E addr = setHardwareStoppoint E addr StoppointModeExecute 1"

definition SetWatchpoint :: "'k env \<Rightarrow> u64 \<Rightarrow> StoppointMode \<Rightarrow> int \<Rightarrow> ('k Process, nat) st" where
  "SetWatchpoint E addr mode sz =
     (if mode = StoppointModeExecute then mfail ExecuteWatchpoint
      else setHardwareStoppoint E addr mode sz)"

definition ClearHardwareStoppoint :: "'k env \<Rightarrow> int \<Rightarrow> ('k Process, unit) st" where
  "ClearHardwareStoppoint E index p =
     (if index < 0 \<or> 3 < index then (Inl (Error (BadDebugRegister index)), p)
      else if Registers_of p = None then (Inl (Error RegistersUnavailable), p)
      else mbind (mget (readReg (currentThread p) dr7Info)) (\<lambda>control.
           let control' = dr7_clear control (nat index) in
           mbind (writeReg E (currentThread p) dr7Info control') (\<lambda>_.
           mbind (writeReg E (currentThread p) (drInfo (nat index)) 0) (\<lambda>_.
           replicate_dr E (nat index) 0 control'))) p)"

record HardwareStoppoint =
  hs_IsWatchpoint :: bool
  hs_BreakpointID :: i32
  hs_WatchpointID :: i32

text \<open>\<open>bits.TrailingZeros64\<close> of the standard library.\<close>

definition TrailingZeros64 :: "u64 \<Rightarrow> nat" where
  "TrailingZeros64 w = length (takeWhile (\<lambda>i. \<not> bit w i) [0..<64])"

definition GetCurrentHardwareStoppoint :: "'k Process \<Rightarrow> HardwareStoppoint res" where
  "GetCurrentHardwareStoppoint p =
     (if Registers_of p = None then Inl (Error RegistersUnavailable)
      else rbind (readReg (currentThread p) dr6Info p) (\<lambda>dr6.
           let triggered = dr6 AND 0xF in
           if triggered = 0 then Inl (Error NoStoppointTriggered)
           else let index = TrailingZeros64 triggered in
           rbind (readReg (currentThread p) (drInfo index) p) (\<lambda>addr.
             case find (\<lambda>wp. wp_address wp = addr \<and> wp_hardwareRegisterIndex wp = int index) (points (watchpoints p)) of
               Some wp \<Rightarrow> Inr \<lparr>hs_IsWatchpoint = True, hs_BreakpointID = 0, hs_WatchpointID = wp_id wp\<rparr>
             | None \<Rightarrow>
               (case find (\<lambda>bp. bp_isHardware bp \<and> bp_address bp = addr \<and> bp_hardwareRegisterIndex bp = int index)
                       (sites (breakpointSites p)) of
                  Some bp \<Rightarrow> Inr \<lparr>hs_IsWatchpoint = False, hs_BreakpointID = bp_id bp, hs_WatchpointID = 0\<rparr>
                | None \<Rightarrow> Inl (Error (StoppointNotFound index addr))))))"

section \<open>The register entries\<close>

lemma dr_entries:
  "RegisterInfoByName ''dr0'' = Some (entry_at 117)" "RegisterInfoByName ''dr1'' = Some (entry_at 118)"
  "RegisterInfoByName ''dr2'' = Some (entry_at 119)" "RegisterInfoByName ''dr3'' = Some (entry_at 120)"
  "RegisterInfoByName ''dr6'' = Some (entry_at 123)" "RegisterInfoByName ''dr7'' = Some (entry_at 124)"
  by (rule byName; simp add: table_defs regInfo_def)+

lemma dr_fields:
  assumes "n < 8"
  shows "ri_Size (entry_at (117 + n)) = 8" "ri_Offset (entry_at (117 + n)) = 848 + 8 * int n"
    "ri_Type (entry_at (117 + n)) = RegisterTypeDR" "ri_Format (entry_at (117 + n)) = RegisterFormatUint"
proof -
  have "registerTable ! (117 + n) = drInfos ! n"
    using assms by (simp add: registerTable_def nth_append table_defs)
  moreover have "n \<in> {0, 1, 2, 3, 4, 5, 6, 7}" using assms by auto
  ultimately show "ri_Size (entry_at (117 + n)) = 8" "ri_Offset (entry_at (117 + n)) = 848 + 8 * int n"
    "ri_Type (entry_at (117 + n)) = RegisterTypeDR" "ri_Format (entry_at (117 + n)) = RegisterFormatUint"
    using assms by (auto simp: entry_at_eq drInfos_def regInfo_def offset_defs)
qed

lemma drInfo_entry: "i < 4 \<Longrightarrow> drInfo i = entry_at (117 + i)"
proof -
  assume "i < 4"
  then have "i \<in> {0, 1, 2, 3}" by auto
  then show ?thesis by (auto simp: drInfo_def drNames_def infoNamed_def dr_entries)
qed

lemma dr67_entry: "dr6Info = entry_at (117 + 6)" "dr7Info = entry_at (117 + 7)"
  by (simp_all add: dr6Info_def dr7Info_def infoNamed_def dr_entries)

lemma wide_dr: "n < 8 \<Longrightarrow> wide (entry_at (117 + n))"
  using dr_fields [of n] registerInfos_ok [OF entry_at_mem, of "117 + n"] by (simp add: wide_def)

lemma wide_drs [simp]: "i < 4 \<Longrightarrow> wide (drInfo i)" "wide dr6Info" "wide dr7Info"
  using wide_dr [of i] wide_dr [of 6] wide_dr [of 7] by (simp_all add: drInfo_entry dr67_entry)

lemma dr_apart: "m < 8 \<Longrightarrow> n < 8 \<Longrightarrow> m \<noteq> n \<Longrightarrow> apart8 (entry_at (117 + m)) (entry_at (117 + n))"
  by (auto simp: apart8_def apart_def dr_fields)

lemma dr_get_put:
  assumes "regs_ok r" "m < 8" "n < 8"
  shows "get8 (entry_at (117 + m)) (put8 (entry_at (117 + n)) v r) =
    (if m = n then v else get8 (entry_at (117 + m)) r)"
  using assms wide_dr rf.get_put_own rf.get_put_indep dr_apart by (auto simp: wide_def)

section \<open>The control register as a map of slots\<close>

text \<open>
  How the processor reads \<open>DR7\<close>: the two condition bits select execute, write or access (the
  fourth code is I/O, which the debugger never programs), the two length bits the watched size.
\<close>

definition hw_mode :: "u64 \<Rightarrow> StoppointMode option" where
  "hw_mode w = (if w = 0 then Some StoppointModeExecute else if w = 1 then Some StoppointModeWrite
     else if w = 3 then Some StoppointModeReadWrite else None)"

definition hw_len :: "u64 \<Rightarrow> int" where
  "hw_len w = (if w = 0 then 1 else if w = 1 then 2 else if w = 3 then 4 else 8)"

definition field :: "u64 \<Rightarrow> nat \<Rightarrow> u64" where
  "field c k = take_bit 2 (drop_bit k c)"

definition armed :: "u64 \<Rightarrow> nat \<Rightarrow> (StoppointMode option \<times> int) option" where
  "armed c i = (if bit c (2 * i) then Some (hw_mode (field c (16 + 4 * i)), hw_len (field c (18 + 4 * i))) else None)"

lemma bit_0xF: "bit (0xF :: int) n \<longleftrightarrow> n < 4"
proof -
  have "(0xF :: int) = mask 4" by (simp add: mask_eq_exp_minus_1)
  then show ?thesis by (simp only: bit_mask_iff) auto
qed

lemma bit_field: "bit (field c k) n \<longleftrightarrow> n < 2 \<and> bit c (k + n)"
  by (auto simp: field_def bit_simps)

lemma two_bits: "take_bit 2 w = w \<Longrightarrow> bit w n \<Longrightarrow> n < 2" for w :: u64
  by (metis bit_take_bit_iff)

lemma bit_dr7_clear:
  "bit (dr7_clear c i) n \<longleftrightarrow> bit c n \<and> n \<noteq> 2 * i \<and> \<not> (16 + 4 * i \<le> n \<and> n < 20 + 4 * i)"
  by (cases "n < 64") (auto simp: dr7_clear_def bit_simps bit_0xF dest: bit_imp_le_length)

lemma bit_dr7_set:
  assumes "i < 4" "take_bit 2 me = me" "take_bit 2 se = se"
  shows "bit (dr7_set c i me se) n \<longleftrightarrow>
    (if 16 + 4 * i \<le> n \<and> n < 18 + 4 * i then bit me (n - (16 + 4 * i))
     else if 18 + 4 * i \<le> n \<and> n < 20 + 4 * i then bit se (n - (18 + 4 * i))
     else bit c n \<or> n = 2 * i)"
proof (cases "n < 64")
  case False
  with assms(1) show ?thesis by (auto dest: bit_imp_le_length)
next
  case True
  have "n - (16 + 4 * i) - 2 = n - (18 + 4 * i)" by simp
  with True assms(1) show ?thesis
    by (auto simp: dr7_set_def Let_def bit_simps bit_0xF not_le
        dest: two_bits [OF assms(2)] two_bits [OF assms(3)])
qed

lemma field_eqI: "(\<And>n. n < 2 \<Longrightarrow> bit c (k + n) = bit d (k' + n)) \<Longrightarrow> field c k = field d k'"
  by (rule bit_eqI) (auto simp: bit_field)

lemma armed_eqI:
  assumes "bit c (2 * j) = bit d (2 * j)" "\<And>n. 16 + 4 * j \<le> n \<Longrightarrow> n < 20 + 4 * j \<Longrightarrow> bit c n = bit d n"
  shows "armed c j = armed d j"
  using assms by (simp add: armed_def field_eqI [of c "16 + 4 * j" d "16 + 4 * j"]
      field_eqI [of c "18 + 4 * j" d "18 + 4 * j"])

lemma armed_dr7_clear:
  assumes "i < 4" "j < 4"
  shows "armed (dr7_clear c i) j = (if j = i then None else armed c j)"
proof (cases "j = i")
  case True
  then show ?thesis by (simp add: armed_def bit_dr7_clear)
next
  case False
  then show ?thesis using assms by (auto simp: bit_dr7_clear intro!: armed_eqI)
qed

lemma encode_two_bits:
  "take_bit 2 (encodeHardwareStoppointMode m) = encodeHardwareStoppointMode m"
  "encodeHardwareStoppointSize sz = Inr se \<Longrightarrow> take_bit 2 se = se"
  by (auto simp: encodeHardwareStoppointMode_def encodeHardwareStoppointSize_def take_bit_eq_mask
      mask_eq_exp_minus_1 split: StoppointMode.split if_splits)

lemma armed_dr7_set:
  assumes "i < 4" "j < 4" "encodeHardwareStoppointSize sz = Inr se"
  shows "armed (dr7_set c i (encodeHardwareStoppointMode m) se) j =
    (if j = i then Some (Some m, sz) else armed c j)"
proof (cases "j = i")
  case True
  let ?me = "encodeHardwareStoppointMode m" and ?d = "dr7_set c i (encodeHardwareStoppointMode m) se"
  note b = bit_dr7_set [OF assms(1) encode_two_bits(1) encode_two_bits(2) [OF assms(3)]]
  have "field ?d (16 + 4 * i) = ?me"
    by (rule bit_eqI) (auto simp: bit_field b dest: two_bits [OF encode_two_bits(1)])
  moreover have "field ?d (18 + 4 * i) = se"
    by (rule bit_eqI) (auto simp: bit_field b dest: two_bits [OF encode_two_bits(2) [OF assms(3)]])
  moreover have "bit ?d (2 * i)" using assms(1) by (simp add: b)
  moreover have "hw_mode ?me = Some m" by (cases m) (simp_all add: hw_mode_def encodeHardwareStoppointMode_def)
  moreover have "hw_len se = sz"
    using assms(3) by (auto simp: hw_len_def encodeHardwareStoppointSize_def split: if_splits)
  ultimately show ?thesis using True by (simp add: armed_def)
next
  case False
  then show ?thesis using assms
    by (auto simp: bit_dr7_set [OF assms(1) encode_two_bits(1) encode_two_bits(2) [OF assms(3)]]
        intro!: armed_eqI split: if_splits)
qed

lemma find_free_upt:
  "find_free [a..<a + n] c = Inr i \<longleftrightarrow> a \<le> i \<and> i < a + n \<and> \<not> bit c (2 * i) \<and> (\<forall>j. a \<le> j \<and> j < i \<longrightarrow> bit c (2 * j))"
proof (induction n arbitrary: a)
  case (Suc n)
  have u: "[a..<a + Suc n] = a # [Suc a..<Suc a + n]" by (simp add: upt_rec)
  have t: "c AND push_bit (2 * a) 1 = 0 \<longleftrightarrow> \<not> bit c (2 * a)"
    by (simp add: push_bit_eq_mult and_exp_eq_0_iff_not_bit)
  show ?case
  proof (cases "bit c (2 * a)")
    case True
    then show ?thesis unfolding u using Suc.IH [of "Suc a"] t
      by (auto simp: Suc_le_eq) (metis le_neq_implies_less)+
  next
    case False
    then show ?thesis unfolding u using t by (auto simp: le_less)
  qed
qed simp

lemma find_free_fails: "is_ok (find_free is c) \<longleftrightarrow> (\<exists>i\<in>set is. \<not> bit c (2 * i))"
  by (induction "is") (auto simp: push_bit_eq_mult and_exp_eq_0_iff_not_bit)

lemma armed_None: "armed c i = None \<longleftrightarrow> \<not> bit c (2 * i)"
  by (simp add: armed_def)

text \<open>
  \<open>findFreeStoppointRegister\<close> returns the lowest unarmed slot, and fails exactly
  when all four are armed.
\<close>

theorem findFree_lowest:
  "(\<forall>i. findFreeStoppointRegister c = Inr i \<longleftrightarrow> i < 4 \<and> armed c i = None \<and> (\<forall>j<i. armed c j \<noteq> None)) \<and>
   (is_ok (findFreeStoppointRegister c) \<longleftrightarrow> (\<exists>i<4. armed c i = None))"
  using find_free_upt [of 0 4 c] find_free_fails [of "[0..<4]" c]
  unfolding findFreeStoppointRegister_def armed_None by auto

lemma findFree_lowest_witness: "findFreeStoppointRegister 0x11 = Inr 1"
proof -
  have "armed 0x11 1 = None" "armed 0x11 0 \<noteq> None" by code_simp+
  then show ?thesis using findFree_lowest [of "0x11"] by (simp add: less_Suc_eq)
qed

section \<open>All threads agree\<close>

text \<open>A step that changes only the threads' registers and the kernel.\<close>

definition regs_step :: "'k Process \<Rightarrow> 'k Process \<Rightarrow> bool" where
  "regs_step p p' \<longleftrightarrow> p' = p\<lparr>threads := threads p', kernel := kernel p'\<rparr> \<and> map fst (threads p') = map fst (threads p) \<and>
     (threads_ok (threads p) \<longrightarrow> threads_ok (threads p'))"

lemma regs_step_refl [simp]: "regs_step p p"
  by (simp add: regs_step_def)

lemma regs_step_trans:
  assumes "regs_step p q" "regs_step q r"
  shows "regs_step p r"
proof -
  have "q = p\<lparr>threads := threads q, kernel := kernel q\<rparr>" "r = q\<lparr>threads := threads r, kernel := kernel r\<rparr>"
    using assms by (simp_all add: regs_step_def)
  then have "r = p\<lparr>threads := threads q, kernel := kernel q\<rparr>\<lparr>threads := threads r, kernel := kernel r\<rparr>" by metis
  then show ?thesis using assms by (simp add: regs_step_def)
qed

lemma regs_step_same:
  "regs_step p p' \<Longrightarrow> currentThread p' = currentThread p \<and> breakpointSites p' = breakpointSites p \<and>
    watchpoints p' = watchpoints p \<and> p_pid p' = p_pid p \<and> p_state p' = p_state p"
  unfolding regs_step_def by (elim conjE) (erule ssubst, simp)

lemma regs_step_threads_ok: "regs_step p p' \<Longrightarrow> threads_ok (threads p) \<Longrightarrow> threads_ok (threads p')"
  by (simp add: regs_step_def)

lemma g_pid_put8 [simp]: "g_pid (put8 info v r) = g_pid r"
  by (simp add: put8_def)

lemma writeReg_step:
  assumes "thread_of tid p = Some t" "threads_ok (threads p)" "wide info" "writeReg E tid info v p = (res, p')"
  shows "regs_step p p'" "res \<noteq> Inl Panic \<and> res \<noteq> Inl OutOfFuel"
    "thread_of i p' = (if i = tid then Some (t\<lparr>ts_Regs := put8 info v (ts_Regs t)\<rparr>) else thread_of i p)"
proof -
  note ok = threads_okD(1) [OF assms(2,1)]
  let ?f = "\<lambda>t. t\<lparr>ts_Regs := put8 info v (ts_Regs t)\<rparr>"
  from writeReg_wide(1) [OF assms(1) ok assms(3,4)]
  obtain k where p': "p' = (upd_thread tid ?f p)\<lparr>kernel := k\<rparr>" by blast
  have "threads_ok (threads (upd_thread tid ?f p))"
    by (rule threads_ok_upd [OF assms(2)]) (use assms(3) in \<open>simp add: rf.ok_put wide_def\<close>)
  moreover have "p' = p\<lparr>threads := threads p', kernel := kernel p'\<rparr>"
    by (simp add: p' upd_thread_def)
  moreover have "map fst (threads p') = map fst (threads p)" by (simp add: p')
  ultimately show "regs_step p p'" unfolding regs_step_def by (simp add: p')
  show "res \<noteq> Inl Panic \<and> res \<noteq> Inl OutOfFuel" by (rule writeReg_wide(2) [OF assms(1) ok assms(3,4)])
  show "thread_of i p' = (if i = tid then Some (t\<lparr>ts_Regs := put8 info v (ts_Regs t)\<rparr>) else thread_of i p)"
    using assms(1) by (simp add: p')
qed

definition set_dr :: "nat \<Rightarrow> u64 \<Rightarrow> u64 \<Rightarrow> ThreadState \<Rightarrow> ThreadState" where
  "set_dr i a c t = t\<lparr>ts_Regs := put8 dr7Info c (put8 (drInfo i) a (ts_Regs t))\<rparr>"

lemma mdrop_writeReg:
  assumes "thread_of tid p = Some t" "threads_ok (threads p)" "wide info"
  obtains p' where "mdrop (writeReg E tid info v) p = (Inr (), p')" "regs_step p p'"
    "\<And>j. thread_of j p' = (if j = tid then Some (t\<lparr>ts_Regs := put8 info v (ts_Regs t)\<rparr>) else thread_of j p)"
proof -
  obtain r p' where w: "writeReg E tid info v p = (r, p')" by fastforce
  note st = writeReg_step [OF assms w]
  have "mdrop (writeReg E tid info v) p = (Inr (), p')" using w st(2) by (auto simp: mdrop_eq_Inr)
  then show ?thesis using that st by blast
qed

lemma replicate_to_step:
  assumes "i < 4" "threads_ok (threads q)"
  obtains q' where "replicate_to E i a c tid q = (Inr (), q')" "regs_step q q'"
    "\<And>j. thread_of j q' = (if j = tid \<and> tid \<noteq> currentThread q then map_option (set_dr i a c) (thread_of j q)
                           else thread_of j q)"
proof (cases "tid = currentThread q \<or> thread_of tid q = None")
  case True
  then show ?thesis using that [of q] by (auto simp: replicate_to_def)
next
  case False
  then obtain t where t: "thread_of tid q = Some t" by auto
  obtain q1 where 1: "mdrop (writeReg E tid (drInfo i) a) q = (Inr (), q1)" "regs_step q q1"
    "\<And>j. thread_of j q1 = (if j = tid then Some (t\<lparr>ts_Regs := put8 (drInfo i) a (ts_Regs t)\<rparr>) else thread_of j q)"
    using mdrop_writeReg [OF t assms(2)] assms(1) by (metis wide_drs(1))
  let ?t1 = "t\<lparr>ts_Regs := put8 (drInfo i) a (ts_Regs t)\<rparr>"
  have t1: "thread_of tid q1 = Some ?t1" by (simp add: 1(3))
  obtain q2 where 2: "mdrop (writeReg E tid dr7Info c) q1 = (Inr (), q2)" "regs_step q1 q2"
    "\<And>j. thread_of j q2 = (if j = tid then Some (?t1\<lparr>ts_Regs := put8 dr7Info c (ts_Regs ?t1)\<rparr>) else thread_of j q1)"
    by (rule mdrop_writeReg [OF t1 regs_step_threads_ok [OF 1(2) assms(2)] wide_drs(3)]) blast
  show ?thesis
  proof (rule that)
    show "replicate_to E i a c tid q = (Inr (), q2)" using False t 1(1) 2(1) by (simp add: replicate_to_def mbind_eq_Inr)
    show "regs_step q q2" by (rule regs_step_trans [OF 1(2) 2(2)])
    show "thread_of j q2 = (if j = tid \<and> tid \<noteq> currentThread q then map_option (set_dr i a c) (thread_of j q)
        else thread_of j q)" for j
      using False t by (simp add: 1(3) 2(3) set_dr_def)
  qed
qed

lemma replicate_loop:
  assumes "i < 4" "threads_ok (threads q)" "distinct xs"
  shows "\<exists>q'. mfor xs (replicate_to E i a c) q = (Inr (), q') \<and> regs_step q q' \<and>
    (\<forall>j. thread_of j q' = (if j \<in> set xs \<and> j \<noteq> currentThread q then map_option (set_dr i a c) (thread_of j q)
                          else thread_of j q))"
  using assms(2,3)
proof (induction xs arbitrary: q)
  case (Cons x xs)
  obtain q1 where 1: "replicate_to E i a c x q = (Inr (), q1)" "regs_step q q1"
    "\<And>j. thread_of j q1 = (if j = x \<and> x \<noteq> currentThread q then map_option (set_dr i a c) (thread_of j q)
        else thread_of j q)"
    using replicate_to_step [OF assms(1) Cons.prems(1)] by blast
  obtain q2 where 2: "mfor xs (replicate_to E i a c) q1 = (Inr (), q2)" "regs_step q1 q2"
    "\<forall>j. thread_of j q2 = (if j \<in> set xs \<and> j \<noteq> currentThread q1 then map_option (set_dr i a c) (thread_of j q1)
        else thread_of j q1)"
    using Cons.IH [OF regs_step_threads_ok [OF 1(2) Cons.prems(1)]] Cons.prems(2) by auto
  have "mfor (x # xs) (replicate_to E i a c) q = (Inr (), q2)" using 1(1) 2(1) by (simp add: mbind_eq_Inr)
  moreover have "regs_step q q2" by (rule regs_step_trans [OF 1(2) 2(2)])
  moreover have "\<forall>j. thread_of j q2 = (if j \<in> set (x # xs) \<and> j \<noteq> currentThread q
      then map_option (set_dr i a c) (thread_of j q) else thread_of j q)"
    using 1(3) 2(3) regs_step_same [OF 1(2)] Cons.prems(2) by auto
  ultimately show ?case by blast
qed (simp add: mret_def)

lemma thread_of_keys: "thread_of j p \<noteq> None \<longleftrightarrow> j \<in> set (map fst (threads p))"
  by (simp add: thread_of_def map_of_eq_None_iff)

lemma replicate_dr_step:
  assumes "i < 4" "threads_ok (threads q)" "range_law E" "replicate_dr E i a c q = (r, q')"
  shows "r = Inr () \<and> regs_step q q' \<and>
    (\<forall>j. thread_of j q' = (if j \<noteq> currentThread q then map_option (set_dr i a c) (thread_of j q) else thread_of j q))"
proof -
  have d: "distinct (tids E q)" "set (tids E q) = set (map fst (threads q))"
    using assms(2,3) by (simp_all add: tids_def range_law_def threads_ok_def)
  from replicate_loop [OF assms(1,2) d(1), of E a c] obtain q2 where
    2: "mfor (tids E q) (replicate_to E i a c) q = (Inr (), q2)" "regs_step q q2"
      "\<forall>j. thread_of j q2 = (if j \<in> set (tids E q) \<and> j \<noteq> currentThread q
        then map_option (set_dr i a c) (thread_of j q) else thread_of j q)"
    by blast
  have "thread_of j q = None" if "j \<notin> set (tids E q)" for j using that d(2) thread_of_keys [of j q] by simp
  then show ?thesis using 2 assms(4) unfolding replicate_dr_def by auto
qed

lemma current_regs:
  "Registers_of p \<noteq> None \<longleftrightarrow> (\<exists>t. thread_of (currentThread p) p = Some t)"
  by (auto simp: Registers_of_def)

lemma two_writes:
  assumes "m < 8" "n < 8" "m \<noteq> n" "threads_ok (threads p)" "thread_of tid p = Some t"
    and "writeReg E tid (entry_at (117 + m)) a p = (r, q1)" "writeReg E tid (entry_at (117 + n)) c q1 = (r', q2)"
  shows "regs_step p q2" "j \<noteq> tid \<Longrightarrow> thread_of j q2 = thread_of j p"
    "\<exists>t2. thread_of tid q2 = Some t2 \<and> get8 (entry_at (117 + m)) (ts_Regs t2) = a \<and>
       get8 (entry_at (117 + n)) (ts_Regs t2) = c"
proof -
  note s1 = writeReg_step [OF assms(5,4) wide_dr [OF assms(1)] assms(6)]
  let ?t1 = "t\<lparr>ts_Regs := put8 (entry_at (117 + m)) a (ts_Regs t)\<rparr>"
  have t1: "thread_of tid q1 = Some ?t1" by (simp add: s1(3))
  note ok1 = regs_step_threads_ok [OF s1(1) assms(4)]
  note s2 = writeReg_step [OF t1 ok1 wide_dr [OF assms(2)] assms(7)]
  show "regs_step p q2" by (rule regs_step_trans [OF s1(1) s2(1)])
  show "thread_of j q2 = thread_of j p" if "j \<noteq> tid" using that by (simp add: s1(3) s2(3))
  have "regs_ok (ts_Regs t)" by (rule threads_okD(1) [OF assms(4,5)])
  moreover have "regs_ok (ts_Regs ?t1)" by (rule threads_okD(1) [OF ok1 t1])
  ultimately show "\<exists>t2. thread_of tid q2 = Some t2 \<and> get8 (entry_at (117 + m)) (ts_Regs t2) = a \<and>
       get8 (entry_at (117 + n)) (ts_Regs t2) = c"
    using assms(1-3) by (simp add: s2(3) dr_get_put)
qed

text \<open>
  The core of both operations: after the two writes to the current thread and the replication,
  every thread has the address in the slot's register and the control word in \<open>DR7\<close>.
\<close>

lemma slot_written:
  assumes "i < 4" "threads_ok (threads p)" "range_law E"
    and "regs_step p q" "\<And>j. j \<noteq> currentThread p \<Longrightarrow> thread_of j q = thread_of j p"
    and "thread_of (currentThread p) q = Some t" "get8 (drInfo i) (ts_Regs t) = a" "get8 dr7Info (ts_Regs t) = c"
    and "replicate_dr E i a c q = (r, p')" "thread_of j p' = Some u"
  shows "get8 (drInfo i) (ts_Regs u) = a \<and> get8 dr7Info (ts_Regs u) = c"
proof (cases "j = currentThread p")
  case True
  have "thread_of j p' = thread_of j q"
    using replicate_dr_step [OF assms(1) regs_step_threads_ok [OF assms(4,2)] assms(3,9)] True
      regs_step_same [OF assms(4)] by simp
  then show ?thesis using assms(6-8,10) True by simp
next
  case False
  note q = regs_step_threads_ok [OF assms(4,2)]
  from False obtain v where v: "thread_of j q = Some v" "u = set_dr i a c v"
    using replicate_dr_step [OF assms(1) q assms(3,9)] regs_step_same [OF assms(4)] assms(10) by auto
  have ok: "regs_ok (ts_Regs v)" by (rule threads_okD(1) [OF q v(1)])
  have ok': "regs_ok (put8 (drInfo i) a (ts_Regs v))"
    using rf.ok_put [OF ok] wide_drs(1) [OF assms(1)] by (simp add: wide_def)
  show ?thesis
    using dr_get_put [OF ok', of i 7 c] dr_get_put [OF ok', of 7 7 c] dr_get_put [OF ok, of i i a] assms(1)
    by (simp add: v(2) set_dr_def drInfo_entry dr67_entry)
qed

lemma set_inv:
  assumes "setHardwareStoppoint E addr mode sz p = (Inr i, p')" "threads_ok (threads p)"
  obtains t se q1 q2 where "thread_of (currentThread p) p = Some t"
    "findFreeStoppointRegister (get8 dr7Info (ts_Regs t)) = Inr i" "encodeHardwareStoppointSize sz = Inr se"
    "writeReg E (currentThread p) (drInfo i) addr p = (Inr (), q1)"
    "writeReg E (currentThread p) dr7Info
       (dr7_set (get8 dr7Info (ts_Regs t)) i (encodeHardwareStoppointMode mode) se) q1 = (Inr (), q2)"
    "replicate_dr E i addr (dr7_set (get8 dr7Info (ts_Regs t)) i (encodeHardwareStoppointMode mode) se) q2 = (Inr (), p')"
proof -
  from assms(1) have "Registers_of p \<noteq> None" by (auto simp: setHardwareStoppoint_def split: if_splits)
  then obtain t where t: "thread_of (currentThread p) p = Some t" using current_regs by blast
  have "readReg (currentThread p) dr7Info p = Inr (get8 dr7Info (ts_Regs t))"
    by (rule readReg_wide [OF t threads_okD(1) [OF assms(2) t]]) simp
  with assms(1) show ?thesis using that [OF t, OF sym sym]
    by (auto simp: setHardwareStoppoint_def Let_def mbind_eq_Inr split: if_splits)
qed

lemma set_slot_armed:
  assumes "range_law E" "threads_ok (threads p)" "thread_of (currentThread p) p = Some t"
    and "setHardwareStoppoint E addr mode sz p = (Inr i, p')"
  shows "regs_step p p' \<and> i < 4 \<and> armed (get8 dr7Info (ts_Regs t)) i = None \<and> threads_ok (threads p') \<and>
    map fst (threads p') = map fst (threads p) \<and>
    (\<forall>tid u. thread_of tid p' = Some u \<longrightarrow> get8 (drInfo i) (ts_Regs u) = addr \<and>
      (\<forall>j<4. armed (get8 dr7Info (ts_Regs u)) j =
         (if j = i then Some (Some mode, sz) else armed (get8 dr7Info (ts_Regs t)) j)))"
proof -
  let ?c = "get8 dr7Info (ts_Regs t)"
  from set_inv [OF assms(4,2)] assms(3) obtain se q1 q2 where
    free: "findFreeStoppointRegister ?c = Inr i" and se: "encodeHardwareStoppointSize sz = Inr se"
    and w1: "writeReg E (currentThread p) (drInfo i) addr p = (Inr (), q1)"
    and w2: "writeReg E (currentThread p) dr7Info (dr7_set ?c i (encodeHardwareStoppointMode mode) se) q1 = (Inr (), q2)"
    and rep: "replicate_dr E i addr (dr7_set ?c i (encodeHardwareStoppointMode mode) se) q2 = (Inr (), p')"
    by (metis option.inject)
  let ?d = "dr7_set ?c i (encodeHardwareStoppointMode mode) se"
  have i: "i < 4" "armed ?c i = None" using find_free_upt [of 0 4 ?c i] free
    by (auto simp: findFreeStoppointRegister_def armed_None)
  note entries = drInfo_entry [OF i(1)] dr67_entry(2)
  note cur = two_writes [OF _ _ _ assms(2,3) w1 [unfolded entries] w2 [unfolded entries(2)], folded entries]
  have st: "regs_step p q2" using cur(1) i(1) by simp
  note ok2 = regs_step_threads_ok [OF st assms(2)]
  have frame: "thread_of j q2 = thread_of j p" if "j \<noteq> currentThread p" for j
    using cur(2) [OF _ _ _ that] i(1) by simp
  obtain t2 where t2: "thread_of (currentThread p) q2 = Some t2"
    and g: "get8 (drInfo i) (ts_Regs t2) = addr" "get8 dr7Info (ts_Regs t2) = ?d"
    using cur(3) i(1) by auto
  have w: "get8 (drInfo i) (ts_Regs u) = addr \<and> get8 dr7Info (ts_Regs u) = ?d" if "thread_of tid p' = Some u" for tid u
    by (rule slot_written [OF i(1) assms(2,1) st frame t2 g rep that])
  have "regs_step p p'"
    using regs_step_trans [OF st] replicate_dr_step [OF i(1) ok2 assms(1) rep] by blast
  moreover from this have "threads_ok (threads p')" "map fst (threads p') = map fst (threads p)"
    using assms(2) by (simp_all add: regs_step_def)
  ultimately show ?thesis using i w armed_dr7_set [OF i(1) _ se, of _ ?c mode] by auto
qed


lemma clear_inv:
  assumes "ClearHardwareStoppoint E idx p = (Inr (), p')" "threads_ok (threads p)"
  obtains t i q1 q2 where "thread_of (currentThread p) p = Some t" "idx = int i" "i < 4"
    "writeReg E (currentThread p) dr7Info (dr7_clear (get8 dr7Info (ts_Regs t)) i) p = (Inr (), q1)"
    "writeReg E (currentThread p) (drInfo i) 0 q1 = (Inr (), q2)"
    "replicate_dr E i 0 (dr7_clear (get8 dr7Info (ts_Regs t)) i) q2 = (Inr (), p')"
proof -
  from assms(1) have "Registers_of p \<noteq> None" "0 \<le> idx" "idx \<le> 3"
    by (auto simp: ClearHardwareStoppoint_def split: if_splits)
  then have i: "idx = int (nat idx)" "nat idx < 4" by auto
  obtain t where t: "thread_of (currentThread p) p = Some t"
    using \<open>Registers_of p \<noteq> None\<close> current_regs by blast
  have "readReg (currentThread p) dr7Info p = Inr (get8 dr7Info (ts_Regs t))"
    by (rule readReg_wide [OF t threads_okD(1) [OF assms(2) t]]) simp
  with assms(1) t i show ?thesis using that [OF t i]
    by (auto simp: ClearHardwareStoppoint_def Let_def mbind_eq_Inr split: if_splits)
qed


lemma flat_watch:
  "case setHardwareStoppoint flat_env 0x404010 StoppointModeWrite 4 flat_proc of (r, q) \<Rightarrow>
     r = Inr 0 \<and> \<not> Option.is_none (thread_of 2 q)"
  by code_simp


lemma flat_clear:
  "case ClearHardwareStoppoint flat_env (int 2) flat_proc of (r, q) \<Rightarrow> r = Inr () \<and> \<not> Option.is_none (thread_of 2 q)"
  by code_simp


end
