(* ===== verification/Breakpoints.thy ===== *)
theory Breakpoints
  imports Debug_Registers
begin

text \<open>
  Breakpoint sites and watchpoints at work: \<open>Enable\<close> and \<open>Disable\<close> of
  \<open>src/debugger/breakpoint_site.go\<close> and \<open>watchpoint.go\<close>, and the operations of \<open>process.go\<close> that
  create, remove and read around them.  The invariant \<open>trap_inv\<close> relates the tracee's memory to
  the bytes it would have without breakpoints.
\<close>

unbundle bit_operations_syntax

section \<open>Breakpoint sites\<close>

text \<open>
  The operations on a site change the site and the process it belongs to.  A software site is
  written with one word: the low byte is the byte at its address.
\<close>

definition Enable :: "'k env \<Rightarrow> BreakpointSite \<Rightarrow> 'k Process \<Rightarrow> unit res \<times> BreakpointSite \<times> 'k Process" where
  "Enable E b p =
     (if bp_isHardware b then
        (case SetHardwareBreakpoint E (bp_address b) p of
           (Inl e, p') \<Rightarrow> (Inl e, b, p')
         | (Inr idx, p') \<Rightarrow> (Inr (), b\<lparr>bp_hardwareRegisterIndex := int idx, bp_isEnabled := True\<rparr>, p'))
      else
        (case peekData (memory E) (bp_pid b) (bp_address b) (kernel p) of
           None \<Rightarrow> (Inl (Error PtraceFailed), b, p)
         | Some data \<Rightarrow>
           (let b1 = b\<lparr>bp_savedData := ucast (data AND 0xFF)\<rparr>;
                dataWithInt3 = (data AND NOT 0xFF) OR 0xCC
            in case pokeData (memory E) (bp_pid b) (bp_address b) dataWithInt3 (kernel p) of
                 None \<Rightarrow> (Inl (Error PtraceFailed), b1, p)
               | Some k \<Rightarrow> (Inr (), b1\<lparr>bp_isEnabled := True\<rparr>, p\<lparr>kernel := k\<rparr>))))"

definition Disable :: "'k env \<Rightarrow> BreakpointSite \<Rightarrow> 'k Process \<Rightarrow> unit res \<times> BreakpointSite \<times> 'k Process" where
  "Disable E b p =
     (if bp_isHardware b then
        (case ClearHardwareStoppoint E (bp_hardwareRegisterIndex b) p of
           (Inl e, p') \<Rightarrow> (Inl e, b, p')
         | (Inr _, p') \<Rightarrow> (Inr (), b\<lparr>bp_isEnabled := False\<rparr>, p'))
      else
        (case peekData (memory E) (bp_pid b) (bp_address b) (kernel p) of
           None \<Rightarrow> (Inl (Error PtraceFailed), b, p)
         | Some data \<Rightarrow>
           (let restoredData = (data AND NOT 0xFF) OR ucast (bp_savedData b)
            in case pokeData (memory E) (bp_pid b) (bp_address b) restoredData (kernel p) of
                 None \<Rightarrow> (Inl (Error PtraceFailed), b, p)
               | Some k \<Rightarrow> (Inr (), b\<lparr>bp_isEnabled := False\<rparr>, p\<lparr>kernel := k\<rparr>))))"

definition notifyHit :: "'k env \<Rightarrow> BreakpointSite \<Rightarrow> ('k Process, bool) st" where
  "notifyHit E b = (case bp_onHit b of None \<Rightarrow> mret False | Some h \<Rightarrow> onHit E h)"

text \<open>
  A method call through a site pointer: it works on the site of the collection (a site whose
  entry is gone lives on in the pointer) and the collection sees the change.
\<close>

definition put_site :: "BreakpointSite \<Rightarrow> 'k Process \<Rightarrow> 'k Process" where
  "put_site b p = p\<lparr>breakpointSites := (breakpointSites p)\<lparr>sites :=
     map (\<lambda>x. if bp_address x = bp_address b then b else x) (sites (breakpointSites p))\<rparr>\<rparr>"

definition on_site ::
  "(BreakpointSite \<Rightarrow> 'k Process \<Rightarrow> unit res \<times> BreakpointSite \<times> 'k Process) \<Rightarrow> BreakpointSite \<Rightarrow>
    ('k Process, unit) st" where
  "on_site f b p =
     (let cur = (case getByAddress (breakpointSites p) (bp_address b) of Some x \<Rightarrow> x | None \<Rightarrow> b);
          (r, b', p') = f cur p
      in (r, put_site b' p'))"

text \<open>\<open>atomic.AddInt32\<close> wraps at 32 bits; an internal site gets the id -1 but still uses up one.\<close>

definition nextBreakpointID :: "'k Process \<Rightarrow> i32 \<times> 'k Process" where
  "nextBreakpointID p = (let n = breakpointIDCounter p + 1 in (n, p\<lparr>breakpointIDCounter := n\<rparr>))"

definition CreateBreakpointSite :: "u64 \<Rightarrow> bool \<Rightarrow> bool \<Rightarrow> ('k Process, BreakpointSite) st" where
  "CreateBreakpointSite addr hardware internal p =
     (if containsAddress (breakpointSites p) addr then (Inl (Error (BreakpointExists addr)), p)
      else let (n, p1) = nextBreakpointID p;
               site = \<lparr>bp_id = (if internal then - 1 else n), bp_pid = p_pid p, bp_address = addr,
                       bp_isEnabled = False, bp_savedData = 0, bp_isHardware = hardware,
                       bp_isInternal = internal, bp_hardwareRegisterIndex = - 1, bp_onHit = None\<rparr>
           in (Inr site, p1\<lparr>breakpointSites := site_push site (breakpointSites p1)\<rparr>))"

definition BreakpointSites :: "'k Process \<Rightarrow> BreakpointSite list" where
  "BreakpointSites p = filter (\<lambda>s. \<not> bp_isInternal s) (sites (breakpointSites p))"

definition BreakpointSiteByID :: "'k Process \<Rightarrow> i32 \<Rightarrow> BreakpointSite option" where
  "BreakpointSiteByID p i = getByID (breakpointSites p) i"

definition RemoveBreakpointSite :: "'k env \<Rightarrow> i32 \<Rightarrow> ('k Process, unit) st" where
  "RemoveBreakpointSite E i p =
     (case getByID (breakpointSites p) i of
        None \<Rightarrow> (Inl (Error (NoSuchBreakpoint (sint i))), p)
      | Some site \<Rightarrow>
        mbind (if bp_isEnabled site then on_site (Disable E) site else mret ()) (\<lambda>_.
          mmodify (\<lambda>q. q\<lparr>breakpointSites := snd (removeByID i (breakpointSites q))\<rparr>)) p)"

text \<open>\<open>data[idx] = site.savedData\<close> panics out of range.\<close>

fun patch_out :: "u64 \<Rightarrow> BreakpointSite list \<Rightarrow> u8 list \<Rightarrow> u8 list res" where
  "patch_out addr [] data = Inr data"
| "patch_out addr (s # ss) data =
     (let idx = unat (bp_address s - addr) in
      if length data \<le> idx then Inl Panic else patch_out addr ss (data[idx := bp_savedData s]))"

definition ReadMemoryWithoutTraps :: "'k env \<Rightarrow> u64 \<Rightarrow> int \<Rightarrow> 'k Process \<Rightarrow> u8 list res" where
  "ReadMemoryWithoutTraps E addr amount p =
     rbind (ReadMemory (memory E) (p_pid p) addr amount (kernel p)) (\<lambda>data.
       patch_out addr (getInRegion (breakpointSites p) addr (addr + of_nat (length data))) data)"

section \<open>Watchpoints\<close>

definition UpdateData :: "'k env \<Rightarrow> Watchpoint \<Rightarrow> 'k Process \<Rightarrow> unit res \<times> Watchpoint" where
  "UpdateData E w p =
     (case ReadMemory (memory E) (p_pid p) (wp_address w) (wp_size w) (kernel p) of
        Inl e \<Rightarrow> (Inl e, w)
      | Inr buf \<Rightarrow>
        (let w1 = w\<lparr>wp_previousData := wp_data w\<rparr> in
         if wp_size w \<in> {1, 2, 4, 8} then
           (if length buf < nat (wp_size w) then (Inl Panic, w1)
            else (Inr (), w1\<lparr>wp_data := le_word (take (nat (wp_size w)) buf)\<rparr>))
         else (Inr (), w1)))"

definition wp_Enable :: "'k env \<Rightarrow> Watchpoint \<Rightarrow> 'k Process \<Rightarrow> unit res \<times> Watchpoint \<times> 'k Process" where
  "wp_Enable E w p =
     (case SetWatchpoint E (wp_address w) (wp_mode w) (wp_size w) p of
        (Inl e, p') \<Rightarrow> (Inl e, w, p')
      | (Inr idx, p') \<Rightarrow> (Inr (), w\<lparr>wp_hardwareRegisterIndex := int idx, wp_isEnabled := True\<rparr>, p'))"

definition wp_Disable :: "'k env \<Rightarrow> Watchpoint \<Rightarrow> 'k Process \<Rightarrow> unit res \<times> Watchpoint \<times> 'k Process" where
  "wp_Disable E w p =
     (case ClearHardwareStoppoint E (wp_hardwareRegisterIndex w) p of
        (Inl e, p') \<Rightarrow> (Inl e, w, p')
      | (Inr _, p') \<Rightarrow> (Inr (), w\<lparr>wp_isEnabled := False\<rparr>, p'))"

definition put_point :: "Watchpoint \<Rightarrow> 'k Process \<Rightarrow> 'k Process" where
  "put_point w p = p\<lparr>watchpoints := (watchpoints p)\<lparr>points :=
     map (\<lambda>x. if wp_address x = wp_address w then w else x) (points (watchpoints p))\<rparr>\<rparr>"

definition nextWatchpointID :: "'k Process \<Rightarrow> i32 \<times> 'k Process" where
  "nextWatchpointID p = (let n = watchpointIDCounter p + 1 in (n, p\<lparr>watchpointIDCounter := n\<rparr>))"

text \<open>The initial read of the watched value may fail without harm; a panic in it does not.\<close>

definition CreateWatchpoint :: "'k env \<Rightarrow> u64 \<Rightarrow> StoppointMode \<Rightarrow> int \<Rightarrow> ('k Process, Watchpoint) st" where
  "CreateWatchpoint E addr mode sz p =
     (if addr AND word_of_int (sz - 1) \<noteq> 0 then (Inl (Error (Misaligned addr sz)), p)
      else if wp_containsAddress (watchpoints p) addr then (Inl (Error (WatchpointExists addr)), p)
      else mbind (SetWatchpoint E addr mode sz) (\<lambda>idx q.
        let (n, q1) = nextWatchpointID q;
            wp = \<lparr>wp_id = n, wp_address = addr, wp_mode = mode, wp_size = sz, wp_isEnabled = True,
                  wp_hardwareRegisterIndex = int idx, wp_data = 0, wp_previousData = 0\<rparr>;
            (r, wp') = UpdateData E wp q1;
            q2 = q1\<lparr>watchpoints := wp_push wp' (watchpoints q1)\<rparr>
        in case r of Inl Panic \<Rightarrow> (Inl Panic, q2) | _ \<Rightarrow> (Inr wp', q2)) p)"

definition WatchpointByID :: "'k Process \<Rightarrow> i32 \<Rightarrow> Watchpoint option" where
  "WatchpointByID p i = wp_getByID (watchpoints p) i"

definition RemoveWatchpoint :: "'k env \<Rightarrow> i32 \<Rightarrow> ('k Process, unit) st" where
  "RemoveWatchpoint E i p =
     (case wp_getByID (watchpoints p) i of
        None \<Rightarrow> (Inl (Error (NoSuchWatchpoint (sint i))), p)
      | Some wp \<Rightarrow>
        mbind (\<lambda>q. if wp_isEnabled wp
                   then (let (r, wp', q') = wp_Disable E wp q in (r, put_point wp' q'))
                   else (Inr (), q)) (\<lambda>_.
          mmodify (\<lambda>q. q\<lparr>watchpoints := snd (wp_removeByID i (watchpoints q))\<rparr>)) p)"

section \<open>Traps in memory\<close>


lemma bit_0xFF: "bit (0xFF :: int) n \<longleftrightarrow> n < 8"
proof -
  have "(0xFF :: int) = mask 8" by (simp add: mask_eq_exp_minus_1)
  then show ?thesis by (simp only: bit_mask_iff) auto
qed

lemma low_byte_le_bytes:
  fixes w :: u64 and b :: u8
  shows "le_bytes 8 ((w AND NOT 0xFF) OR ucast b) = overwrite 0 [b] (le_bytes 8 w)"
proof -
  let ?v = "(w AND NOT 0xFF) OR ucast b"
  have "(ucast ?v :: u8) = b"
    by (rule bit_eqI) (auto simp: bit_simps bit_0xFF)
  moreover have "bit ?v (8 + n) = bit w (8 + n)" for n
    by (auto simp: bit_simps bit_0xFF dest: bit_imp_le_length)
  then have "drop_bit 8 ?v = drop_bit 8 w"
    by (simp only: bit_eq_iff bit_drop_bit_eq o_def simp_thms(6) imp_conjL) blast
  ultimately have "le_bytes (Suc 7) ?v = overwrite 0 [b] (le_bytes (Suc 7) w)"
    by (simp only: le_bytes_Suc overwrite_def) simp
  then show ?thesis by simp
qed

lemma ucast_low_byte: "(ucast (w AND 0xFF) :: u8) = ucast (w :: u64)"
  by (rule bit_eqI) (auto simp: bit_simps bit_0xFF)

lemma store_single: "store a [b] m = m(a := b)"
  by (auto simp: store_def fun_eq_iff unat_eq_zero)

text \<open>Peeking a word and poking it back with another low byte replaces exactly one byte.\<close>

lemma poke_low_byte:
  assumes "mem_laws ms pid view" "peekData ms pid a k = Some w" "pokeData ms pid a ((w AND NOT 0xFF) OR ucast b) k = Some k'"
  shows "view k' = (view k)(a := b)"
proof -
  have w: "le_bytes 8 w = bytes_at (view k) a 8"
    using mem_laws_dest(1) [OF assms(1,2)] le_bytes_bytes_at by simp
  have "view k' = store a (overwrite 0 [b] (bytes_at (view k) a 8)) (view k)"
    using mem_laws_dest(2) [OF assms(1,3)] w low_byte_le_bytes [of w b] by simp
  then show "view k' = (view k)(a := b)" using store_merge [of "[b]" 1 0 a "view k"] by (simp add: store_single)
qed

lemma peek_low_byte:
  assumes "mem_laws ms pid view" "peekData ms pid a k = Some w"
  shows "(ucast w :: u8) = view k a"
proof -
  have "le_bytes 8 w = bytes_at (view k) a 8" using mem_laws_dest(1) [OF assms] le_bytes_bytes_at by simp
  then have "le_bytes 8 w ! 0 = view k a" by simp
  then show ?thesis by (simp add: le_bytes_def)
qed

definition sw_enabled :: "BreakpointSite \<Rightarrow> bool" where
  "sw_enabled s \<longleftrightarrow> bp_isEnabled s \<and> \<not> bp_isHardware s"

text \<open>
  The tracee's memory is \<open>orig\<close> with an \<open>int3\<close> at every enabled software site, and each of these sites
  holds the byte it replaced.
\<close>

definition trap_inv :: "('k \<Rightarrow> u64 \<Rightarrow> u8) \<Rightarrow> (u64 \<Rightarrow> u8) \<Rightarrow> 'k Process \<Rightarrow> bool" where
  "trap_inv view orig p \<longleftrightarrow>
     (let ss = sites (breakpointSites p) in
      distinct (map bp_address ss) \<and>
      (\<forall>x. view (kernel p) x = (if \<exists>s\<in>set ss. sw_enabled s \<and> bp_address s = x then 0xCC else orig x)) \<and>
      (\<forall>s\<in>set ss. sw_enabled s \<longrightarrow> bp_savedData s = orig (bp_address s)) \<and>
      (\<forall>s\<in>set ss. bp_pid s = p_pid p))"

lemma trap_invD:
  assumes "trap_inv view orig p"
  shows "distinct (map bp_address (sites (breakpointSites p)))"
    "view (kernel p) x = (if \<exists>s\<in>set (sites (breakpointSites p)). sw_enabled s \<and> bp_address s = x then 0xCC else orig x)"
    "s \<in> set (sites (breakpointSites p)) \<Longrightarrow> sw_enabled s \<Longrightarrow> bp_savedData s = orig (bp_address s)"
    "s \<in> set (sites (breakpointSites p)) \<Longrightarrow> bp_pid s = p_pid p"
  using assms by (auto simp: trap_inv_def Let_def)

lemma find_address:
  assumes "distinct (map bp_address ss)" "s \<in> set ss"
  shows "find (\<lambda>x. bp_address x = bp_address s) ss = Some s"
  using assms by (induction ss) (auto simp: image_iff)

text \<open>
  The site operations keep the invariant when the new site \<open>b\<close> and the new memory agree with
  \<open>orig\<close> at its address and nothing else has changed.
\<close>

lemma trap_inv_put_site:
  assumes inv: "trap_inv view orig p" and s: "s \<in> set (sites (breakpointSites p))"
    and same: "bp_address b = bp_address s" "bp_pid b = bp_pid s" "breakpointSites p' = breakpointSites p" "p_pid p' = p_pid p"
    and mem: "view (kernel p') = (view (kernel p))(bp_address s := (if sw_enabled b then 0xCC else orig (bp_address s)))"
    and saved: "sw_enabled b \<Longrightarrow> bp_savedData b = orig (bp_address s)"
  shows "trap_inv view orig (put_site b p')"
proof -
  let ?ss = "sites (breakpointSites p)" and ?f = "\<lambda>x. if bp_address x = bp_address b then b else x"
  have addr: "bp_address (?f x) = bp_address x" for x by simp
  have ss: "sites (breakpointSites (put_site b p')) = map ?f ?ss" "kernel (put_site b p') = kernel p'"
    "p_pid (put_site b p') = p_pid p" by (simp_all add: put_site_def same)
  have d: "distinct (map bp_address (map ?f ?ss))"
    using trap_invD(1) [OF inv] by (simp add: o_def addr if_distrib cong: if_cong)
  have mem': "x \<in> set (map ?f ?ss) \<longleftrightarrow> x = b \<or> x \<in> set ?ss \<and> bp_address x \<noteq> bp_address s" for x
    using s same(1) by (auto simp: image_iff)
  have "view (kernel p') x = (if \<exists>y\<in>set (map ?f ?ss). sw_enabled y \<and> bp_address y = x then 0xCC else orig x)" for x
  proof (cases "x = bp_address s")
    case True
    have "(\<exists>y\<in>set (map ?f ?ss). sw_enabled y \<and> bp_address y = x) \<longleftrightarrow> sw_enabled b"
      using True same(1) unfolding Bex_def mem' by auto
    then show ?thesis using True mem by simp
  next
    case False
    have "(\<exists>y\<in>set (map ?f ?ss). sw_enabled y \<and> bp_address y = x) \<longleftrightarrow> (\<exists>y\<in>set ?ss. sw_enabled y \<and> bp_address y = x)"
      using False same(1) unfolding Bex_def mem' by auto
    then show ?thesis using False mem trap_invD(2) [OF inv, of x] by simp
  qed
  moreover have "bp_savedData y = orig (bp_address y)" if "y \<in> set (map ?f ?ss)" "sw_enabled y" for y
    using that(2) that(1) [unfolded mem'] saved same(1) trap_invD(3) [OF inv, of y] by auto
  moreover have "bp_pid y = p_pid p" if "y \<in> set (map ?f ?ss)" for y
    using that [unfolded mem'] same(2) trap_invD(4) [OF inv, of y] trap_invD(4) [OF inv s] by auto
  ultimately show ?thesis unfolding trap_inv_def Let_def ss using d by blast
qed

section \<open>Histories of breakpoint operations\<close>

text \<open>Register requests do not touch the tracee's memory.\<close>

definition user_mem_frame :: "'k user_ops \<Rightarrow> ('k \<Rightarrow> u64 \<Rightarrow> u8) \<Rightarrow> bool" where
  "user_mem_frame os view \<longleftrightarrow>
     (\<forall>tid off w k k'. pokeUser os tid off w k = Some k' \<longrightarrow> view k' = view k) \<and>
     (\<forall>tid bs k k'. setFPRegs os tid bs k = Some k' \<longrightarrow> view k' = view k)"

definition same_mem :: "('k \<Rightarrow> u64 \<Rightarrow> u8) \<Rightarrow> (u64 \<Rightarrow> u8) \<Rightarrow> breakpointSiteCollection \<Rightarrow> int \<Rightarrow> 'k Process \<Rightarrow> bool" where
  "same_mem view m c pid p \<longleftrightarrow> view (kernel p) = m \<and> breakpointSites p = c \<and> p_pid p = pid"

lemma keeps_writeReg [keeps_intros]:
  assumes "user_mem_frame (user E) view"
  shows "keeps (same_mem view m c pid) (writeReg E tid info v)"
proof (rule keepsI)
  fix s r t assume s: "same_mem view m c pid s" and w: "writeReg E tid info v s = (r, t)"
  have "view (snd (snd (Write (user E) info val rs k))) = view k" for val rs k
    using assms by (auto simp: Write_def user_mem_frame_def split: option.splits sum.splits)
  then show "same_mem view m c pid t" using s w
    by (auto simp: writeReg_def same_mem_def upd_thread_def split: option.splits prod.splits) (metis snd_conv)+
qed

lemma keeps_replicate [keeps_intros]:
  assumes "user_mem_frame (user E) view"
  shows "keeps (same_mem view m c pid) (replicate_dr E i a d)"
proof (rule keeps_at)
  have body: "keeps (same_mem view m c pid) (replicate_to E i a d tid)" for tid
    by (rule keeps_at) (simp add: replicate_to_def keeps_app [OF _ _] keeps_intros assms)
  fix s assume "same_mem view m c pid s"
  then show "same_mem view m c pid (snd (replicate_dr E i a d s))"
    unfolding replicate_dr_def by (rule keeps_app [OF keeps_mfor [OF body]])
qed

lemma keeps_setHardwareStoppoint [keeps_intros]:
  assumes "user_mem_frame (user E) view"
  shows "keeps (same_mem view m c pid) (setHardwareStoppoint E addr mode sz)"
proof (rule keeps_at)
  fix s assume "same_mem view m c pid s"
  then show "same_mem view m c pid (snd (setHardwareStoppoint E addr mode sz s))"
    unfolding setHardwareStoppoint_def Let_def
    by (cases "Registers_of s = None") (simp_all add: keeps_app keeps_intros assms)
qed

lemma keeps_ClearHardwareStoppoint [keeps_intros]:
  assumes "user_mem_frame (user E) view"
  shows "keeps (same_mem view m c pid) (ClearHardwareStoppoint E idx)"
proof (rule keeps_at)
  fix s assume "same_mem view m c pid s"
  then show "same_mem view m c pid (snd (ClearHardwareStoppoint E idx s))"
    unfolding ClearHardwareStoppoint_def Let_def
    by (cases "Registers_of s = None") (simp_all add: keeps_app keeps_intros assms)
qed

lemma trap_inv_at:
  assumes "trap_inv view orig p" "s \<in> set (sites (breakpointSites p))"
  shows "view (kernel p) (bp_address s) = (if sw_enabled s then 0xCC else orig (bp_address s))"
proof -
  have "y = s" if "y \<in> set (sites (breakpointSites p))" "bp_address y = bp_address s" for y
    using that assms(2) trap_invD(1) [OF assms(1)] by (auto simp: distinct_map dest: inj_onD)
  then show ?thesis using trap_invD(2) [OF assms(1), of "bp_address s"] assms(2) by auto
qed

text \<open>An operation on a site that leaves memory alone and does not change its software state.\<close>

lemma trap_inv_same_mem:
  assumes "trap_inv view orig p" "s \<in> set (sites (breakpointSites p))"
    and "same_mem view (view (kernel p)) (breakpointSites p) (p_pid p) p'"
    and "bp_address b = bp_address s" "bp_pid b = bp_pid s" "sw_enabled b = sw_enabled s"
    and "sw_enabled s \<Longrightarrow> bp_savedData b = bp_savedData s"
  shows "trap_inv view orig (put_site b p')"
proof (rule trap_inv_put_site [OF assms(1,2,4,5)])
  show "breakpointSites p' = breakpointSites p" "p_pid p' = p_pid p" using assms(3) by (simp_all add: same_mem_def)
  show "view (kernel p') = (view (kernel p))(bp_address s := if sw_enabled b then 0xCC else orig (bp_address s))"
    using assms(3,6) trap_inv_at [OF assms(1,2)] by (auto simp: same_mem_def fun_upd_idem)
  show "bp_savedData b = orig (bp_address s)" if "sw_enabled b"
    using that assms(6,7) trap_invD(3) [OF assms(1,2)] by simp
qed

lemma trap_inv_Enable:
  assumes "mem_laws (memory E) (p_pid p) view" "user_mem_frame (user E) view" "trap_inv view orig p"
    and "s \<in> set (sites (breakpointSites p))" "\<not> bp_isEnabled s" "Enable E s p = (r, b, p')"
  shows "trap_inv view orig (put_site b p')"
proof (cases "bp_isHardware s")
  case True
  obtain r1 q where h: "SetHardwareBreakpoint E (bp_address s) p = (r1, q)" by fastforce
  have "same_mem view (view (kernel p)) (breakpointSites p) (p_pid p) q"
    using keepsD [OF keeps_setHardwareStoppoint [OF assms(2)] _ h [unfolded SetHardwareBreakpoint_def]]
    by (simp add: same_mem_def)
  then show ?thesis using True h assms(6)
    by (intro trap_inv_same_mem [OF assms(3,4)]) (auto simp: Enable_def sw_enabled_def split: sum.splits)
next
  case False
  let ?a = "bp_address s"
  have pid: "bp_pid s = p_pid p" by (rule trap_invD(4) [OF assms(3,4)])
  have off: "\<not> sw_enabled s" using assms(5) by (simp add: sw_enabled_def)
  have cc: "(0xCC :: u64) = ucast (0xCC :: u8)" by simp
  have stays: "trap_inv view orig (put_site b p)"
    if "\<not> bp_isEnabled b" "bp_address b = ?a" "bp_pid b = bp_pid s" for b
    using that off by (intro trap_inv_same_mem [OF assms(3,4)]) (auto simp: same_mem_def sw_enabled_def)
  note def = assms(6) [unfolded Enable_def Let_def pid cc]
  show ?thesis
  proof (cases "peekData (memory E) (p_pid p) ?a (kernel p)")
    case None
    then show ?thesis using def False stays assms(5) by simp
  next
    case (Some w)
    show ?thesis
    proof (cases "pokeData (memory E) (p_pid p) ?a ((w AND NOT 0xFF) OR ucast (0xCC :: u8)) (kernel p)")
      case None
      then have "b = s\<lparr>bp_savedData := ucast (w AND 0xFF)\<rparr>" "p' = p" using def False Some by simp_all
      then show ?thesis using stays [of b] assms(5) by simp
    next
      case k: (Some k)
      then have b: "b = s\<lparr>bp_savedData := ucast (w AND 0xFF), bp_isEnabled := True\<rparr>" "p' = p\<lparr>kernel := k\<rparr>"
        using def False Some by simp_all
      note m = poke_low_byte [OF assms(1) Some k] peek_low_byte [OF assms(1) Some]
      show ?thesis using trap_inv_at [OF assms(3,4)] off False m
        by (intro trap_inv_put_site [OF assms(3,4)]) (simp_all add: b sw_enabled_def ucast_low_byte)
    qed
  qed
qed

lemma trap_inv_Disable:
  assumes "mem_laws (memory E) (p_pid p) view" "user_mem_frame (user E) view" "trap_inv view orig p"
    and "s \<in> set (sites (breakpointSites p))" "bp_isEnabled s" "Disable E s p = (r, b, p')"
  shows "trap_inv view orig (put_site b p')"
proof (cases "bp_isHardware s")
  case True
  obtain r1 q where h: "ClearHardwareStoppoint E (bp_hardwareRegisterIndex s) p = (r1, q)" by fastforce
  have "same_mem view (view (kernel p)) (breakpointSites p) (p_pid p) q"
    using keepsD [OF keeps_ClearHardwareStoppoint [OF assms(2)] _ h] by (simp add: same_mem_def)
  then show ?thesis using True h assms(6)
    by (intro trap_inv_same_mem [OF assms(3,4)]) (auto simp: Disable_def sw_enabled_def split: sum.splits)
next
  case False
  let ?a = "bp_address s"
  have pid: "bp_pid s = p_pid p" by (rule trap_invD(4) [OF assms(3,4)])
  have on: "sw_enabled s" using assms(5) False by (simp add: sw_enabled_def)
  have stays: "trap_inv view orig (put_site s p)"
    by (intro trap_inv_same_mem [OF assms(3,4)]) (simp_all add: same_mem_def)
  note def = assms(6) [unfolded Disable_def Let_def pid]
  show ?thesis
  proof (cases "peekData (memory E) (p_pid p) ?a (kernel p)")
    case None
    then show ?thesis using def False stays by simp
  next
    case (Some w)
    show ?thesis
    proof (cases "pokeData (memory E) (p_pid p) ?a ((w AND NOT 0xFF) OR ucast (bp_savedData s)) (kernel p)")
      case None
      then show ?thesis using def False Some stays by simp
    next
      case k: (Some k)
      then have b: "b = s\<lparr>bp_isEnabled := False\<rparr>" "p' = p\<lparr>kernel := k\<rparr>" using def False Some by simp_all
      note m = poke_low_byte [OF assms(1) Some k] peek_low_byte [OF assms(1) Some]
      show ?thesis using trap_invD(3) [OF assms(3,4) on] m
        by (intro trap_inv_put_site [OF assms(3,4)]) (simp_all add: b sw_enabled_def)
    qed
  qed
qed

lemma on_site_member:
  assumes "trap_inv view orig p" "s \<in> set (sites (breakpointSites p))"
  shows "on_site f s p = (case f s p of (r, b, p') \<Rightarrow> (r, put_site b p'))"
  using find_address [OF trap_invD(1) [OF assms(1)] assms(2)] by (simp add: on_site_def getByAddress_def)

lemma trap_inv_push:
  assumes "trap_inv view orig p" "\<not> sw_enabled b" "bp_address b \<notin> bp_address ` set (sites (breakpointSites p))"
    and "bp_pid b = p_pid p" "sites (breakpointSites p') = sites (breakpointSites p) @ [b]"
    and "kernel p' = kernel p" "p_pid p' = p_pid p"
  shows "trap_inv view orig p'"
proof -
  have e: "(\<exists>s\<in>set (sites (breakpointSites p')). sw_enabled s \<and> bp_address s = x) \<longleftrightarrow>
      (\<exists>s\<in>set (sites (breakpointSites p)). sw_enabled s \<and> bp_address s = x)" for x
    using assms(2,5) by auto
  have "distinct (map bp_address (sites (breakpointSites p')))"
    using assms(3,5) trap_invD(1) [OF assms(1)] by simp
  moreover have "bp_savedData s = orig (bp_address s)" if "s \<in> set (sites (breakpointSites p'))" "sw_enabled s" for s
    using that assms(2,5) trap_invD(3) [OF assms(1)] by auto
  moreover have "bp_pid s = p_pid p" if "s \<in> set (sites (breakpointSites p'))" for s
    using that assms(4,5) trap_invD(4) [OF assms(1)] by auto
  ultimately show ?thesis using trap_invD(2) [OF assms(1)] unfolding trap_inv_def Let_def e assms(6,7) by blast
qed

lemma trap_inv_Create:
  assumes "trap_inv view orig p" "CreateBreakpointSite addr hw internal p = (r, p')"
  shows "trap_inv view orig p'"
proof (cases "containsAddress (breakpointSites p) addr")
  case True
  then show ?thesis using assms by (simp add: CreateBreakpointSite_def)
next
  case False
  show ?thesis
    by (rule trap_inv_push [OF assms(1)])
      (use assms(2) False in \<open>auto simp: CreateBreakpointSite_def nextBreakpointID_def Let_def sw_enabled_def
        site_push_def containsAddress_def list_ex_iff\<close>)
qed

lemma trap_inv_removeByID:
  assumes "trap_inv view orig p" "getByID (breakpointSites p) i = Some x" "\<not> sw_enabled x"
  shows "trap_inv view orig (p\<lparr>breakpointSites := snd (removeByID i (breakpointSites p))\<rparr>)"
proof -
  let ?c = "breakpointSites p"
  have d: "bpc.addrs_distinct ?c" using trap_invD(1) [OF assms(1)] by (simp add: bpc.addrs_distinct_def)
  have d': "distinct (map bp_address (sites (snd (removeByID i ?c))))"
    using bpc.remove_distinct [OF d] by (simp add: bpc.addrs_distinct_def)
  have s: "set (sites (snd (removeByID i ?c))) = set (sites ?c) - {x}" by (rule bpc.remove_set [OF d assms(2)])
  then have "(\<exists>s\<in>set (sites (snd (removeByID i ?c))). sw_enabled s \<and> bp_address s = a) \<longleftrightarrow>
      (\<exists>s\<in>set (sites ?c). sw_enabled s \<and> bp_address s = a)" for a
    using assms(3) by auto
  then show ?thesis using assms(1) d' s unfolding trap_inv_def Let_def by simp
qed

lemma find_map_same:
  "(\<And>x. x \<in> set xs \<Longrightarrow> P (f x) = P x) \<Longrightarrow> find P (map f xs) = map_option f (find P xs)"
  by (induction xs) auto

lemma Disable_site:
  assumes "Disable E s p = (Inr (), b, p')"
  shows "bp_id b = bp_id s" "bp_address b = bp_address s" "\<not> bp_isEnabled b"
  using assms by (auto simp: Disable_def Let_def split: if_splits option.splits sum.splits prod.splits)

lemma Disable_sites:
  assumes "user_mem_frame (user E) view" "Disable E s p = (r, b, p')"
  shows "breakpointSites p' = breakpointSites p"
proof (cases "bp_isHardware s")
  case True
  obtain r1 q where h: "ClearHardwareStoppoint E (bp_hardwareRegisterIndex s) p = (r1, q)" by fastforce
  have "same_mem view (view (kernel p)) (breakpointSites p) (p_pid p) q"
    using keepsD [OF keeps_ClearHardwareStoppoint [OF assms(1)] _ h] by (simp add: same_mem_def)
  with True h assms(2) show ?thesis by (auto simp: Disable_def same_mem_def split: sum.splits)
qed (use assms(2) in \<open>auto simp: Disable_def Let_def split: option.splits\<close>)

lemma trap_inv_Remove:
  assumes "mem_laws (memory E) (p_pid p) view" "user_mem_frame (user E) view" "trap_inv view orig p"
    and "RemoveBreakpointSite E i p = (r, p')"
  shows "trap_inv view orig p'"
proof (cases "getByID (breakpointSites p) i")
  case None
  then show ?thesis using assms(3,4) by (simp add: RemoveBreakpointSite_def)
next
  case (Some s)
  then have s: "s \<in> set (sites (breakpointSites p))" "bp_id s = i" using bpc.lookup_mem by blast+
  show ?thesis
  proof (cases "bp_isEnabled s")
    case False
    then have "p' = p\<lparr>breakpointSites := snd (removeByID i (breakpointSites p))\<rparr>"
      using assms(4) Some by (simp add: RemoveBreakpointSite_def mmodify_def)
    then show ?thesis using trap_inv_removeByID [OF assms(3) Some] False by (simp add: sw_enabled_def)
  next
    case True
    obtain r1 b q where d: "Disable E s p = (r1, b, q)" by (metis prod_cases3)
    have inv: "trap_inv view orig (put_site b q)" by (rule trap_inv_Disable [OF assms(1-3) s(1) True d])
    have on: "on_site (Disable E) s p = (r1, put_site b q)" by (simp add: on_site_member [OF assms(3) s(1)] d)
    show ?thesis
    proof (cases r1)
      case (Inl e)
      then show ?thesis using assms(4) Some True on inv by (simp add: RemoveBreakpointSite_def mbind_def)
    next
      case r1: (Inr u)
      note b = Disable_site [OF d [unfolded r1, simplified]]
      let ?f = "\<lambda>x. if bp_address x = bp_address b then b else x"
      have "bp_id (?f x) = bp_id x" if "x \<in> set (sites (breakpointSites p))" for x
        using that s(1) b trap_invD(1) [OF assms(3)] by (auto simp: distinct_map dest: inj_onD)
      then have "getByID (breakpointSites (put_site b q)) i = Some b"
        using Some b find_map_same [of "sites (breakpointSites p)" "\<lambda>x. bp_id x = i" ?f]
        by (simp add: put_site_def getByID_def Disable_sites [OF assms(2) d])
      then have "trap_inv view orig ((put_site b q)\<lparr>breakpointSites := snd (removeByID i (breakpointSites (put_site b q)))\<rparr>)"
        by (rule trap_inv_removeByID [OF inv]) (use b in \<open>simp add: sw_enabled_def\<close>)
      moreover have "p' = (put_site b q)\<lparr>breakpointSites := snd (removeByID i (breakpointSites (put_site b q)))\<rparr>"
        using assms(4) Some True on r1 by (simp add: RemoveBreakpointSite_def mbind_def mmodify_def)
      ultimately show ?thesis by simp
    qed
  qed
qed

text \<open>
  What a client may do: create sites, enable disabled ones, disable enabled ones, remove sites,
  each with any outcome.
\<close>

inductive bp_step :: "'k env \<Rightarrow> 'k Process \<Rightarrow> 'k Process \<Rightarrow> bool" for E where
  create: "CreateBreakpointSite addr hw internal p = (r, p') \<Longrightarrow> bp_step E p p'"
| enable: "s \<in> set (sites (breakpointSites p)) \<Longrightarrow> \<not> bp_isEnabled s \<Longrightarrow>
    on_site (Enable E) s p = (u, p') \<Longrightarrow> bp_step E p p'"
| disable: "s \<in> set (sites (breakpointSites p)) \<Longrightarrow> bp_isEnabled s \<Longrightarrow>
    on_site (Disable E) s p = (u, p') \<Longrightarrow> bp_step E p p'"
| remove: "RemoveBreakpointSite E i p = (u, p') \<Longrightarrow> bp_step E p p'"

inductive bp_steps :: "'k env \<Rightarrow> 'k Process \<Rightarrow> 'k Process \<Rightarrow> bool" for E where
  bp_refl: "bp_steps E p p"
| bp_trans: "bp_steps E p q \<Longrightarrow> bp_step E q r \<Longrightarrow> bp_steps E p r"

lemma trap_inv_step:
  assumes "bp_step E p p'" "mem_laws (memory E) (p_pid p) view" "user_mem_frame (user E) view" "trap_inv view orig p"
  shows "trap_inv view orig p'"
  using assms
proof (induction rule: bp_step.induct)
  case (enable s p u p')
  obtain r b q where "Enable E s p = (r, b, q)" by (metis prod_cases3)
  then show ?case using enable trap_inv_Enable [OF enable(4-6,1,2)] on_site_member [OF enable(6,1)] by auto
next
  case (disable s p u p')
  obtain r b q where "Disable E s p = (r, b, q)" by (metis prod_cases3)
  then show ?case using disable trap_inv_Disable [OF disable(4-6,1,2)] on_site_member [OF disable(6,1)] by auto
qed (blast intro: trap_inv_Create trap_inv_Remove)+

lemma site_op_pid:
  assumes "user_mem_frame (user E) view"
  shows "Enable E s p = (r, b, p') \<Longrightarrow> p_pid p' = p_pid p" "Disable E s p = (r, b, p') \<Longrightarrow> p_pid p' = p_pid p"
proof -
  have h: "p_pid q = p_pid p" if "SetHardwareBreakpoint E (bp_address s) p = (u, q)" for u q
    using keepsD [OF keeps_setHardwareStoppoint [OF assms] _ that [unfolded SetHardwareBreakpoint_def],
        of "view (kernel p)" "breakpointSites p" "p_pid p"] by (simp add: same_mem_def)
  have c: "p_pid q = p_pid p" if "ClearHardwareStoppoint E (bp_hardwareRegisterIndex s) p = (u, q)" for u q
    using keepsD [OF keeps_ClearHardwareStoppoint [OF assms] _ that,
        of "view (kernel p)" "breakpointSites p" "p_pid p"] by (simp add: same_mem_def)
  show "p_pid p' = p_pid p" if "Enable E s p = (r, b, p')"
    using that h by (auto simp: Enable_def Let_def split: if_splits option.splits prod.splits sum.splits)
  show "p_pid p' = p_pid p" if "Disable E s p = (r, b, p')"
    using that c by (auto simp: Disable_def Let_def split: if_splits option.splits prod.splits sum.splits)
qed

lemma on_site_pid:
  assumes "\<And>s r b q q'. f s q = (r, b, q') \<Longrightarrow> p_pid q' = p_pid q" "on_site f s p = (u, p')"
  shows "p_pid p' = p_pid p"
  using assms(2) assms(1) by (auto simp: on_site_def put_site_def Let_def split: prod.splits)

lemma bp_step_pid:
  assumes "bp_step E p p'" "user_mem_frame (user E) view"
  shows "p_pid p' = p_pid p"
  using assms(1)
proof cases
  case (remove i u)
  then show ?thesis using on_site_pid [OF site_op_pid(2) [OF assms(2)]]
    by (auto simp: RemoveBreakpointSite_def mbind_def mret_def mmodify_def
        split: option.splits if_splits prod.splits sum.splits)
qed (use on_site_pid [OF site_op_pid(1) [OF assms(2)]] on_site_pid [OF site_op_pid(2) [OF assms(2)]] in
  \<open>auto simp: CreateBreakpointSite_def nextBreakpointID_def Let_def split: if_splits\<close>)

lemma trap_inv_steps:
  assumes "bp_steps E p p'" "mem_laws (memory E) (p_pid p) view" "user_mem_frame (user E) view" "trap_inv view orig p"
  shows "trap_inv view orig p' \<and> p_pid p' = p_pid p"
  using assms
proof (induction rule: bp_steps.induct)
  case (bp_trans p q r)
  then show ?case using trap_inv_step [OF bp_trans(2), of view orig] bp_step_pid [OF bp_trans(2)] by metis
qed simp

section \<open>Reading around the traps\<close>

lemma patch_out_spec:
  assumes "\<forall>s\<in>set ss. unat (bp_address s - addr) < length data \<and> bp_savedData s = orig (bp_address s)"
    and "length data \<le> 2 ^ 64"
  shows "\<exists>data'. patch_out addr ss data = Inr data' \<and> length data' = length data \<and>
    (\<forall>j<length data. data' ! j = (if \<exists>s\<in>set ss. bp_address s = addr + of_nat j then orig (addr + of_nat j) else data ! j))"
  using assms
proof (induction ss arbitrary: data)
  case (Cons s ss)
  let ?i = "unat (bp_address s - addr)"
  have i: "?i < length data" "bp_savedData s = orig (bp_address s)" using Cons.prems by auto
  have a: "bp_address s = addr + of_nat ?i" by simp
  obtain data' where d: "patch_out addr ss (data[?i := bp_savedData s]) = Inr data'" "length data' = length data"
    "\<forall>j<length data. data' ! j = (if \<exists>s\<in>set ss. bp_address s = addr + of_nat j then orig (addr + of_nat j)
       else data[?i := bp_savedData s] ! j)"
    using Cons.IH [of "data[?i := bp_savedData s]"] Cons.prems by auto
  have "data' ! j = (if \<exists>s\<in>set (s # ss). bp_address s = addr + of_nat j then orig (addr + of_nat j) else data ! j)"
    if "j < length data" for j
  proof (cases "j = ?i")
    case True
    then show ?thesis using d(3) i that a by auto
  next
    case False
    have "unat (of_nat j :: u64) = j"
      using that Cons.prems(2) by (simp add: unat_of_nat take_bit_nat_eq_self)
    with False have "bp_address s \<noteq> addr + of_nat j" by auto
    then show ?thesis using d(3) that False by auto
  qed
  then show ?case using d i by (auto simp: Let_def)
qed simp

lemma in_range_offset:
  fixes addr a :: u64
  assumes "unat addr + n < 2 ^ 64"
  shows "addr \<le> a \<and> a < addr + of_nat n \<longleftrightarrow> unat (a - addr) < n"
proof -
  have "unat (addr + of_nat n :: u64) = unat addr + n"
    using assms by (simp add: unat_add_lem [THEN iffD1] unat_of_nat take_bit_nat_eq_self unat_word_ariths)
  then show ?thesis
    using assms by (auto simp: word_le_nat_alt word_less_nat_alt unat_sub_if')
qed

lemma ReadMemoryWithoutTraps_orig:
  assumes "mem_laws (memory E) (p_pid p) view" "trap_inv view orig p" "unat addr + nat amount < 2 ^ 64" "amount < 2 ^ 63"
    and "ReadMemory (memory E) (p_pid p) addr amount (kernel p) = Inr data"
  shows "ReadMemoryWithoutTraps E addr amount p = Inr (take (length data) (bytes_at orig addr (nat amount)))"
proof -
  let ?n = "length data" and ?ss = "sites (breakpointSites p)"
  note rd = ReadMemory_bytes [OF assms(1,5,4)]
  have n: "unat addr + ?n < 2 ^ 64" using rd(2) assms(3) by linarith
  let ?reg = "getInRegion (breakpointSites p) addr (addr + of_nat ?n)"
  have reg: "s \<in> set ?reg \<longleftrightarrow> s \<in> set ?ss \<and> sw_enabled s \<and> unat (bp_address s - addr) < ?n" for s
    using in_range_offset [OF n] by (auto simp: getInRegion_def InRange_def sw_enabled_def)
  have "\<forall>s\<in>set ?reg. unat (bp_address s - addr) < ?n \<and> bp_savedData s = orig (bp_address s)"
    using reg trap_invD(3) [OF assms(2)] by blast
  from patch_out_spec [OF this] n obtain data' where d: "patch_out addr ?reg data = Inr data'" "length data' = ?n"
    "\<forall>j<?n. data' ! j = (if \<exists>s\<in>set ?reg. bp_address s = addr + of_nat j then orig (addr + of_nat j) else data ! j)"
    by (metis add_leE less_imp_le_nat)
  have "data' ! j = orig (addr + of_nat j)" if "j < ?n" for j
  proof -
    have j: "unat (of_nat j :: u64) = j" using that n by (simp add: unat_of_nat take_bit_nat_eq_self)
    have "data ! j = view (kernel p) (addr + of_nat j)"
      using rd that by (metis bytes_at_nth nth_take order.strict_trans2)
    then show ?thesis using d(3) that trap_invD(2) [OF assms(2), of "addr + of_nat j"] reg j
      by (auto split: if_splits)
  qed
  then have "data' = take ?n (bytes_at orig addr (nat amount))"
    using d(2) rd(2) by (intro nth_equalityI) auto
  then show ?thesis using d(1) assms(5) by (simp add: ReadMemoryWithoutTraps_def)
qed


definition demo_created :: "(u64 \<Rightarrow> u8) Process" where
  "demo_created = snd (CreateBreakpointSite 0x401010 False False flat_proc)"

definition demo_site :: BreakpointSite where
  "demo_site = hd (sites (breakpointSites demo_created))"

definition demo_enabled :: "(u64 \<Rightarrow> u8) Process" where
  "demo_enabled = snd (on_site (Enable flat_env) demo_site demo_created)"

lemma flat_user_frame: "user_mem_frame (user flat_env) (\<lambda>k. k)"
  by (simp add: user_mem_frame_def flat_user_def)

lemma demo_steps: "bp_steps flat_env flat_proc demo_enabled"
proof -
  have "bp_step flat_env flat_proc demo_created"
    unfolding demo_created_def by (rule bp_step.create) (rule prod.collapse [symmetric])
  moreover have "demo_site \<in> set (sites (breakpointSites demo_created))" "\<not> bp_isEnabled demo_site"
    by (simp_all add: demo_site_def demo_created_def CreateBreakpointSite_def flat_proc_def
        containsAddress_def nextBreakpointID_def site_push_def Let_def)
  then have "bp_step flat_env demo_created demo_enabled"
    unfolding demo_enabled_def by (rule bp_step.enable) (rule prod.collapse [symmetric])
  ultimately show ?thesis by (blast intro: bp_steps.intros)
qed

lemma demo_read:
  "ReadMemory (memory flat_env) (p_pid demo_enabled) 0x401008 16 (kernel demo_enabled) =
     Inr (bytes_at (kernel demo_enabled) 0x401008 16)"
proof -
  have "list_all (\<lambda>(a, len). one_page a) (remoteIov 0x401008 (word_of_int 16))" by code_simp
  then show ?thesis using flat_read [of 16 one_page "0x401008"] by simp
qed

lemma demo_trap: "kernel demo_enabled 0x401010 = 0xCC"
  by code_simp


text \<open>
  \<open>Enable\<close> does not look at \<open>isEnabled\<close>: on a site that is enabled already it saves the \<open>int3\<close> as
  the original byte, and no later \<open>Disable\<close> brings the original back.
\<close>

lemma Enable_twice_loses_byte:
  assumes "mem_laws (memory E) (p_pid p) view" "trap_inv view orig p" "s \<in> set (sites (breakpointSites p))"
    and "sw_enabled s" "Enable E s p = (Inr (), b, p')"
  shows "bp_savedData b = 0xCC"
proof -
  have "view (kernel p) (bp_address s) = 0xCC" using trap_inv_at [OF assms(2,3)] assms(4) by simp
  moreover have "bp_pid s = p_pid p" by (rule trap_invD(4) [OF assms(2,3)])
  ultimately show ?thesis using assms(4,5) peek_low_byte [OF assms(1)]
    unfolding Enable_def Let_def sw_enabled_def by (auto simp: ucast_low_byte split: option.splits)
qed

section \<open>Finding the watchpoint that triggered\<close>

lemma UpdateData_keys:
  assumes "UpdateData E w p = (r, w')"
  shows "wp_id w' = wp_id w \<and> wp_address w' = wp_address w \<and>
    wp_hardwareRegisterIndex w' = wp_hardwareRegisterIndex w"
  using assms by (auto simp: UpdateData_def Let_def split: sum.splits if_splits)

lemma Create_inv:
  assumes "CreateWatchpoint E addr mode sz p = (Inr wp, p')"
  obtains i q1 where "\<not> wp_containsAddress (watchpoints p) addr" "setHardwareStoppoint E addr mode sz p = (Inr i, q1)"
    "wp_address wp = addr" "wp_hardwareRegisterIndex wp = int i" "threads p' = threads q1"
    "currentThread p' = currentThread q1" "watchpoints p' = wp_push wp (watchpoints q1)"
proof -
  have fresh: "\<not> wp_containsAddress (watchpoints p) addr" and al: "addr AND word_of_int (sz - 1) = 0"
    using assms unfolding CreateWatchpoint_def by (simp_all split: if_splits)
  note def = assms [unfolded CreateWatchpoint_def if_not_P [OF fresh] al, simplified]
  from def obtain i q1 where s: "SetWatchpoint E addr mode sz p = (Inr i, q1)" by (auto simp: mbind_eq_Inr)
  define w0 where "w0 = \<lparr>wp_id = watchpointIDCounter q1 + 1, wp_address = addr, wp_mode = mode, wp_size = sz,
    wp_isEnabled = True, wp_hardwareRegisterIndex = int i, wp_data = 0, wp_previousData = 0\<rparr>"
  define q2 where "q2 = q1\<lparr>watchpointIDCounter := watchpointIDCounter q1 + 1\<rparr>"
  obtain r w where u: "UpdateData E w0 q2 = (r, w)" by fastforce
  have "w = wp" "p' = q2\<lparr>watchpoints := wp_push w (watchpoints q2)\<rparr>"
    using def s u unfolding mbind_def nextWatchpointID_def w0_def q2_def
    by (auto simp: Let_def split: sum.splits failure.splits)
  moreover have "wp_address w = addr" "wp_hardwareRegisterIndex w = int i"
    using UpdateData_keys [OF u] by (simp_all add: w0_def)
  moreover have "setHardwareStoppoint E addr mode sz p = (Inr i, q1)"
    using s by (simp add: SetWatchpoint_def split: if_splits)
  ultimately show ?thesis using fresh that by (simp add: q2_def)
qed

text \<open>
  C23 (functional).  When the kernel reports the slot of a watchpoint in \<open>DR6\<close> after its creation,
  \<open>GetCurrentHardwareStoppoint\<close> names that watchpoint.
\<close>

theorem watchpoint_identified:
  assumes "range_law E" "threads_ok (threads p)" "CreateWatchpoint E addr mode sz p = (Inr wp, p')"
    and "q = upd_thread (currentThread p') (\<lambda>t. t\<lparr>ts_Regs := put8 dr6Info dr6 (ts_Regs t)\<rparr>) p'"
    and "dr6 AND 0xF \<noteq> 0" "int (TrailingZeros64 (dr6 AND 0xF)) = wp_hardwareRegisterIndex wp"
  shows "GetCurrentHardwareStoppoint q =
    Inr \<lparr>hs_IsWatchpoint = True, hs_BreakpointID = 0, hs_WatchpointID = wp_id wp\<rparr>"
proof -
  from Create_inv [OF assms(3)] obtain i q1 where fresh: "\<not> wp_containsAddress (watchpoints p) addr"
    and set: "setHardwareStoppoint E addr mode sz p = (Inr i, q1)"
    and wp: "wp_address wp = addr" "wp_hardwareRegisterIndex wp = int i"
    and p': "threads p' = threads q1" "currentThread p' = currentThread q1"
      "watchpoints p' = wp_push wp (watchpoints q1)" .
  from set_inv [OF set assms(2)] obtain t where t: "thread_of (currentThread p) p = Some t" .
  note arms = set_slot_armed [OF assms(1,2) t set]
  have st: "regs_step p q1" and i: "i < 4" and ok: "threads_ok (threads q1)" using arms by blast+
  note same = regs_step_same [OF st]
  obtain u where u: "thread_of (currentThread p) q1 = Some u"
    using t st thread_of_keys [of "currentThread p" p] thread_of_keys [of "currentThread p" q1]
    by (auto simp: regs_step_def)
  have a: "get8 (drInfo i) (ts_Regs u) = addr" using arms u by blast
  have oku: "regs_ok (ts_Regs u)" by (rule threads_okD(1) [OF ok u])
  let ?r = "put8 dr6Info dr6 (ts_Regs u)"
  have okr: "regs_ok ?r" using rf.ok_put [OF oku] wide_drs(2) by (simp add: wide_def)
  have g: "get8 dr6Info ?r = dr6" "get8 (drInfo i) ?r = addr"
    using dr_get_put [OF oku, of 6 6 dr6] dr_get_put [OF oku, of i 6 dr6] a i
    by (simp_all add: dr67_entry drInfo_entry)
  have cur: "currentThread q = currentThread p" by (simp add: assms(4) p'(2) upd_thread_def same)
  have "thread_of (currentThread p) p' = Some u" using u p'(1) by (simp add: thread_of_def)
  then have tq: "thread_of (currentThread q) q = Some (u\<lparr>ts_Regs := ?r\<rparr>)"
    using p'(2) same by (simp add: cur) (simp add: assms(4))
  have tz: "TrailingZeros64 (dr6 AND 0xF) = i" using assms(6) wp(2) by simp
  have pts: "points (watchpoints q) = points (watchpoints p) @ [wp]"
    using p'(3) same by (simp add: assms(4) upd_thread_def wp_push_def)
  have "find (\<lambda>w. wp_address w = addr \<and> wp_hardwareRegisterIndex w = int i) (points (watchpoints p) @ [wp]) = Some wp"
    using fresh wp unfolding find_split wp_containsAddress_def list_ex_iff by blast
  then show ?thesis
    using assms(5) tz g readReg_wide [OF tq _ wide_drs(2)] readReg_wide [OF tq _ wide_drs(1) [OF i]] okr tq
    by (simp add: GetCurrentHardwareStoppoint_def Registers_of_def pts Let_def)
qed

definition demo_watched :: "(u64 \<Rightarrow> u8) Process" where
  "demo_watched = snd (CreateWatchpoint flat_env 0x401010 StoppointModeWrite 4 flat_proc)"

lemma demo_watch:
  "map_sum id (\<lambda>w. (wp_id w, wp_hardwareRegisterIndex w))
     (fst (CreateWatchpoint flat_env 0x401010 StoppointModeWrite 4 flat_proc)) = Inr (1, 0)"
  by code_simp

theorem watchpoint_identified_witness:
  "GetCurrentHardwareStoppoint
     (upd_thread (currentThread demo_watched) (\<lambda>t. t\<lparr>ts_Regs := put8 dr6Info 1 (ts_Regs t)\<rparr>) demo_watched) =
   Inr \<lparr>hs_IsWatchpoint = True, hs_BreakpointID = 0, hs_WatchpointID = 1\<rparr>"
proof -
  obtain wp where w: "fst (CreateWatchpoint flat_env 0x401010 StoppointModeWrite 4 flat_proc) = Inr wp"
    "wp_id wp = 1" "wp_hardwareRegisterIndex wp = 0"
    using demo_watch by (cases "fst (CreateWatchpoint flat_env 0x401010 StoppointModeWrite 4 flat_proc)") auto
  then have "CreateWatchpoint flat_env 0x401010 StoppointModeWrite 4 flat_proc = (Inr wp, demo_watched)"
    unfolding demo_watched_def by (metis prod.collapse)
  moreover have "TrailingZeros64 (1 AND 0xF) = 0" by code_simp
  ultimately show ?thesis
    using watchpoint_identified [OF flat_range flat_threads_ok _ refl, of "0x401010" StoppointModeWrite 4 wp demo_watched 1]
      w by simp
qed

end
