(* ===== verification/Process_Control.thy ===== *)
theory Process_Control
  imports Breakpoints
begin

text \<open>
  Running and stopping: the signal handling, stepping and resuming of \<open>src/debugger/process.go\<close>,
  with attach and close.  A wait blocks until the kernel reports a thread; the retry of
  \<open>waitOnSignalFor\<close> is bounded by fuel, since the tracee may go on for ever without a stop to
  report.
\<close>

unbundle bit_operations_syntax

section \<open>Stop reasons\<close>

definition siKernel :: i32 where "siKernel = 0x80"
definition trapTrace :: i32 where "trapTrace = 2"
definition trapHWBkpt :: i32 where "trapHWBkpt = 4"

text \<open>\<open>if ri, ok := RegisterInfoByName(name); ok { ... }\<close> around a typed read.\<close>

definition readNamed :: "Registers \<Rightarrow> string \<Rightarrow> u64 res" where
  "readNamed regs name = (case RegisterInfoByName name of
      None \<Rightarrow> Inr 0 | Some info \<Rightarrow> readRegisterUint64 regs info)"

definition argRegs :: "string list" where
  "argRegs = [''rdi'', ''rsi'', ''rdx'', ''r10'', ''r8'', ''r9'']"

fun readArgs :: "Registers \<Rightarrow> string list \<Rightarrow> u64 list res" where
  "readArgs regs [] = Inr []"
| "readArgs regs (n # ns) = rbind (readNamed regs n) (\<lambda>v. rbind (readArgs regs ns) (\<lambda>vs. Inr (v # vs)))"

definition syscallInfo :: "Registers \<Rightarrow> bool \<Rightarrow> SyscallInformation res" where
  "syscallInfo regs entry =
     rbind (readNamed regs ''orig_rax'') (\<lambda>nr.
       if entry then rbind (readArgs regs argRegs) (\<lambda>args.
         Inr \<lparr>si_ID = ucast nr, si_Entry = True, si_Args = args, si_Ret = 0\<rparr>)
       else rbind (readNamed regs ''rax'') (\<lambda>ret.
         Inr \<lparr>si_ID = ucast nr, si_Entry = False, si_Args = replicate 6 0, si_Ret = ret\<rparr>))"

text \<open>
  \<open>augmentStopReasonForThread\<close> returns the augmented reason; the thread must be tracked (a nil
  dereference panics).
\<close>

definition augmentStopReasonForThread :: "'k env \<Rightarrow> int \<Rightarrow> StopReason \<Rightarrow> ('k Process, StopReason) st" where
  "augmentStopReasonForThread E tid reason p =
     (if sr_Reason reason \<noteq> ProcessStopped then (Inr reason, p)
      else case thread_of tid p of
        None \<Rightarrow> (Inl Panic, p)
      | Some t \<Rightarrow>
        if sr_Info reason = SIGTRAP OR 0x80 then
          (let entry = \<not> ts_ExpectingSyscallExit t;
               p1 = upd_thread tid (\<lambda>t. t\<lparr>ts_ExpectingSyscallExit := entry\<rparr>) p
           in case syscallInfo (ts_Regs t) entry of
                Inl e \<Rightarrow> (Inl e, p1)
              | Inr info \<Rightarrow>
                (Inr (reason\<lparr>sr_TrapReason := Some TrapSyscall, sr_Info := SIGTRAP, sr_SyscallInfo := Some info\<rparr>), p1))
        else if sr_Info reason \<noteq> SIGTRAP then (Inr reason, p)
        else (Inr (reason\<lparr>sr_TrapReason := Some
               (case sys_getSigInfo E tid (kernel p) of
                  None \<Rightarrow> TrapUnknown
                | Some code \<Rightarrow>
                    if code = siKernel then TrapSoftwareBreak
                    else if code = trapTrace then TrapSingleStep
                    else if code = trapHWBkpt then TrapHardwareBreak
                    else TrapUnknown)\<rparr>), p))"

definition shouldResumeFromSyscall :: "StopReason \<Rightarrow> 'k Process \<Rightarrow> bool" where
  "shouldResumeFromSyscall reason p =
     (case sr_SyscallInfo reason of
        None \<Rightarrow> False
      | Some info \<Rightarrow>
          if cp_mode (syscallCatchPolicy p) = 2 then False
          else if cp_mode (syscallCatchPolicy p) = 1 \<and> policy_contains (syscallCatchPolicy p) (uint (si_ID info)) then False
          else True)"

section \<open>Stepping and resuming\<close>

definition swallowPendingSigstop :: "'k env \<Rightarrow> int \<Rightarrow> ('k Process, unit) st" where
  "swallowPendingSigstop E tid p =
     (case thread_of tid p of
        None \<Rightarrow> (Inr (), p)
      | Some t \<Rightarrow>
        if \<not> ts_PendingSigstop t then (Inr (), p)
        else mbind (mdrop (request (sys_cont E tid))) (\<lambda>_.
             mbind (mdrop (wait4 E tid wall)) (\<lambda>_.
             mmodify (upd_thread tid (\<lambda>t. t\<lparr>ts_PendingSigstop := False\<rparr>)))) p)"

text \<open>A call whose error makes the caller run \<open>fixup\<close> first and then return the error.\<close>

definition or_else :: "('s, 'a) st \<Rightarrow> ('s, unit) st \<Rightarrow> ('s, 'a) st" where
  "or_else m fixup = mbind (mtry m) (\<lambda>r. case r of
      Inl e \<Rightarrow> mbind (mdrop fixup) (\<lambda>_. mfail e) | Inr x \<Rightarrow> mret x)"

definition stepOverBreakpointForThread :: "'k env \<Rightarrow> int \<Rightarrow> ('k Process, unit) st" where
  "stepOverBreakpointForThread E tid p =
     (case getPCForThread tid p of
        Inl e \<Rightarrow> (Inl e, p)
      | Inr pc \<Rightarrow>
        (case enabledAtAddress (breakpointSites p) pc of
           None \<Rightarrow> (Inr (), p)
         | Some site \<Rightarrow>
           mbind (on_site (Disable E) site) (\<lambda>_.
           mbind (swallowPendingSigstop E tid) (\<lambda>_.
           mbind (or_else (request (sys_singleStep E tid)) (on_site (Enable E) site)) (\<lambda>_.
           mbind (or_else (wait4 E tid wall) (on_site (Enable E) site)) (\<lambda>_.
           on_site (Enable E) site)))) p))"

definition sendContinue :: "'k env \<Rightarrow> int \<Rightarrow> ('k Process, unit) st" where
  "sendContinue E tid p =
     mbind (request (if \<not> IsNone (syscallCatchPolicy p) then sys_syscall E tid else sys_cont E tid)) (\<lambda>_.
       mmodify (\<lambda>q. (upd_thread tid (\<lambda>t. t\<lparr>ts_State := ProcessRunning\<rparr>) q)\<lparr>p_state := ProcessRunning\<rparr>)) p"

definition Resume :: "'k env \<Rightarrow> ('k Process, unit) st" where
  "Resume E p =
     mbind (stepOverBreakpointForThread E (currentThread p)) (\<lambda>_. sendContinue E (currentThread p)) p"

definition stopped :: "int \<Rightarrow> 'k Process \<Rightarrow> bool" where
  "stopped tid p \<longleftrightarrow> (\<exists>t. thread_of tid p = Some t \<and> ts_State t = ProcessStopped)"

definition if_stopped :: "(int \<Rightarrow> ('k Process, unit) st) \<Rightarrow> int \<Rightarrow> ('k Process, unit) st" where
  "if_stopped f tid p =
     (case thread_of tid p of
        None \<Rightarrow> (Inr (), p)
      | Some t \<Rightarrow> if ts_State t = ProcessStopped then f tid p else (Inr (), p))"

definition ResumeAllThreads :: "'k env \<Rightarrow> ('k Process, unit) st" where
  "ResumeAllThreads E p =
     mbind (\<lambda>q. mfor (tids E q) (if_stopped (stepOverBreakpointForThread E)) q) (\<lambda>_ q.
       mfor (tids E q) (if_stopped (sendContinue E)) q) p"

section \<open>Signals\<close>

definition newThread :: "int \<Rightarrow> ThreadState" where
  "newThread tid = \<lparr>ts_TID = tid,
     ts_Regs = \<lparr>g_pid = tid, gprs = replicate 216 0, fprs = replicate 512 0, dregs = replicate 64 0\<rparr>,
     ts_State = ProcessStopped, ts_Reason = stop ProcessStopped 0 0, ts_PendingSigstop = False,
     ts_ExpectingSyscallExit = False\<rparr>"

definition add_thread :: "int \<Rightarrow> ThreadState \<Rightarrow> 'k Process \<Rightarrow> 'k Process" where
  "add_thread tid t p = p\<lparr>threads := AList.update tid t (threads p)\<rparr>"

definition del_thread :: "int \<Rightarrow> 'k Process \<Rightarrow> 'k Process" where
  "del_thread tid p = p\<lparr>threads := AList.delete tid (threads p)\<rparr>"

definition readAllThread :: "'k env \<Rightarrow> int \<Rightarrow> ('k Process, unit) st" where
  "readAllThread E tid p =
     (case thread_of tid p of
        None \<Rightarrow> (Inl Panic, p)
      | Some t \<Rightarrow>
        (let (r, regs) = readAll (user E) (kernel p) (ts_Regs t)
         in (r, upd_thread tid (\<lambda>t. t\<lparr>ts_Regs := regs\<rparr>) p)))"

definition reportThreadLifecycle :: "'k env \<Rightarrow> StopReason \<Rightarrow> ('k Process, unit) st" where
  "reportThreadLifecycle E reason = mmodify (onLifecycle E reason)"

text \<open>
  The three cases of a trap.  Each tells whether the thread should just be resumed.
\<close>

definition softwareBreak :: "'k env \<Rightarrow> int \<Rightarrow> bool \<Rightarrow> ('k Process, bool) st" where
  "softwareBreak E tid isMainStop p =
     (case getPCForThread tid p of
        Inl Panic \<Rightarrow> (Inl Panic, p)
      | Inl OutOfFuel \<Rightarrow> (Inl OutOfFuel, p)
      | Inl (Error e) \<Rightarrow> (Inr False, p)
      | Inr pc \<Rightarrow>
        (case enabledSoftwareAtAddress (breakpointSites p) (pc - 1) of
           None \<Rightarrow> (Inr False, p)
         | Some site \<Rightarrow>
           mbind (mdrop (setPCForThread E tid (pc - 1))) (\<lambda>_.
           mbind (notifyHit E site) (\<lambda>hit. mret (hit \<and> isMainStop))) p))"

definition hardwareBreak :: "'k env \<Rightarrow> int \<Rightarrow> ('k Process, bool) st" where
  "hardwareBreak E tid p =
     mbind (mget (readReg tid dr6Info)) (\<lambda>dr6.
       let triggered = dr6 AND 0xF in
       if triggered = 0 then mret False
       else let index = TrailingZeros64 triggered in
         mbind (mget (readReg tid (drInfo index))) (\<lambda>addr q.
           case find (\<lambda>wp. wp_address wp = addr \<and> wp_hardwareRegisterIndex wp = int index) (points (watchpoints q)) of
             None \<Rightarrow> (Inr False, q)
           | Some wp \<Rightarrow>
             (case UpdateData E wp q of
                (Inl Panic, wp') \<Rightarrow> (Inl Panic, put_point wp' q)
              | (_, wp') \<Rightarrow> (Inr False, put_point wp' q)))) p"

definition trapAction :: "'k env \<Rightarrow> int \<Rightarrow> bool \<Rightarrow> StopReason \<Rightarrow> ('k Process, bool) st" where
  "trapAction E tid isMainStop reason p =
     (case sr_TrapReason reason of
        Some TrapSoftwareBreak \<Rightarrow> softwareBreak E tid isMainStop p
      | Some TrapHardwareBreak \<Rightarrow> hardwareBreak E tid p
      | Some TrapSyscall \<Rightarrow> (Inr (isMainStop \<and> shouldResumeFromSyscall reason p), p)
      | _ \<Rightarrow> (Inr False, p))"

text \<open>
  \<open>discover\<close> registers an unknown stopped thread and \<open>consume\<close> drops an expected \<open>SIGSTOP\<close>; both
  tell whether \<open>handleSignal\<close> returns nil at that point.
\<close>

definition discover :: "'k env \<Rightarrow> int \<Rightarrow> bool \<Rightarrow> StopReason \<Rightarrow> ('k Process, bool) st" where
  "discover E tid isMainStop reason p =
     (if thread_of tid p \<noteq> None then (Inr False, p)
      else mbind (mmodify (add_thread tid (newThread tid))) (\<lambda>_.
           mbind (mdrop (request (sys_setOptions E tid (ptraceOTraceSysGood OR ptraceOTraceClone)))) (\<lambda>_.
           mbind (reportThreadLifecycle E reason) (\<lambda>_.
           mret isMainStop))) p)"

definition consume :: "int \<Rightarrow> StopReason \<Rightarrow> ('k Process, bool) st" where
  "consume tid reason p =
     (case thread_of tid p of
        None \<Rightarrow> (Inr False, p)
      | Some t \<Rightarrow>
        if ts_PendingSigstop t \<and> sr_Info reason = SIGSTOP
        then (Inr True, upd_thread tid (\<lambda>t. t\<lparr>ts_PendingSigstop := False\<rparr>) p)
        else (Inr False, p))"

definition inspect :: "'k env \<Rightarrow> int \<Rightarrow> bool \<Rightarrow> StopReason \<Rightarrow> ('k Process, StopReason option) st" where
  "inspect E tid isMainStop reason p =
     (if thread_of tid p = None then (Inr (Some reason), p)
      else mbind (mdrop (readAllThread E tid)) (\<lambda>_.
           mbind (augmentStopReasonForThread E tid reason) (\<lambda>reason'.
           mbind (trapAction E tid isMainStop reason') (\<lambda>resume.
           mret (if resume then None else Some reason')))) p)"

definition handleSignal :: "'k env \<Rightarrow> StopReason \<Rightarrow> bool \<Rightarrow> ('k Process, StopReason option) st" where
  "handleSignal E reason isMainStop p =
     (let tid = sr_TID reason in
      if sr_TrapReason reason = Some TrapClone \<and> isMainStop then (Inr None, p)
      else if isAttached p \<and> sr_Reason reason = ProcessStopped then
        mbind (discover E tid isMainStop reason) (\<lambda>quit.
          if quit then mret None
          else mbind (consume tid reason) (\<lambda>quit.
            if quit then mret None else inspect E tid isMainStop reason)) p
      else (Inr (Some reason), p))"

section \<open>Waiting\<close>

text \<open>
  One iteration of the loop of \<open>stopRunningThreads\<close>: send \<open>SIGSTOP\<close> unless one is pending, wait, and
  record the stop.  Another signal than \<open>SIGSTOP\<close> leaves ours queued.
\<close>

definition recordStop :: "'k env \<Rightarrow> int \<Rightarrow> StopReason \<Rightarrow> ('k Process, unit) st" where
  "recordStop E tid threadReason =
     mbind (if sr_Reason threadReason = ProcessStopped
            then mmodify (upd_thread tid (\<lambda>t. t\<lparr>ts_PendingSigstop := (sr_Info threadReason \<noteq> SIGSTOP)\<rparr>))
            else mret ()) (\<lambda>_.
     mbind (handleSignal E threadReason False) (\<lambda>augmented.
       let rsn = (case augmented of None \<Rightarrow> threadReason | Some a \<Rightarrow> a) in
       mmodify (upd_thread tid (\<lambda>t. t\<lparr>ts_Reason := rsn, ts_State := sr_Reason rsn\<rparr>))))"

definition stopThread :: "'k env \<Rightarrow> int \<Rightarrow> int \<Rightarrow> ('k Process, unit) st" where
  "stopThread E excludeTID tid p =
     (case thread_of tid p of
        None \<Rightarrow> (Inr (), p)
      | Some t \<Rightarrow>
        if tid = excludeTID \<or> ts_State t \<noteq> ProcessRunning then (Inr (), p)
        else
          mbind (if \<not> ts_PendingSigstop t then mdrop (request (sys_tgkill E (p_pid p) tid SIGSTOP)) else mret ()) (\<lambda>_.
          mbind (mtry (wait4 E tid wall)) (\<lambda>r.
            case r of
              Inl e \<Rightarrow> mret ()
            | Inr (waitedTid, ws) \<Rightarrow> recordStop E tid (newStopReason waitedTid ws))) p)"

definition stopRunningThreads :: "'k env \<Rightarrow> int \<Rightarrow> ('k Process, unit) st" where
  "stopRunningThreads E excludeTID p = mfor (tids E p) (stopThread E excludeTID) p"

text \<open>\<open>cleanupExitedThreads\<close>: the loop over the threads, then the removals.\<close>

fun cleanup_loop :: "'k env \<Rightarrow> int \<Rightarrow> int list \<Rightarrow> int list \<Rightarrow> StopReason option \<Rightarrow>
    'k Process \<Rightarrow> (int list \<times> StopReason option) \<times> 'k Process" where
  "cleanup_loop E mainStopTID [] toRemove mainExit p = ((toRemove, mainExit), p)"
| "cleanup_loop E mainStopTID (tid # ts) toRemove mainExit p =
     (case thread_of tid p of
        None \<Rightarrow> cleanup_loop E mainStopTID ts toRemove mainExit p
      | Some t \<Rightarrow>
        if tid \<noteq> mainStopTID \<and> (ts_State t = ProcessExited \<or> ts_State t = ProcessTerminated)
        then cleanup_loop E mainStopTID ts (toRemove @ [tid])
               (if tid = p_pid p then Some (ts_Reason t) else mainExit) (onLifecycle E (ts_Reason t) p)
        else cleanup_loop E mainStopTID ts toRemove mainExit p)"

definition cleanupExitedThreads :: "'k env \<Rightarrow> int \<Rightarrow> ('k Process, StopReason option) st" where
  "cleanupExitedThreads E mainStopTID p =
     (let ((toRemove, mainExit), p') = cleanup_loop E mainStopTID (tids E p) [] None p
      in (Inr mainExit, fold del_thread toRemove p'))"

text \<open>
  \<open>waitOnSignalFor\<close>.  The error of the \<open>sendContinue\<close> before a retry is dropped, as in the source.
\<close>

fun waitOnSignalFor :: "'k env \<Rightarrow> nat \<Rightarrow> int \<Rightarrow> ('k Process, StopReason) st" where
  "waitOnSignalFor E 0 toAwait p = (Inl OutOfFuel, p)"
| "waitOnSignalFor E (Suc fuel) toAwait p =
     mbind (wait4 E toAwait wall) (\<lambda>(tid, ws).
     mbind (handleSignal E (newStopReason tid ws) True) (\<lambda>final.
       case final of
         None \<Rightarrow> mbind (mdrop (sendContinue E tid)) (\<lambda>_. waitOnSignalFor E fuel toAwait)
       | Some reason \<Rightarrow>
         mbind (mmodify (upd_thread tid (\<lambda>t. t\<lparr>ts_Reason := reason, ts_State := sr_Reason reason\<rparr>))) (\<lambda>_.
           if sr_Reason reason = ProcessExited \<or> sr_Reason reason = ProcessTerminated then
             mbind (reportThreadLifecycle E reason) (\<lambda>_ q.
               if tid = p_pid q then (Inr reason, q\<lparr>p_state := sr_Reason reason\<rparr>)
               else waitOnSignalFor E fuel (- 1) (del_thread tid q))
           else
             mbind (stopRunningThreads E tid) (\<lambda>_.
             mbind (cleanupExitedThreads E tid) (\<lambda>mainExit.
               let reason' = (case mainExit of None \<Rightarrow> reason | Some r \<Rightarrow> r) in
               mbind (mmodify (\<lambda>q. q\<lparr>p_state := sr_Reason reason', currentThread := tid\<rparr>)) (\<lambda>_.
               mret reason')))))) p"

definition WaitOnSignal :: "'k env \<Rightarrow> nat \<Rightarrow> ('k Process, StopReason) st" where
  "WaitOnSignal E fuel = waitOnSignalFor E fuel (- 1)"

definition StepInstruction :: "'k env \<Rightarrow> nat \<Rightarrow> ('k Process, StopReason) st" where
  "StepInstruction E fuel p =
     (let tid = currentThread p in
      case getPCForThread tid p of
        Inl e \<Rightarrow> (Inl e, p)
      | Inr pc \<Rightarrow>
        (let bpAtPC = enabledAtAddress (breakpointSites p) pc;
             reenable = (case bpAtPC of None \<Rightarrow> mret () | Some site \<Rightarrow> on_site (Enable E) site)
         in mbind (case bpAtPC of None \<Rightarrow> mret () | Some site \<Rightarrow> on_site (Disable E) site) (\<lambda>_.
            mbind (swallowPendingSigstop E tid) (\<lambda>_.
            mbind (or_else (request (sys_singleStep E tid)) reenable) (\<lambda>_.
            mbind (mmodify (\<lambda>q. (upd_thread tid (\<lambda>t. t\<lparr>ts_State := ProcessRunning\<rparr>) q)\<lparr>p_state := ProcessRunning\<rparr>)) (\<lambda>_.
            mbind (or_else (waitOnSignalFor E fuel tid) reenable) (\<lambda>reason.
            mbind reenable (\<lambda>_. mret reason)))))) p))"

section \<open>Launching, attaching and closing\<close>

definition WNOHANG :: u64 where "WNOHANG = 1"

text \<open>The reaping loop of \<open>Close\<close>, which ends with the first error or when nothing is left.\<close>

fun reap :: "'k env \<Rightarrow> nat \<Rightarrow> ('k Process, unit) st" where
  "reap E 0 p = (Inl OutOfFuel, p)"
| "reap E (Suc fuel) p =
     mbind (mtry (wait4 E (- 1) (wall OR WNOHANG))) (\<lambda>r.
       case r of Inl e \<Rightarrow> mret () | Inr (pid, ws) \<Rightarrow> if pid \<le> 0 then mret () else reap E fuel) p"

definition unlockOSThread :: "('k Process, unit) st" where
  "unlockOSThread = mmodify (\<lambda>q. q\<lparr>osThreadLocks := osThreadLocks q - 1\<rparr>)"

definition lockOSThread :: "('k Process, unit) st" where
  "lockOSThread = mmodify (\<lambda>q. q\<lparr>osThreadLocks := osThreadLocks q + 1\<rparr>)"

definition stopAndWait :: "'k env \<Rightarrow> int \<Rightarrow> ('k Process, unit) st" where
  "stopAndWait E tid p =
     (case thread_of tid p of
        None \<Rightarrow> (Inr (), p)
      | Some t \<Rightarrow>
        if ts_State t = ProcessRunning
        then mbind (mdrop (request (sys_tgkill E (p_pid p) tid SIGSTOP))) (\<lambda>_. mdrop (wait4 E tid wall)) p
        else (Inr (), p))"

definition Close :: "'k env \<Rightarrow> nat \<Rightarrow> ('k Process, unit) st" where
  "Close E fuel p =
     (if p_pid p = 0 then (Inr (), p)
      else
        mbind (if isAttached p then
                 mbind (mfor (tids E p) (stopAndWait E)) (\<lambda>_.
                 mbind (mfor (tids E p) (\<lambda>tid. mdrop (request (sys_detach E tid)))) (\<lambda>_.
                 mdrop (request (sys_kill E (p_pid p) SIGCONT))))
               else mret ()) (\<lambda>_.
        mbind (if terminateOnEnd p then
                 mbind (mdrop (request (sys_kill E (p_pid p) SIGKILL))) (\<lambda>_. reap E fuel)
               else mret ()) (\<lambda>_.
        if isAttached p then unlockOSThread else mret ())) p)"

text \<open>
  A new process takes the place of the old one in the state; the kernel, the id counters and the
  thread locks go on.
\<close>

definition fresh :: "int \<Rightarrow> bool \<Rightarrow> bool \<Rightarrow> 'k Process \<Rightarrow> 'k Process" where
  "fresh pid terminate attached w = w\<lparr>p_pid := pid, terminateOnEnd := terminate, isAttached := attached,
     p_state := ProcessStopped, threads := [], currentThread := pid, breakpointSites := \<lparr>sites = []\<rparr>,
     watchpoints := \<lparr>points = []\<rparr>, syscallCatchPolicy := CatchNoSyscalls\<rparr>"

text \<open>
  The main thread's registers are read before the thread is entered in the map.  A failure of
  \<open>PTRACE_SETOPTIONS\<close> or of the read closes the process.
\<close>

definition setupMainThread :: "'k env \<Rightarrow> nat \<Rightarrow> int \<Rightarrow> ('k Process, unit) st" where
  "setupMainThread E fuel pid =
     mbind (or_else (request (sys_setOptions E pid ptraceOTraceSysGood)) (Close E fuel)) (\<lambda>_ p.
       case readAll (user E) (kernel p) (ts_Regs (newThread pid)) of
         (Inl e, _) \<Rightarrow> mbind (mdrop (Close E fuel)) (\<lambda>_ q. (Inl e, q)) p
       | (Inr _, regs) \<Rightarrow> (Inr (), add_thread pid ((newThread pid)\<lparr>ts_Regs := regs\<rparr>) p))"

definition launchWithOpts :: "'k env \<Rightarrow> nat \<Rightarrow> bool \<Rightarrow> ('k Process, unit) st" where
  "launchWithOpts E fuel debug =
     mbind (if debug then lockOSThread else mret ()) (\<lambda>_ w.
       case sys_start E debug (kernel w) of
         None \<Rightarrow> mbind (if debug then unlockOSThread else mret ()) (\<lambda>_. mfail LaunchFailed) w
       | Some (pid, k) \<Rightarrow>
         mbind (mmodify (fresh pid True debug)) (\<lambda>_.
           if debug then
             mbind (or_else (wait4 E pid 0) unlockOSThread) (\<lambda>_. setupMainThread E fuel pid)
           else mmodify (\<lambda>p. p\<lparr>p_state := ProcessRunning\<rparr>)) (w\<lparr>kernel := k\<rparr>))"

definition Launch :: "'k env \<Rightarrow> nat \<Rightarrow> ('k Process, unit) st" where
  "Launch E fuel = launchWithOpts E fuel True"

definition LaunchNoDebug :: "'k env \<Rightarrow> nat \<Rightarrow> ('k Process, unit) st" where
  "LaunchNoDebug E fuel = launchWithOpts E fuel False"

text \<open>\<open>strconv.Atoi\<close> of the standard library: decimal digits after an optional sign, in the range of \<open>int\<close>.\<close>

fun decimal :: "string \<Rightarrow> nat \<Rightarrow> nat option" where
  "decimal [] acc = Some acc"
| "decimal (c # cs) acc =
     (if 48 \<le> (of_char c :: nat) \<and> of_char c \<le> (57 :: nat) then decimal cs (10 * acc + (of_char c - 48)) else None)"

definition Atoi :: "string \<Rightarrow> int option" where
  "Atoi s =
     (let (neg, ds) = (case s of [] \<Rightarrow> (False, [])
          | c # cs \<Rightarrow> if c = CHR ''-'' then (True, cs) else if c = CHR ''+'' then (False, cs) else (False, s))
      in if ds = [] then None
         else case decimal ds 0 of
           None \<Rightarrow> None
         | Some n \<Rightarrow> (let v = (if neg then - int n else int n) in if go_int v then Some v else None))"

definition seizeThread :: "'k env \<Rightarrow> int \<Rightarrow> ('k Process, unit) st" where
  "seizeThread E tid =
     mbind (request (sys_seize E tid)) (\<lambda>_.
     mbind (request (sys_interrupt E tid)) (\<lambda>_.
     mbind (wait4 E tid 0) (\<lambda>_.
     mbind (mdrop (request (sys_setOptions E tid ptraceOTraceSysGood))) (\<lambda>_.
     mmodify (\<lambda>q. add_thread tid ((newThread tid)\<lparr>ts_Regs :=
       snd (readAll (user E) (kernel q) (ts_Regs (newThread tid)))\<rparr>) q)))))"

definition seizeTask :: "'k env \<Rightarrow> string \<Rightarrow> ('k Process, unit) st" where
  "seizeTask E name p =
     (case Atoi name of
        None \<Rightarrow> (Inr (), p)
      | Some tid \<Rightarrow> if thread_of tid p \<noteq> None then (Inr (), p) else mdrop (seizeThread E tid) p)"

definition populateExistingThreads :: "'k env \<Rightarrow> ('k Process, unit) st" where
  "populateExistingThreads E p =
     (case sys_taskDir E (p_pid p) (kernel p) of
        None \<Rightarrow> (Inr (), p) | Some entries \<Rightarrow> mfor entries (seizeTask E) p)"

definition Attach :: "'k env \<Rightarrow> nat \<Rightarrow> int \<Rightarrow> ('k Process, unit) st" where
  "Attach E fuel pid =
     (if pid = 0 then mfail InvalidPID
      else
        mbind lockOSThread (\<lambda>_.
        mbind (or_else (request (sys_seize E pid)) unlockOSThread) (\<lambda>_.
        mbind (or_else (request (sys_interrupt E pid)) unlockOSThread) (\<lambda>_.
        mbind (mmodify (fresh pid False True)) (\<lambda>_.
        mbind (or_else (wait4 E pid 0) unlockOSThread) (\<lambda>_.
        mbind (setupMainThread E fuel pid) (\<lambda>_.
        populateExistingThreads E)))))))"

section \<open>What the operations do to the thread states\<close>

definition states :: "'k Process \<Rightarrow> (int \<times> ProcessState) list" where
  "states p = map (\<lambda>(i, t). (i, ts_State t)) (threads p)"

text \<open>The callbacks leave the thread map and the attachment alone.\<close>

definition quiet :: "'k env \<Rightarrow> bool" where
  "quiet E \<longleftrightarrow> (\<forall>h p. threads (snd (onHit E h p)) = threads p) \<and> (\<forall>r p. threads (onLifecycle E r p) = threads p)"

definition states_are :: "(int \<times> ProcessState) list \<Rightarrow> 'k Process \<Rightarrow> bool" where
  "states_are l p \<longleftrightarrow> states p = l"

lemma states_upd: "(\<And>t. ts_State (f t) = ts_State t) \<Longrightarrow> states (upd_thread tid f p) = states p"
proof -
  assume f: "\<And>t. ts_State (f t) = ts_State t"
  have "map (\<lambda>(i, t). (i, ts_State t)) (AList.map_entry tid f al) = map (\<lambda>(i, t). (i, ts_State t)) al" for al
    by (induction al) (auto simp: f)
  then show ?thesis by (simp add: states_def upd_thread_def)
qed

lemma states_simps [simp]:
  "states (p\<lparr>kernel := k\<rparr>) = states p" "states (put_site b p) = states p" "states (put_point w p) = states p"
  "states (p\<lparr>p_state := s\<rparr>) = states p" "states (p\<lparr>currentThread := c\<rparr>) = states p"
  by (simp_all add: states_def put_site_def put_point_def)

lemma keeps_writeReg_states [keeps_intros]: "keeps (states_are l) (writeReg E tid info v)"
  by (rule keepsI) (auto simp: writeReg_def states_are_def states_upd split: option.splits prod.splits)

lemma keeps_request [keeps_intros]: "keeps (states_are l) (request f)"
  by (rule keepsI) (auto simp: request_def states_are_def split: option.splits)

lemma keeps_wait4 [keeps_intros]: "keeps (states_are l) (wait4 E tid opts)"
  by (rule keepsI) (auto simp: wait4_def states_are_def split: option.splits prod.splits)

lemma keeps_replicate_states [keeps_intros]: "keeps (states_are l) (replicate_dr E i a d)"
proof (rule keeps_at)
  have body: "keeps (states_are l) (replicate_to E i a d tid)" for tid
    by (rule keeps_at) (simp add: replicate_to_def keeps_app keeps_intros)
  fix s :: "'a Process" assume "states_are l s"
  then show "states_are l (snd (replicate_dr E i a d s))"
    unfolding replicate_dr_def by (rule keeps_app [OF keeps_mfor [OF body]])
qed

lemma keeps_setHardwareStoppoint_states [keeps_intros]:
  "keeps (states_are l) (setHardwareStoppoint E addr mode sz)"
proof (rule keeps_at)
  fix s :: "'a Process" assume "states_are l s"
  then show "states_are l (snd (setHardwareStoppoint E addr mode sz s))"
    unfolding setHardwareStoppoint_def Let_def
    by (cases "Registers_of s = None") (simp_all add: keeps_app keeps_intros)
qed

lemma keeps_ClearHardwareStoppoint_states [keeps_intros]:
  "keeps (states_are l) (ClearHardwareStoppoint E idx)"
proof (rule keeps_at)
  fix s :: "'a Process" assume "states_are l s"
  then show "states_are l (snd (ClearHardwareStoppoint E idx s))"
    unfolding ClearHardwareStoppoint_def Let_def
    by (cases "Registers_of s = None") (simp_all add: keeps_app keeps_intros)
qed

lemma keeps_on_site [keeps_intros]:
  assumes "\<And>b q. states_are l q \<Longrightarrow> states_are l (snd (snd (f b q)))"
  shows "keeps (states_are l) (on_site f site)"
proof (rule keeps_at)
  fix s :: "'a Process" assume s: "states_are l s"
  let ?b = "case getByAddress (breakpointSites s) (bp_address site) of Some x \<Rightarrow> x | None \<Rightarrow> site"
  have "states_are l (snd (snd (f ?b s)))" by (rule assms [OF s])
  then show "states_are l (snd (on_site f site s))"
    by (simp add: on_site_def states_are_def Let_def case_prod_beta)
qed

lemma Enable_states: "states_are l q \<Longrightarrow> states_are l (snd (snd (Enable E b q)))"
  using keepsD [OF keeps_setHardwareStoppoint_states, of l q E "bp_address b" StoppointModeExecute 1]
  by (auto simp: Enable_def SetHardwareBreakpoint_def states_are_def Let_def
      split: option.splits prod.splits sum.splits)

lemma Disable_states: "states_are l q \<Longrightarrow> states_are l (snd (snd (Disable E b q)))"
  using keepsD [OF keeps_ClearHardwareStoppoint_states, of l q E "bp_hardwareRegisterIndex b"]
  by (auto simp: Disable_def states_are_def Let_def split: option.splits prod.splits sum.splits)

lemma keeps_upd_states [keeps_intros]:
  "(\<And>t. ts_State (f t) = ts_State t) \<Longrightarrow> keeps (states_are l) (mmodify (upd_thread tid f))"
  by (rule keeps_mmodify) (simp add: states_are_def states_upd)

lemma keeps_or_else [keeps_intros]: "keeps P m \<Longrightarrow> keeps P n \<Longrightarrow> keeps P (or_else m n)"
  unfolding or_else_def by (intro keeps_mbind keeps_mtry keeps_sum keeps_mdrop keeps_basic)

lemma keeps_swallow [keeps_intros]: "keeps (states_are l) (swallowPendingSigstop E tid)"
  by (rule keeps_at) (simp add: swallowPendingSigstop_def keeps_app keeps_intros split: option.split)

lemma keeps_stepOver [keeps_intros]: "keeps (states_are l) (stepOverBreakpointForThread E tid)"
  by (rule keeps_at)
    (simp add: stepOverBreakpointForThread_def keeps_app keeps_intros Enable_states Disable_states
      split: option.split sum.split)

section \<open>Resuming\<close>

lemma fst_states: "map fst (states p) = map fst (threads p)"
  by (simp add: states_def split_def)

lemma states_upd_state:
  assumes "distinct (map fst (threads p))" "\<And>t. ts_State (f t) = st"
  shows "states (upd_thread tid f p) = map (\<lambda>(i, s). (i, if i = tid then st else s)) (states p)"
proof -
  have "map (\<lambda>(i, t). (i, ts_State t)) (AList.map_entry tid f al) =
      map (\<lambda>(i, s). (i, if i = tid then st else s)) (map (\<lambda>(i, t). (i, ts_State t)) al)"
    if "distinct (map fst al)" for al
    using that by (induction al) (auto simp: assms(2) image_iff split_def intro!: map_cong)
  then show ?thesis using assms(1) by (simp add: states_def upd_thread_def)
qed

lemma thread_state:
  assumes "distinct (map fst (threads p))"
  shows "thread_of i p = Some t \<Longrightarrow> (i, s) \<in> set (states p) \<longleftrightarrow> s = ts_State t"
    and "thread_of i p = None \<Longrightarrow> (i, s) \<notin> set (states p)"
proof -
  have "map_of (states p) i = map_option ts_State (thread_of i p)"
    by (simp add: states_def thread_of_def map_of_map)
  moreover have "distinct (map fst (states p))" using assms by (simp add: fst_states)
  ultimately show "thread_of i p = Some t \<Longrightarrow> (i, s) \<in> set (states p) \<longleftrightarrow> s = ts_State t"
    "thread_of i p = None \<Longrightarrow> (i, s) \<notin> set (states p)"
    using map_of_eq_Some_iff [of "states p" i s] by auto
qed

definition resumed :: "int set \<Rightarrow> int \<times> ProcessState \<Rightarrow> int \<times> ProcessState" where
  "resumed S = (\<lambda>(i, s). (i, if i \<in> S \<and> s = ProcessStopped then ProcessRunning else s))"

lemma fst_resumed [simp]: "fst (resumed S x) = fst x"
  by (simp add: resumed_def split_def)

lemma sendContinue_states:
  assumes "distinct (map fst (threads q))" "if_stopped (sendContinue E) tid q = (Inr (), q')"
  shows "states q' = map (resumed {tid}) (states q)"
proof (cases "thread_of tid q")
  case None
  then have "states q = map (resumed {tid}) (states q)"
    using thread_state(2) [OF assms(1) None] by (auto simp: resumed_def intro!: map_idI [symmetric])
  then show ?thesis using assms(2) None by (simp add: if_stopped_def)
next
  case (Some t)
  note st = thread_state(1) [OF assms(1) Some]
  show ?thesis
  proof (cases "ts_State t = ProcessStopped")
    case False
    then have "states q = map (resumed {tid}) (states q)"
      using st by (auto simp: resumed_def intro!: map_idI [symmetric])
    then show ?thesis using assms(2) Some False by (simp add: if_stopped_def)
  next
    case True
    then obtain k where "states q' = states (upd_thread tid (\<lambda>t. t\<lparr>ts_State := ProcessRunning\<rparr>) (q\<lparr>kernel := k\<rparr>))"
      using assms(2) Some by (auto simp: if_stopped_def sendContinue_def mbind_eq_Inr request_def split: option.splits)
    then have "states q' = map (\<lambda>(i, s). (i, if i = tid then ProcessRunning else s)) (states q)"
      using states_upd_state [of "q\<lparr>kernel := k\<rparr>" "\<lambda>t. t\<lparr>ts_State := ProcessRunning\<rparr>" ProcessRunning tid] assms(1)
      by simp
    moreover have "(\<lambda>(i, s). (i, if i = tid then ProcessRunning else s)) x = resumed {tid} x" if "x \<in> set (states q)" for x
    proof -
      obtain i s where x: "x = (i, s)" by fastforce
      show ?thesis using that st [of s] True by (auto simp: x resumed_def)
    qed
    ultimately show ?thesis by (metis (no_types, lifting) map_cong)
  qed
qed

lemma resume_loop:
  assumes "distinct (map fst (threads q))" "mfor xs (if_stopped (sendContinue E)) q = (Inr (), q')"
  shows "states q' = map (resumed (set xs)) (states q)"
  using assms
proof (induction xs arbitrary: q)
  case Nil
  then show ?case by (simp add: resumed_def)
next
  case (Cons x xs)
  from Cons.prems(2) obtain q1 where 1: "if_stopped (sendContinue E) x q = (Inr (), q1)"
    and 2: "mfor xs (if_stopped (sendContinue E)) q1 = (Inr (), q')" by (auto simp: mbind_eq_Inr)
  have s1: "states q1 = map (resumed {x}) (states q)" by (rule sendContinue_states [OF Cons.prems(1) 1])
  then have "map fst (states q1) = map fst (states q)" by simp
  then have "distinct (map fst (threads q1))" using Cons.prems(1) by (simp add: fst_states)
  from Cons.IH [OF this 2] show ?case by (auto simp: s1 resumed_def)
qed

text \<open>
  When \<open>ResumeAllThreads\<close> returns without an error, every thread that was stopped
  runs and every other thread is in the state it was in.
\<close>

theorem ResumeAllThreads_states:
  assumes "range_law E" "distinct (map fst (threads p))" "ResumeAllThreads E p = (Inr (), p')"
  shows "states p' = map (\<lambda>(i, s). (i, if s = ProcessStopped then ProcessRunning else s)) (states p)"
proof -
  from assms(3) obtain q where q: "mfor (tids E p) (if_stopped (stepOverBreakpointForThread E)) p = (Inr (), q)"
    and p': "mfor (tids E q) (if_stopped (sendContinue E)) q = (Inr (), p')"
    by (auto simp: ResumeAllThreads_def mbind_eq_Inr)
  have "keeps (states_are (states p)) (if_stopped (stepOverBreakpointForThread E) tid)" for tid
    by (rule keeps_at) (simp add: if_stopped_def keeps_app keeps_stepOver split: option.split)
  then have "keeps (states_are (states p)) (mfor (tids E p) (if_stopped (stepOverBreakpointForThread E)))"
    by (rule keeps_mfor)
  from keepsD [OF this _ q] have sq: "states q = states p" by (simp add: states_are_def)
  then have d: "distinct (map fst (threads q))" using assms(2) by (metis fst_states)
  have "set (tids E q) = fst ` set (states p)"
    using assms(1) d sq fst_states [of q] by (simp add: tids_def range_law_def flip: set_map)
  then show ?thesis using resume_loop [OF d p'] sq by (force simp: resumed_def)
qed

section \<open>All-stop\<close>

text \<open>Only threads of \<open>R\<close> run.\<close>

definition run_in :: "int set \<Rightarrow> 'k Process \<Rightarrow> bool" where
  "run_in R p \<longleftrightarrow> (\<forall>i t. thread_of i p = Some t \<and> ts_State t = ProcessRunning \<longrightarrow> i \<in> R)"

lemma run_in_states: "run_in R p \<longleftrightarrow> (\<forall>i. map_of (states p) i = Some ProcessRunning \<longrightarrow> i \<in> R)"
proof -
  have "map_of (states p) i = map_option ts_State (thread_of i p)" for i
    by (simp add: states_def thread_of_def map_of_map)
  then show ?thesis by (auto simp: run_in_def)
qed

lemma keeps_run_in: "(\<And>l. keeps (states_are l) m) \<Longrightarrow> keeps (run_in R) m"
  by (rule keepsI) (metis keepsD run_in_states states_are_def)

lemma run_in_upd:
  "run_in R p \<Longrightarrow> (\<And>t. ts_State (f t) = ProcessRunning \<Longrightarrow> ts_State t = ProcessRunning) \<Longrightarrow> run_in R (upd_thread tid f p)"
  by (auto simp: run_in_def split: if_splits)

lemma run_in_stopped:
  "run_in R p \<Longrightarrow> (\<And>t. ts_State (f t) \<noteq> ProcessRunning) \<Longrightarrow> run_in (R - {tid}) (upd_thread tid f p)"
  by (auto simp: run_in_def split: if_splits)

lemma run_in_threads: "threads q = threads p \<Longrightarrow> run_in R q = run_in R p"
  by (simp add: run_in_def thread_of_def)

lemma thread_of_add [simp]: "thread_of i (add_thread tid t p) = (if i = tid then Some t else thread_of i p)"
  by (simp add: thread_of_def add_thread_def update_conv')

lemma thread_of_del [simp]: "thread_of i (del_thread tid p) = (if i = tid then None else thread_of i p)"
  by (simp add: thread_of_def del_thread_def delete_conv')

lemmas run_in_intros =
  keeps_run_in [OF keeps_request] keeps_run_in [OF keeps_wait4] keeps_run_in [OF keeps_writeReg_states]

lemma keeps_discover:
  assumes "quiet E"
  shows "keeps (run_in R) (discover E tid main reason)"
proof -
  have "keeps (run_in R) (mmodify (add_thread tid (newThread tid)))"
    by (rule keeps_mmodify) (auto simp: run_in_def newThread_def split: if_splits)
  moreover have "keeps (run_in R) (reportThreadLifecycle E reason)"
    unfolding reportThreadLifecycle_def using assms
    by (intro keeps_mmodify) (simp add: run_in_threads [of "onLifecycle E reason _"] quiet_def)
  ultimately show ?thesis
    by (intro keeps_at) (auto simp: discover_def
        intro!: keeps_app [of "run_in R"] keeps_mbind keeps_mdrop keeps_basic run_in_intros)
qed

lemma keeps_consume: "keeps (run_in R) (consume tid reason)"
  by (rule keeps_at) (auto simp: consume_def split: option.split intro!: run_in_upd)

lemma keeps_readAllThread: "keeps (run_in R) (readAllThread E tid)"
  by (rule keeps_at) (auto simp: readAllThread_def case_prod_beta split: option.split intro!: run_in_upd)

lemma keeps_augment: "keeps (run_in R) (augmentStopReasonForThread E tid reason)"
  by (rule keeps_at)
    (auto simp: augmentStopReasonForThread_def Let_def split: option.split sum.split intro!: run_in_upd)

lemma keeps_setPC: "keeps (run_in R) (setPCForThread E tid pc)"
  by (rule keeps_at) (simp add: setPCForThread_def keeps_app run_in_intros split: option.split)

lemma notifyHit_threads: "quiet E \<Longrightarrow> threads (snd (notifyHit E b p)) = threads p"
  by (simp add: notifyHit_def quiet_def mret_def split: option.split)

lemma keeps_softwareBreak:
  assumes "quiet E"
  shows "keeps (run_in R) (softwareBreak E tid main)"
proof -
  have hit: "keeps (run_in R) (notifyHit E b)" for b
    by (rule keeps_at) (simp add: run_in_threads [OF notifyHit_threads [OF assms]])
  show ?thesis
    by (intro keeps_at) (simp add: softwareBreak_def keeps_app keeps_mbind keeps_mdrop keeps_setPC hit keeps_basic
        split: option.split sum.split failure.split)
qed

lemma keeps_hardwareBreak: "keeps (run_in R) (hardwareBreak E tid)"
proof -
  have p: "run_in R (put_point w q) = run_in R q" for w q
    by (rule run_in_threads) (simp add: put_point_def)
  have "keeps (run_in R) (\<lambda>q. case find (\<lambda>wp. wp_address wp = addr \<and> wp_hardwareRegisterIndex wp = int index)
      (points (watchpoints q)) of
        None \<Rightarrow> (Inr False, q)
      | Some wp \<Rightarrow> (case UpdateData E wp q of
            (Inl Panic, wp') \<Rightarrow> (Inl Panic, put_point wp' q) | (_, wp') \<Rightarrow> (Inr False, put_point wp' q)))" for addr index
    by (rule keeps_at) (simp add: p split: option.split prod.split sum.split failure.split)
  then show ?thesis
    by (intro keeps_at) (simp add: hardwareBreak_def Let_def keeps_app keeps_mbind keeps_basic keeps_if)
qed

lemma keeps_trapAction: "quiet E \<Longrightarrow> keeps (run_in R) (trapAction E tid main reason)"
  by (rule keeps_at) (simp add: trapAction_def keeps_app keeps_softwareBreak keeps_hardwareBreak
      split: option.split TrapType.split)

lemma keeps_handleSignal:
  assumes "quiet E"
  shows "keeps (run_in R) (handleSignal E reason main)"
proof -
  have "keeps (run_in R) (inspect E tid main reason)" for tid
    by (rule keeps_at) (simp add: inspect_def keeps_app keeps_mbind keeps_mdrop keeps_basic
        keeps_readAllThread keeps_augment keeps_trapAction assms)
  then show ?thesis
    by (intro keeps_at) (simp add: handleSignal_def Let_def keeps_app keeps_mbind keeps_basic keeps_if
        keeps_discover [OF assms] keeps_consume)
qed

lemma newStopReason_not_running: "sr_Reason (newStopReason tid ws) \<noteq> ProcessRunning"
  by (simp add: newStopReason_def stop_def)

lemma augment_reason:
  "augmentStopReasonForThread E tid reason p = (Inr r, p') \<Longrightarrow> sr_Reason r = sr_Reason reason"
  by (auto simp: augmentStopReasonForThread_def Let_def split: if_splits option.splits sum.splits)

lemma handleSignal_reason:
  "handleSignal E reason main p = (Inr (Some r), p') \<Longrightarrow> sr_Reason r = sr_Reason reason"
  by (auto simp: handleSignal_def inspect_def Let_def mbind_eq_Inr dest: augment_reason split: if_splits)

text \<open>A wait for a tracked thread returns; it does not fail.\<close>

definition wait_total :: "'k env \<Rightarrow> bool" where
  "wait_total E \<longleftrightarrow> (\<forall>tid opts k. sys_wait4 E tid opts k \<noteq> None)"

lemma recordStop_stops:
  assumes "quiet E" "run_in R p" "sr_Reason reason \<noteq> ProcessRunning" "recordStop E tid reason p = (Inr (), p')"
  shows "run_in (R - {tid}) p'"
proof -
  let ?m = "if sr_Reason reason = ProcessStopped
      then mmodify (upd_thread tid (\<lambda>t. t\<lparr>ts_PendingSigstop := (sr_Info reason \<noteq> SIGSTOP)\<rparr>)) else mret ()"
  from assms(4) obtain p1 a p2 where 1: "?m p = (Inr (), p1)" and 2: "handleSignal E reason False p1 = (Inr a, p2)"
    and p': "p' = upd_thread tid (\<lambda>t. t\<lparr>ts_Reason := (case a of None \<Rightarrow> reason | Some a \<Rightarrow> a),
        ts_State := sr_Reason (case a of None \<Rightarrow> reason | Some a \<Rightarrow> a)\<rparr>) p2"
    by (auto simp: recordStop_def mbind_eq_Inr Let_def)
  have "run_in R p1" using 1 assms(2) by (auto split: if_splits intro!: run_in_upd)
  then have "run_in R p2" by (rule keepsD [OF keeps_handleSignal [OF assms(1)] _ 2])
  moreover have "sr_Reason (case a of None \<Rightarrow> reason | Some a \<Rightarrow> a) \<noteq> ProcessRunning"
    using assms(3) 2 by (cases a) (auto dest: handleSignal_reason)
  ultimately show ?thesis unfolding p' by (intro run_in_stopped) simp_all
qed

lemma stopThread_stops:
  assumes "quiet E" "wait_total E" "run_in R p" "tid \<noteq> ex" "stopThread E ex tid p = (Inr (), p')"
  shows "run_in (R - {tid}) p'"
proof (cases "\<exists>t. thread_of tid p = Some t \<and> ts_State t = ProcessRunning")
  case False
  then have "p' = p" using assms(5) by (auto simp: stopThread_def split: option.splits if_splits)
  with False assms(3) show ?thesis by (auto simp: run_in_def)
next
  case True
  then obtain t where t: "thread_of tid p = Some t" "ts_State t = ProcessRunning" by blast
  let ?kill = "if \<not> ts_PendingSigstop t then mdrop (request (sys_tgkill E (p_pid p) tid SIGSTOP)) else mret ()"
  from assms(4,5) t obtain p1 y p2 where 1: "?kill p = (Inr (), p1)" and 2: "mtry (wait4 E tid wall) p1 = (Inr y, p2)"
    and 3: "(case y of Inl e \<Rightarrow> mret () | Inr (w, ws) \<Rightarrow> recordStop E tid (newStopReason w ws)) p2 = (Inr (), p')"
    by (auto simp: stopThread_def mbind_eq_Inr)
  have "keeps (run_in R) ?kill" by (intro keeps_if keeps_mdrop keeps_basic run_in_intros)
  then have "run_in R p1" using assms(3) 1 by (rule keepsD)
  then have p2: "run_in R p2" using keepsD [OF keeps_mtry [OF run_in_intros(2)] _ 2] by blast
  obtain w ws where "y = Inr (w, ws)"
    using 2 assms(2) [unfolded wait_total_def, rule_format, of tid wall "kernel p1"]
    by (auto simp: mtry_eq_Inr wait4_def split: option.splits)
  then show ?thesis using recordStop_stops [OF assms(1) p2 newStopReason_not_running] 3 by simp
qed

lemma stop_loop:
  assumes "quiet E" "wait_total E" "run_in R p" "mfor xs (stopThread E ex) p = (Inr (), p')"
  shows "run_in (R - (set xs - {ex})) p'"
  using assms(3,4)
proof (induction xs arbitrary: R p)
  case (Cons x xs)
  from Cons.prems(2) obtain q where q: "stopThread E ex x p = (Inr (), q)" "mfor xs (stopThread E ex) q = (Inr (), p')"
    by (auto simp: mbind_eq_Inr)
  have "run_in (R - ({x} - {ex})) q"
  proof (cases "x = ex")
    case True
    then have "q = p" using q(1) by (auto simp: stopThread_def split: option.splits)
    then show ?thesis using Cons.prems(1) True by simp
  next
    case False
    then show ?thesis using stopThread_stops [OF assms(1,2) Cons.prems(1) False q(1)] by simp
  qed
  from Cons.IH [OF this q(2)] show ?case by (auto simp: run_in_def)
qed (simp add: run_in_def)

lemma stopRunningThreads_stops:
  assumes "quiet E" "wait_total E" "range_law E" "run_in (set (map fst (threads p)) - {ex}) p"
    and "stopRunningThreads E ex p = (Inr (), p')"
  shows "run_in {} p'"
proof -
  have "set (tids E p) = set (map fst (threads p))" using assms(3) by (simp add: tids_def range_law_def)
  then show ?thesis
    using stop_loop [OF assms(1,2,4) assms(5) [unfolded stopRunningThreads_def]] by (auto simp: run_in_def)
qed

lemma run_in_del: "run_in R p \<Longrightarrow> run_in R (del_thread tid p)"
  by (auto simp: run_in_def split: if_splits)

lemma cleanup_keeps:
  assumes "quiet E" "run_in R p" "cleanupExitedThreads E tid p = (r, p')"
  shows "run_in R p'"
proof -
  have loop: "run_in R (snd (cleanup_loop E m xs rem me q))" if "run_in R q" for m xs rem me q
    using that
  proof (induction xs arbitrary: rem me q)
    case (Cons x xs)
    have "run_in R (onLifecycle E rs q)" for rs
      using Cons.prems assms(1) run_in_threads [of "onLifecycle E rs q" q R] by (simp add: quiet_def)
    then show ?case using Cons by (simp split: option.split)
  qed simp
  have del: "run_in R (fold del_thread xs q)" if "run_in R q" for xs q
    using that by (induction xs arbitrary: q) (simp_all add: run_in_del)
  have p': "p' = fold del_thread (fst (fst (cleanup_loop E tid (tids E p) [] None p)))
      (snd (cleanup_loop E tid (tids E p) [] None p))"
    using assms(3) by (auto simp: cleanupExitedThreads_def Let_def split: prod.splits)
  show ?thesis unfolding p' by (rule del [OF loop [OF assms(2)]])
qed

lemma run_in_keys: "run_in (set (map fst (threads p))) p"
  using thread_of_keys by (fastforce simp: run_in_def)


lemma flat_quiet: "quiet flat_env" "wait_total flat_env"
  by (simp_all add: quiet_def wait_total_def flat_env_def mret_def)

definition demo_running :: "(u64 \<Rightarrow> u8) Process" where
  "demo_running = upd_thread 2 (\<lambda>t. t\<lparr>ts_State := ProcessRunning\<rparr>) flat_proc"

lemma demo_wait:
  "(case waitOnSignalFor flat_env 2 (- 1) demo_running of
      (Inr r, q) \<Rightarrow> p_state q = ProcessStopped \<and> map_option ts_TID (thread_of 2 q) = Some 2 | _ \<Rightarrow> False)"
  by code_simp


section \<open>Hitting a breakpoint\<close>

text \<open>
  C9 (functional).  A thread that stops with \<open>SIGTRAP\<close> from an \<open>int3\<close> (its program counter is one past
  an enabled software site without a handler) is reported with \<open>TrapSoftwareBreak\<close>, and its program
  counter is moved back to the site; the other threads are not touched.
\<close>

theorem software_break_rewinds:
  assumes "isAttached p" "thread_of tid p = Some t"
    and "readAll (user E) (kernel p) (ts_Regs t) = (Inr (), r)" "regs_ok r"
    and "sys_getSigInfo E tid (kernel p) = Some siKernel"
    and "enabledSoftwareAtAddress (breakpointSites p) (get8 ripInfo r - 1) = Some site" "bp_onHit site = None"
  shows "\<exists>p' t'. handleSignal E (stop ProcessStopped SIGTRAP tid) main p =
      (Inr (Some ((stop ProcessStopped SIGTRAP tid)\<lparr>sr_TrapReason := Some TrapSoftwareBreak\<rparr>)), p') \<and>
    thread_of tid p' = Some t' \<and> get8 ripInfo (ts_Regs t') = bp_address site \<and>
    (\<forall>j. j \<noteq> tid \<longrightarrow> thread_of j p' = thread_of j p)"
proof -
  let ?reason = "stop ProcessStopped SIGTRAP tid"
  let ?p1 = "upd_thread tid (\<lambda>t. t\<lparr>ts_Regs := r\<rparr>) p"
  let ?t1 = "t\<lparr>ts_Regs := r\<rparr>"
  have t1: "thread_of tid ?p1 = Some ?t1" using assms(2) by simp
  have rd: "mdrop (readAllThread E tid) p = (Inr (), ?p1)"
    using assms(2,3) by (simp add: mdrop_eq_Inr readAllThread_def)
  have au: "augmentStopReasonForThread E tid ?reason ?p1 = (Inr (?reason\<lparr>sr_TrapReason := Some TrapSoftwareBreak\<rparr>), ?p1)"
    using t1 assms(5) by (simp add: augmentStopReasonForThread_def stop_def upd_thread_def)
  obtain w p2 where w: "writeReg E tid ripInfo (get8 ripInfo r - 1) ?p1 = (w, p2)" by fastforce
  obtain k where p2: "p2 = (upd_thread tid (\<lambda>t. t\<lparr>ts_Regs := put8 ripInfo (get8 ripInfo r - 1) (ts_Regs t)\<rparr>) ?p1)\<lparr>kernel := k\<rparr>"
    and nw: "w \<noteq> Inl Panic" "w \<noteq> Inl OutOfFuel"
    using writeReg_wide [OF t1 _ wide_rip w] assms(4) by auto
  have "mdrop (setPCForThread E tid (get8 ripInfo r - 1)) ?p1 = (Inr (), p2)"
    using w nw t1 assms(2) by (simp add: mdrop_eq_Inr setPCForThread_def)
  then have sw: "softwareBreak E tid main ?p1 = (Inr False, p2)"
    using t1 assms(2,4,6,7)
    by (simp add: softwareBreak_def getPCForThread_def readRegisterUint64_wide mbind_eq_Inr notifyHit_def upd_thread_def)
  have hs: "handleSignal E ?reason main p = (Inr (Some (?reason\<lparr>sr_TrapReason := Some TrapSoftwareBreak\<rparr>)), p2)"
    using assms(1,2) rd au sw
    by (auto simp: handleSignal_def discover_def consume_def inspect_def trapAction_def stop_def mbind_eq_Inr Let_def)
  have a: "bp_address site = get8 ripInfo r - 1"
    using assms(6) unfolding enabledSoftwareAtAddress_def by (blast dest: find_Some_iff_mem)
  show ?thesis
  proof (intro exI conjI)
    show "thread_of tid p2 = Some (t\<lparr>ts_Regs := put8 ripInfo (get8 ripInfo r - 1) r\<rparr>)" using assms(2) by (simp add: p2)
    show "get8 ripInfo (ts_Regs (t\<lparr>ts_Regs := put8 ripInfo (get8 ripInfo r - 1) r\<rparr>)) = bp_address site"
      using rf.get_put_own [OF assms(4) rip_ok] a by simp
    show "\<forall>j. j \<noteq> tid \<longrightarrow> thread_of j p2 = thread_of j p" by (simp add: p2)
  qed (rule hs)
qed

definition brk_env :: "(u64 \<Rightarrow> u8) env" where
  "brk_env = flat_env\<lparr>sys_getSigInfo := (\<lambda>tid k. Some siKernel),
     user := flat_user\<lparr>getRegs := (\<lambda>tid k. Some (overwrite 128 (le_bytes 8 (0x401011 :: u64)) (replicate 216 0)))\<rparr>\<rparr>"

definition brk_regs :: Registers where
  "brk_regs = snd (readAll (user brk_env) (kernel demo_enabled) (ts_Regs (flat_thread 1)))"

definition brk_site :: BreakpointSite where
  "brk_site = hd (sites (breakpointSites demo_enabled))"

lemma demo_thread: "isAttached demo_enabled" "thread_of 1 demo_enabled = Some (flat_thread 1)"
  by (simp_all add: demo_enabled_def demo_created_def demo_site_def on_site_def put_site_def Enable_def
      CreateBreakpointSite_def nextBreakpointID_def containsAddress_def getByAddress_def site_push_def
      flat_proc_def thread_of_def Let_def split: option.split)

lemma brk_facts:
  "fst (readAll (user brk_env) (kernel demo_enabled) (ts_Regs (flat_thread 1))) = Inr ()"
  "regs_ok brk_regs" "get8 ripInfo brk_regs - 1 = 0x401010"
  "map_option bp_address (enabledSoftwareAtAddress (breakpointSites demo_enabled) 0x401010) = Some 0x401010"
  "map_option bp_onHit (enabledSoftwareAtAddress (breakpointSites demo_enabled) 0x401010) = Some None"
  by code_simp+

theorem software_break_rewinds_witness:
  "\<exists>p' t'. handleSignal brk_env (stop ProcessStopped SIGTRAP 1) True demo_enabled =
      (Inr (Some ((stop ProcessStopped SIGTRAP 1)\<lparr>sr_TrapReason := Some TrapSoftwareBreak\<rparr>)), p') \<and>
    thread_of 1 p' = Some t' \<and> get8 ripInfo (ts_Regs t') = 0x401010"
proof -
  obtain site where s: "enabledSoftwareAtAddress (breakpointSites demo_enabled) 0x401010 = Some site"
    "bp_address site = 0x401010" "bp_onHit site = None"
    using brk_facts(4,5) by auto
  have r: "readAll (user brk_env) (kernel demo_enabled) (ts_Regs (flat_thread 1)) = (Inr (), brk_regs)"
    using brk_facts(1) by (simp add: brk_regs_def prod_eq_iff)
  have g: "sys_getSigInfo brk_env 1 (kernel demo_enabled) = Some siKernel" by (simp add: brk_env_def)
  from software_break_rewinds [OF demo_thread r brk_facts(2) g, of site True] s brk_facts(3)
  show ?thesis by auto
qed

section \<open>Wait statuses\<close>

lemma ws_masks:
  fixes c :: u8
  shows "push_bit 8 (ucast c) AND (0x7F :: u32) = 0" "push_bit 8 (ucast c) AND (0xFF :: u32) = 0"
    "(push_bit 8 (ucast c) OR (0x7F :: u32)) AND 0x7F = 0x7F" "(push_bit 8 (ucast c) OR (0x7F :: u32)) AND 0xFF = 0x7F"
    "ucast (drop_bit 8 (push_bit 8 (ucast c) :: u32) AND 0xFF) = c"
    "ucast (drop_bit 8 (push_bit 8 (ucast c) OR (0x7F :: u32)) AND 0xFF) = c"
  by (rule bit_eqI, auto simp: bit_simps mask_bits bit_0xFF)+

lemma ws_stop_shift: "drop_bit 8 (push_bit 8 (ucast (c :: u8)) OR (0x7F :: u32)) = ucast c"
  by (rule bit_eqI) (auto simp: bit_simps mask_bits dest: bit_imp_le_length)

lemma ucast_byte_less: "unat (ucast (c :: u8) :: u32) < 256"
proof -
  have "unat c < 2 ^ LENGTH(8)" by (rule unsigned_less)
  then show ?thesis by (simp add: unsigned_ucast_eq take_bit_eq_mod)
qed

lemma ucast_byte: "unat (ucast (c :: u8) :: u32) = unat c" "ucast (ucast c :: u32) = c"
  "ucast ((ucast c :: u32) AND 0xFF) = c"
proof -
  have "unat c < 2 ^ LENGTH(8)" by (rule unsigned_less)
  then show "unat (ucast c :: u32) = unat c" by (simp add: unsigned_ucast_eq take_bit_nat_eq_self)
  show "ucast (ucast c :: u32) = c" "ucast ((ucast c :: u32) AND 0xFF) = c"
    by (rule bit_eqI, auto simp: bit_simps bit_0xFF)+
qed

lemma ws_signal:
  fixes s :: u8
  assumes "0 < s" "s < 0x7F"
  shows "(ucast s OR (if core then 0x80 else 0) :: u32) AND 0x7F = ucast s"
    and "(ucast s OR (if core then 0x80 else 0) :: u32) AND 0xFF \<noteq> 0x7F"
    and "(ucast s :: u32) \<noteq> 0" "(ucast s :: u32) \<noteq> 0x7F" "ucast (ucast s :: u32) = s"
proof -
  have "s < 0x80" using assms(2) by (simp add: word_less_nat_alt)
  then have "\<not> bit s 7" using byte_less_80_iff by simp
  then have b: "n < 7" if "bit s n" for n
    using that bit_imp_le_length [OF that] by (cases "n = 7") auto
  show a: "(ucast s OR (if core then 0x80 else 0) :: u32) AND 0x7F = ucast s"
    by (rule bit_eqI) (auto simp: bit_simps mask_bits dest: b)
  show z: "(ucast s :: u32) \<noteq> 0" "(ucast s :: u32) \<noteq> 0x7F" "ucast (ucast s :: u32) = s"
    using assms ucast_byte [of s] by (auto simp: word_less_nat_alt word_unat_eq_iff)
  show "(ucast s OR (if core then 0x80 else 0) :: u32) AND 0xFF \<noteq> 0x7F"
  proof
    assume "(ucast s OR (if core then 0x80 else 0) :: u32) AND 0xFF = 0x7F"
    then have "((ucast s OR (if core then 0x80 else 0) :: u32) AND 0xFF) AND 0x7F = 0x7F AND 0x7F" by simp
    moreover have "(x AND 0xFF) AND 0x7F = x AND 0x7F" for x :: u32
      by (rule bit_eqI) (auto simp: bit_simps mask_bits bit_0xFF)
    ultimately show False using a z by simp
  qed
qed

text \<open>
  \<open>newStopReason\<close> decodes the wait statuses the kernel encodes: an exit with its
  code, a death by a signal with or without a core dump, a stop with its signal, and the clone
  event of \<open>PTRACE_O_TRACECLONE\<close>.
\<close>

theorem wait_status_decoded:
  "newStopReason tid (push_bit 8 (ucast (c :: u8))) = stop ProcessExited c tid \<and>
   (0 < s \<and> s < (0x7F :: u8) \<longrightarrow>
      newStopReason tid (ucast s OR (if core then 0x80 else 0)) = stop ProcessTerminated s tid) \<and>
   newStopReason tid (push_bit 8 (ucast (g :: u8)) OR 0x7F) = stop ProcessStopped g tid \<and>
   newStopReason tid 0x3057F = (stop ProcessStopped SIGTRAP tid)\<lparr>sr_TrapReason := Some TrapClone\<rparr>"
proof (intro conjI impI)
  show "newStopReason tid (push_bit 8 (ucast c)) = stop ProcessExited c tid"
    by (simp add: newStopReason_def ws_Exited_def ws_Stopped_def ws_masks)
  show "newStopReason tid (ucast s OR (if core then 0x80 else 0)) = stop ProcessTerminated s tid"
    if "0 < s \<and> s < 0x7F"
    using ws_signal [of s] that
    by (simp add: newStopReason_def ws_Exited_def ws_Signaled_def ws_Stopped_def)
  have "(ucast g :: u32) \<noteq> 5 OR push_bit 8 ptraceEventClone"
    using ucast_byte_less [of g] by (auto simp: ptraceEventClone_def word_unat_eq_iff)
  then show "newStopReason tid (push_bit 8 (ucast g) OR 0x7F) = stop ProcessStopped g tid"
    using ws_stop_shift [of g]
    by (simp add: newStopReason_def ws_Exited_def ws_Signaled_def ws_Stopped_def ws_masks ucast_byte)
  show "newStopReason tid 0x3057F = (stop ProcessStopped SIGTRAP tid)\<lparr>sr_TrapReason := Some TrapClone\<rparr>"
    by (simp add: newStopReason_def ws_Stopped_def ptraceEventClone_def)
qed

theorem wait_status_decoded_witness:
  "newStopReason 7 (ucast (11 :: u8) OR 0x80) = stop ProcessTerminated 11 7"
  using wait_status_decoded [of 7 0 11 True 0] by simp

lemma demo_resume: "fst (ResumeAllThreads flat_env flat_proc) = Inr ()"
  by code_simp

theorem ResumeAllThreads_states_witness:
  "states (snd (ResumeAllThreads flat_env flat_proc)) = [(1, ProcessRunning), (2, ProcessRunning)]"
proof -
  let ?r = "ResumeAllThreads flat_env flat_proc"
  have "?r = (Inr (), snd ?r)" using demo_resume by (rule prod_eqI [OF trans]) simp_all
  moreover have "distinct (map fst (threads flat_proc))" by (simp add: flat_proc_def)
  ultimately have "states (snd ?r) = map (\<lambda>(i, s). (i, if s = ProcessStopped then ProcessRunning else s)) (states flat_proc)"
    using ResumeAllThreads_states [OF flat_range] by blast
  moreover have "states flat_proc = [(1, ProcessStopped), (2, ProcessStopped)]"
    by (simp add: states_def flat_proc_def flat_thread_def)
  ultimately show ?thesis by simp
qed

section \<open>The OS thread lock\<close>

text \<open>
  \<open>lk P a b m\<close>: from a state with \<open>P\<close>, a normal return of \<open>m\<close> changes the number of locks by \<open>a\<close> and
  keeps \<open>P\<close>, and an error return changes it by \<open>b\<close>.
\<close>

definition lk :: "('k Process \<Rightarrow> bool) \<Rightarrow> int \<Rightarrow> int \<Rightarrow> ('k Process, 'a) st \<Rightarrow> bool" where
  "lk P a b m \<longleftrightarrow> (\<forall>s r t. P s \<longrightarrow> m s = (r, t) \<longrightarrow>
     (\<forall>x. r = Inr x \<longrightarrow> osThreadLocks t = osThreadLocks s + a \<and> P t) \<and>
     (\<forall>e. r = Inl (Error e) \<longrightarrow> osThreadLocks t = osThreadLocks s + b))"

lemma lkD:
  assumes "lk P a b m" "P s" "m s = (r, t)"
  shows "r = Inr x \<Longrightarrow> osThreadLocks t = osThreadLocks s + a" "r = Inr x \<Longrightarrow> P t"
    "r = Inl (Error e) \<Longrightarrow> osThreadLocks t = osThreadLocks s + b"
  using assms unfolding lk_def by blast+

lemma lk_mbind:
  assumes "lk P a b m" "\<And>x. lk P c d (f x)" "b = a + d"
  shows "lk P (a + c) b (mbind m f)"
  unfolding lk_def
proof (intro allI impI conjI)
  fix s r t assume s: "P s" and e: "mbind m f s = (r, t)"
  obtain r1 t1 where m: "m s = (r1, t1)" by fastforce
  show "osThreadLocks t = osThreadLocks s + (a + c)" "P t" if "r = Inr x" for x
    using e m that lkD [OF assms(1) s m] lkD [OF assms(2)] by (auto simp: mbind_def split: sum.splits)
  show "osThreadLocks t = osThreadLocks s + b" if "r = Inl (Error x)" for x
    using e m that lkD [OF assms(1) s m] lkD [OF assms(2)] assms(3) by (fastforce simp: mbind_def split: sum.splits)
qed

lemma lk_mtry:
  assumes "lk P a a m" "\<And>s e t. P s \<Longrightarrow> m s = (Inl (Error e), t) \<Longrightarrow> P t"
  shows "lk P a b (mtry m)"
  unfolding lk_def
proof (intro allI impI conjI)
  fix s r t assume s: "P s" and e: "mtry m s = (r, t)"
  show "osThreadLocks t = osThreadLocks s + a" "P t" if "r = Inr x" for x
    using e that lkD [OF assms(1) s] assms(2) [OF s] by (auto simp: mtry_eq_Inr)
  show "osThreadLocks t = osThreadLocks s + b" if "r = Inl (Error x)" for x
    using e that by (auto simp: mtry_def split: prod.splits sum.splits failure.splits)
qed

lemma lk_mret: "lk P 0 b (mret x)"
  by (simp add: lk_def)

lemma lk_mfail: "lk P a 0 (mfail e)"
  by (simp add: lk_def)

lemma lk_mmodify: "(\<And>s. P s \<Longrightarrow> P (f s) \<and> osThreadLocks (f s) = osThreadLocks s + a) \<Longrightarrow> lk P a b (mmodify f)"
  by (simp add: lk_def)

lemma lk_mdrop:
  assumes "lk P a a m" "\<And>s e t. P s \<Longrightarrow> m s = (Inl (Error e), t) \<Longrightarrow> P t"
  shows "lk P a b (mdrop m)"
proof -
  have "lk P a b (mtry m)" by (rule lk_mtry [OF assms(1)]) (blast intro: assms(2))
  then have "lk P (a + 0) b (mdrop m)" unfolding mdrop_def
    by (rule lk_mbind [where d = "b - a"]) (simp_all add: lk_mret)
  then show ?thesis by simp
qed

lemma lk_sum:
  "(\<And>x. m = Inl x \<Longrightarrow> lk P a b (f x)) \<Longrightarrow> (\<And>x. m = Inr x \<Longrightarrow> lk P a b (g x)) \<Longrightarrow>
    lk P a b (case m of Inl x \<Rightarrow> f x | Inr x \<Rightarrow> g x)"
  by (cases m) simp_all

lemma lk_prod: "(\<And>x y. m = (x, y) \<Longrightarrow> lk P a b (f x y)) \<Longrightarrow> lk P a b (case m of (x, y) \<Rightarrow> f x y)"
  by (cases m) simp

lemma lk_at: "(\<And>s. P s \<Longrightarrow> f s = g s s) \<Longrightarrow> (\<And>s. P s \<Longrightarrow> lk P a b (g s)) \<Longrightarrow> lk P a b f"
  unfolding lk_def by metis

lemma lk_if: "(c \<Longrightarrow> lk P a b m) \<Longrightarrow> (\<not> c \<Longrightarrow> lk P a b n) \<Longrightarrow> lk P a b (if c then m else n)"
  by simp

text \<open>The predicate of an attached process with a pid, which no kernel request changes.\<close>

definition att :: "'k Process \<Rightarrow> bool" where
  "att p \<longleftrightarrow> p_pid p \<noteq> 0 \<and> isAttached p"

lemma lk_request: "lk att 0 0 (request f)" "lk (\<lambda>_. True) 0 0 (request f)"
  by (auto simp: lk_def request_def att_def split: option.splits)

lemma lk_wait4: "lk att 0 0 (wait4 E tid opts)"
  by (auto simp: lk_def wait4_def att_def split: option.splits prod.splits)

lemma att_error:
  "att s \<Longrightarrow> request f s = (Inl (Error e), t) \<Longrightarrow> att t" "att s \<Longrightarrow> wait4 E tid opts s = (Inl (Error e), t) \<Longrightarrow> att t"
  by (auto simp: request_def wait4_def split: option.splits)

lemma lk_quiet:
  "lk att 0 b (mdrop (request f))" "lk att 0 b (mdrop (wait4 E tid opts))" "lk att 0 b (mtry (wait4 E tid opts))"
  by (blast intro: lk_mdrop lk_mtry lk_request lk_wait4 att_error)+

lemma lk_seq: "lk P 0 b m \<Longrightarrow> (\<And>x. lk P c b (f x)) \<Longrightarrow> lk P c b (mbind m f)"
  using lk_mbind [of P 0 b m c b f] by simp

lemma lk_mfor: "(\<And>x. lk P 0 b (f x)) \<Longrightarrow> lk P 0 b (mfor xs f)"
  by (induction xs) (simp_all add: lk_mret lk_seq)

lemma lk_reap: "lk att 0 b (reap E fuel)"
proof (induction fuel)
  case (Suc fuel)
  have "lk att 0 b (case r of Inl e \<Rightarrow> mret () | Inr (pid, ws) \<Rightarrow> if pid \<le> 0 then mret () else reap E fuel)" for r
    by (intro lk_sum lk_prod lk_if lk_mret Suc.IH)
  then have "lk att 0 b (mbind (mtry (wait4 E (- 1) (wall OR WNOHANG)))
      (\<lambda>r. case r of Inl e \<Rightarrow> mret () | Inr (pid, ws) \<Rightarrow> if pid \<le> 0 then mret () else reap E fuel))"
    by (intro lk_seq lk_quiet)
  then show ?case by (simp only: reap.simps(2) [abs_def])
qed (simp add: lk_def)

lemma lk_stopAndWait: "lk att 0 b (stopAndWait E tid)"
proof (rule lk_at [where g = "\<lambda>s. case thread_of tid s of
        None \<Rightarrow> mret ()
      | Some t \<Rightarrow> if ts_State t = ProcessRunning
          then mbind (mdrop (request (sys_tgkill E (p_pid s) tid SIGSTOP))) (\<lambda>_. mdrop (wait4 E tid wall))
          else mret ()"])
  show "stopAndWait E tid s = (\<lambda>s. case thread_of tid s of
        None \<Rightarrow> mret ()
      | Some t \<Rightarrow> if ts_State t = ProcessRunning
          then mbind (mdrop (request (sys_tgkill E (p_pid s) tid SIGSTOP))) (\<lambda>_. mdrop (wait4 E tid wall))
          else mret ()) s s" for s
    by (simp add: stopAndWait_def mret_def split: option.split)
qed (auto split: option.split intro!: lk_if lk_mret lk_seq lk_quiet)

lemma lk_unlock: "lk att (- 1) b unlockOSThread"
  unfolding unlockOSThread_def by (rule lk_mmodify) (simp add: att_def)

text \<open>\<open>Close\<close> of an attached process gives back one lock, whatever the kernel answers.\<close>

lemma lk_Close: "lk att (- 1) b (Close E fuel)"
proof -
  let ?g = "\<lambda>s. mbind (mbind (mfor (tids E s) (stopAndWait E)) (\<lambda>_.
                 mbind (mfor (tids E s) (\<lambda>tid. mdrop (request (sys_detach E tid)))) (\<lambda>_.
                 mdrop (request (sys_kill E (p_pid s) SIGCONT))))) (\<lambda>_.
        mbind (if terminateOnEnd s then
                 mbind (mdrop (request (sys_kill E (p_pid s) SIGKILL))) (\<lambda>_. reap E fuel)
               else mret ()) (\<lambda>_. unlockOSThread))"
  show ?thesis
  proof (rule lk_at [where g = ?g])
    show "Close E fuel s = ?g s s" if "att s" for s using that by (simp add: Close_def att_def)
    show "lk att (- 1) b (?g s)" for s
      by (intro lk_seq lk_mfor lk_stopAndWait lk_quiet lk_if lk_reap lk_mret lk_unlock)
  qed
qed

lemma lk_or_else:
  assumes "lk P 0 0 m" "\<And>s e t. P s \<Longrightarrow> m s = (Inl (Error e), t) \<Longrightarrow> P t" "lk P c c n"
    and "\<And>s e t. P s \<Longrightarrow> n s = (Inl (Error e), t) \<Longrightarrow> P t"
  shows "lk P 0 c (or_else m n)"
  unfolding or_else_def
proof (rule lk_seq [OF lk_mtry [OF assms(1,2)]])
  have "lk P (c + - c) c (mbind (mdrop n) (\<lambda>_. mfail e))" for e
    by (rule lk_mbind [OF lk_mdrop [OF assms(3,4)] lk_mfail]) simp_all
  then show "lk P 0 c (case r of Inl e \<Rightarrow> mbind (mdrop n) (\<lambda>_. mfail e) | Inr x \<Rightarrow> mret x)" for r
    by (intro lk_sum lk_mret) simp
qed

lemma att_Close:
  "att s \<Longrightarrow> Close E fuel s = (Inl (Error e), t) \<Longrightarrow> att t" "unlockOSThread s = (Inl (Error e), t) \<Longrightarrow> att t"
proof -
  have "False" if "att s" "Close E fuel s = (Inl (Error e), t)"
    using lkD(3) [OF lk_Close [of 0] that refl] lkD(3) [OF lk_Close [of 1] that refl] by simp
  then show "att s \<Longrightarrow> Close E fuel s = (Inl (Error e), t) \<Longrightarrow> att t" by blast
qed (simp add: unlockOSThread_def)

lemma lk_setupMainThread: "lk att 0 (- 1) (setupMainThread E fuel pid)"
  unfolding setupMainThread_def
proof (rule lk_seq)
  show "lk att 0 (- 1) (or_else (request (sys_setOptions E pid ptraceOTraceSysGood)) (Close E fuel))"
    by (rule lk_or_else [OF lk_request(1) att_error(1) lk_Close att_Close(1)])
  have c: "lk att 0 (- 1) (mbind (mdrop (Close E fuel)) (\<lambda>_ q. (Inl e, q)))" for e :: failure
  proof -
    have "lk att (- 1) (- 1) (mdrop (Close E fuel))" by (rule lk_mdrop [OF lk_Close]) (blast intro: att_Close)
    moreover have "lk att 1 0 (\<lambda>q. (Inl e, q))" by (simp add: lk_def)
    ultimately have "lk att (- 1 + 1) (- 1) (mbind (mdrop (Close E fuel)) (\<lambda>_ q. (Inl e, q)))"
      by (rule lk_mbind) simp
    then show ?thesis by simp
  qed
  show "lk att 0 (- 1) (\<lambda>p. case readAll (user E) (kernel p) (ts_Regs (newThread pid)) of
         (Inl e, _) \<Rightarrow> mbind (mdrop (Close E fuel)) (\<lambda>_ q. (Inl e, q)) p
       | (Inr _, regs) \<Rightarrow> (Inr (), add_thread pid ((newThread pid)\<lparr>ts_Regs := regs\<rparr>) p))" for x :: unit
  proof (rule lk_at [where g = "\<lambda>p. case readAll (user E) (kernel p) (ts_Regs (newThread pid)) of
         (Inl e, _) \<Rightarrow> mbind (mdrop (Close E fuel)) (\<lambda>_ q. (Inl e, q))
       | (Inr _, regs) \<Rightarrow> mmodify (add_thread pid ((newThread pid)\<lparr>ts_Regs := regs\<rparr>))"])
    have a: "lk att 0 (- 1) (mmodify (add_thread pid t))" for t
      by (rule lk_mmodify) (simp add: att_def add_thread_def)
    show "lk att 0 (- 1) (case readAll (user E) (kernel s) (ts_Regs (newThread pid)) of
         (Inl e, _) \<Rightarrow> mbind (mdrop (Close E fuel)) (\<lambda>_ q. (Inl e, q))
       | (Inr _, regs) \<Rightarrow> mmodify (add_thread pid ((newThread pid)\<lparr>ts_Regs := regs\<rparr>)))" for s
      by (auto split: prod.split sum.split intro: c a)
  qed (simp add: mmodify_def split: prod.split sum.split)
qed

text \<open>Operations that keep both the attachment and the locks on every branch.\<close>

definition held :: "int \<Rightarrow> 'k Process \<Rightarrow> bool" where
  "held n p \<longleftrightarrow> att p \<and> osThreadLocks p = n"

lemma keeps_held:
  "keeps (held n) (request f)" "keeps (held n) (wait4 E tid opts)"
  "keeps (held n) (mmodify (\<lambda>q. add_thread tid (t q) q))"
  by (auto intro!: keepsI simp: request_def wait4_def held_def att_def add_thread_def split: option.splits)

lemma lk_mdrop_keeps:
  assumes "\<And>n. keeps (held n) m"
  shows "lk att 0 b (mdrop m)"
proof (rule lk_mdrop)
  show "lk att 0 0 m" unfolding lk_def
    using keepsD [OF assms] by (metis add.right_neutral held_def)
  show "att t" if "att s" "m s = (Inl (Error e), t)" for s e t
    using keepsD [OF assms _ that(2)] that(1) by (metis held_def)
qed

lemma lk_seizeTask: "lk att 0 b (seizeTask E name)"
proof (rule lk_at [where g = "\<lambda>p. case Atoi name of None \<Rightarrow> mret ()
      | Some tid \<Rightarrow> if thread_of tid p \<noteq> None then mret () else mdrop (seizeThread E tid)"])
  have "lk att 0 b (mdrop (seizeThread E tid))" for tid
    unfolding seizeThread_def by (intro lk_mdrop_keeps keeps_mbind keeps_mdrop keeps_held)
  then show "lk att 0 b (case Atoi name of None \<Rightarrow> mret ()
      | Some tid \<Rightarrow> if thread_of tid s \<noteq> None then mret () else mdrop (seizeThread E tid))" for s
    by (auto split: option.split intro: lk_mret)
qed (simp add: seizeTask_def mret_def split: option.split)

lemma lk_populate: "lk att 0 b (populateExistingThreads E)"
proof (rule lk_at [where g = "\<lambda>p. case sys_taskDir E (p_pid p) (kernel p) of
        None \<Rightarrow> mret () | Some entries \<Rightarrow> mfor entries (seizeTask E)"])
  show "lk att 0 b (case sys_taskDir E (p_pid s) (kernel s) of
        None \<Rightarrow> mret () | Some entries \<Rightarrow> mfor entries (seizeTask E))" for s
    by (auto split: option.split intro: lk_mret lk_mfor lk_seizeTask)
qed (simp add: populateExistingThreads_def mret_def split: option.split)

lemma lk_fresh:
  assumes "lk att a b m" "pid \<noteq> 0"
  shows "lk (\<lambda>_. True) a b (mbind (mmodify (fresh pid terminate True)) (\<lambda>_. m))"
  unfolding lk_def
proof (intro allI impI)
  fix s r t assume "mbind (mmodify (fresh pid terminate True)) (\<lambda>_. m) s = (r, t)"
  then have m: "m (fresh pid terminate True s) = (r, t)" by (simp add: mbind_def mmodify_def)
  have "att (fresh pid terminate True s)" using assms(2) by (simp add: att_def fresh_def)
  moreover have "osThreadLocks (fresh pid terminate True s) = osThreadLocks s" by (simp add: fresh_def)
  ultimately show "(\<forall>x. r = Inr x \<longrightarrow> osThreadLocks t = osThreadLocks s + a \<and> True) \<and>
      (\<forall>e. r = Inl (Error e) \<longrightarrow> osThreadLocks t = osThreadLocks s + b)"
    using lkD [OF assms(1) _ m] by simp
qed

text \<open>
  C24 (error).  \<open>Attach\<close> pins the goroutine to its OS thread exactly when it succeeds: every error
  return, at whatever request the kernel refuses, has released the pin again.
\<close>

theorem Attach_locks:
  assumes "Attach E fuel pid w = (r, p)"
  shows "(\<forall>x. r = Inr x \<longrightarrow> osThreadLocks p = osThreadLocks w + 1) \<and>
    (\<forall>e. r = Inl (Error e) \<longrightarrow> osThreadLocks p = osThreadLocks w)"
proof (cases "pid = 0")
  case True
  then show ?thesis using assms by (simp add: Attach_def)
next
  case False
  let ?T = "\<lambda>_. True"
  let ?tail = "mbind (mmodify (fresh pid False True)) (\<lambda>_.
        mbind (or_else (wait4 E pid 0) unlockOSThread) (\<lambda>_.
        mbind (setupMainThread E fuel pid) (\<lambda>_. populateExistingThreads E)))"
  have "lk att 0 (- 1) (mbind (or_else (wait4 E pid 0) unlockOSThread) (\<lambda>_.
        mbind (setupMainThread E fuel pid) (\<lambda>_. populateExistingThreads E)))"
    by (intro lk_seq lk_setupMainThread lk_populate lk_or_else [OF lk_wait4 att_error(2) lk_unlock att_Close(2)])
  then have tail: "lk ?T 0 (- 1) ?tail" using False by (rule lk_fresh)
  have req: "lk ?T 0 (- 1) (or_else (request f) unlockOSThread)" for f
    by (rule lk_or_else [OF lk_request(2)]) (auto simp: unlockOSThread_def intro: lk_mmodify)
  have lock: "lk ?T 1 0 lockOSThread" unfolding lockOSThread_def by (rule lk_mmodify) simp
  have "lk ?T 0 (- 1) (mbind (or_else (request (sys_seize E pid)) unlockOSThread) (\<lambda>_.
      mbind (or_else (request (sys_interrupt E pid)) unlockOSThread) (\<lambda>_. ?tail)))"
    by (intro lk_seq req tail)
  from lk_mbind [OF lock this] have "lk ?T 1 0 (Attach E fuel pid)" using False by (simp add: Attach_def)
  from lkD [OF this TrueI assms] show ?thesis by auto
qed

definition refusing_env :: "(u64 \<Rightarrow> u8) env" where
  "refusing_env = flat_env\<lparr>sys_interrupt := (\<lambda>tid k. None)\<rparr>"

lemma demo_attach_fails: "fst (Attach refusing_env 3 7 flat_proc) = Inl (Error PtraceFailed)"
  by code_simp

theorem Attach_locks_witness: "osThreadLocks (snd (Attach refusing_env 3 7 flat_proc)) = 1"
proof -
  let ?r = "Attach refusing_env 3 7 flat_proc"
  have "?r = (Inl (Error PtraceFailed), snd ?r)" using demo_attach_fails by (rule prod_eqI [OF trans]) simp_all
  from Attach_locks [OF this] show ?thesis by (simp add: flat_proc_def)
qed

section \<open>Syscall stops\<close>

lemma gpr_shape:
  "list_all (\<lambda>i. ri_Size i = 8 \<and> ri_Format i = RegisterFormatUint \<and> ri_Type i = RegisterTypeGPR) gprInfos"
  "length gprInfos = 25"
  by (simp_all add: gprInfos_def regInfo_def)

lemma wide_gpr:
  assumes "i < 25"
  shows "wide (entry_at i)"
proof -
  have "registerTable ! i = gprInfos ! i" using assms gpr_shape(2) by (simp add: registerTable_def nth_append)
  moreover have "gprInfos ! i \<in> set gprInfos" using assms gpr_shape(2) by simp
  ultimately show ?thesis
    using gpr_shape(1) registerInfos_ok [OF entry_at_mem, of i] assms
    by (auto simp: wide_def entry_at_eq list_all_iff)
qed

lemma syscall_entries:
  "RegisterInfoByName ''rax'' = Some (entry_at 0)" "RegisterInfoByName ''rdx'' = Some (entry_at 1)"
  "RegisterInfoByName ''rsi'' = Some (entry_at 4)" "RegisterInfoByName ''rdi'' = Some (entry_at 5)"
  "RegisterInfoByName ''r8'' = Some (entry_at 8)" "RegisterInfoByName ''r9'' = Some (entry_at 9)"
  "RegisterInfoByName ''r10'' = Some (entry_at 10)" "RegisterInfoByName ''orig_rax'' = Some (entry_at 24)"
  by (rule byName; simp add: table_defs regInfo_def)+

lemma readNamed_entry:
  assumes "regs_ok regs" "RegisterInfoByName name = Some (entry_at i)" "i < 25"
  shows "readNamed regs name = Inr (get8 (infoNamed name) regs)"
  using assms by (simp add: readNamed_def infoNamed_def readRegisterUint64_wide wide_gpr)

text \<open>
  At a syscall stop of a tracked thread, \<open>augmentStopReasonForThread\<close> reports an
  entry when the thread was not expected to return from a syscall and an exit otherwise, and flips
  the expectation, so that entries and exits alternate; the number is the low 16 bits of
  \<open>orig_rax\<close>, an entry has the six argument registers and an exit the value of \<open>rax\<close>.
\<close>

theorem syscall_stop_reported:
  assumes "thread_of tid p = Some t" "regs_ok (ts_Regs t)"
    and "sr_Reason reason = ProcessStopped" "sr_Info reason = 0x85"
  shows "\<exists>info. augmentStopReasonForThread E tid reason p =
      (Inr (reason\<lparr>sr_TrapReason := Some TrapSyscall, sr_Info := SIGTRAP, sr_SyscallInfo := Some info\<rparr>),
       upd_thread tid (\<lambda>t. t\<lparr>ts_ExpectingSyscallExit := si_Entry info\<rparr>) p) \<and>
    si_Entry info = (\<not> ts_ExpectingSyscallExit t) \<and>
    si_ID info = ucast (get8 (infoNamed ''orig_rax'') (ts_Regs t)) \<and>
    (if si_Entry info then si_Args info = map (\<lambda>n. get8 (infoNamed n) (ts_Regs t)) argRegs
     else si_Ret info = get8 (infoNamed ''rax'') (ts_Regs t))"
proof -
  note rd = readNamed_entry [OF assms(2)]
  have args: "readArgs (ts_Regs t) argRegs = Inr (map (\<lambda>n. get8 (infoNamed n) (ts_Regs t)) argRegs)"
    by (simp add: argRegs_def rd syscall_entries)
  let ?info = "\<lambda>entry. if entry
      then \<lparr>si_ID = ucast (get8 (infoNamed ''orig_rax'') (ts_Regs t)), si_Entry = True,
             si_Args = map (\<lambda>n. get8 (infoNamed n) (ts_Regs t)) argRegs, si_Ret = 0\<rparr>
      else \<lparr>si_ID = ucast (get8 (infoNamed ''orig_rax'') (ts_Regs t)), si_Entry = False,
             si_Args = replicate 6 0, si_Ret = get8 (infoNamed ''rax'') (ts_Regs t)\<rparr>"
  have "syscallInfo (ts_Regs t) entry = Inr (?info entry)" for entry
    by (simp add: syscallInfo_def args rd syscall_entries)
  then show ?thesis using assms(1,3,4)
    by (intro exI [where x = "?info (\<not> ts_ExpectingSyscallExit t)"])
      (simp add: augmentStopReasonForThread_def Let_def)
qed

theorem syscall_stop_reported_witness:
  "\<exists>info. fst (augmentStopReasonForThread flat_env 1 (stop ProcessStopped 0x85 1) flat_proc) =
      Inr ((stop ProcessStopped 0x85 1)\<lparr>sr_TrapReason := Some TrapSyscall, sr_Info := SIGTRAP, sr_SyscallInfo := Some info\<rparr>) \<and>
    si_Entry info"
proof -
  have t: "thread_of 1 flat_proc = Some (flat_thread 1)" "\<not> ts_ExpectingSyscallExit (flat_thread 1)"
    by (simp_all add: flat_proc_def thread_of_def flat_thread_def)
  have "regs_ok (ts_Regs (flat_thread 1))" by (rule threads_okD(1) [OF flat_threads_ok t(1)])
  from syscall_stop_reported [OF t(1) this, of "stop ProcessStopped 0x85 1" flat_env] t(2)
  show ?thesis by (auto simp: stop_def)
qed

end
