(* ===== verification/Debug_Info.thy ===== *)
theory Debug_Info
  imports Prelude "HOL-Library.Multiset"
begin

text \<open>
  The index over the debug information of an object, \<open>src/debugger/dwarf.go\<close>: functions by name and
  by address, the line table, the inline stack, the lexical scopes and their variables.  The
  standard library's \<open>debug/dwarf\<close> is modelled by what the source reads through it: the entries of
  \<open>.debug_info\<close> in section order, null entries included, each with the attributes the code asks
  for, its address ranges (\<open>Data.Ranges\<close>) and, on a compile unit, the rows of its line program.
  \<open>sort.Slice\<close> is not stable, so a sort is an argument of which only \<open>sorts\<close> is known.
\<close>

section \<open>Sorting and searching\<close>

definition sorts :: "('a \<Rightarrow> 'b::linorder) \<Rightarrow> ('a list \<Rightarrow> 'a list) \<Rightarrow> bool" where
  "sorts key s \<longleftrightarrow> (\<forall>xs. mset (s xs) = mset xs \<and> sorted (map key (s xs)))"

lemma sorts_sort_key [simp]: "sorts key (sort_key key)"
  by (simp add: sorts_def)

lemma sorts_set: "sorts key s \<Longrightarrow> set (s xs) = set xs"
  unfolding sorts_def by (metis set_mset_mset)

lemma sorts_sorted: "sorts key s \<Longrightarrow> sorted (map key (s xs))"
  by (simp add: sorts_def)

lemma sorts_length: "sorts key s \<Longrightarrow> length (s xs) = length xs"
  unfolding sorts_def by (metis size_mset)

text \<open>\<open>sort.Search(n, p)\<close> for a predicate that does not fail.\<close>

definition sort_Search :: "int \<Rightarrow> (int \<Rightarrow> bool) \<Rightarrow> int" where
  "sort_Search n p = projr (search (\<lambda>i. Inr (p i)) 0 n)"

lemma takeWhile_boundary:
  assumes "n \<le> length xs" "\<And>i. i < n \<Longrightarrow> P (xs ! i)" "\<And>i. n \<le> i \<Longrightarrow> i < length xs \<Longrightarrow> \<not> P (xs ! i)"
  shows "length (takeWhile P xs) = n"
proof (rule takeWhile_eq_take_P_nth [THEN arg_cong [where f = length], THEN trans])
  show "length (take n xs) = n" using assms(1) by simp
qed (use assms in auto)

lemma sort_Search_takeWhile:
  assumes "sorted_wrt (\<lambda>x y. Q x \<longrightarrow> Q y) xs"
  shows "sort_Search (int (length xs)) (\<lambda>i. Q (xs ! nat i)) = int (length (takeWhile (\<lambda>x. \<not> Q x) xs))"
proof -
  let ?p = "\<lambda>i. Q (xs ! nat i)"
  have mono: "?p h'" if "0 \<le> h" "h \<le> h'" "h' < int (length xs)" "?p h" for h h'
  proof (cases "h = h'")
    case True
    with that(4) show ?thesis by simp
  next
    case False
    with that have "nat h < nat h'" "nat h' < length xs" by linarith+
    from sorted_wrt_nth_less [OF assms this] that(4) show ?thesis by simp
  qed
  have "\<exists>k. search (\<lambda>i. Inr (?p i)) 0 (int (length xs)) = Inr k \<and> 0 \<le> k \<and> k \<le> int (length xs) \<and>
      (\<forall>h. 0 \<le> h \<and> h < k \<longrightarrow> \<not> ?p h) \<and> (\<forall>h. k \<le> h \<and> h < int (length xs) \<longrightarrow> ?p h)"
    by (rule search_least [where p = ?p]) (simp, rule refl, erule (3) mono)
  then obtain k where k: "search (\<lambda>i. Inr (?p i)) 0 (int (length xs)) = Inr k" "0 \<le> k"
    "k \<le> int (length xs)" "\<And>h. 0 \<le> h \<Longrightarrow> h < k \<Longrightarrow> \<not> ?p h"
    "\<And>h. k \<le> h \<Longrightarrow> h < int (length xs) \<Longrightarrow> ?p h"
    by blast
  have "length (takeWhile (\<lambda>x. \<not> Q x) xs) = nat k"
  proof (rule takeWhile_boundary)
    show "\<not> Q (xs ! i)" if "i < nat k" for i using k(4) [of "int i"] that by simp
    show "\<not> \<not> Q (xs ! i)" if "nat k \<le> i" "i < length xs" for i using k(5) [of "int i"] that k(2) by simp
  qed (use k(3) in simp)
  with k(1,2) show ?thesis by (simp add: sort_Search_def)
qed

lemma sorted_up_closed:
  "sorted (map key xs) \<Longrightarrow> sorted_wrt (\<lambda>x y. a < key x \<longrightarrow> a < key y) xs"
  "sorted (map key xs) \<Longrightarrow> sorted_wrt (\<lambda>x y. a \<le> key x \<longrightarrow> a \<le> key y) xs"
  by (auto simp: sorted_map elim!: sorted_wrt_mono_rel [rotated])

lemma sort_Search_above:
  "sorted (map key xs) \<Longrightarrow>
    sort_Search (int (length xs)) (\<lambda>i. a < key (xs ! nat i)) = int (length (takeWhile (\<lambda>x. key x \<le> a) xs))"
  using sort_Search_takeWhile [OF sorted_up_closed(1), of key xs a] by (simp add: not_less)

lemma sort_Search_from:
  "sorted (map key xs) \<Longrightarrow>
    sort_Search (int (length xs)) (\<lambda>i. a \<le> key (xs ! nat i)) = int (length (takeWhile (\<lambda>x. key x < a) xs))"
  using sort_Search_takeWhile [OF sorted_up_closed(2), of key xs a] by (simp add: not_le)

section \<open>Debugging information entries\<close>

type_synonym Offset = u32

datatype Tag =
    TagNull
  | TagCompileUnit
  | TagSubprogram
  | TagInlinedSubroutine
  | TagLexDwarfBlock
  | TagVariable
  | TagFormalParameter
  | TagOther u32

datatype Class = ClassExprLoc | ClassLocListPtr | ClassOther

datatype AttrVal = ValBytes "u8 list" | ValInt i64 | ValOther

record Field =
  f_Class :: Class
  f_Val :: AttrVal

text \<open>A row of a line program: \<open>dwarf.LineEntry\<close>, whose \<open>File\<close> pointer may be nil.\<close>

record lineRow =
  row_Address :: u64
  row_File :: "string option"
  row_Line :: int
  row_Column :: int
  row_IsStmt :: bool
  row_BasicBlock :: bool
  row_EndSequence :: bool
  row_PrologueEnd :: bool
  row_EpilogueBegin :: bool
  row_Discriminator :: int

record Entry =
  en_Offset :: Offset
  en_Tag :: Tag
  en_Children :: bool
  en_Name :: "string option"
  en_AbstractOrigin :: "Offset option"
  en_Ranges :: "(u64 \<times> u64) list option"                        \<comment> \<open>\<open>Data.Ranges\<close>; \<open>None\<close> an error\<close>
  en_Location :: "Field option"
  en_FrameBase :: "Field option"
  en_Lowpc :: "u64 option"
  en_Type :: "Offset option"
  en_CallLine :: "int option"
  en_CallColumn :: "int option"
  en_CallFile :: "int option"
  en_LineReader :: "(lineRow list \<times> string option list) option"  \<comment> \<open>\<open>Data.LineReader\<close>: rows and files\<close>

text \<open>The null entry that closes a list of children: \<open>Entry{}\<close>.\<close>

definition null_entry :: Entry where
  "null_entry =
     \<lparr>en_Offset = 0, en_Tag = TagNull, en_Children = False, en_Name = None, en_AbstractOrigin = None,
      en_Ranges = None, en_Location = None, en_FrameBase = None, en_Lowpc = None, en_Type = None,
      en_CallLine = None, en_CallColumn = None, en_CallFile = None, en_LineReader = None\<rparr>"

text \<open>
  A \<open>dwarf.Reader\<close> is the list of the entries still to come: \<open>Next\<close> takes the head, \<open>Seek\<close> restarts
  at an offset (a null entry has none), and \<open>SkipChildren\<close> after an entry drops the entries up to
  the null entry that closes it.
\<close>

definition Seek :: "Entry list \<Rightarrow> Offset \<Rightarrow> Entry list" where
  "Seek es off = dropWhile (\<lambda>e. en_Tag e = TagNull \<or> en_Offset e \<noteq> off) es"

primrec skip_nested :: "Entry list \<Rightarrow> nat \<Rightarrow> Entry list" where
  "skip_nested [] depth = []"
| "skip_nested (e # es) depth =
     (if depth = 0 then e # es
      else if en_Tag e = TagNull then skip_nested es (depth - 1)
      else if en_Children e then skip_nested es (depth + 1)
      else skip_nested es depth)"

definition SkipChildren :: "Entry \<Rightarrow> Entry list \<Rightarrow> Entry list" where
  "SkipChildren e es = (if en_Children e then skip_nested es 1 else es)"

lemma length_skip_nested: "length (skip_nested es depth) \<le> length es"
  by (induction es arbitrary: depth) (auto intro: le_SucI)

lemma length_SkipChildren: "length (SkipChildren e es) \<le> length es"
  by (simp add: SkipChildren_def length_skip_nested)

text \<open>
  The entries that the loops over the children of an entry visit: each loop reads an entry, leaves
  at the end or at a null entry, and skips the children of the one it has read.
\<close>

function siblings :: "Entry list \<Rightarrow> Entry list" where
  "siblings [] = []"
| "siblings (c # es) = (if en_Tag c = TagNull then [] else c # siblings (SkipChildren c es))"
  by pat_completeness auto
termination by (relation "measure length") (auto simp: le_imp_less_Suc length_SkipChildren)

definition scope_children :: "Entry list \<Rightarrow> Offset \<Rightarrow> Entry list" where
  "scope_children es off =
     (case Seek es off of [] \<Rightarrow> [] | parent # rest \<Rightarrow> if en_Children parent then siblings rest else [])"

definition entryName :: "Entry \<Rightarrow> string" where
  "entryName e = (case en_Name e of Some n \<Rightarrow> n | None \<Rightarrow> '''')"

section \<open>The index\<close>

record FunctionEntry =
  fn_Name :: string
  fn_Ranges :: "(u64 \<times> u64) list"
  fn_IsInlined :: bool
  fn_DIEOffset :: Offset

record SourceLocation =
  sl_File :: string
  sl_Line :: int
  sl_Column :: int

record funcAddrEntry =
  fa_startPC :: u64
  fa_endPC :: u64
  fa_fn :: FunctionEntry

record LineEntry =
  le_Address :: u64
  le_File :: string
  le_Line :: int
  le_Column :: int
  le_IsStmt :: bool
  le_BasicBlock :: bool
  le_EndSequence :: bool
  le_PrologueEnd :: bool
  le_EpilogueBegin :: bool
  le_Discriminator :: int

record fileLineKey =
  key_file :: string
  key_line :: int

record lineIndex =
  li_entries :: "LineEntry list"
  li_byFileLine :: "fileLineKey \<rightharpoonup> nat list"

record globalVarEntry =
  gv_name :: string
  gv_dieOffset :: Offset

text \<open>\<open>d_locSection\<close> is the \<open>.debug_loc\<close> section that the \<open>elfFile\<close> would give.\<close>

record DWARF =
  d_data :: "Entry list"
  funcsByAddr :: "funcAddrEntry list"
  funcsByName :: "string \<rightharpoonup> FunctionEntry list"
  d_lines :: lineIndex
  d_loadBias :: u64
  d_globalVars :: "globalVarEntry list"
  d_globalVarsBuilt :: bool
  d_locSection :: "u8 list option"

section \<open>Building the index\<close>

definition next_entry :: "Entry list \<Rightarrow> Offset \<Rightarrow> Entry option" where
  "next_entry es off = (case Seek es off of [] \<Rightarrow> None | e # _ \<Rightarrow> Some e)"

definition resolveAbstractOriginName :: "Entry list \<Rightarrow> Offset \<Rightarrow> string" where
  "resolveAbstractOriginName es off = (case next_entry es off of None \<Rightarrow> '''' | Some e \<Rightarrow> entryName e)"

definition function_name :: "Entry list \<Rightarrow> Entry \<Rightarrow> bool \<Rightarrow> string" where
  "function_name es e inlined =
     (let name = entryName e in
      if name = '''' \<and> inlined then
        (case en_AbstractOrigin e of Some ref \<Rightarrow> resolveAbstractOriginName es ref | None \<Rightarrow> name)
      else name)"

definition addFunction :: "Entry \<Rightarrow> bool \<Rightarrow> DWARF \<Rightarrow> DWARF" where
  "addFunction e inlined d =
     (let name = function_name (d_data d) e inlined in
      if name = '''' then d
      else case en_Ranges e of
        None \<Rightarrow> d
      | Some ranges \<Rightarrow>
        if ranges = [] then d
        else
          let fn = \<lparr>fn_Name = name, fn_Ranges = ranges, fn_IsInlined = inlined, fn_DIEOffset = en_Offset e\<rparr>;
              d1 = d\<lparr>funcsByName := (funcsByName d)(name \<mapsto>
                       (case funcsByName d name of Some fs \<Rightarrow> fs | None \<Rightarrow> []) @ [fn])\<rparr>
          in if inlined then d1
             else d1\<lparr>funcsByAddr := funcsByAddr d1 @
                       map (\<lambda>r. \<lparr>fa_startPC = fst r, fa_endPC = snd r, fa_fn = fn\<rparr>) ranges\<rparr>)"

definition add_entry :: "Entry \<Rightarrow> DWARF \<Rightarrow> DWARF" where
  "add_entry e d =
     (case en_Tag e of
        TagSubprogram \<Rightarrow> addFunction e False d
      | TagInlinedSubroutine \<Rightarrow> addFunction e True d
      | _ \<Rightarrow> d)"

definition toLineEntry :: "lineRow \<Rightarrow> LineEntry" where
  "toLineEntry le =
     \<lparr>le_Address = row_Address le, le_File = (case row_File le of Some f \<Rightarrow> f | None \<Rightarrow> ''''),
      le_Line = row_Line le, le_Column = row_Column le, le_IsStmt = row_IsStmt le,
      le_BasicBlock = row_BasicBlock le, le_EndSequence = row_EndSequence le,
      le_PrologueEnd = row_PrologueEnd le, le_EpilogueBegin = row_EpilogueBegin le,
      le_Discriminator = row_Discriminator le\<rparr>"

function unit_lines :: "Entry list \<Rightarrow> LineEntry list" where
  "unit_lines [] = []"
| "unit_lines (e # es) =
     (if en_Tag e \<noteq> TagCompileUnit then unit_lines es
      else case en_LineReader e of
        None \<Rightarrow> unit_lines (SkipChildren e es)
      | Some (rows, _) \<Rightarrow> map toLineEntry rows @ unit_lines es)"
  by pat_completeness auto
termination by (relation "measure length") (auto simp: le_imp_less_Suc length_SkipChildren)

definition line_key :: "LineEntry \<Rightarrow> fileLineKey" where
  "line_key e = \<lparr>key_file = le_File e, key_line = le_Line e\<rparr>"

primrec index_lines :: "LineEntry list \<Rightarrow> nat \<Rightarrow> (fileLineKey \<rightharpoonup> nat list) \<Rightarrow> (fileLineKey \<rightharpoonup> nat list)" where
  "index_lines [] i m = m"
| "index_lines (e # es) i m =
     index_lines es (i + 1)
       (if le_EndSequence e then m
        else m(line_key e \<mapsto> (case m (line_key e) of Some is \<Rightarrow> is | None \<Rightarrow> []) @ [i]))"

definition buildLineIndex :: "(LineEntry list \<Rightarrow> LineEntry list) \<Rightarrow> DWARF \<Rightarrow> DWARF" where
  "buildLineIndex sortLines d =
     (let entries = sortLines (unit_lines (d_data d))
      in d\<lparr>d_lines := \<lparr>li_entries = entries, li_byFileLine = index_lines entries 0 Map.empty\<rparr>\<rparr>)"

definition emptyDWARF :: "Entry list \<Rightarrow> u8 list option \<Rightarrow> DWARF" where
  "emptyDWARF data locSection =
     \<lparr>d_data = data, funcsByAddr = [], funcsByName = Map.empty,
      d_lines = \<lparr>li_entries = [], li_byFileLine = Map.empty\<rparr>, d_loadBias = 0, d_globalVars = [],
      d_globalVarsBuilt = False, d_locSection = locSection\<rparr>"

definition newDWARF ::
  "(funcAddrEntry list \<Rightarrow> funcAddrEntry list) \<Rightarrow> (LineEntry list \<Rightarrow> LineEntry list) \<Rightarrow>
     Entry list \<Rightarrow> u8 list option \<Rightarrow> DWARF" where
  "newDWARF sortFuncs sortLines data locSection =
     (let d = fold add_entry data (emptyDWARF data locSection)
      in buildLineIndex sortLines (d\<lparr>funcsByAddr := sortFuncs (funcsByAddr d)\<rparr>))"

section \<open>Queries\<close>

definition FunctionContainingPC :: "DWARF \<Rightarrow> u64 \<Rightarrow> FunctionEntry option" where
  "FunctionContainingPC d addr =
     (let fileAddr = addr - d_loadBias d; n = int (length (funcsByAddr d)) in
      if n = 0 then None
      else let idx = sort_Search n (\<lambda>i. fileAddr < fa_startPC (funcsByAddr d ! nat i)) - 1 in
        if idx < 0 then None
        else let e = funcsByAddr d ! nat idx in
          if fa_startPC e \<le> fileAddr \<and> fileAddr < fa_endPC e then Some (fa_fn e) else None)"

definition FunctionsByName :: "DWARF \<Rightarrow> string \<Rightarrow> FunctionEntry list" where
  "FunctionsByName d name = (case funcsByName d name of Some fs \<Rightarrow> fs | None \<Rightarrow> [])"

text \<open>The index before \<open>k\<close> of the last entry that is not an end marker.\<close>

fun back_up :: "LineEntry list \<Rightarrow> nat \<Rightarrow> nat option" where
  "back_up es 0 = None"
| "back_up es (Suc idx) = (if le_EndSequence (es ! idx) then back_up es idx else Some idx)"

definition GetEntryByAddress :: "DWARF \<Rightarrow> u64 \<Rightarrow> LineEntry option" where
  "GetEntryByAddress d addr =
     (let fileAddr = addr - d_loadBias d; es = li_entries (d_lines d); n = int (length es) in
      if n = 0 then None
      else case back_up es (nat (sort_Search n (\<lambda>i. fileAddr < le_Address (es ! nat i)))) of
        None \<Rightarrow> None
      | Some idx \<Rightarrow> Some ((es ! idx)\<lparr>le_Address := le_Address (es ! idx) + d_loadBias d\<rparr>))"

definition toSourceLocation :: "LineEntry \<Rightarrow> SourceLocation" where
  "toSourceLocation e = \<lparr>sl_File = le_File e, sl_Line = le_Line e, sl_Column = le_Column e\<rparr>"

definition PCToSourceLocation :: "DWARF \<Rightarrow> u64 \<Rightarrow> SourceLocation option" where
  "PCToSourceLocation d addr = map_option toSourceLocation (GetEntryByAddress d addr)"

definition pathEndsWith :: "string \<Rightarrow> string \<Rightarrow> bool" where
  "pathEndsWith full sfx \<longleftrightarrow>
     full = sfx \<or>
     (length sfx \<le> length full \<and> drop (length full - length sfx) full = sfx \<and>
      0 < length full - length sfx \<and> full ! (length full - length sfx - 1) = CHR ''/'')"

text \<open>Go ranges over a map in an unspecified order: \<open>order\<close> lists the keys.\<close>

definition GetEntriesByLine ::
  "((fileLineKey \<rightharpoonup> nat list) \<Rightarrow> fileLineKey list) \<Rightarrow> (LineEntry list \<Rightarrow> LineEntry list) \<Rightarrow>
     DWARF \<Rightarrow> string \<Rightarrow> int \<Rightarrow> LineEntry list" where
  "GetEntriesByLine order sortLines d path line =
     sortLines (concat (map (\<lambda>key.
       if key_line key \<noteq> line \<or> \<not> pathEndsWith (key_file key) path then []
       else map (\<lambda>i. (li_entries (d_lines d) ! i)
                       \<lparr>le_Address := le_Address (li_entries (d_lines d) ! i) + d_loadBias d\<rparr>)
              (case li_byFileLine (d_lines d) key of Some is \<Rightarrow> is | None \<Rightarrow> []))
       (order (li_byFileLine (d_lines d)))))"

definition AllLineEntries :: "DWARF \<Rightarrow> LineEntry list" where
  "AllLineEntries d = li_entries (d_lines d)"

definition rangesContain :: "(u64 \<times> u64) list \<Rightarrow> u64 \<Rightarrow> bool" where
  "rangesContain ranges addr \<longleftrightarrow> (\<exists>r \<in> set ranges. fst r \<le> addr \<and> addr < snd r)"

definition entry_contains :: "Entry \<Rightarrow> u64 \<Rightarrow> bool" where
  "entry_contains e addr = (case en_Ranges e of None \<Rightarrow> False | Some ranges \<Rightarrow> rangesContain ranges addr)"

text \<open>The first entry marked as a prologue end, and the second real entry, of a part of the table.\<close>

primrec second_entry :: "LineEntry list \<Rightarrow> nat \<Rightarrow> u64 option" where
  "second_entry [] k = None"
| "second_entry (e # es) k =
     (if le_EndSequence e then second_entry es k
      else if k + 1 = 2 then Some (le_Address e)
      else second_entry es (k + 1))"

definition PrologueEndForRange :: "DWARF \<Rightarrow> u64 \<Rightarrow> u64 \<Rightarrow> u64 option" where
  "PrologueEndForRange d lowPC highPC =
     (let es = li_entries (d_lines d); n = int (length es) in
      if n = 0 then None
      else
        let start = sort_Search n (\<lambda>i. lowPC \<le> le_Address (es ! nat i));
            region = takeWhile (\<lambda>e. le_Address e < highPC) (drop (nat start) es)
        in case find (\<lambda>e. le_PrologueEnd e \<and> \<not> le_EndSequence e) region of
             Some e \<Rightarrow> Some (le_Address e)
           | None \<Rightarrow> second_entry region 0)"

section \<open>Inlined calls and scopes\<close>

primrec rfold :: "('a \<Rightarrow> 's \<Rightarrow> 's res) \<Rightarrow> 'a list \<Rightarrow> 's \<Rightarrow> 's res" where
  "rfold f [] s = Inr s"
| "rfold f (x # xs) s = rbind (f x s) (rfold f xs)"

lemma rfold_cong [fundef_cong]:
  assumes "xs = ys" "s = t" "\<And>x u. x \<in> set ys \<Longrightarrow> f x u = g x u"
  shows "rfold f xs s = rfold g ys t"
  using assms(3) unfolding assms(1,2)
  by (induction ys arbitrary: t) (auto intro!: rbind_cong)

definition inlined_call :: "Entry list \<Rightarrow> Entry \<Rightarrow> FunctionEntry" where
  "inlined_call es child =
     \<lparr>fn_Name = function_name es child True,
      fn_Ranges = (case en_Ranges child of Some rs \<Rightarrow> rs | None \<Rightarrow> []),
      fn_IsInlined = True, fn_DIEOffset = en_Offset child\<rparr>"

text \<open>
  The recursion of \<open>walkInlineChildren\<close> follows entry offsets, so it is bounded by fuel; the number
  of entries is enough for every section whose offsets are distinct.
\<close>

primrec walkInlineChildren ::
  "nat \<Rightarrow> Entry list \<Rightarrow> Offset \<Rightarrow> u64 \<Rightarrow> FunctionEntry list \<Rightarrow> FunctionEntry list res" where
  "walkInlineChildren 0 es parent fileAddr stack = Inl OutOfFuel"
| "walkInlineChildren (Suc n) es parent fileAddr stack =
     rfold (\<lambda>child stack.
       case en_Tag child of
         TagInlinedSubroutine \<Rightarrow>
           if entry_contains child fileAddr
           then walkInlineChildren n es (en_Offset child) fileAddr (stack @ [inlined_call es child])
           else Inr stack
       | TagLexDwarfBlock \<Rightarrow>
           if entry_contains child fileAddr
           then walkInlineChildren n es (en_Offset child) fileAddr stack
           else Inr stack
       | _ \<Rightarrow> Inr stack)
     (scope_children es parent) stack"

definition InlineStackAtAddress :: "nat \<Rightarrow> DWARF \<Rightarrow> u64 \<Rightarrow> FunctionEntry list res" where
  "InlineStackAtAddress fuel d addr =
     (case FunctionContainingPC d addr of
        None \<Rightarrow> Inr []
      | Some outerFn \<Rightarrow>
          walkInlineChildren fuel (d_data d) (fn_DIEOffset outerFn) (addr - d_loadBias d) [outerFn])"

primrec scopesAtAddressInDIE ::
  "nat \<Rightarrow> Entry list \<Rightarrow> Offset \<Rightarrow> u64 \<Rightarrow> Offset list \<Rightarrow> Offset list res" where
  "scopesAtAddressInDIE 0 es parent fileAddr scopes = Inl OutOfFuel"
| "scopesAtAddressInDIE (Suc n) es parent fileAddr scopes =
     rfold (\<lambda>child scopes.
       if en_Tag child = TagLexDwarfBlock \<and> entry_contains child fileAddr
       then rbind (scopesAtAddressInDIE n es (en_Offset child) fileAddr scopes)
              (\<lambda>scopes. Inr (scopes @ [en_Offset child]))
       else Inr scopes)
     (scope_children es parent) scopes"

definition ScopesAtAddress :: "nat \<Rightarrow> DWARF \<Rightarrow> u64 \<Rightarrow> Offset list res" where
  "ScopesAtAddress fuel d addr =
     (case FunctionContainingPC d addr of
        None \<Rightarrow> Inr []
      | Some fn \<Rightarrow>
          rbind (scopesAtAddressInDIE fuel (d_data d) (fn_DIEOffset fn) (addr - d_loadBias d) [])
            (\<lambda>scopes. Inr (scopes @ [fn_DIEOffset fn])))"

definition is_variable :: "Entry \<Rightarrow> bool" where
  "is_variable e \<longleftrightarrow> en_Tag e = TagVariable \<or> en_Tag e = TagFormalParameter"

primrec find_in_scopes :: "Entry list \<Rightarrow> string \<Rightarrow> Offset list \<Rightarrow> Offset option" where
  "find_in_scopes es name [] = None"
| "find_in_scopes es name (scope # scopes) =
     (case find (\<lambda>c. is_variable c \<and> entryName c = name \<and> en_Location c \<noteq> None) (scope_children es scope) of
        Some c \<Rightarrow> Some (en_Offset c)
      | None \<Rightarrow> find_in_scopes es name scopes)"

definition FindLocalVariable :: "nat \<Rightarrow> DWARF \<Rightarrow> string \<Rightarrow> u64 \<Rightarrow> Offset option res" where
  "FindLocalVariable fuel d name addr =
     rbind (ScopesAtAddress fuel d addr) (\<lambda>scopes. Inr (find_in_scopes (d_data d) name scopes))"

text \<open>The names seen so far and the offsets collected so far.\<close>

definition see_local :: "Entry \<Rightarrow> string set \<times> Offset list \<Rightarrow> string set \<times> Offset list" where
  "see_local c = (\<lambda>(seen, result).
     if is_variable c \<and> entryName c \<noteq> '''' \<and> entryName c \<notin> seen \<and> en_Location c \<noteq> None
     then (insert (entryName c) seen, result @ [en_Offset c]) else (seen, result))"

definition LocalVariablesAtAddress :: "nat \<Rightarrow> DWARF \<Rightarrow> u64 \<Rightarrow> Offset list res" where
  "LocalVariablesAtAddress fuel d addr =
     rbind (ScopesAtAddress fuel d addr) (\<lambda>scopes.
       Inr (snd (fold (\<lambda>scope. fold see_local (scope_children (d_data d) scope)) scopes ({}, []))))"

definition ReadDIE :: "DWARF \<Rightarrow> Offset \<Rightarrow> Entry res" where
  "ReadDIE d off = (case next_entry (d_data d) off of None \<Rightarrow> Inl (Error (NoDIE off)) | Some e \<Rightarrow> Inr e)"

text \<open>The types of the standard library are an argument: \<open>Data.Type\<close>.\<close>

definition ResolveType :: "(Offset \<Rightarrow> 'ty res) \<Rightarrow> DWARF \<Rightarrow> Offset \<Rightarrow> 'ty res" where
  "ResolveType dataType d off =
     rbind (ReadDIE d off) (\<lambda>e.
       case en_Type e of None \<Rightarrow> Inl (Error (NoAttribute off)) | Some typeOff \<Rightarrow> dataType typeOff)"

section \<open>The function index\<close>

lemma rangesContain_code [code]: "rangesContain rs a \<longleftrightarrow> list_ex (\<lambda>r. fst r \<le> a \<and> a < snd r) rs"
  by (simp add: rangesContain_def list_ex_iff)

text \<open>What one entry of \<open>.debug_info\<close> contributes to the address table.\<close>

definition code_ranges :: "Entry list \<Rightarrow> Entry \<Rightarrow> funcAddrEntry list" where
  "code_ranges es e =
     (if en_Tag e = TagSubprogram \<and> entryName e \<noteq> '''' then
        (case en_Ranges e of
           None \<Rightarrow> []
         | Some rs \<Rightarrow>
             map (\<lambda>r. \<lparr>fa_startPC = fst r, fa_endPC = snd r,
                        fa_fn = \<lparr>fn_Name = entryName e, fn_Ranges = rs, fn_IsInlined = False,
                                 fn_DIEOffset = en_Offset e\<rparr>\<rparr>) rs)
      else [])"

lemma add_entry_kept [simp]:
  "d_data (add_entry e d) = d_data d" "d_loadBias (add_entry e d) = d_loadBias d"
  by (simp_all add: add_entry_def addFunction_def Let_def split: Tag.splits option.splits)

lemma add_entry_funcs: "funcsByAddr (add_entry e d) = funcsByAddr d @ code_ranges (d_data d) e"
  by (simp add: add_entry_def addFunction_def code_ranges_def function_name_def Let_def
      split: Tag.splits option.splits)

lemma fold_add_entry:
  "d_data (fold add_entry es d) = d_data d \<and> d_loadBias (fold add_entry es d) = d_loadBias d \<and>
   funcsByAddr (fold add_entry es d) = funcsByAddr d @ concat (map (code_ranges (d_data d)) es)"
  by (induction es arbitrary: d) (simp_all add: add_entry_funcs)

lemma newDWARF_fields:
  "d_data (newDWARF sf sl es loc) = es" "d_loadBias (newDWARF sf sl es loc) = 0"
  "funcsByAddr (newDWARF sf sl es loc) = sf (concat (map (code_ranges es) es))"
  "li_entries (d_lines (newDWARF sf sl es loc)) = sl (unit_lines es)"
  "li_byFileLine (d_lines (newDWARF sf sl es loc)) = index_lines (sl (unit_lines es)) 0 Map.empty"
  by (simp_all add: newDWARF_def buildLineIndex_def emptyDWARF_def Let_def fold_add_entry)

text \<open>A table of non-empty ranges that do not overlap.\<close>

definition separate :: "funcAddrEntry list \<Rightarrow> bool" where
  "separate fs \<longleftrightarrow> (\<forall>x \<in> set fs. fa_startPC x < fa_endPC x) \<and>
     (\<forall>x \<in> set fs. \<forall>y \<in> set fs. x = y \<or> fa_endPC x \<le> fa_startPC y \<or> fa_endPC y \<le> fa_startPC x)"

definition covers :: "u64 \<Rightarrow> funcAddrEntry \<Rightarrow> bool" where
  "covers a x \<longleftrightarrow> fa_startPC x \<le> a \<and> a < fa_endPC x"

lemma separate_unique: "separate fs \<Longrightarrow> x \<in> set fs \<Longrightarrow> y \<in> set fs \<Longrightarrow> covers a x \<Longrightarrow> covers a y \<Longrightarrow> x = y"
  unfolding separate_def covers_def by (meson leD le_less_trans order_trans)

text \<open>The last entry that starts at or below an address, when it covers the address.\<close>

lemma last_takeWhile_max:
  assumes "sorted (map key xs)" "takeWhile (\<lambda>x. key x \<le> a) xs \<noteq> []" "x \<in> set xs" "key x \<le> a"
  shows "key x \<le> key (last (takeWhile (\<lambda>x. key x \<le> a) xs))"
proof -
  let ?t = "takeWhile (\<lambda>x. key x \<le> a) xs"
  have eq: "?t = filter (\<lambda>x. key x \<le> a) xs"
    using assms(1)
  proof (induction xs)
    case (Cons y ys)
    then have "filter (\<lambda>x. key x \<le> a) ys = []" if "a < key y"
      unfolding filter_empty_conv using that by simp (meson leD less_le_trans)
    with Cons show ?case by (cases "key y \<le> a") simp_all
  qed simp
  then have "x \<in> set ?t" using assms(3,4) by simp
  then obtain i where i: "i < length ?t" "?t ! i = x" by (auto simp: in_set_conv_nth)
  have "sorted (map key ?t)" using assms(1) unfolding eq by (rule sorted_filter)
  then have "map key ?t ! i \<le> map key ?t ! (length ?t - 1)"
    by (rule sorted_nth_mono) (use i(1) in auto)
  then show ?thesis using i assms(2) by (simp add: last_conv_nth)
qed

text \<open>In a sorted table of disjoint intervals, the interval that holds \<open>a\<close> is the last that starts at or below it.\<close>

lemma last_below_holds:
  fixes key hi :: "'a \<Rightarrow> 'b::linorder"
  assumes "sorted (map key xs)" "\<forall>x \<in> set xs. key x < hi x"
    and "\<forall>x \<in> set xs. \<forall>y \<in> set xs. x = y \<or> hi x \<le> key y \<or> hi y \<le> key x"
    and x: "x \<in> set xs" "key x \<le> a" "a < hi x"
  shows "takeWhile (\<lambda>x. key x \<le> a) xs \<noteq> [] \<and> last (takeWhile (\<lambda>x. key x \<le> a) xs) = x"
proof -
  let ?t = "takeWhile (\<lambda>x. key x \<le> a) xs"
  have ne: "?t \<noteq> []"
  proof
    assume "?t = []"
    then obtain y ys where "xs = y # ys" "\<not> key y \<le> a" using x(1) by (cases xs) (auto split: if_splits)
    with assms(1) x show False by auto
  qed
  have last: "last ?t \<in> set xs" "key (last ?t) \<le> a"
    using last_in_set [OF ne] set_takeWhileD by (metis, fastforce)
  have "key x \<le> key (last ?t)" by (rule last_takeWhile_max [OF assms(1) ne x(1,2)])
  moreover have "x = last ?t \<or> hi x \<le> key (last ?t) \<or> hi (last ?t) \<le> key x" "key (last ?t) < hi (last ?t)"
    using assms(2,3) x(1) last(1) by auto
  ultimately show ?thesis using ne x(3) last(2) by (meson leD le_less_trans less_le_trans)
qed

lemma nth_before_takeWhile:
  "takeWhile P xs \<noteq> [] \<Longrightarrow> xs ! (length (takeWhile P xs) - 1) = last (takeWhile P xs)"
  by (simp add: last_conv_nth takeWhile_nth)

lemma FunctionContainingPC_sorted:
  assumes "sorted (map fa_startPC (funcsByAddr d))"
  shows "FunctionContainingPC d addr =
    (let t = takeWhile (\<lambda>x. fa_startPC x \<le> addr - d_loadBias d) (funcsByAddr d)
     in if t \<noteq> [] \<and> covers (addr - d_loadBias d) (last t) then Some (fa_fn (last t)) else None)"
proof -
  let ?a = "addr - d_loadBias d" and ?fs = "funcsByAddr d"
  let ?t = "takeWhile (\<lambda>x. fa_startPC x \<le> ?a) ?fs"
  have "nat (int (length ?t) - 1) = length ?t - 1" by simp
  with nth_before_takeWhile [of "\<lambda>x. fa_startPC x \<le> ?a" ?fs] sort_Search_above [OF assms, of ?a] show ?thesis
    by (auto simp: FunctionContainingPC_def Let_def covers_def)
qed

lemma FunctionContainingPC_find:
  assumes "sorted (map fa_startPC (funcsByAddr d))" "separate (funcsByAddr d)"
  shows "FunctionContainingPC d addr = Some f \<longleftrightarrow>
    (\<exists>x \<in> set (funcsByAddr d). covers (addr - d_loadBias d) x \<and> f = fa_fn x)"
proof -
  let ?a = "addr - d_loadBias d" and ?fs = "funcsByAddr d"
  let ?t = "takeWhile (\<lambda>x. fa_startPC x \<le> ?a) ?fs"
  have mem: "last ?t \<in> set ?fs" if "?t \<noteq> []"
    using that by (meson last_in_set set_takeWhileD)
  have hit: "?t \<noteq> [] \<and> last ?t = x" if "x \<in> set ?fs" "covers ?a x" for x
    using last_below_holds [OF assms(1), where hi = fa_endPC and x = x and a = ?a] assms(2) that
    by (simp add: separate_def covers_def)
  show ?thesis
    unfolding FunctionContainingPC_sorted [OF assms(1)] Let_def using hit mem by (auto split: if_splits)
qed

lemma covering_ranges:
  "(\<exists>x \<in> set (code_ranges es e). covers a x \<and> f = fa_fn x) \<longleftrightarrow>
     en_Tag e = TagSubprogram \<and> entryName e \<noteq> '''' \<and> entry_contains e a \<and>
     f = \<lparr>fn_Name = entryName e, fn_Ranges = the (en_Ranges e), fn_IsInlined = False,
           fn_DIEOffset = en_Offset e\<rparr>"
proof (cases "en_Tag e = TagSubprogram \<and> entryName e \<noteq> [] \<and> en_Ranges e \<noteq> None")
  case True
  then obtain rs where rs: "en_Ranges e = Some rs" by blast
  let ?f = "\<lparr>fn_Name = entryName e, fn_Ranges = rs, fn_IsInlined = False, fn_DIEOffset = en_Offset e\<rparr>"
  have "code_ranges es e = map (\<lambda>r. \<lparr>fa_startPC = fst r, fa_endPC = snd r, fa_fn = ?f\<rparr>) rs"
    using True rs by (simp add: code_ranges_def)
  then have "(\<exists>x \<in> set (code_ranges es e). covers a x \<and> f = fa_fn x) \<longleftrightarrow>
      (\<exists>r \<in> set rs. fst r \<le> a \<and> a < snd r \<and> f = ?f)"
    by (simp add: covers_def bex_simps)
  then show ?thesis using True rs by (auto simp: entry_contains_def rangesContain_def)
next
  case False
  then have "code_ranges es e = []" by (auto simp: code_ranges_def)
  moreover have "\<not> (en_Tag e = TagSubprogram \<and> entryName e \<noteq> [] \<and> entry_contains e a)"
    using False by (auto simp: entry_contains_def)
  ultimately show ?thesis by (metis list.set(1) empty_iff)
qed

text \<open>
  C27 (equivalence). The index finds exactly the function whose ranges hold the program counter:
  on a section whose code ranges are non-empty and do not overlap, whatever order the sort gives
  equal keys, \<open>FunctionContainingPC\<close> returns \<open>f\<close> if and only if \<open>f\<close> is made of a named subprogram
  entry one of whose ranges contains the address less the load bias.
\<close>

theorem function_lookup:
  assumes "sorts fa_startPC sf" "separate (concat (map (code_ranges es) es))"
  shows "FunctionContainingPC ((newDWARF sf sl es loc)\<lparr>d_loadBias := b\<rparr>) addr = Some f \<longleftrightarrow>
    (\<exists>e \<in> set es. en_Tag e = TagSubprogram \<and> entryName e \<noteq> '''' \<and> entry_contains e (addr - b) \<and>
       f = \<lparr>fn_Name = entryName e, fn_Ranges = the (en_Ranges e), fn_IsInlined = False,
             fn_DIEOffset = en_Offset e\<rparr>)"
proof -
  let ?d = "(newDWARF sf sl es loc)\<lparr>d_loadBias := b\<rparr>"
  have fs: "funcsByAddr ?d = sf (concat (map (code_ranges es) es))" by (simp add: newDWARF_fields)
  then have "set (funcsByAddr ?d) = (\<Union>e \<in> set es. set (code_ranges es e))"
    using sorts_set [OF assms(1)] by simp
  moreover have "separate (funcsByAddr ?d)"
    using assms(2) sorts_set [OF assms(1)] unfolding fs separate_def by simp
  ultimately have "FunctionContainingPC ?d addr = Some f \<longleftrightarrow>
      (\<exists>e \<in> set es. \<exists>x \<in> set (code_ranges es e). covers (addr - b) x \<and> f = fa_fn x)"
    using FunctionContainingPC_find [of ?d addr f] sorts_sorted [OF assms(1)] fs by simp
  then show ?thesis unfolding covering_ranges .
qed

section \<open>The line table\<close>

lemma back_up_None: "back_up es k = None \<longleftrightarrow> (\<forall>i < k. le_EndSequence (es ! i))"
  by (induction k) (auto simp: less_Suc_eq)

lemma back_up_Some:
  "back_up es k = Some i \<Longrightarrow> i < k \<and> \<not> le_EndSequence (es ! i) \<and> (\<forall>j. i < j \<and> j < k \<longrightarrow> le_EndSequence (es ! j))"
  by (induction k) (auto simp: less_Suc_eq split: if_splits)

lemma takeWhile_index:
  assumes "sorted (map key xs)" "i < length xs"
  shows "i < length (takeWhile (\<lambda>x. key x \<le> a) xs) \<longleftrightarrow> key (xs ! i) \<le> a"
proof
  let ?t = "takeWhile (\<lambda>x. key x \<le> a) xs"
  assume "i < length ?t"
  then show "key (xs ! i) \<le> a" by (metis nth_mem set_takeWhileD takeWhile_nth)
next
  let ?t = "takeWhile (\<lambda>x. key x \<le> a) xs"
  assume le: "key (xs ! i) \<le> a"
  show "i < length ?t"
  proof (rule ccontr)
    assume "\<not> i < length ?t"
    then have n: "length ?t \<le> i" "length ?t < length xs" using assms(2) by simp_all
    then have "\<not> key (xs ! length ?t) \<le> a" using nth_length_takeWhile [of "\<lambda>x. key x \<le> a" xs] by simp
    moreover have "key (xs ! length ?t) \<le> key (xs ! i)"
      using sorted_nth_mono [OF assms(1) n(1)] assms(2) n(2) by simp
    ultimately show False using le by simp
  qed
qed

lemma GetEntryByAddress_sorted:
  assumes "sorted (map le_Address (li_entries (d_lines d)))"
  shows "GetEntryByAddress d addr =
    map_option (\<lambda>i. (li_entries (d_lines d) ! i)\<lparr>le_Address := le_Address (li_entries (d_lines d) ! i) + d_loadBias d\<rparr>)
      (back_up (li_entries (d_lines d))
        (length (takeWhile (\<lambda>e. le_Address e \<le> addr - d_loadBias d) (li_entries (d_lines d)))))"
  using sort_Search_above [OF assms, of "addr - d_loadBias d"]
  by (auto simp: GetEntryByAddress_def Let_def split: option.split)

text \<open>
  C28 (functional). The line of an address is the line of the greatest real entry at or below it:
  \<open>GetEntryByAddress\<close> fails exactly when the line programs have no entry, other than end markers,
  at or below the file address, and otherwise returns such an entry with the greatest address,
  moved by the load bias.
\<close>

theorem line_lookup:
  assumes "sorts le_Address sl"
  shows "case GetEntryByAddress ((newDWARF sf sl es loc)\<lparr>d_loadBias := b\<rparr>) addr of
      None \<Rightarrow> \<forall>e \<in> set (unit_lines es). le_EndSequence e \<or> addr - b < le_Address e
    | Some e \<Rightarrow> \<exists>e0 \<in> set (unit_lines es). \<not> le_EndSequence e0 \<and> le_Address e0 \<le> addr - b \<and>
        e = e0\<lparr>le_Address := le_Address e0 + b\<rparr> \<and>
        (\<forall>e' \<in> set (unit_lines es). le_EndSequence e' \<or> addr - b < le_Address e' \<or>
           le_Address e' \<le> le_Address e0)"
proof -
  let ?d = "(newDWARF sf sl es loc)\<lparr>d_loadBias := b\<rparr>" and ?a = "addr - b"
  let ?ls = "sl (unit_lines es)"
  let ?k = "length (takeWhile (\<lambda>e. le_Address e \<le> ?a) ?ls)"
  have srt: "sorted (map le_Address ?ls)" by (rule sorts_sorted [OF assms])
  have set: "set (unit_lines es) = set ?ls" by (simp add: sorts_set [OF assms])
  have len: "?k \<le> length ?ls" by (rule length_takeWhile_le)
  note idx = takeWhile_index [OF srt, of _ ?a]
  have get: "GetEntryByAddress ?d addr =
      map_option (\<lambda>i. (?ls ! i)\<lparr>le_Address := le_Address (?ls ! i) + b\<rparr>) (back_up ?ls ?k)"
    using GetEntryByAddress_sorted [of ?d addr] srt by (simp add: newDWARF_fields)
  show ?thesis
  proof (cases "back_up ?ls ?k")
    case None
    then have "\<forall>i < length ?ls. le_EndSequence (?ls ! i) \<or> ?a < le_Address (?ls ! i)"
      using idx by (simp add: back_up_None not_le [symmetric]) blast
    then show ?thesis unfolding get None set by (simp add: all_set_conv_all_nth)
  next
    case (Some i)
    from back_up_Some [OF Some] have i: "i < ?k" "\<not> le_EndSequence (?ls ! i)"
      "\<And>j. i < j \<Longrightarrow> j < ?k \<Longrightarrow> le_EndSequence (?ls ! j)" by blast+
    have mem: "?ls ! i \<in> set ?ls" and le: "le_Address (?ls ! i) \<le> ?a"
      using i(1) len idx [of i] by simp_all
    have "le_EndSequence (?ls ! j) \<or> ?a < le_Address (?ls ! j) \<or> le_Address (?ls ! j) \<le> le_Address (?ls ! i)"
      if "j < length ?ls" for j
    proof (cases "i < j")
      case True
      with i(3) [OF True] idx [OF that] show ?thesis by (auto simp: not_le [symmetric])
    next
      case False
      with sorted_nth_mono [OF srt, of j i] i(1) len show ?thesis by simp
    qed
    with mem le i(2) show ?thesis unfolding get Some set
      by (auto simp: all_set_conv_all_nth intro!: bexI [of _ "?ls ! i"])
  qed
qed

section \<open>A sample section\<close>

text \<open>
  \<open>main\<close> holds a block with a local variable and an inlined call of \<open>twice\<close>; its own \<open>x\<close> is
  shadowed in the block.
\<close>

definition sample_die :: "Offset \<Rightarrow> Tag \<Rightarrow> bool \<Rightarrow> string option \<Rightarrow> (u64 \<times> u64) list option \<Rightarrow> Entry" where
  "sample_die off tag children name ranges =
     \<lparr>en_Offset = off, en_Tag = tag, en_Children = children, en_Name = name, en_AbstractOrigin = None,
      en_Ranges = ranges,
      en_Location = (if tag = TagVariable then Some \<lparr>f_Class = ClassExprLoc, f_Val = ValBytes [0x91, 0x70]\<rparr> else None),
      en_FrameBase = (if tag = TagSubprogram then Some \<lparr>f_Class = ClassExprLoc, f_Val = ValBytes [0x9c]\<rparr> else None),
      en_Lowpc = None, en_Type = None, en_CallLine = None, en_CallColumn = None,
      en_CallFile = None, en_LineReader = None\<rparr>"

definition sample_row :: "u64 \<Rightarrow> int \<Rightarrow> bool \<Rightarrow> lineRow" where
  "sample_row addr line ends =
     \<lparr>row_Address = addr, row_File = Some ''a.c'', row_Line = line, row_Column = 0, row_IsStmt = True,
      row_BasicBlock = False, row_EndSequence = ends, row_PrologueEnd = False,
      row_EpilogueBegin = False, row_Discriminator = 0\<rparr>"

definition sample_info :: "Entry list" where
  "sample_info =
     [(sample_die 11 TagCompileUnit True (Some ''a.c'') None)
        \<lparr>en_LineReader := Some ([sample_row 0x10 3 False, sample_row 0x18 4 False, sample_row 0x40 5 True], [])\<rparr>,
      sample_die 20 TagSubprogram False (Some ''twice'') None,
      sample_die 30 TagSubprogram True (Some ''main'') (Some [(0x10, 0x30)]),
      sample_die 40 TagVariable False (Some ''x'') None,
      sample_die 50 TagLexDwarfBlock True None (Some [(0x14, 0x20)]),
      sample_die 60 TagVariable False (Some ''x'') None,
      (sample_die 70 TagInlinedSubroutine False None (Some [(0x16, 0x18)]))\<lparr>en_AbstractOrigin := Some 20\<rparr>,
      null_entry,
      null_entry,
      sample_die 80 TagSubprogram False (Some ''exit'') (Some [(0x30, 0x40)]),
      null_entry]"

abbreviation sample_index :: DWARF where
  "sample_index \<equiv> newDWARF (sort_key fa_startPC) (sort_key le_Address) sample_info None"

lemma function_lookup_witness:
  "FunctionContainingPC (sample_index\<lparr>d_loadBias := 0x1000\<rparr>) 0x1016 =
     Some \<lparr>fn_Name = ''main'', fn_Ranges = [(0x10, 0x30)], fn_IsInlined = False, fn_DIEOffset = 30\<rparr>"
proof -
  have sep: "separate (concat (map (code_ranges sample_info) sample_info))" by code_simp
  let ?m = "sample_die 30 TagSubprogram True (Some ''main'') (Some [(0x10, 0x30)])"
  have "?m \<in> set sample_info" "en_Tag ?m = TagSubprogram" "entryName ?m \<noteq> []" "entry_contains ?m 0x16"
    by code_simp+
  then show ?thesis
    unfolding function_lookup [OF sorts_sort_key sep]
    by (intro bexI [of _ ?m]) (simp_all add: sample_die_def entryName_def)
qed

lemma line_lookup_witness: "GetEntryByAddress (sample_index\<lparr>d_loadBias := 0\<rparr>) 0x1a \<noteq> None"
proof -
  have "unit_lines sample_info =
      map toLineEntry [sample_row 0x10 3 False, sample_row 0x18 4 False, sample_row 0x40 5 True]"
    by code_simp
  with line_lookup [OF sorts_sort_key, where sf = "sort_key fa_startPC" and es = sample_info and
      loc = None and b = 0 and addr = "0x1a"]
  show ?thesis
    by (cases "GetEntryByAddress (sample_index\<lparr>d_loadBias := 0\<rparr>) 0x1a") (auto simp: toLineEntry_def sample_row_def)
qed

section \<open>The walk over entries is a walk over trees\<close>

text \<open>A tree of entries, and the section it is stored as.\<close>

datatype die = Die (root: Entry) (kids: "die list")

primrec flat :: "die \<Rightarrow> Entry list" where
  "flat (Die e cs) = e # (if en_Children e then concat (map flat cs) @ [null_entry] else [])"

primrec wf_die :: "die \<Rightarrow> bool" where
  "wf_die (Die e cs) \<longleftrightarrow>
     en_Tag e \<noteq> TagNull \<and> (en_Children e \<or> cs = []) \<and> list_all id (map wf_die cs)"

primrec subtrees :: "die \<Rightarrow> die list" where
  "subtrees (Die e cs) = Die e cs # concat (map subtrees cs)"

definition offsets_distinct :: "Entry list \<Rightarrow> bool" where
  "offsets_distinct es \<longleftrightarrow> distinct (map en_Offset (filter (\<lambda>e. en_Tag e \<noteq> TagNull) es))"

lemma null_tag [simp]: "en_Tag null_entry = TagNull"
  by (simp add: null_entry_def)

lemma wf_die_kids: "wf_die t \<Longrightarrow> c \<in> set (kids t) \<Longrightarrow> wf_die c"
  by (cases t) (auto simp: list_all_iff)

lemma skip_nested_0 [simp]: "skip_nested es 0 = es"
  by (cases es) simp_all

lemma skip_forest:
  "(\<And>t rest n. t \<in> set ts \<Longrightarrow> skip_nested (flat t @ rest) (Suc n) = skip_nested rest (Suc n)) \<Longrightarrow>
    skip_nested (concat (map flat ts) @ rest) (Suc n) = skip_nested rest (Suc n)"
  by (induction ts arbitrary: rest) simp_all

lemma skip_flat: "wf_die t \<Longrightarrow> skip_nested (flat t @ rest) (Suc n) = skip_nested rest (Suc n)"
proof (induction t arbitrary: rest n)
  case (Die e cs)
  have "skip_nested (concat (map flat cs) @ rest) (Suc n) = skip_nested rest (Suc n)" for rest n
    using Die by (intro skip_forest) (auto simp: list_all_iff)
  with Die.prems show ?case by simp
qed

lemma SkipChildren_flat:
  assumes "wf_die t"
  shows "SkipChildren (root t) (tl (flat t) @ rest) = rest"
proof (cases t)
  case (Die e cs)
  have "skip_nested (concat (map flat cs) @ null_entry # rest) (Suc 0) = skip_nested (null_entry # rest) (Suc 0)"
    using assms Die by (intro skip_forest) (auto simp: list_all_iff skip_flat)
  with Die show ?thesis by (simp add: SkipChildren_def)
qed

lemma flat_Cons: "flat t = root t # tl (flat t)"
  by (cases t) simp

lemma siblings_forest:
  assumes "\<And>t. t \<in> set ts \<Longrightarrow> wf_die t"
  shows "siblings (concat (map flat ts) @ null_entry # rest) = map root ts"
  using assms
proof (induction ts)
  case (Cons t ts)
  obtain b where b: "flat t = root t # b" using flat_Cons by blast
  have "en_Tag (root t) \<noteq> TagNull" using Cons.prems [of t] by (cases t) simp
  moreover have "concat (map flat (t # ts)) @ null_entry # rest =
      root t # b @ concat (map flat ts) @ null_entry # rest"
    by (simp add: b)
  moreover have "SkipChildren (root t) (b @ r) = r" for r
    using SkipChildren_flat [of t r] Cons.prems [of t] by (simp add: b)
  ultimately show ?case using Cons by simp
qed simp

text \<open>A tree that is stored somewhere in a section, and the children that the readers see.\<close>

definition stored :: "die \<Rightarrow> Entry list \<Rightarrow> bool" where
  "stored t es \<longleftrightarrow> (\<exists>pre post. es = pre @ flat t @ post)"

lemma stored_forest: "t \<in> set ts \<Longrightarrow> stored t (concat (map flat ts))"
  unfolding stored_def by (induction ts) (force, metis append.assoc concat.simps(2) list.simps(9) set_ConsD append_Nil)

lemma stored_trans: "stored t (flat u) \<Longrightarrow> stored u es \<Longrightarrow> stored t es"
  unfolding stored_def by (metis append.assoc)

lemma stored_kid:
  assumes "wf_die t" "c \<in> set (kids t)" "stored t es"
  shows "stored c es"
proof -
  obtain e cs where t: "t = Die e cs" by (cases t)
  with assms have "en_Children e" "c \<in> set cs" by auto
  moreover obtain pre post where "concat (map flat cs) = pre @ flat c @ post"
    using stored_forest [of c cs] calculation(2) by (auto simp: stored_def)
  ultimately have "flat t = (e # pre) @ flat c @ (post @ [null_entry])" using t by simp
  then have "stored c (flat t)" unfolding stored_def by blast
  then show ?thesis using assms(3) by (rule stored_trans)
qed

lemma Seek_stored:
  assumes "offsets_distinct (pre @ flat t @ post)" "wf_die t"
  shows "Seek (pre @ flat t @ post) (en_Offset (root t)) = flat t @ post"
proof -
  obtain b where b: "flat t = root t # b" using flat_Cons by blast
  have tag: "en_Tag (root t) \<noteq> TagNull" using assms(2) by (cases t) simp
  have "\<forall>e \<in> set pre. en_Tag e = TagNull \<or> en_Offset e \<noteq> en_Offset (root t)"
    using assms(1) tag unfolding offsets_distinct_def b by (auto simp: image_iff)
  then show ?thesis using tag by (simp add: Seek_def b dropWhile_append2)
qed

lemma scope_children_stored:
  assumes "offsets_distinct es" "wf_die t" "stored t es"
  shows "scope_children es (en_Offset (root t)) = map root (kids t)"
proof -
  obtain pre post where es: "es = pre @ flat t @ post" using assms(3) by (auto simp: stored_def)
  obtain e cs where t: "t = Die e cs" by (cases t)
  have "Seek es (en_Offset e) = flat t @ post" using Seek_stored [of pre t post] assms(1,2) es t by simp
  moreover have "siblings (concat (map flat cs) @ null_entry # post) = map root cs" if "en_Children e"
    using assms(2) t by (intro siblings_forest) (auto simp: list_all_iff)
  ultimately show ?thesis using assms(2) t by (auto simp: scope_children_def)
qed

lemma rfold_append:
  "(\<And>x s. x \<in> set xs \<Longrightarrow> f x s = Inr (s @ g x)) \<Longrightarrow> rfold f xs s = Inr (s @ concat (map g xs))"
  by (induction xs arbitrary: s) simp_all

lemma length_flat_kid:
  assumes "wf_die t" "c \<in> set (kids t)"
  shows "length (flat c) < length (flat t)"
proof -
  obtain e cs where t: "t = Die e cs" by (cases t)
  with assms have "en_Children e" "c \<in> set cs" by auto
  moreover have "length (flat c) \<le> length (concat (map flat cs))"
    using calculation(2) by (auto simp: length_concat intro: member_le_sum_list)
  ultimately show ?thesis using t by simp
qed

lemma length_flat_stored: "stored t es \<Longrightarrow> length (flat t) \<le> length es"
  by (auto simp: stored_def)

text \<open>The calls inlined at an address below a tree, outermost first, and the blocks, deepest first.\<close>

primrec inline_chain :: "Entry list \<Rightarrow> u64 \<Rightarrow> die \<Rightarrow> FunctionEntry list" where
  "inline_chain es a (Die e cs) =
     concat (map (\<lambda>(c, chain).
       if en_Tag c = TagInlinedSubroutine \<and> entry_contains c a then inlined_call es c # chain
       else if en_Tag c = TagLexDwarfBlock \<and> entry_contains c a then chain
       else []) (map (\<lambda>t. (root t, inline_chain es a t)) cs))"

primrec block_chain :: "u64 \<Rightarrow> die \<Rightarrow> Offset list" where
  "block_chain a (Die e cs) =
     concat (map (\<lambda>(c, chain).
       if en_Tag c = TagLexDwarfBlock \<and> entry_contains c a then chain @ [en_Offset c] else [])
       (map (\<lambda>t. (root t, block_chain a t)) cs))"

lemma inline_chain_kids:
  "inline_chain es a t = concat (map (\<lambda>c.
     if en_Tag (root c) = TagInlinedSubroutine \<and> entry_contains (root c) a
     then inlined_call es (root c) # inline_chain es a c
     else if en_Tag (root c) = TagLexDwarfBlock \<and> entry_contains (root c) a then inline_chain es a c
     else []) (kids t))"
  by (cases t) (simp add: o_def)

lemma block_chain_kids:
  "block_chain a t = concat (map (\<lambda>c.
     if en_Tag (root c) = TagLexDwarfBlock \<and> entry_contains (root c) a
     then block_chain a c @ [en_Offset (root c)] else []) (kids t))"
  by (cases t) (simp add: o_def)

lemma rfold_map: "rfold f (map h xs) s = rfold (\<lambda>x. f (h x)) xs s"
  by (induction xs arbitrary: s) (auto intro!: rbind_cong)

lemma walkInlineChildren_stored:
  assumes "offsets_distinct es" "wf_die t" "stored t es" "length (flat t) \<le> n"
  shows "walkInlineChildren n es (en_Offset (root t)) a stack = Inr (stack @ inline_chain es a t)"
  using assms(2-)
proof (induction n arbitrary: t stack)
  case 0
  then show ?case by (cases t) simp
next
  case (Suc n)
  have IH: "walkInlineChildren n es (en_Offset (root c)) a st = Inr (st @ inline_chain es a c)"
    if "c \<in> set (kids t)" for c st
    using Suc.IH [of c st] wf_die_kids [OF Suc.prems(1) that] stored_kid [OF Suc.prems(1) that Suc.prems(2)]
      length_flat_kid [OF Suc.prems(1) that] Suc.prems(3) by simp
  show ?case
    unfolding walkInlineChildren.simps(2) scope_children_stored [OF assms(1) Suc.prems(1,2)] rfold_map
      inline_chain_kids [of es a t]
    by (rule rfold_append) (simp add: IH split: Tag.split)
qed

lemma scopesAtAddressInDIE_stored:
  assumes "offsets_distinct es" "wf_die t" "stored t es" "length (flat t) \<le> n"
  shows "scopesAtAddressInDIE n es (en_Offset (root t)) a scopes = Inr (scopes @ block_chain a t)"
  using assms(2-)
proof (induction n arbitrary: t scopes)
  case 0
  then show ?case by (cases t) simp
next
  case (Suc n)
  have IH: "scopesAtAddressInDIE n es (en_Offset (root c)) a st = Inr (st @ block_chain a c)"
    if "c \<in> set (kids t)" for c st
    using Suc.IH [of c st] wf_die_kids [OF Suc.prems(1) that] stored_kid [OF Suc.prems(1) that Suc.prems(2)]
      length_flat_kid [OF Suc.prems(1) that] Suc.prems(3) by simp
  show ?case
    unfolding scopesAtAddressInDIE.simps(2) scope_children_stored [OF assms(1) Suc.prems(1,2)] rfold_map
      block_chain_kids [of a t]
    by (rule rfold_append) (simp add: IH)
qed

text \<open>
  C29 (refinement). On a section with distinct offsets that stores a tree of entries, the walk of
  \<open>InlineStackAtAddress\<close> by offsets, sibling skips and null entries finds what the recursion over
  the tree of the containing function finds: the function itself and, outermost first, the inlined
  calls around the address; \<open>ScopesAtAddress\<close> likewise lists the blocks around the address,
  deepest first, and then the function.  Both return with as much fuel as the section has entries.
\<close>

theorem scopes_follow_tree:
  assumes "FunctionContainingPC d addr = Some fn"
    and "offsets_distinct (d_data d)" "stored t (d_data d)" "wf_die t"
    and "en_Offset (root t) = fn_DIEOffset fn" "length (d_data d) \<le> fuel"
  shows "InlineStackAtAddress fuel d addr = Inr (fn # inline_chain (d_data d) (addr - d_loadBias d) t) \<and>
    ScopesAtAddress fuel d addr = Inr (block_chain (addr - d_loadBias d) t @ [fn_DIEOffset fn])"
proof -
  have n: "length (flat t) \<le> fuel" using length_flat_stored [OF assms(3)] assms(6) by simp
  show ?thesis
    using walkInlineChildren_stored [OF assms(2,4,3) n] scopesAtAddressInDIE_stored [OF assms(2,4,3) n]
    by (simp add: InlineStackAtAddress_def ScopesAtAddress_def assms(1) assms(5) [symmetric])
qed

definition sample_tree :: die where
  "sample_tree =
     Die (sample_die 30 TagSubprogram True (Some ''main'') (Some [(0x10, 0x30)]))
       [Die (sample_die 40 TagVariable False (Some ''x'') None) [],
        Die (sample_die 50 TagLexDwarfBlock True None (Some [(0x14, 0x20)]))
          [Die (sample_die 60 TagVariable False (Some ''x'') None) [],
           Die ((sample_die 70 TagInlinedSubroutine False None (Some [(0x16, 0x18)]))\<lparr>en_AbstractOrigin := Some 20\<rparr>) []]]"

lemma scopes_follow_tree_witness:
  "InlineStackAtAddress 11 sample_index 0x16 =
     Inr [\<lparr>fn_Name = ''main'', fn_Ranges = [(0x10, 0x30)], fn_IsInlined = False, fn_DIEOffset = 30\<rparr>,
          \<lparr>fn_Name = ''twice'', fn_Ranges = [(0x16, 0x18)], fn_IsInlined = True, fn_DIEOffset = 70\<rparr>] \<and>
   ScopesAtAddress 11 sample_index 0x16 = Inr [50, 30]"
proof -
  let ?fn = "\<lparr>fn_Name = ''main'', fn_Ranges = [(0x10, 0x30)], fn_IsInlined = False, fn_DIEOffset = 30\<rparr>"
  have fn: "FunctionContainingPC sample_index 0x16 = Some ?fn" by code_simp
  have data: "d_data sample_index = sample_info" by (simp add: newDWARF_fields)
  have "sample_info = take 2 sample_info @ flat sample_tree @ drop 9 sample_info" by code_simp
  then have "stored sample_tree sample_info" unfolding stored_def by blast
  moreover have "offsets_distinct sample_info" "wf_die sample_tree" "en_Offset (root sample_tree) = 30"
    "length sample_info \<le> 11" by code_simp+
  moreover have "inline_chain sample_info 0x16 sample_tree =
      [\<lparr>fn_Name = ''twice'', fn_Ranges = [(0x16, 0x18)], fn_IsInlined = True, fn_DIEOffset = 70\<rparr>]"
    "block_chain 0x16 sample_tree = [50]" by code_simp+
  moreover have "d_loadBias sample_index = 0" by (simp add: newDWARF_fields)
  ultimately show ?thesis
    using scopes_follow_tree [OF fn, of sample_tree 11] unfolding data by simp
qed

section \<open>Local variables\<close>

definition named_local :: "string \<Rightarrow> Entry \<Rightarrow> bool" where
  "named_local name c \<longleftrightarrow> is_variable c \<and> entryName c = name \<and> en_Location c \<noteq> None"

lemma find_append: "find P (xs @ ys) = (case find P xs of Some x \<Rightarrow> Some x | None \<Rightarrow> find P ys)"
  by (induction xs) auto

lemma find_in_scopes_concat:
  "find_in_scopes es name scopes =
     map_option en_Offset (find (named_local name) (concat (map (scope_children es) scopes)))"
  by (induction scopes) (auto simp: find_append named_local_def [abs_def] split: option.splits)

lemma see_local_result:
  "off \<in> set (snd (fold see_local cs (seen, res))) \<longleftrightarrow>
     off \<in> set res \<or>
     (\<exists>name. name \<noteq> '''' \<and> name \<notin> seen \<and> map_option en_Offset (find (named_local name) cs) = Some off)"
proof (induction cs arbitrary: seen res)
  case (Cons c cs)
  let ?found = "\<lambda>name cs. map_option en_Offset (find (named_local name) cs) = Some off"
  show ?case
  proof (cases "is_variable c \<and> entryName c \<noteq> '''' \<and> entryName c \<notin> seen \<and> en_Location c \<noteq> None")
    case True
    then have nl: "named_local name c \<longleftrightarrow> name = entryName c" for name by (auto simp: named_local_def)
    have f: "?found name (c # cs) \<longleftrightarrow> (if name = entryName c then en_Offset c = off else ?found name cs)" for name
      by (simp add: nl)
    have "fold see_local (c # cs) (seen, res) = fold see_local cs (insert (entryName c) seen, res @ [en_Offset c])"
      using True by (simp add: see_local_def)
    then have "off \<in> set (snd (fold see_local (c # cs) (seen, res))) \<longleftrightarrow>
        off \<in> set res \<or> off = en_Offset c \<or>
        (\<exists>name. name \<noteq> '''' \<and> name \<notin> insert (entryName c) seen \<and> ?found name cs)"
      unfolding Cons by (simp only: Cons set_append) auto
    also have "\<dots> \<longleftrightarrow> off \<in> set res \<or> (\<exists>name. name \<noteq> '''' \<and> name \<notin> seen \<and> ?found name (c # cs))"
      unfolding f using True by (metis insert_iff)
    finally show ?thesis .
  next
    case False
    then have "see_local c (seen, res) = (seen, res)" by (auto simp: see_local_def)
    then have "fold see_local (c # cs) (seen, res) = fold see_local cs (seen, res)" by simp
    moreover have "\<not> named_local name c" if "name \<noteq> ''''" "name \<notin> seen" for name
      using False that by (auto simp: named_local_def)
    then have "?found name (c # cs) = ?found name cs" if "name \<noteq> ''''" "name \<notin> seen" for name
      using that by simp
    ultimately show ?thesis using Cons [of seen res] by (simp only:) metis
  qed
qed simp

lemma fold_concat_map: "fold (\<lambda>x. fold f (g x)) xs s = fold f (concat (map g xs)) s"
  by (induction xs arbitrary: s) simp_all

text \<open>
  The list of visible variables and the lookup by name agree: an offset is in the
  result of \<open>LocalVariablesAtAddress\<close> if and only if it is what \<open>FindLocalVariable\<close> returns for
  some name, so an outer variable that an inner scope shadows is in neither.
\<close>

theorem locals_agree:
  assumes "LocalVariablesAtAddress fuel d addr = Inr offs"
  shows "off \<in> set offs \<longleftrightarrow>
    (\<exists>name. name \<noteq> '''' \<and> FindLocalVariable fuel d name addr = Inr (Some off))"
proof -
  obtain scopes where scopes: "ScopesAtAddress fuel d addr = Inr scopes"
    and offs: "offs = snd (fold (\<lambda>scope. fold see_local (scope_children (d_data d) scope)) scopes ({}, []))"
    using assms by (auto simp: LocalVariablesAtAddress_def)
  show ?thesis
    unfolding offs fold_concat_map see_local_result
    by (simp add: FindLocalVariable_def scopes find_in_scopes_concat)
qed

lemma locals_agree_witness:
  "\<exists>name. name \<noteq> '''' \<and> FindLocalVariable 11 sample_index name 0x16 = Inr (Some 60)"
proof -
  have "LocalVariablesAtAddress 11 sample_index 0x16 = Inr [60]" by code_simp
  from locals_agree [OF this, of 60] show ?thesis by simp
qed

end
