(* ===== verification/Reader.thy ===== *)
theory Reader
  imports Prelude
begin

text \<open>
  The stateful byte cursor \<open>cfiReader\<close> of \<open>src/debugger/cfi.go\<close> (with \<open>readS16\<close> of
  \<open>dwarf_expr.go\<close>), on which every DWARF decoder of the debugger is built: bounds-checked
  fixed-width reads, unsigned and signed LEB128, sub-readers, and the encoded pointers of
  \<open>.eh_frame\<close>.  A read is a function from the reader to its value and the advanced reader.
  The locale \<open>byte_reader\<close> states what every read promises: it keeps the bytes and the base
  address and moves the cursor forward within the data.  The LEB128 decoders are shown to
  invert the encodings of the DWARF standard.
\<close>

unbundle bit_operations_syntax

section \<open>The cursor\<close>

record cfiReader =
  r_data :: "u8 list"
  r_pos :: int
  r_baseAddr :: u64

definition remaining :: "cfiReader \<Rightarrow> int" where
  "remaining r = wrap64 (int (length (r_data r)) - r_pos r)"

definition seek :: "cfiReader \<Rightarrow> int \<Rightarrow> cfiReader" where
  "seek r p = r\<lparr>r_pos := p\<rparr>"

definition slice :: "cfiReader \<Rightarrow> int \<Rightarrow> (cfiReader \<times> cfiReader) res" where
  "slice r n =
     (if int (length (r_data r)) < wrap64 (r_pos r + n) then Inl (Error SliceRange)
      else rbind (go_slice (r_data r) (r_pos r) (wrap64 (r_pos r + n))) (\<lambda>sub.
        Inr (\<lparr>r_data = sub, r_pos = 0, r_baseAddr = r_baseAddr r + word_of_int (r_pos r)\<rparr>,
             r\<lparr>r_pos := wrap64 (r_pos r + n)\<rparr>)))"

definition readU8 :: "cfiReader \<Rightarrow> (u8 \<times> cfiReader) res" where
  "readU8 r =
     (if int (length (r_data r)) \<le> r_pos r then Inl (Error EOF)
      else rbind (go_index (r_data r) (r_pos r)) (\<lambda>v.
        Inr (v, r\<lparr>r_pos := wrap64 (r_pos r + 1)\<rparr>)))"

text \<open>\<open>binary.LittleEndian.UintN\<close> of \<open>r.data[r.pos:]\<close> after the check of \<open>r.pos + n\<close>.\<close>

definition read_le :: "nat \<Rightarrow> cfiReader \<Rightarrow> ('a::len word \<times> cfiReader) res" where
  "read_le n r =
     (if int (length (r_data r)) < wrap64 (r_pos r + int n) then Inl (Error EOF)
      else rbind (go_from (r_data r) (r_pos r)) (\<lambda>bs.
        if length bs < n then Inl Panic
        else Inr (le_word (take n bs), r\<lparr>r_pos := wrap64 (r_pos r + int n)\<rparr>)))"

definition readU16 :: "cfiReader \<Rightarrow> (u16 \<times> cfiReader) res" where
  "readU16 r = read_le 2 r"

definition readU32 :: "cfiReader \<Rightarrow> (u32 \<times> cfiReader) res" where
  "readU32 r = read_le 4 r"

definition readU64 :: "cfiReader \<Rightarrow> (u64 \<times> cfiReader) res" where
  "readU64 r = read_le 8 r"

definition readS16 :: "cfiReader \<Rightarrow> (int \<times> cfiReader) res" where
  "readS16 r = rbind (readU16 r) (\<lambda>(v, r). Inr (sint v, r))"

section \<open>LEB128\<close>

text \<open>
  \<open>binary.Uvarint\<close>: the value and the number of bytes read, \<open>0\<close> for a short buffer and a
  negative count for a value that does not fit 64 bits.
\<close>

fun uvarint :: "u8 list \<Rightarrow> nat \<Rightarrow> u64 \<Rightarrow> nat \<Rightarrow> u64 \<times> int" where
  "uvarint [] i x s = (0, 0)"
| "uvarint (b # bs) i x s =
     (if i = 10 then (0, - (int i + 1))
      else if b < 0x80 then
        (if i = 9 \<and> 1 < b then (0, - (int i + 1))
         else (x OR push_bit s (ucast b), int i + 1))
      else uvarint bs (Suc i) (x OR push_bit s (ucast (b AND 0x7f))) (s + 7))"

definition readULEB128 :: "cfiReader \<Rightarrow> (u64 \<times> cfiReader) res" where
  "readULEB128 r =
     rbind (go_from (r_data r) (r_pos r)) (\<lambda>bs.
       let (val, n) = uvarint bs 0 0 0 in
       if n \<le> 0 then Inl (Error BadLEB)
       else Inr (val, r\<lparr>r_pos := wrap64 (r_pos r + n)\<rparr>))"

text \<open>The loop of \<open>readSLEB128\<close> over the bytes at the cursor; \<open>n\<close> counts the bytes consumed.\<close>

fun sleb_loop :: "u8 list \<Rightarrow> i64 \<Rightarrow> nat \<Rightarrow> nat \<Rightarrow> (i64 \<times> nat) option" where
  "sleb_loop [] result shift n = None"
| "sleb_loop (b # bs) result shift n =
     (let result' = result OR push_bit shift (ucast (b AND 0x7f)); shift' = shift + 7
      in if b AND 0x80 = 0
         then Some (if shift' < 64 \<and> b AND 0x40 \<noteq> 0
                    then result' OR (- push_bit shift' 1) else result', Suc n)
         else sleb_loop bs result' shift' (Suc n))"

definition readSLEB128 :: "cfiReader \<Rightarrow> (i64 \<times> cfiReader) res" where
  "readSLEB128 r =
     (if int (length (r_data r)) \<le> r_pos r then Inl (Error EOF)
      else rbind (go_from (r_data r) (r_pos r)) (\<lambda>bs.
        case sleb_loop bs 0 0 0 of
          None \<Rightarrow> Inl (Error EOF)
        | Some (v, n) \<Rightarrow> Inr (v, r\<lparr>r_pos := wrap64 (r_pos r + int n)\<rparr>)))"

section \<open>Encoded pointers\<close>

definition dwPtrAbsptr :: u8 where "dwPtrAbsptr = 0x00"
definition dwPtrUleb128 :: u8 where "dwPtrUleb128 = 0x01"
definition dwPtrUdata2 :: u8 where "dwPtrUdata2 = 0x02"
definition dwPtrUdata4 :: u8 where "dwPtrUdata4 = 0x03"
definition dwPtrUdata8 :: u8 where "dwPtrUdata8 = 0x04"
definition dwPtrSleb128 :: u8 where "dwPtrSleb128 = 0x09"
definition dwPtrSdata2 :: u8 where "dwPtrSdata2 = 0x0a"
definition dwPtrSdata4 :: u8 where "dwPtrSdata4 = 0x0b"
definition dwPtrSdata8 :: u8 where "dwPtrSdata8 = 0x0c"
definition dwPtrPcrel :: u8 where "dwPtrPcrel = 0x10"
definition dwPtrTextrel :: u8 where "dwPtrTextrel = 0x20"
definition dwPtrDatarel :: u8 where "dwPtrDatarel = 0x30"
definition dwPtrOmit :: u8 where "dwPtrOmit = 0xff"

lemmas dwPtr_defs =
  dwPtrAbsptr_def dwPtrUleb128_def dwPtrUdata2_def dwPtrUdata4_def dwPtrUdata8_def
  dwPtrSleb128_def dwPtrSdata2_def dwPtrSdata4_def dwPtrSdata8_def
  dwPtrPcrel_def dwPtrTextrel_def dwPtrDatarel_def dwPtrOmit_def

text \<open>The format half of \<open>readAddress\<close>: how the value is stored.\<close>

definition read_format :: "cfiReader \<Rightarrow> u8 \<Rightarrow> (u64 \<times> cfiReader) res" where
  "read_format r enc =
     (let f = enc AND 0x0f in
      if f = dwPtrAbsptr then readU64 r
      else if f = dwPtrUleb128 then readULEB128 r
      else if f = dwPtrUdata2 then rbind (readU16 r) (\<lambda>(v, r). Inr (ucast v, r))
      else if f = dwPtrUdata4 then rbind (readU32 r) (\<lambda>(v, r). Inr (ucast v, r))
      else if f = dwPtrUdata8 then readU64 r
      else if f = dwPtrSleb128 then readSLEB128 r
      else if f = dwPtrSdata2 then rbind (readU16 r) (\<lambda>(v, r). Inr (scast v, r))
      else if f = dwPtrSdata4 then rbind (readU32 r) (\<lambda>(v, r). Inr (scast v, r))
      else if f = dwPtrSdata8 then readU64 r
      else Inl (Error (BadPointerFormat f)))"

definition readAddress :: "cfiReader \<Rightarrow> u8 \<Rightarrow> (u64 \<times> cfiReader) res" where
  "readAddress r enc =
     (if enc = dwPtrOmit then Inr (0, r)
      else let addrOfValue = r_baseAddr r + word_of_int (r_pos r) in
        rbind (read_format r enc) (\<lambda>(val, r).
          let a = enc AND 0x70 in
          if a = 0 then Inr (val, r)
          else if a = dwPtrPcrel then Inr (val + addrOfValue, r)
          else if a = dwPtrTextrel then Inl (Error (BadPointerApplication a))
          else if a = dwPtrDatarel then Inr (val + r_baseAddr r, r)
          else Inl (Error (BadPointerApplication a))))"

definition encodedPtrSize :: "u8 \<Rightarrow> int" where
  "encodedPtrSize enc =
     (let f = enc AND 0x0f in
      if f = dwPtrAbsptr then 8
      else if f = dwPtrUdata2 \<or> f = dwPtrSdata2 then 2
      else if f = dwPtrUdata4 \<or> f = dwPtrSdata4 then 4
      else if f = dwPtrUdata8 \<or> f = dwPtrSdata8 then 8
      else 0)"

section \<open>What every read promises\<close>

text \<open>
  A reader is in range when its data fits a Go slice and the cursor is not negative.  The
  cursor may stand past the end (\<open>parseFDE\<close> skips augmentation data without a check); then
  the fixed-width reads report an error.
\<close>

definition reader_ok :: "cfiReader \<Rightarrow> bool" where
  "reader_ok r \<longleftrightarrow> 0 \<le> r_pos r \<and> r_pos r \<le> int (length (r_data r)) \<and> length (r_data r) < 2 ^ 62"

definition advanced :: "int \<Rightarrow> cfiReader \<Rightarrow> cfiReader \<Rightarrow> bool" where
  "advanced k r r' \<longleftrightarrow>
     r_data r' = r_data r \<and> r_baseAddr r' = r_baseAddr r \<and>
     r_pos r + k \<le> r_pos r' \<and> r_pos r' \<le> int (length (r_data r))"

lemma advanced_trans:
  "advanced k r r' \<Longrightarrow> advanced m r' r'' \<Longrightarrow> advanced (k + m) r r''"
  by (auto simp: advanced_def)

lemma advanced_mono: "advanced k r r' \<Longrightarrow> m \<le> k \<Longrightarrow> advanced m r r'"
  by (auto simp: advanced_def)

lemma advanced_ok: "reader_ok r \<Longrightarrow> advanced k r r' \<Longrightarrow> 0 \<le> k \<Longrightarrow> reader_ok r'"
  by (auto simp: advanced_def reader_ok_def)

lemma remaining_ok: "reader_ok r \<Longrightarrow> remaining r = int (length (r_data r)) - r_pos r"
  by (simp add: reader_ok_def remaining_def)

lemma advanced_remaining:
  "reader_ok r \<Longrightarrow> advanced k r r' \<Longrightarrow> 0 \<le> k \<Longrightarrow> remaining r' \<le> remaining r - k"
  using remaining_ok advanced_ok by (fastforce simp: advanced_def)

locale byte_reader =
  fixes read :: "cfiReader \<Rightarrow> ('v \<times> cfiReader) res"
    and least :: int
  assumes least_nonneg: "0 \<le> least"
    and read_advances: "reader_ok r \<Longrightarrow> read r = Inr (v, r') \<Longrightarrow> advanced least r r'"
    and read_no_panic: "reader_ok r \<Longrightarrow> read r \<noteq> Inl Panic"
begin

lemma read_keeps_ok: "reader_ok r \<Longrightarrow> read r = Inr (v, r') \<Longrightarrow> reader_ok r'"
  using advanced_ok least_nonneg read_advances by blast

lemma read_consumes: "reader_ok r \<Longrightarrow> read r = Inr (v, r') \<Longrightarrow> remaining r' \<le> remaining r - least"
  using read_advances advanced_remaining least_nonneg by blast

lemma read_map_no_panic: "reader_ok r \<Longrightarrow> rbind (read r) (\<lambda>(v, r). Inr (f v, r)) \<noteq> Inl Panic"
  using read_no_panic [of r] by (auto simp: rbind_eq_Inl)

lemma read_map_advances:
  "reader_ok r \<Longrightarrow> rbind (read r) (\<lambda>(v, r). Inr (f v, r)) = Inr (w, r') \<Longrightarrow> advanced least r r'"
  using read_advances by auto

end


section \<open>The fixed-width reads keep the contract\<close>

interpretation u8: byte_reader readU8 1
  by unfold_locales
    (auto simp: readU8_def go_index_def advanced_def reader_ok_def rbind_eq_Inl split: if_splits)

lemma read_le_advances:
  assumes "reader_ok r" "read_le n r = Inr (v, r')" "n \<le> 8"
  shows "advanced (int n) r r'"
  using assms by (auto simp: read_le_def go_from_def advanced_def reader_ok_def split: if_splits)

lemma read_le_no_panic: "reader_ok r \<Longrightarrow> n \<le> 8 \<Longrightarrow> read_le n r \<noteq> Inl Panic"
  by (auto simp: read_le_def go_from_def reader_ok_def split: if_splits)

interpretation u16: byte_reader readU16 2
  by unfold_locales
    (auto simp: readU16_def read_le_no_panic dest: read_le_advances)

interpretation u32: byte_reader readU32 4
  by unfold_locales
    (auto simp: readU32_def read_le_no_panic dest: read_le_advances)

interpretation u64: byte_reader readU64 8
  by unfold_locales
    (auto simp: readU64_def read_le_no_panic dest: read_le_advances)

interpretation s16: byte_reader readS16 2
  by unfold_locales
    (auto simp: readS16_def dest: u16.read_map_advances u16.read_map_no_panic)

section \<open>The LEB128 reads keep the contract\<close>

lemma uvarint_count:
  "uvarint bs i x s = (v, n) \<Longrightarrow> 0 < n \<Longrightarrow> int i < n \<and> n \<le> int i + int (length bs)"
  by (induction bs i x s rule: uvarint.induct) (fastforce split: if_splits)+

lemma uvarint_bound: "uvarint bs i x s = (v, n) \<Longrightarrow> i \<le> 10 \<Longrightarrow> n \<le> 10"
  by (induction bs i x s rule: uvarint.induct) (fastforce split: if_splits)+

interpretation uleb: byte_reader readULEB128 1
proof unfold_locales
  fix r r' :: cfiReader and v
  assume ok: "reader_ok r" and rd: "readULEB128 r = Inr (v, r')"
  obtain n where u: "uvarint (drop (nat (r_pos r)) (r_data r)) 0 0 0 = (v, n)" and n: "0 < n"
    and r': "r' = r\<lparr>r_pos := wrap64 (r_pos r + n)\<rparr>"
    using rd by (auto simp: readULEB128_def go_from_def split: if_splits prod.splits)
  from uvarint_count [OF u n] ok r' n show "advanced 1 r r'"
    by (auto simp: advanced_def reader_ok_def)
qed (auto simp: readULEB128_def go_from_def reader_ok_def Let_def split: if_splits prod.splits)

lemma sleb_count:
  "sleb_loop bs x s n = Some (v, m) \<Longrightarrow> n < m \<and> m \<le> n + length bs"
  by (induction bs x s n rule: sleb_loop.induct) (fastforce simp: Let_def split: if_splits)+

interpretation sleb: byte_reader readSLEB128 1
proof unfold_locales
  fix r r' :: cfiReader and v
  assume ok: "reader_ok r" and rd: "readSLEB128 r = Inr (v, r')"
  obtain n where u: "sleb_loop (drop (nat (r_pos r)) (r_data r)) 0 0 0 = Some (v, n)"
    and r': "r' = r\<lparr>r_pos := wrap64 (r_pos r + int n)\<rparr>"
    using rd by (auto simp: readSLEB128_def go_from_def split: if_splits option.splits)
  from sleb_count [OF u] ok r' show "advanced 1 r r'"
    by (auto simp: advanced_def reader_ok_def)
qed (auto simp: readSLEB128_def go_from_def reader_ok_def split: if_splits option.splits)

text \<open>Encoded pointers: at least no byte (\<open>DW_EH_PE_omit\<close>), and never a panic.\<close>

lemma read_format_advances:
  assumes "reader_ok r" "read_format r enc = Inr (v, r')"
  shows "advanced 1 r r'"
  using assms(2) unfolding read_format_def Let_def
  by (auto split: if_splits
      dest!: u16.read_advances [OF assms(1)] u32.read_advances [OF assms(1)]
        u64.read_advances [OF assms(1)] uleb.read_advances [OF assms(1)]
        sleb.read_advances [OF assms(1)]
      elim: advanced_mono)

lemma read_format_no_panic: "reader_ok r \<Longrightarrow> read_format r enc \<noteq> Inl Panic"
  unfolding read_format_def Let_def
  using u16.read_no_panic [of r] u32.read_no_panic [of r] u64.read_no_panic [of r]
    uleb.read_no_panic [of r] sleb.read_no_panic [of r]
  by (auto simp: rbind_eq_Inl)

lemma readAddress_advances:
  assumes "reader_ok r" "readAddress r enc = Inr (v, r')" "enc \<noteq> dwPtrOmit"
  shows "advanced 1 r r'"
  using assms(2,3) read_format_advances [OF assms(1)]
  unfolding readAddress_def Let_def by (auto split: if_splits)

interpretation addr: byte_reader "\<lambda>r. readAddress r enc" 0 for enc
proof unfold_locales
  fix r r' :: cfiReader and v
  assume ok: "reader_ok r" and rd: "readAddress r enc = Inr (v, r')"
  show "advanced 0 r r'"
  proof (cases "enc = dwPtrOmit")
    case True
    with ok rd show ?thesis by (auto simp: readAddress_def advanced_def reader_ok_def)
  next
    case False
    with readAddress_advances [OF ok rd] show ?thesis by (auto elim: advanced_mono)
  qed
qed (auto simp: readAddress_def Let_def rbind_eq_Inl read_format_no_panic split: if_splits)

lemma slice_spec:
  assumes "reader_ok r" "slice r n = Inr (sub, r')" "go_int n"
  shows "advanced n r r' \<and> 0 \<le> n \<and> reader_ok sub \<and> r_pos sub = 0 \<and>
    r_data sub = take (nat n) (drop (nat (r_pos r)) (r_data r)) \<and>
    r_baseAddr sub = r_baseAddr r + word_of_int (r_pos r)"
proof -
  let ?e = "wrap64 (r_pos r + n)"
  from assms(2) have e: "r_pos r \<le> ?e" "?e \<le> int (length (r_data r))"
    and sub: "sub = \<lparr>r_data = take (nat (?e - r_pos r)) (drop (nat (r_pos r)) (r_data r)),
        r_pos = 0, r_baseAddr = r_baseAddr r + word_of_int (r_pos r)\<rparr>"
    and r': "r' = r\<lparr>r_pos := ?e\<rparr>"
    by (auto simp: slice_def go_slice_def split: if_splits)
  have "0 \<le> n \<and> ?e = r_pos r + n"
    using assms(1,3) e(1) by (intro wrap64_add_ge) (auto simp: reader_ok_def)
  with assms(1) e sub r' show ?thesis
    by (auto simp: advanced_def reader_ok_def)
qed

lemma slice_no_panic:
  assumes "reader_ok r" "0 \<le> n" "n < 2 ^ 62"
  shows "slice r n \<noteq> Inl Panic"
  using assms by (auto simp: slice_def go_slice_def reader_ok_def)

section \<open>LEB128 round trips\<close>

text \<open>
  The encodings of the DWARF standard (section 7.6), seven bits at a time from the low end,
  the high bit of every byte but the last set.
\<close>

function uleb_encode :: "u64 \<Rightarrow> u8 list" where
  "uleb_encode v =
     (if v < 128 then [ucast v] else (ucast (take_bit 7 v) OR 0x80) # uleb_encode (drop_bit 7 v))"
  by pat_completeness auto
termination
proof (relation "measure unat")
  fix v :: u64
  assume "\<not> v < 128"
  then have "128 \<le> unat v" by (simp add: word_less_nat_alt)
  then have "unat v div 128 < unat v" by simp
  then show "(drop_bit 7 v, v) \<in> measure unat"
    by (simp add: unat_drop_bit_eq [of 7 v] drop_bit_eq_div [of 7 "unat v"])
qed simp

declare uleb_encode.simps [simp del]

lemma take_bit_step:
  "take_bit s (v :: u64) OR push_bit s (take_bit 7 (drop_bit s v)) = take_bit (s + 7) v"
  by (rule bit_eqI) (auto simp: bit_simps)

lemma low7_ucast: "ucast ((ucast (take_bit 7 v) OR 0x80 :: u8) AND 0x7f) = (take_bit 7 v :: u64)"
  by (rule bit_eqI) (auto simp: bit_simps mask_bits)

lemma marked_bit7: "bit (x OR 0x80 :: u8) 7"
  by (simp add: bit_simps mask_bits)

lemma less_128_iff: "(w :: u64) < 128 \<longleftrightarrow> drop_bit 7 w = 0"
proof -
  have "drop_bit 7 w = 0 \<longleftrightarrow> unat (drop_bit 7 w) = 0" by (simp only: unat_eq_0)
  also have "\<dots> \<longleftrightarrow> unat w div 128 = 0" by (simp only: unat_drop_bit_div) simp
  finally show ?thesis by (auto simp only: word_less_nat_alt div_eq_0_iff) simp_all
qed

lemma drop_bit_63: "drop_bit 63 (v :: u64) = 0 \<or> drop_bit 63 v = 1"
proof -
  have "unat v < 2 ^ 64" using unsigned_less [of v] by simp
  then have "unat v < 2 * 2 ^ 63" by simp
  then have "unat v div 2 ^ 63 < 2" by (simp only: less_mult_imp_div_less)
  then have "unat (drop_bit 63 v) < 2" by (simp only: unat_drop_bit_div)
  then have "unat (drop_bit 63 v) = unat (0 :: u64) \<or> unat (drop_bit 63 v) = unat (1 :: u64)"
    by (simp add: less_2_cases_iff)
  then show ?thesis by (simp only: word_unat_eq_iff)
qed

lemma take_bit_all: "drop_bit n (v :: u64) = 0 \<Longrightarrow> take_bit n v = v"
  using bits_ident [of n v] by simp

lemma low7_bits: "take_bit 7 (w :: u64) = w \<Longrightarrow> bit w n \<Longrightarrow> n < 7"
  by (metis bit_take_bit_iff)

lemma low7_roundtrip: "take_bit 7 (w :: u64) = w \<Longrightarrow> ucast (ucast w :: u8) = w"
  by (rule bit_eqI) (auto simp: bit_simps dest: low7_bits)

lemma low7_unmarked: "take_bit 7 (w :: u64) = w \<Longrightarrow> \<not> bit (ucast w :: u8) 7"
  by (auto simp: bit_simps dest: low7_bits)

lemma uvarint_uleb_encode:
  assumes "i < 10"
  shows "uvarint (uleb_encode (drop_bit (7 * i) v) @ rest) i (take_bit (7 * i) v) (7 * i) =
    (v, int i + int (length (uleb_encode (drop_bit (7 * i) v))))"
  using assms
proof (induction "10 - i" arbitrary: i)
  case (Suc k)
  define w where "w = drop_bit (7 * i) v"
  have next_w: "drop_bit 7 w = drop_bit (7 * Suc i) v" by (simp add: w_def)
  have next_x: "take_bit (7 * i) v OR push_bit (7 * i) (take_bit 7 w) = take_bit (7 * Suc i) v"
    using take_bit_step [of "7 * i" v] by (simp add: w_def add.commute)
  have nine: "i = 9 \<Longrightarrow> w = 0 \<or> w = 1" using drop_bit_63 [of v] by (simp add: w_def)
  show ?case
  proof (cases "w < 128")
    case True
    then have w7: "take_bit 7 w = w" and v: "take_bit (7 * Suc i) v = v"
      using less_128_iff [of w] take_bit_all next_w by auto
    have "\<not> (i = 9 \<and> 1 < (ucast w :: u8))" using nine by auto
    with True Suc.prems low7_roundtrip [OF w7] low7_unmarked [OF w7] next_x v w7 show ?thesis
      by (simp add: uleb_encode.simps [of w] byte_less_80_iff flip: w_def)
  next
    case False
    with nine have "Suc i < 10" using Suc.prems by (cases "i = 9") auto
    with Suc.hyps have IH: "uvarint (uleb_encode (drop_bit (7 * Suc i) v) @ rest) (Suc i)
        (take_bit (7 * Suc i) v) (7 * Suc i) =
        (v, int (Suc i) + int (length (uleb_encode (drop_bit (7 * Suc i) v))))"
      by (intro Suc.hyps(1)) (use Suc.hyps(2) in auto)
    have "uleb_encode w = (ucast (take_bit 7 w) OR 0x80) # uleb_encode (drop_bit (7 * Suc i) v)"
      using False by (simp only: uleb_encode.simps [of w] next_w if_False)
    moreover have "7 * i + 7 = 7 * Suc i" by simp
    ultimately show ?thesis
      using Suc.prems IH next_x
      by (simp only: w_def [symmetric] append_Cons uvarint.simps byte_less_80_iff marked_bit7
          low7_ucast list.size) simp
  qed
qed simp

function sleb_encode :: "i64 \<Rightarrow> u8 list" where
  "sleb_encode v =
     (let b = ucast (take_bit 7 v); v' = signed_drop_bit 7 v
      in if v' = (if bit v 6 then - 1 else 0) then [b] else (b OR 0x80) # sleb_encode v')"
  by pat_completeness auto

lemma div_128_shrinks: "x \<noteq> 0 \<Longrightarrow> x \<noteq> - 1 \<Longrightarrow> \<bar>x div 128\<bar> < \<bar>x :: int\<bar>"
  by (cases "0 < x") linarith+

termination sleb_encode
proof (relation "measure (\<lambda>v. nat \<bar>sint v\<bar>)")
  fix v v' :: i64 and b :: u8
  assume v': "v' = signed_drop_bit 7 v" and stop: "v' \<noteq> (if bit v 6 then - 1 else 0)"
  have "v \<noteq> 0" "v \<noteq> - 1" using v' stop by auto
  then have "sint v \<noteq> 0" "sint v \<noteq> - 1"
    by (metis signed_0 signed_eq_0_iff, metis signed_minus_1 signed_word_eqI)
  moreover have "sint v' = sint v div 128"
    by (simp add: v' sint_signed_drop_bit_eq drop_bit_eq_div)
  ultimately show "(v', v) \<in> measure (\<lambda>v. nat \<bar>sint v\<bar>)"
    using div_128_shrinks [of "sint v"] by simp
qed simp

declare sleb_encode.simps [simp del]

lemma sleb_step:
  "take_bit s (v :: i64) OR push_bit s (take_bit 7 (signed_drop_bit s v)) = take_bit (s + 7) v"
  by (rule bit_eqI) (auto simp: bit_simps)

lemma sleb_sign_fill:
  assumes "signed_drop_bit k (v :: i64) = - 1" "k < 64"
  shows "take_bit k v OR (- push_bit k 1) = v"
proof (rule bit_eqI)
  fix n assume "possible_bit TYPE(i64) n"
  then have n: "n < 64" by simp
  have "bit (signed_drop_bit k v) (n - k)" if "k \<le> n"
    using assms(1) n by simp
  with n assms(2) show "bit (take_bit k v OR (- push_bit k 1)) n = bit v n"
    by (auto simp: push_bit_of_1 minus_exp_eq_not_mask bit_simps split: if_splits)
qed

lemma sleb_sign_zero:
  assumes "signed_drop_bit k (v :: i64) = 0"
  shows "take_bit k v = v"
proof (rule bit_eqI)
  fix n assume "possible_bit TYPE(i64) n"
  then have n: "n < 64" by simp
  have "\<not> bit (signed_drop_bit k v) (n - k)" using assms by simp
  with n show "bit (take_bit k v) n = bit v n"
    by (cases "k \<le> n") (auto simp: bit_simps split: if_splits)
qed

lemma sleb_loop_encode:
  "w = signed_drop_bit s v \<Longrightarrow>
    sleb_loop (sleb_encode w @ rest) (take_bit s v) s n = Some (v, n + length (sleb_encode w))"
proof (induction w arbitrary: s n rule: sleb_encode.induct)
  case (1 w)
  define b :: u8 where "b = ucast (take_bit 7 w)"
  have next_w: "signed_drop_bit 7 w = signed_drop_bit (s + 7) v"
    by (simp add: "1.prems" signed_drop_bit_signed_drop_bit add.commute)
  have next_x: "take_bit s v OR push_bit s (take_bit 7 w) = take_bit (s + 7) v"
    unfolding "1.prems" by (rule sleb_step)
  have b7: "\<not> bit b 7" "ucast (b AND 0x7f) = take_bit 7 w" "bit b 6 = bit w 6"
    by (auto simp: b_def intro!: bit_eqI) (auto simp: bit_simps mask_bits)
  show ?case
  proof (cases "signed_drop_bit 7 w = (if bit w 6 then - 1 else 0)")
    case True
    have enc: "sleb_encode w = [b]" using True by (simp add: sleb_encode.simps [of w] b_def)
    have "(if s + 7 < 64 \<and> bit w 6 then take_bit (s + 7) v OR (- push_bit (s + 7) 1)
        else take_bit (s + 7) v) = v"
      using True next_w sleb_sign_fill [of "s + 7" v] sleb_sign_zero [of "s + 7" v]
      by (auto simp: take_bit_word_eq_self)
    with enc b7 next_x show ?thesis
      by (simp add: Let_def byte_and_80_iff byte_and_40_iff)
  next
    case False
    have enc: "sleb_encode w = (b OR 0x80) # sleb_encode (signed_drop_bit 7 w)"
      using False by (simp add: sleb_encode.simps [of w] b_def Let_def)
    have "ucast ((b OR 0x80) AND 0x7f) = (take_bit 7 w :: i64)"
      unfolding b_def by (rule low7_ucast)
    with "1.IH" [OF refl refl False next_w, of "Suc n"] enc next_x marked_bit7 [of b]
    show ?thesis by (simp add: Let_def byte_and_80_iff)
  qed
qed

text \<open>
  Decoding what the standard's encoders write gives the value back and consumes exactly the
  encoding, wherever it stands in the data.
\<close>

definition reader_at :: "u8 list \<Rightarrow> u8 list \<Rightarrow> u64 \<Rightarrow> cfiReader" where
  "reader_at pre rest base = \<lparr>r_data = pre @ rest, r_pos = int (length pre), r_baseAddr = base\<rparr>"

lemma readU8_at:
  "length (pre @ b # rest) < 2 ^ 62 \<Longrightarrow>
    readU8 (reader_at pre (b # rest) base) = Inr (b, reader_at (pre @ [b]) rest base)"
  by (simp add: readU8_def reader_at_def go_index_def nth_append add.commute)

lemma remaining_at: "length (pre @ rest) < 2 ^ 62 \<Longrightarrow> remaining (reader_at pre rest base) = int (length rest)"
  by (simp add: remaining_def reader_at_def)

lemma readULEB128_at:
  assumes "length (pre @ uleb_encode v @ rest) < 2 ^ 62"
  shows "readULEB128 (reader_at pre (uleb_encode v @ rest) base) =
    Inr (v, reader_at (pre @ uleb_encode v) rest base)"
proof -
  have "uvarint (uleb_encode v @ rest) 0 0 0 = (v, int (length (uleb_encode v)))"
    using uvarint_uleb_encode [of 0 v rest] by simp
  moreover have "uleb_encode v \<noteq> []" by (simp add: uleb_encode.simps [of v])
  ultimately show ?thesis
    using assms by (simp add: readULEB128_def reader_at_def go_from_def)
qed

lemma readSLEB128_at:
  assumes "length (pre @ sleb_encode v @ rest) < 2 ^ 62"
  shows "readSLEB128 (reader_at pre (sleb_encode v @ rest) base) =
    Inr (v, reader_at (pre @ sleb_encode v) rest base)"
proof -
  have "sleb_loop (sleb_encode v @ rest) 0 0 0 = Some (v, length (sleb_encode v))"
    using sleb_loop_encode [of v 0 v rest 0] by simp
  moreover have "0 < int (length (sleb_encode v)) + int (length rest)"
    by (simp add: sleb_encode.simps [of v] Let_def)
  ultimately show ?thesis
    using assms by (simp add: not_le readSLEB128_def reader_at_def go_from_def)
qed

section \<open>Encoded pointers\<close>

text \<open>
  The entry size that the binary search of \<open>.eh_frame_hdr\<close> steps by is the number of bytes
  \<open>readAddress\<close> consumes, for every encoding that has a fixed size.
\<close>

lemma read_le_consumes:
  "reader_ok r \<Longrightarrow> read_le n r = Inr (v, r') \<Longrightarrow> n \<le> 8 \<Longrightarrow> r_pos r' = r_pos r + int n"
  by (auto simp: read_le_def go_from_def reader_ok_def split: if_splits)

lemma read_format_size:
  assumes "reader_ok r" "read_format r enc = Inr (v, r')" "encodedPtrSize enc \<noteq> 0"
  shows "r_pos r' = r_pos r + encodedPtrSize enc"
  using assms(2,3)
  by (auto simp: read_format_def encodedPtrSize_def Let_def readU16_def readU32_def readU64_def
      dwPtr_defs dest!: read_le_consumes [OF assms(1)] split: if_splits)

lemma omit_has_no_size: "encodedPtrSize dwPtrOmit = 0"
  by (simp add: encodedPtrSize_def dwPtr_defs)

lemma readAddress_size:
  assumes "reader_ok r" "readAddress r enc = Inr (v, r')" "encodedPtrSize enc \<noteq> 0"
  shows "r_pos r' = r_pos r + encodedPtrSize enc"
proof -
  have "enc \<noteq> dwPtrOmit" using assms(3) omit_has_no_size by auto
  then obtain u where "read_format r enc = Inr (u, r')"
    using assms(2) by (auto simp: readAddress_def Let_def split: if_splits)
  with assms(1,3) show ?thesis by (intro read_format_size)
qed

lemma read_le_enough:
  "reader_ok r \<Longrightarrow> n \<le> 8 \<Longrightarrow> r_pos r + int n \<le> int (length (r_data r)) \<Longrightarrow>
    \<exists>v r'. read_le n r = Inr (v, r')"
  by (auto simp: read_le_def go_from_def reader_ok_def)

lemma read_format_enough:
  assumes "reader_ok r" "encodedPtrSize enc \<noteq> 0"
    and "r_pos r + encodedPtrSize enc \<le> int (length (r_data r))"
  shows "\<exists>v r'. read_format r enc = Inr (v, r')"
  using assms(2,3) read_le_enough [OF assms(1), of 2, where 'a = 16]
    read_le_enough [OF assms(1), of 4, where 'a = 32] read_le_enough [OF assms(1), of 8, where 'a = 64]
  by (simp add: read_format_def encodedPtrSize_def Let_def readU16_def readU32_def readU64_def
      dwPtr_defs split: if_splits) auto

section \<open>No read runs out of fuel\<close>

lemma fuel_free_readU8 [simp, fuel_free_intros]: "fuel_free (readU8 r)"
  unfolding readU8_def by (auto intro!: fuel_free_intros)

lemma fuel_free_read_le [simp, fuel_free_intros]: "fuel_free (read_le n r)"
  unfolding read_le_def by (auto intro!: fuel_free_intros)

lemma fuel_free_reads [simp, fuel_free_intros]:
  "fuel_free (readU16 r)" "fuel_free (readU32 r)" "fuel_free (readU64 r)" "fuel_free (slice r n)"
  by (auto simp: readU16_def readU32_def readU64_def slice_def intro!: fuel_free_intros)

lemma fuel_free_readS16 [simp, fuel_free_intros]: "fuel_free (readS16 r)"
  unfolding readS16_def by (auto intro!: fuel_free_intros)

lemma fuel_free_uleb [simp, fuel_free_intros]: "fuel_free (readULEB128 r)"
  unfolding readULEB128_def Let_def by (auto intro!: fuel_free_intros)

lemma fuel_free_sleb [simp, fuel_free_intros]: "fuel_free (readSLEB128 r)"
  unfolding readSLEB128_def by (auto intro!: fuel_free_intros split: option.split)

lemma fuel_free_readAddress [simp, fuel_free_intros]: "fuel_free (readAddress r enc)"
  unfolding readAddress_def read_format_def Let_def by (intro fuel_free_intros) simp_all

section \<open>The decoders invert the encoders\<close>

text \<open>
  Reading an unsigned LEB128 value gives back the value whose encoding stands at
  the cursor, and moves the cursor to the end of the encoding.
\<close>

theorem uleb_roundtrip:
  assumes "length (pre @ uleb_encode v @ rest) < 2 ^ 62"
  shows "readULEB128 (reader_at pre (uleb_encode v @ rest) base) =
    Inr (v, reader_at (pre @ uleb_encode v) rest base)"
  using assms by (rule readULEB128_at)

theorem uleb_roundtrip_witness:
  "readULEB128 (reader_at [7] (uleb_encode 0x1234 @ [9]) 0) =
     Inr (0x1234, reader_at [7, 0xb4, 0x24] [9] 0)"
proof -
  have e: "uleb_encode 0x1234 = [0xb4, 0x24]" by code_simp
  show ?thesis using uleb_roundtrip [of "[7]" "0x1234" "[9]" 0] by (simp add: e)
qed

text \<open>
  The same for the signed values, negative ones included: the sign of the last
  byte is extended over all 64 bits.
\<close>

theorem sleb_roundtrip:
  assumes "length (pre @ sleb_encode v @ rest) < 2 ^ 62"
  shows "readSLEB128 (reader_at pre (sleb_encode v @ rest) base) =
    Inr (v, reader_at (pre @ sleb_encode v) rest base)"
  using assms by (rule readSLEB128_at)

theorem sleb_roundtrip_witness:
  "readSLEB128 (reader_at [7] (sleb_encode (- 8) @ [9]) 0) = Inr (- 8, reader_at [7, 0x78] [9] 0)"
proof -
  have e: "sleb_encode (- 8) = [0x78]" by code_simp
  show ?thesis using sleb_roundtrip [of "[7]" "- 8" "[9]" 0] by (simp add: e)
qed

text \<open>
  An encoded pointer of fixed size is read whenever that many bytes are left, and
  the cursor moves by exactly the size that the search table steps by.
\<close>

theorem readAddress_fixed_size:
  assumes "reader_ok r" "encodedPtrSize enc \<noteq> 0" "enc AND 0x70 \<in> {0, dwPtrPcrel, dwPtrDatarel}"
    and "r_pos r + encodedPtrSize enc \<le> int (length (r_data r))"
  shows "\<exists>v r'. readAddress r enc = Inr (v, r') \<and> r_pos r' = r_pos r + encodedPtrSize enc \<and>
    r_data r' = r_data r"
proof -
  have enc: "enc \<noteq> dwPtrOmit" using assms(2) omit_has_no_size by auto
  obtain v r' where v: "read_format r enc = Inr (v, r')"
    using read_format_enough [OF assms(1,2,4)] by blast
  then obtain w where "readAddress r enc = Inr (w, r')"
    using enc assms(3) by (auto simp: readAddress_def Let_def dwPtr_defs)
  with readAddress_size [OF assms(1) _ assms(2)] addr.read_advances [OF assms(1)] show ?thesis
    by (fastforce simp: advanced_def)
qed

theorem readAddress_fixed_size_witness:
  "\<exists>v r'. readAddress \<lparr>r_data = [1, 0, 0, 0], r_pos = 0, r_baseAddr = 0x10\<rparr> 0x1b = Inr (v, r') \<and>
     r_pos r' = 4 \<and> r_data r' = [1, 0, 0, 0]"
  using readAddress_fixed_size [of "\<lparr>r_data = [1, 0, 0, 0], r_pos = 0, r_baseAddr = 0x10\<rparr>" "0x1b"]
  by (simp add: reader_ok_def encodedPtrSize_def dwPtr_defs)

end
