(* ===== verification/Cfi.thy ===== *)
theory Cfi
  imports Reader
begin

text \<open>
  The call frame information of \<open>src/debugger/cfi.go\<close>: CIEs and FDEs parsed from
  \<open>.eh_frame\<close>, the cache of parsed CIEs, the binary search table of \<open>.eh_frame_hdr\<close>, and
  the lookup of the FDE that covers a program counter.  The cache is state: an operation
  returns its result and the new \<open>CallFrameInformation\<close>, on the error paths too.
\<close>

unbundle bit_operations_syntax

section \<open>Entries\<close>

record CIE =
  cie_Length :: u32
  CodeAlignmentFactor :: u64
  DataAlignmentFactor :: i64
  ReturnAddressRegister :: u64
  HasAugmentation :: bool
  FDEPointerEncoding :: u8
  LSDAPointerEncoding :: u8
  cie_Instructions :: "u8 list"

record FDE =
  fde_Length :: u32
  fde_CIE :: CIE
  InitialLocation :: u64
  AddressRange :: u64
  fde_Instructions :: "u8 list"

definition ContainsPC :: "FDE \<Rightarrow> u64 \<Rightarrow> bool" where
  "ContainsPC f fileAddr \<longleftrightarrow>
     InitialLocation f \<le> fileAddr \<and> fileAddr < InitialLocation f + AddressRange f"

record CallFrameInformation =
  ehFrameData :: "u8 list"
  ehFrameAddr :: u64
  textStart :: u64
  cfi_loadBias :: u64
  cieCache :: "u64 \<rightharpoonup> CIE"
  hdrData :: "u8 list"
  hdrAddr :: u64
  hdrTableOff :: int
  hdrTableCount :: u64
  hdrTableEnc :: u8
  hdrHasTable :: bool

section \<open>Parsing a CIE\<close>

text \<open>The loop over the augmentation string: the characters before the null byte, and their count with it.\<close>

fun aug_loop :: "u8 list \<Rightarrow> u8 list \<Rightarrow> nat \<Rightarrow> (u8 list \<times> nat) option" where
  "aug_loop [] augStr n = None"
| "aug_loop (b # bs) augStr n =
     (if b = 0 then Some (augStr, Suc n) else aug_loop bs (augStr @ [b]) (Suc n))"

definition readAugStr :: "cfiReader \<Rightarrow> (u8 list \<times> cfiReader) res" where
  "readAugStr r =
     (if int (length (r_data r)) \<le> r_pos r then Inl (Error EOF)
      else rbind (go_from (r_data r) (r_pos r)) (\<lambda>bs.
        case aug_loop bs [] 0 of
          None \<Rightarrow> Inl (Error EOF)
        | Some (s, n) \<Rightarrow> Inr (s, r\<lparr>r_pos := wrap64 (r_pos r + int n)\<rparr>)))"

text \<open>The augmentation characters after \<open>z\<close>: \<open>R\<close>, \<open>L\<close>, \<open>P\<close>, \<open>S\<close>, and any other.\<close>

fun aug_chars :: "u8 list \<Rightarrow> int \<Rightarrow> CIE \<Rightarrow> cfiReader \<Rightarrow> (CIE \<times> cfiReader) res" where
  "aug_chars [] augEnd cie body = Inr (cie, body)"
| "aug_chars (c # cs) augEnd cie body =
     (if c = 0x52 then
        rbind (readU8 body) (\<lambda>(enc, body). aug_chars cs augEnd (cie\<lparr>FDEPointerEncoding := enc\<rparr>) body)
      else if c = 0x4c then
        rbind (readU8 body) (\<lambda>(enc, body). aug_chars cs augEnd (cie\<lparr>LSDAPointerEncoding := enc\<rparr>) body)
      else if c = 0x50 then
        rbind (readU8 body) (\<lambda>(pEnc, body).
        rbind (readAddress body pEnc) (\<lambda>(_, body). aug_chars cs augEnd cie body))
      else if c = 0x53 then aug_chars cs augEnd cie body
      else aug_chars cs augEnd cie (body\<lparr>r_pos := augEnd\<rparr>))"

text \<open>The bytes left in a reader, \<open>nil\<close> when none are.\<close>

definition rest_bytes :: "cfiReader \<Rightarrow> u8 list res" where
  "rest_bytes r = (if 0 < remaining r then go_from (r_data r) (r_pos r) else Inr [])"

definition parseCIE :: "cfiReader \<Rightarrow> CIE res" where
  "parseCIE r =
     rbind (readU32 r) (\<lambda>(len, r).
     if len = 0 then Inl (Error ZeroLengthCIE)
     else if len = 0xffffffff then Inl (Error Dwarf64)
     else rbind (slice r (uint len)) (\<lambda>(body, r).
     rbind (readU32 body) (\<lambda>(cieID, body).
     if cieID \<noteq> 0 then Inl (Error (BadCIEId cieID))
     else rbind (readU8 body) (\<lambda>(version, body).
     if version \<noteq> 1 \<and> version \<noteq> 3 then Inl (Error (BadCIEVersion version))
     else rbind (readAugStr body) (\<lambda>(augStr, body).
     rbind (readULEB128 body) (\<lambda>(code, body).
     rbind (readSLEB128 body) (\<lambda>(dat, body).
     rbind (if version = 1 then rbind (readU8 body) (\<lambda>(ra, body). Inr (ucast ra, body))
            else readULEB128 body) (\<lambda>(ra, body).
     let cie = \<lparr>cie_Length = len, CodeAlignmentFactor = code, DataAlignmentFactor = dat,
                ReturnAddressRegister = ra, HasAugmentation = False,
                FDEPointerEncoding = dwPtrAbsptr, LSDAPointerEncoding = 0, cie_Instructions = []\<rparr>
     in rbind
       (if augStr \<noteq> [] \<and> hd augStr = 0x7a then
          rbind (readULEB128 body) (\<lambda>(augLen, body).
          let augEnd = wrap64 (r_pos body + sint augLen) in
          rbind (aug_chars (tl augStr) augEnd (cie\<lparr>HasAugmentation := True\<rparr>) body) (\<lambda>(cie, body).
          Inr (cie, body\<lparr>r_pos := augEnd\<rparr>)))
        else Inr (cie, body)) (\<lambda>(cie, body).
     rbind (rest_bytes body) (\<lambda>is. Inr (cie\<lparr>cie_Instructions := is\<rparr>)))))))))))"

section \<open>The CIE cache\<close>

definition getCIE :: "CallFrameInformation \<Rightarrow> u64 \<Rightarrow> CIE res \<times> CallFrameInformation" where
  "getCIE cfi off =
     (case cieCache cfi off of
        Some cie \<Rightarrow> (Inr cie, cfi)
      | None \<Rightarrow>
        if int (length (ehFrameData cfi)) \<le> sint off then (Inl (Error (CIEOutOfRange off)), cfi)
        else
          (case rbind (go_from (ehFrameData cfi) (uint off)) (\<lambda>d.
              parseCIE \<lparr>r_data = d, r_pos = 0, r_baseAddr = ehFrameAddr cfi + off\<rparr>) of
             Inl e \<Rightarrow> (Inl e, cfi)
           | Inr cie \<Rightarrow> (Inr cie, cfi\<lparr>cieCache := (cieCache cfi)(off \<mapsto> cie)\<rparr>)))"

section \<open>Parsing an FDE\<close>

definition fde_body :: "cfiReader \<Rightarrow> CIE \<Rightarrow> FDE res" where
  "fde_body r cie =
     rbind (readAddress r (FDEPointerEncoding cie)) (\<lambda>(loc, r).
     rbind (readAddress r (FDEPointerEncoding cie AND 0x0f)) (\<lambda>(rng, r).
     rbind (if HasAugmentation cie then
              rbind (readULEB128 r) (\<lambda>(augLen, r). Inr (r\<lparr>r_pos := wrap64 (r_pos r + sint augLen)\<rparr>))
            else Inr r) (\<lambda>r.
     rbind (rest_bytes r) (\<lambda>is.
     Inr \<lparr>fde_Length = 0, fde_CIE = cie, InitialLocation = loc, AddressRange = rng,
          fde_Instructions = is\<rparr>))))"

definition parseFDE ::
  "CallFrameInformation \<Rightarrow> cfiReader \<Rightarrow> u64 \<Rightarrow> FDE res \<times> CallFrameInformation" where
  "parseFDE cfi r cieOffset =
     (let (m, cfi') = getCIE cfi cieOffset in (rbind m (fde_body r), cfi'))"

text \<open>The header of an entry: its length, its body, and the offset of its CIE.\<close>

definition fde_header :: "CallFrameInformation \<Rightarrow> u64 \<Rightarrow> (u32 \<times> cfiReader \<times> u64) res" where
  "fde_header cfi off =
     (if int (length (ehFrameData cfi)) \<le> sint off then Inl (Error (FDEOutOfRange off))
      else rbind (go_from (ehFrameData cfi) (uint off)) (\<lambda>d.
        rbind (readU32 \<lparr>r_data = d, r_pos = 0, r_baseAddr = ehFrameAddr cfi + off\<rparr>) (\<lambda>(len, r).
        if len = 0 \<or> len = 0xffffffff then Inl (Error (BadFDELength len))
        else let entryStart = r_pos r in
        rbind (slice r (uint len)) (\<lambda>(body, r).
        rbind (readU32 body) (\<lambda>(ciePtr, body).
        if ciePtr = 0 then Inl (Error (NotAnFDE off))
        else Inr (len, body, off + word_of_int entryStart - ucast ciePtr))))))"

definition parseFDEAtOffset ::
  "CallFrameInformation \<Rightarrow> u64 \<Rightarrow> FDE res \<times> CallFrameInformation" where
  "parseFDEAtOffset cfi off =
     (case fde_header cfi off of
        Inl e \<Rightarrow> (Inl e, cfi)
      | Inr (len, body, cieOffset) \<Rightarrow>
          (let (m, cfi') = parseFDE cfi body cieOffset
           in (rbind m (\<lambda>fde. Inr (fde\<lparr>fde_Length := len\<rparr>)), cfi')))"

section \<open>The search table of .eh\_frame\_hdr\<close>

definition parseEhFrameHdr ::
  "CallFrameInformation \<Rightarrow> u8 list \<Rightarrow> u64 \<Rightarrow> CallFrameInformation res" where
  "parseEhFrameHdr cfi hdr addr =
     on_error (readU8 \<lparr>r_data = hdr, r_pos = 0, r_baseAddr = addr\<rparr>) (Inr cfi) (\<lambda>(version, r).
     if version \<noteq> 1 then Inr cfi
     else on_error (readU8 r) (Inr cfi) (\<lambda>(ehFramePtrEnc, r).
     on_error (readU8 r) (Inr cfi) (\<lambda>(fdeCountEnc, r).
     on_error (readU8 r) (Inr cfi) (\<lambda>(tableEnc, r).
     on_error (readAddress r ehFramePtrEnc) (Inr cfi) (\<lambda>(_, r).
     if fdeCountEnc = dwPtrOmit then Inr cfi
     else on_error (readAddress r fdeCountEnc) (Inr cfi) (\<lambda>(fdeCount, r).
     if fdeCount = 0 then Inr cfi
     else Inr (cfi\<lparr>hdrTableOff := r_pos r, hdrTableCount := fdeCount, hdrTableEnc := tableEnc,
                   hdrHasTable := True\<rparr>)))))))"

definition newCallFrameInformation ::
  "u8 list \<Rightarrow> u64 \<Rightarrow> u8 list \<Rightarrow> u64 \<Rightarrow> u64 \<Rightarrow> CallFrameInformation res" where
  "newCallFrameInformation ehFrame addr hdr hdrA text =
     (let cfi = \<lparr>ehFrameData = ehFrame, ehFrameAddr = addr, textStart = text, cfi_loadBias = 0,
                 cieCache = Map.empty, hdrData = [], hdrAddr = 0, hdrTableOff = 0,
                 hdrTableCount = 0, hdrTableEnc = 0, hdrHasTable = False\<rparr>
      in if 0 < length hdr then parseEhFrameHdr (cfi\<lparr>hdrData := hdr, hdrAddr := hdrA\<rparr>) hdr hdrA
         else Inr cfi)"

text \<open>The reader at the \<open>i\<close>-th pair of the table, and the predicate of the \<open>sort.Search\<close>.\<close>

definition table_reader :: "CallFrameInformation \<Rightarrow> int \<Rightarrow> int \<Rightarrow> cfiReader" where
  "table_reader cfi pairSize i =
     \<lparr>r_data = hdrData cfi, r_pos = wrap64 (hdrTableOff cfi + wrap64 (i * pairSize)),
      r_baseAddr = hdrAddr cfi\<rparr>"

definition entry_above :: "CallFrameInformation \<Rightarrow> int \<Rightarrow> u64 \<Rightarrow> int \<Rightarrow> bool res" where
  "entry_above cfi pairSize fileAddr i =
     on_error (readAddress (table_reader cfi pairSize i) (hdrTableEnc cfi)) (Inr True)
       (\<lambda>(loc, _). Inr (fileAddr < loc))"

text \<open>The FDE address of the last entry whose location is not above the file address.\<close>

definition table_lookup :: "CallFrameInformation \<Rightarrow> u64 \<Rightarrow> u64 res" where
  "table_lookup cfi fileAddr =
     (let count = sint (hdrTableCount cfi); enc = hdrTableEnc cfi; entrySize = encodedPtrSize enc;
          pairSize = entrySize * 2
      in if entrySize = 0 then Inl (Error (NoEntrySize enc))
         else rbind (search (entry_above cfi pairSize fileAddr) 0 count) (\<lambda>idx.
           if idx - 1 < 0 then Inl (Error (NoFDE fileAddr))
           else rbind (readAddress (table_reader cfi pairSize (idx - 1)) enc) (\<lambda>(_, r).
           rbind (readAddress r enc) (\<lambda>(fdeAddr, _). Inr fdeAddr))))"

definition fdeForPCBinarySearch ::
  "CallFrameInformation \<Rightarrow> u64 \<Rightarrow> FDE res \<times> CallFrameInformation" where
  "fdeForPCBinarySearch cfi fileAddr =
     (case table_lookup cfi fileAddr of
        Inl e \<Rightarrow> (Inl e, cfi)
      | Inr fdeAddr \<Rightarrow>
          (let (m, cfi') = parseFDEAtOffset cfi (fdeAddr - ehFrameAddr cfi)
           in (rbind m (\<lambda>fde.
                 if \<not> ContainsPC fde fileAddr then Inl (Error (NoFDE fileAddr)) else Inr fde),
               cfi')))"

section \<open>The linear scan\<close>

text \<open>
  One entry of the scan: the end of the scan (with its result), or the reader after the entry.
\<close>

datatype 'a scan = Done 'a | Next

definition scan_entry ::
  "CallFrameInformation \<Rightarrow> u64 \<Rightarrow> cfiReader \<Rightarrow> (FDE res scan \<times> cfiReader \<times> CallFrameInformation)" where
  "scan_entry cfi fileAddr r =
     (let entryOffset = word_of_int (r_pos r) :: u64 in
      case readU32 r of
        Inl e \<Rightarrow> (Done (Inl e), r, cfi)
      | Inr (len, r) \<Rightarrow>
        if len = 0 then (Done (Inl (Error (NoFDE fileAddr))), r, cfi)
        else if len = 0xffffffff then (Done (Inl (Error Dwarf64)), r, cfi)
        else let entryStart = r_pos r in
          (case slice r (uint len) of
             Inl e \<Rightarrow> (Done (Inl e), r, cfi)
           | Inr (body, r) \<Rightarrow>
             (case readU32 body of
                Inl (Error _) \<Rightarrow> (Next, r, cfi)
              | Inl e \<Rightarrow> (Done (Inl e), r, cfi)
              | Inr (cieField, body) \<Rightarrow>
                if cieField = 0 then
                  (case rbind (go_from (ehFrameData cfi) (uint entryOffset)) (\<lambda>d.
                      parseCIE \<lparr>r_data = d, r_pos = 0, r_baseAddr = ehFrameAddr cfi + entryOffset\<rparr>) of
                     Inr cie \<Rightarrow> (Next, r, cfi\<lparr>cieCache := (cieCache cfi)(entryOffset \<mapsto> cie)\<rparr>)
                   | Inl (Error _) \<Rightarrow> (Next, r, cfi)
                   | Inl e \<Rightarrow> (Done (Inl e), r, cfi))
                else
                  (let cieOffset = entryOffset + word_of_int entryStart - ucast cieField
                   in case parseFDE cfi body cieOffset of
                        (Inl (Error _), cfi) \<Rightarrow> (Next, r, cfi)
                      | (Inl e, cfi) \<Rightarrow> (Done (Inl e), r, cfi)
                      | (Inr fde, cfi) \<Rightarrow>
                          if ContainsPC fde fileAddr then (Done (Inr (fde\<lparr>fde_Length := len\<rparr>)), r, cfi)
                          else (Next, r, cfi)))))"

fun scan_loop ::
  "nat \<Rightarrow> u64 \<Rightarrow> cfiReader \<Rightarrow> CallFrameInformation \<Rightarrow> FDE res \<times> CallFrameInformation" where
  "scan_loop 0 fileAddr r cfi = (Inl OutOfFuel, cfi)"
| "scan_loop (Suc n) fileAddr r cfi =
     (if 0 < remaining r then
        (case scan_entry cfi fileAddr r of
           (Done x, _, cfi) \<Rightarrow> (x, cfi)
         | (Next, r, cfi) \<Rightarrow> scan_loop n fileAddr r cfi)
      else (Inl (Error (NoFDE fileAddr)), cfi))"

definition fdeForPCLinear :: "CallFrameInformation \<Rightarrow> u64 \<Rightarrow> FDE res \<times> CallFrameInformation" where
  "fdeForPCLinear cfi fileAddr =
     scan_loop (Suc (length (ehFrameData cfi))) fileAddr
       \<lparr>r_data = ehFrameData cfi, r_pos = 0, r_baseAddr = ehFrameAddr cfi\<rparr> cfi"

definition FDEForPC :: "CallFrameInformation \<Rightarrow> u64 \<Rightarrow> FDE res \<times> CallFrameInformation" where
  "FDEForPC cfi pc =
     (let fileAddr = pc - cfi_loadBias cfi in
      if hdrHasTable cfi then fdeForPCBinarySearch cfi fileAddr else fdeForPCLinear cfi fileAddr)"

section \<open>The scan ends\<close>

lemma fuel_free_aug_chars [simp, fuel_free_intros]: "fuel_free (aug_chars cs e cie body)"
  by (induction cs arbitrary: cie body) (auto intro!: fuel_free_intros)

lemma fuel_free_readAugStr [simp, fuel_free_intros]: "fuel_free (readAugStr r)"
  unfolding readAugStr_def by (auto intro!: fuel_free_intros split: option.split)

lemma fuel_free_parseCIE [simp, fuel_free_intros]: "fuel_free (parseCIE r)"
  unfolding parseCIE_def Let_def rest_bytes_def by (intro fuel_free_intros) simp_all

lemma fuel_free_getCIE [simp]: "fuel_free (fst (getCIE cfi off))"
  by (auto simp: getCIE_def fuel_free_def rbind_eq_Inl split: option.split sum.split)
    (use fuel_free_slices fuel_free_parseCIE in \<open>auto simp: fuel_free_def\<close>)

lemma fuel_free_parseFDE [simp]: "fuel_free (fst (parseFDE cfi r off))"
  unfolding parseFDE_def fde_body_def rest_bytes_def
  by (auto split: prod.split intro!: fuel_free_intros) (metis fst_conv fuel_free_getCIE)

lemma scan_entry_progress:
  assumes "reader_ok r" "scan_entry cfi a r = (Next, r', cfi')"
  shows "advanced 4 r r'"
proof -
  obtain len q body where "readU32 r = Inr (len, q)" "slice q (uint len) = Inr (body, r')"
    using assms(2)
    by (auto simp: scan_entry_def Let_def split: sum.splits prod.splits if_splits failure.splits)
  then have "advanced 4 r q" "advanced (uint len) q r'"
    using u32.read_advances [OF assms(1)] u32.read_keeps_ok [OF assms(1)]
      slice_spec [of q "uint len"] go_int_uint32 [of len] by blast+
  then show ?thesis by (auto dest: advanced_trans intro: advanced_mono)
qed

lemma parseFDE_not_OutOfFuel: "parseFDE cfi r off \<noteq> (Inl OutOfFuel, cfi')"
  using fuel_free_parseFDE [of cfi r off] by (auto simp: fuel_free_def)

lemma scan_entry_fuel_free: "scan_entry cfi a r = (Done x, r', cfi') \<Longrightarrow> fuel_free x"
  using parseFDE_not_OutOfFuel fuel_free_reads(2,4) fuel_free_parseCIE fuel_free_slices(2) [where 'a = u8]
  by (auto simp: scan_entry_def Let_def fuel_free_def rbind_eq_Inl
      split: sum.splits prod.splits if_splits failure.splits)

lemma scan_loop_fuel_free:
  "reader_ok r \<Longrightarrow> remaining r < int n \<Longrightarrow> fuel_free (fst (scan_loop n a r cfi))"
proof (induction n arbitrary: r cfi)
  case (Suc n)
  show ?case
  proof (cases "scan_entry cfi a r")
    case (fields s r' cfi')
    show ?thesis
    proof (cases s)
      case (Done x)
      with scan_entry_fuel_free fields show ?thesis by auto
    next
      case Next
      with fields have adv: "advanced 4 r r'" using scan_entry_progress [OF Suc.prems(1)] by simp
      then have "fuel_free (fst (scan_loop n a r' cfi'))"
        using Suc.prems advanced_remaining [OF Suc.prems(1) adv] advanced_ok [OF Suc.prems(1) adv]
        by (intro Suc.IH) simp_all
      with Next fields show ?thesis by simp
    qed
  qed
qed (simp add: reader_ok_def remaining_def)

section \<open>The cache is transparent\<close>

text \<open>What a CIE offset denotes, without the cache.\<close>

definition parse_cie_at :: "CallFrameInformation \<Rightarrow> u64 \<Rightarrow> CIE res" where
  "parse_cie_at cfi off =
     (if int (length (ehFrameData cfi)) \<le> sint off then Inl (Error (CIEOutOfRange off))
      else rbind (go_from (ehFrameData cfi) (uint off)) (\<lambda>d.
        parseCIE \<lparr>r_data = d, r_pos = 0, r_baseAddr = ehFrameAddr cfi + off\<rparr>))"

definition cache_ok :: "CallFrameInformation \<Rightarrow> bool" where
  "cache_ok cfi \<longleftrightarrow> (\<forall>off cie. cieCache cfi off = Some cie \<longrightarrow> parse_cie_at cfi off = Inr cie)"

text \<open>Two states of the same sections, with caches that hold what the sections say.\<close>

definition same_cfi :: "CallFrameInformation \<Rightarrow> CallFrameInformation \<Rightarrow> bool" where
  "same_cfi c d \<longleftrightarrow> cache_ok c \<and> cache_ok d \<and> d = c\<lparr>cieCache := cieCache d\<rparr>"

lemma parse_cie_at_cache [simp]: "parse_cie_at (c\<lparr>cieCache := x\<rparr>) off = parse_cie_at c off"
  by (simp add: parse_cie_at_def)

lemma same_cfi_refl: "cache_ok c \<Longrightarrow> same_cfi c c"
  by (simp add: same_cfi_def)

lemma same_cfi_trans: "same_cfi c d \<Longrightarrow> same_cfi d e \<Longrightarrow> same_cfi c e"
  by (auto simp: same_cfi_def) (metis CallFrameInformation.surjective CallFrameInformation.update_convs(5))

lemma same_cfi_sym: "same_cfi c d \<Longrightarrow> same_cfi d c"
  by (auto simp: same_cfi_def) (metis CallFrameInformation.surjective CallFrameInformation.update_convs(5))

lemma same_cfi_fields:
  assumes "same_cfi c d"
  shows "ehFrameData d = ehFrameData c" "ehFrameAddr d = ehFrameAddr c"
    "cfi_loadBias d = cfi_loadBias c" "hdrData d = hdrData c" "hdrAddr d = hdrAddr c"
    "hdrTableOff d = hdrTableOff c" "hdrTableCount d = hdrTableCount c"
    "hdrTableEnc d = hdrTableEnc c" "hdrHasTable d = hdrHasTable c"
  using assms unfolding same_cfi_def by (metis CallFrameInformation.select_convs CallFrameInformation.surjective CallFrameInformation.update_convs(5))+

lemma cache_ok_insert:
  "cache_ok c \<Longrightarrow> parse_cie_at c off = Inr cie \<Longrightarrow> same_cfi c (c\<lparr>cieCache := (cieCache c)(off \<mapsto> cie)\<rparr>)"
  by (auto simp: same_cfi_def cache_ok_def)

lemma getCIE_cached:
  assumes "cache_ok c"
  shows "fst (getCIE c off) = parse_cie_at c off \<and> same_cfi c (snd (getCIE c off))"
proof (cases "cieCache c off")
  case None
  then show ?thesis
    using cache_ok_insert [OF assms, of off] same_cfi_refl [OF assms]
    by (auto simp: getCIE_def parse_cie_at_def split: sum.splits)
next
  case (Some cie)
  with assms same_cfi_refl [OF assms] show ?thesis by (auto simp: getCIE_def cache_ok_def)
qed

lemma getCIE_same:
  "same_cfi c d \<Longrightarrow> fst (getCIE c off) = fst (getCIE d off) \<and>
    same_cfi c (snd (getCIE c off)) \<and> same_cfi d (snd (getCIE d off))"
  using getCIE_cached [of c off] getCIE_cached [of d off] same_cfi_fields [of c d]
  by (auto simp: same_cfi_def parse_cie_at_def)

lemma parseFDE_same:
  assumes "same_cfi c d"
  shows "fst (parseFDE c r off) = fst (parseFDE d r off) \<and>
    same_cfi c (snd (parseFDE c r off)) \<and> same_cfi d (snd (parseFDE d r off))"
  using getCIE_same [OF assms, of off] by (auto simp: parseFDE_def split: prod.splits)

lemma fde_header_same: "same_cfi c d \<Longrightarrow> fde_header d off = fde_header c off"
  by (simp add: fde_header_def same_cfi_fields)

lemma parseFDEAtOffset_same:
  assumes "same_cfi c d"
  shows "fst (parseFDEAtOffset c off) = fst (parseFDEAtOffset d off) \<and>
    same_cfi c (snd (parseFDEAtOffset c off)) \<and> same_cfi d (snd (parseFDEAtOffset d off))"
proof -
  have r: "same_cfi c c" "same_cfi d d" using assms by (simp_all add: same_cfi_def)
  show ?thesis
  proof (cases "fde_header c off")
    case (Inr h)
    obtain len body co where "h = (len, body, co)" by (cases h)
    with Inr parseFDE_same [OF assms, of body co] show ?thesis
      by (auto simp: parseFDEAtOffset_def fde_header_same [OF assms] split: prod.splits)
  qed (simp add: parseFDEAtOffset_def fde_header_same [OF assms] r)
qed

lemma table_lookup_same:
  assumes "same_cfi c d"
  shows "table_lookup d a = table_lookup c a"
  unfolding table_lookup_def entry_above_def [abs_def] table_reader_def Let_def
    same_cfi_fields [OF assms] ..

lemma binary_same:
  assumes "same_cfi c d"
  shows "fst (fdeForPCBinarySearch c a) = fst (fdeForPCBinarySearch d a) \<and>
    same_cfi c (snd (fdeForPCBinarySearch c a)) \<and> same_cfi d (snd (fdeForPCBinarySearch d a))"
proof -
  have r: "same_cfi c c" "same_cfi d d" using assms by (simp_all add: same_cfi_def)
  show ?thesis
  proof (cases "table_lookup c a")
    case (Inr f)
    with r parseFDEAtOffset_same [OF assms, of "f - ehFrameAddr c"] same_cfi_fields(2) [OF assms]
    show ?thesis
      by (auto simp: fdeForPCBinarySearch_def table_lookup_same [OF assms] split: prod.splits)
  qed (simp add: fdeForPCBinarySearch_def table_lookup_same [OF assms] r)
qed

lemma scan_entry_same:
  assumes "same_cfi c d" "reader_ok r" "r_data r = ehFrameData c" "0 < remaining r"
  shows "fst (scan_entry c a r) = fst (scan_entry d a r) \<and>
    fst (snd (scan_entry c a r)) = fst (snd (scan_entry d a r)) \<and>
    same_cfi c (snd (snd (scan_entry c a r))) \<and> same_cfi d (snd (snd (scan_entry d a r)))"
    (is "?same (scan_entry c a r) (scan_entry d a r)")
proof -
  let ?off = "word_of_int (r_pos r) :: u64"
  let ?cie = "rbind (go_from (ehFrameData c) (uint ?off)) (\<lambda>x.
        parseCIE \<lparr>r_data = x, r_pos = 0, r_baseAddr = ehFrameAddr c + ?off\<rparr>)"
  note fields = same_cfi_fields [OF assms(1)]
  have r: "same_cfi c c" "same_cfi d d" using assms(1) by (simp_all add: same_cfi_def)
  have "0 \<le> r_pos r" "r_pos r < int (length (ehFrameData c))" "r_pos r < 2 ^ 62"
    using assms(2,3,4) remaining_ok [OF assms(2)] by (auto simp: reader_ok_def)
  then have in_range: "\<not> int (length (ehFrameData c)) \<le> sint ?off"
    by (simp add: signed_of_int wrap64_def [symmetric])
  have ins: "same_cfi c (c\<lparr>cieCache := (cieCache c)(?off \<mapsto> cie)\<rparr>)"
    "same_cfi d (d\<lparr>cieCache := (cieCache d)(?off \<mapsto> cie)\<rparr>)" if "?cie = Inr cie" for cie
    using that in_range cache_ok_insert [of c ?off cie] cache_ok_insert [of d ?off cie] assms(1) fields
    by (auto simp: same_cfi_def parse_cie_at_def)
  show ?thesis
  proof (cases "readU32 r")
    case (Inl e)
    then show ?thesis using r by (simp add: scan_entry_def Let_def)
  next
    case (Inr p)
    then obtain len q where len: "readU32 r = Inr (len, q)" by (cases p) simp
    show ?thesis
    proof (cases "slice q (uint len)")
      case (Inl e)
      then show ?thesis using r len by (simp add: scan_entry_def Let_def)
    next
      case (Inr p)
      then obtain body q' where sl: "slice q (uint len) = Inr (body, q')" by (cases p) simp
      note entry = scan_entry_def Let_def len sl
      show ?thesis
      proof (cases "readU32 body")
        case (Inl e)
        then show ?thesis using r by (cases e) (simp_all add: entry)
      next
        case (Inr p)
        then obtain fld body' where fld: "readU32 body = Inr (fld, body')" by (cases p) simp
        show ?thesis
        proof (cases "fld = 0")
          case True
          with r ins fields fld show ?thesis
            by (cases ?cie) (auto simp: entry split: failure.splits)
        next
          case False
          let ?co = "?off + word_of_int (r_pos q) - ucast fld"
          obtain m c' where pc: "parseFDE c body' ?co = (m, c')" by (cases "parseFDE c body' ?co")
          with parseFDE_same [OF assms(1), of body' ?co]
          obtain d' where pd: "parseFDE d body' ?co = (m, d')" and "same_cfi c c'" "same_cfi d d'"
            by (cases "parseFDE d body' ?co") auto
          with False r fld pc show ?thesis
            by (cases m) (auto simp: entry split: failure.splits)
        qed
      qed
    qed
  qed
qed

lemma scan_loop_same:
  assumes "same_cfi c d" "reader_ok r" "r_data r = ehFrameData c"
  shows "fst (scan_loop n a r c) = fst (scan_loop n a r d) \<and>
    same_cfi c (snd (scan_loop n a r c)) \<and> same_cfi d (snd (scan_loop n a r d))"
  using assms
proof (induction n arbitrary: c d r)
  case 0
  then show ?case by (simp add: same_cfi_def)
next
  case (Suc n)
  show ?case
  proof (cases "0 < remaining r")
    case True
    obtain s r' c' where c: "scan_entry c a r = (s, r', c')" by (metis prod_cases3)
    with scan_entry_same [OF Suc.prems True] obtain d' where d: "scan_entry d a r = (s, r', d')"
      and same: "same_cfi c c'" "same_cfi d d'" by (metis fst_conv snd_conv prod_cases3)
    show ?thesis
    proof (cases s)
      case (Done x)
      with c d same True show ?thesis by simp
    next
      case Next
      with c have adv: "advanced 4 r r'" using scan_entry_progress [OF Suc.prems(2)] by simp
      have cd: "same_cfi c' d'" using same Suc.prems(1) same_cfi_trans same_cfi_sym by blast
      have "reader_ok r'" "r_data r' = ehFrameData c'"
        using advanced_ok [OF Suc.prems(2) adv] adv Suc.prems(3) same_cfi_fields(1) [OF same(1)]
        by (simp_all add: advanced_def)
      from Suc.IH [OF cd this] Next c d same True show ?thesis by (auto intro: same_cfi_trans)
    qed
  next
    case False
    with Suc.prems show ?thesis by (simp add: same_cfi_def)
  qed
qed

lemma linear_same:
  assumes "same_cfi c d" "length (ehFrameData c) < 2 ^ 62"
  shows "fst (fdeForPCLinear c a) = fst (fdeForPCLinear d a) \<and>
    same_cfi c (snd (fdeForPCLinear c a)) \<and> same_cfi d (snd (fdeForPCLinear d a))"
  unfolding fdeForPCLinear_def same_cfi_fields [OF assms(1)]
  by (rule scan_loop_same [OF assms(1)]) (use assms(2) in \<open>simp_all add: reader_ok_def\<close>)

text \<open>
  The cache of CIEs is transparent: a lookup gives the same result as on a
  fresh \<open>CallFrameInformation\<close> of the same sections, keeps the sections, and leaves a cache that
  again holds only what the sections say.
\<close>

theorem FDEForPC_cache_transparent:
  assumes "cache_ok cfi" "length (ehFrameData cfi) < 2 ^ 62" "FDEForPC cfi pc = (m, cfi')"
  shows "fst (FDEForPC (cfi\<lparr>cieCache := Map.empty\<rparr>) pc) = m \<and> cache_ok cfi' \<and>
    cfi' = cfi\<lparr>cieCache := cieCache cfi'\<rparr>"
proof -
  have same: "same_cfi cfi (cfi\<lparr>cieCache := Map.empty\<rparr>)"
    using assms(1) by (simp add: same_cfi_def cache_ok_def)
  have "fst (FDEForPC cfi pc) = fst (FDEForPC (cfi\<lparr>cieCache := Map.empty\<rparr>) pc) \<and>
      same_cfi cfi (snd (FDEForPC cfi pc))"
    using binary_same [OF same] linear_same [OF same assms(2)] by (simp add: FDEForPC_def Let_def)
  with assms(3) show ?thesis by (simp add: same_cfi_def)
qed

lemma scan_entry_covers: "scan_entry cfi a r = (Done (Inr fde), r', cfi') \<Longrightarrow> ContainsPC fde a"
  by (auto simp: scan_entry_def Let_def ContainsPC_def split: sum.splits prod.splits if_splits failure.splits)

lemma scan_loop_covers: "scan_loop n a r cfi = (Inr fde, cfi') \<Longrightarrow> ContainsPC fde a"
  by (induction n arbitrary: r cfi) (auto split: if_splits prod.splits scan.splits dest: scan_entry_covers)

lemma binary_covers: "fdeForPCBinarySearch cfi a = (Inr fde, cfi') \<Longrightarrow> ContainsPC fde a"
  by (auto simp: fdeForPCBinarySearch_def split: if_splits sum.splits prod.splits)

text \<open>
  An FDE that the lookup returns covers the program counter, by either path.
\<close>

theorem FDEForPC_covers:
  assumes "FDEForPC cfi pc = (Inr fde, cfi')"
  shows "ContainsPC fde (pc - cfi_loadBias cfi)"
  using assms binary_covers scan_loop_covers
  by (simp add: FDEForPC_def fdeForPCLinear_def Let_def del: scan_loop.simps split: if_splits)

lemma table_lookup_fuel_free: "fuel_free (table_lookup cfi a)"
  unfolding table_lookup_def Let_def entry_above_def [abs_def] by (intro fuel_free_intros) simp_all

lemma fuel_free_parseFDEAtOffset: "fuel_free (fst (parseFDEAtOffset cfi off))"
proof -
  have "fuel_free (fde_header cfi off)"
    unfolding fde_header_def Let_def by (intro fuel_free_intros) simp_all
  moreover have "fuel_free (rbind m (\<lambda>fde. Inr (f fde)))" if "parseFDE cfi b co = (m, cfi')"
    for b co m cfi' and f :: "FDE \<Rightarrow> FDE"
    using fuel_free_parseFDE [of cfi b co] that by (auto intro: fuel_free_intros)
  ultimately show ?thesis
    by (auto simp: parseFDEAtOffset_def split: sum.splits prod.splits)
qed

text \<open>
  A lookup ends on every section: the scan of \<open>.eh_frame\<close> never exhausts the
  one step per byte that the model grants it, and the binary search halves its range.
\<close>

theorem FDEForPC_terminates:
  assumes "length (ehFrameData cfi) < 2 ^ 62"
  shows "fst (FDEForPC cfi pc) \<noteq> Inl OutOfFuel"
proof -
  have "fuel_free (fst (fdeForPCLinear cfi a))" for a
    unfolding fdeForPCLinear_def using assms
    by (intro scan_loop_fuel_free) (simp_all add: reader_ok_def remaining_def)
  moreover have "fuel_free (fst (fdeForPCBinarySearch cfi a))" for a
  proof (cases "table_lookup cfi a")
    case (Inl e)
    with table_lookup_fuel_free [of cfi a] show ?thesis by (simp add: fdeForPCBinarySearch_def)
  next
    case (Inr f)
    with fuel_free_parseFDEAtOffset [of cfi "f - ehFrameAddr cfi"] show ?thesis
      by (auto simp: fdeForPCBinarySearch_def split: prod.split intro!: fuel_free_intros)
  qed
  ultimately show ?thesis by (simp add: FDEForPC_def Let_def fuel_free_def)
qed

section \<open>The search table finds what a scan of the entries finds\<close>

text \<open>
  What the linker promises of \<open>.eh_frame_hdr\<close>: the table lists the entries \<open>ents\<close>, pairs of the
  address of an FDE and the FDE that parses there, in increasing order and with disjoint
  ranges that do not run past the end of the address space.
\<close>

definition entry_holds :: "CallFrameInformation \<Rightarrow> nat \<Rightarrow> u64 \<times> FDE \<Rightarrow> bool" where
  "entry_holds cfi i e =
     (case readAddress (table_reader cfi (encodedPtrSize (hdrTableEnc cfi) * 2) (int i)) (hdrTableEnc cfi) of
        Inl _ \<Rightarrow> False
      | Inr (loc, r) \<Rightarrow> loc = InitialLocation (snd e) \<and>
        (case readAddress r (hdrTableEnc cfi) of
           Inl _ \<Rightarrow> False
         | Inr (p, _) \<Rightarrow> p = fst e \<and>
             fst (parseFDEAtOffset (cfi\<lparr>cieCache := Map.empty\<rparr>) (p - ehFrameAddr cfi)) = Inr (snd e)))"

definition fde_end :: "FDE \<Rightarrow> int" where
  "fde_end f = uint (InitialLocation f) + uint (AddressRange f)"

definition table_holds :: "CallFrameInformation \<Rightarrow> (u64 \<times> FDE) list \<Rightarrow> bool" where
  "table_holds cfi ents \<longleftrightarrow>
     encodedPtrSize (hdrTableEnc cfi) \<noteq> 0 \<and> sint (hdrTableCount cfi) = int (length ents) \<and>
     list_all (\<lambda>i. entry_holds cfi i (ents ! i)) [0..<length ents] \<and>
     list_all (\<lambda>e. fde_end (snd e) < 2 ^ 64) ents \<and>
     sorted_wrt (\<lambda>e e'. fde_end (snd e) \<le> uint (InitialLocation (snd e'))) ents"

lemma ContainsPC_uint:
  assumes "fde_end f < 2 ^ 64"
  shows "ContainsPC f a \<longleftrightarrow> uint (InitialLocation f) \<le> uint a \<and> uint a < fde_end f"
proof -
  have "uint (InitialLocation f + AddressRange f) = fde_end f"
    using assms by (simp add: fde_end_def uint_word_ariths(1) take_bit_int_eq_self)
  then show ?thesis by (simp add: ContainsPC_def word_le_def word_less_def)
qed

lemma entry_holdsE:
  assumes "entry_holds cfi i e"
  obtains r r' where
    "readAddress (table_reader cfi (encodedPtrSize (hdrTableEnc cfi) * 2) (int i)) (hdrTableEnc cfi) =
       Inr (InitialLocation (snd e), r)"
    "readAddress r (hdrTableEnc cfi) = Inr (fst e, r')"
    "fst (parseFDEAtOffset (cfi\<lparr>cieCache := Map.empty\<rparr>) (fst e - ehFrameAddr cfi)) = Inr (snd e)"
proof -
  obtain x r where 1: "readAddress (table_reader cfi (encodedPtrSize (hdrTableEnc cfi) * 2) (int i))
      (hdrTableEnc cfi) = Inr (x, r)"
    using assms by (auto simp: entry_holds_def split: sum.splits)
  then obtain p r' where "readAddress r (hdrTableEnc cfi) = Inr (p, r')"
    using assms by (auto simp: entry_holds_def split: sum.splits)
  with 1 assms show thesis by (intro that [of r r']) (auto simp: entry_holds_def)
qed

lemma table_holds_entry: "table_holds cfi ents \<Longrightarrow> i < length ents \<Longrightarrow> entry_holds cfi i (ents ! i)"
  by (simp add: table_holds_def list_all_iff)

lemma table_holds_above:
  assumes "table_holds cfi ents" "i < length ents"
  shows "entry_above cfi (encodedPtrSize (hdrTableEnc cfi) * 2) a (int i) =
    Inr (a < InitialLocation (snd (ents ! i)))"
  by (rule entry_holdsE [OF table_holds_entry [OF assms]]) (simp add: entry_above_def)

lemma table_search:
  assumes "table_holds cfi ents"
  shows "\<exists>k\<le>length ents.
    search (entry_above cfi (encodedPtrSize (hdrTableEnc cfi) * 2) a) 0 (sint (hdrTableCount cfi)) = Inr (int k) \<and>
    (\<forall>i<k. InitialLocation (snd (ents ! i)) \<le> a) \<and>
    (\<forall>i<length ents. k \<le> i \<longrightarrow> a < InitialLocation (snd (ents ! i)))"
proof -
  let ?p = "\<lambda>h. a < InitialLocation (snd (ents ! nat h))"
  have n: "sint (hdrTableCount cfi) = int (length ents)" using assms by (simp add: table_holds_def)
  have above: "entry_above cfi (encodedPtrSize (hdrTableEnc cfi) * 2) a h = Inr (?p h)"
    if "0 \<le> h" "h < int (length ents)" for h
    using table_holds_above [OF assms, of "nat h" a] that by simp
  have mono: "?p h'" if "0 \<le> h" "h \<le> h'" "h' < int (length ents)" "?p h" for h h'
  proof (cases "h = h'")
    case False
    have "nat h < nat h'" "nat h' < length ents" using that False by auto
    then have "fde_end (snd (ents ! nat h)) \<le> uint (InitialLocation (snd (ents ! nat h')))"
      using assms by (simp add: table_holds_def sorted_wrt_iff_nth_less)
    with that(4) show ?thesis using uint_ge_0 [of "AddressRange (snd (ents ! nat h))"]
      unfolding word_less_def fde_end_def by linarith
  qed (use that in simp)
  have "\<exists>k. search (entry_above cfi (encodedPtrSize (hdrTableEnc cfi) * 2) a) 0 (int (length ents)) = Inr k \<and>
      0 \<le> k \<and> k \<le> int (length ents) \<and> (\<forall>h. 0 \<le> h \<and> h < k \<longrightarrow> \<not> ?p h) \<and>
      (\<forall>h. k \<le> h \<and> h < int (length ents) \<longrightarrow> ?p h)"
    by (intro search_least) (use above mono in auto)
  then obtain k where k: "search (entry_above cfi (encodedPtrSize (hdrTableEnc cfi) * 2) a) 0 (int (length ents)) = Inr k"
    "0 \<le> k" "k \<le> int (length ents)" "\<forall>h. 0 \<le> h \<and> h < k \<longrightarrow> \<not> ?p h"
    "\<forall>h. k \<le> h \<and> h < int (length ents) \<longrightarrow> ?p h" by blast
  show ?thesis
  proof (intro exI [of _ "nat k"] conjI allI impI)
    fix i assume "i < nat k"
    then have "int i < k" by linarith
    then show "InitialLocation (snd (ents ! i)) \<le> a"
      using k(4) [rule_format, of "int i"] by (simp add: not_less)
  next
    fix i assume "i < length ents" "nat k \<le> i"
    then show "a < InitialLocation (snd (ents ! i))" using k(5) [rule_format, of "int i"] by simp
  qed (use k n in simp_all)
qed

text \<open>
  C1 (equivalence).  On such a table the binary search is a lookup among the table's FDEs: it
  returns the one that covers the program counter, and reports an error when none does.
\<close>

theorem binary_search_complete:
  assumes "cache_ok cfi" "hdrHasTable cfi" "table_holds cfi ents"
  shows "fst (FDEForPC cfi pc) =
    (case find (\<lambda>e. ContainsPC (snd e) (pc - cfi_loadBias cfi)) ents of
       Some e \<Rightarrow> Inr (snd e) | None \<Rightarrow> Inl (Error (NoFDE (pc - cfi_loadBias cfi))))"
proof -
  define a where "a = pc - cfi_loadBias cfi"
  let ?C = "\<lambda>e. ContainsPC (snd e) a"
  have C: "?C e \<longleftrightarrow> uint (InitialLocation (snd e)) \<le> uint a \<and> uint a < fde_end (snd e)"
    if "e \<in> set ents" for e
    using assms(3) that by (intro ContainsPC_uint) (simp add: table_holds_def list_all_iff)
  obtain k where k: "k \<le> length ents"
    "search (entry_above cfi (encodedPtrSize (hdrTableEnc cfi) * 2) a) 0 (sint (hdrTableCount cfi)) = Inr (int k)"
    "\<forall>i<k. InitialLocation (snd (ents ! i)) \<le> a"
    "\<forall>i<length ents. k \<le> i \<longrightarrow> a < InitialLocation (snd (ents ! i))"
    using table_search [OF assms(3)] by blast
  have above: "\<not> ?C (ents ! i)" if "i < length ents" "k \<le> i" for i
    using k(4) that by (auto simp: ContainsPC_def)
  show ?thesis
  proof (cases k)
    case 0
    then have "find ?C ents = None" using above unfolding find_None_iff in_set_conv_nth by blast
    with 0 k(2) assms(2,3) show ?thesis
      by (simp add: FDEForPC_def fdeForPCBinarySearch_def table_lookup_def Let_def a_def table_holds_def)
  next
    case (Suc j)
    have j: "j < length ents" "uint (InitialLocation (snd (ents ! j))) \<le> uint a"
      using Suc k by (auto simp: word_le_def)
    have below: "\<not> ?C (ents ! i)" if "i < j" for i
    proof -
      have "fde_end (snd (ents ! i)) \<le> uint (InitialLocation (snd (ents ! j)))"
        using assms(3) that j(1) by (simp add: table_holds_def sorted_wrt_iff_nth_less)
      with j that show ?thesis by (simp add: C)
    qed
    have find: "find ?C ents = (if ?C (ents ! j) then Some (ents ! j) else None)"
    proof (cases "?C (ents ! j)")
      case True
      with below j(1) show ?thesis by (auto simp: find_Some_iff)
    next
      case False
      have "\<not> ?C (ents ! i)" if "i < length ents" for i
        using that below above False Suc by (metis not_less_eq nat_neq_iff not_le)
      then have "find ?C ents = None" unfolding find_None_iff in_set_conv_nth by blast
      with False show ?thesis by simp
    qed
    have h: "entry_holds cfi j (ents ! j)"
      by (rule table_holds_entry [OF assms(3) j(1)])
    have lk: "table_lookup cfi a = Inr (fst (ents ! j))"
      by (rule entry_holdsE [OF h])
        (use k(2) Suc assms(3) in \<open>simp add: table_lookup_def Let_def table_holds_def\<close>)
    have same: "same_cfi cfi (cfi\<lparr>cieCache := Map.empty\<rparr>)"
      using assms(1) by (simp add: same_cfi_def cache_ok_def)
    have "fst (parseFDEAtOffset cfi (fst (ents ! j) - ehFrameAddr cfi)) = Inr (snd (ents ! j))"
      by (rule entry_holdsE [OF h])
        (use parseFDEAtOffset_same [OF same, of "fst (ents ! j) - ehFrameAddr cfi"] in simp)
    with lk find assms(2) show ?thesis
      by (auto simp: FDEForPC_def fdeForPCBinarySearch_def a_def Let_def split: prod.splits)
  qed
qed

section \<open>A sample section\<close>

text \<open>
  One CIE (augmentation \<open>zR\<close>, CFA \<open>rsp + 8\<close>, return address at \<open>CFA - 8\<close>) and one FDE for the
  addresses \<open>[0x1000, 0x1020)\<close>, with a table of one entry.
\<close>

definition sample_eh_frame :: "u8 list" where
  "sample_eh_frame =
     [0x14, 0, 0, 0,  0, 0, 0, 0,  1, 0x7a, 0x52, 0,  1, 0x78, 0x10, 1, 0x1b,
      0x0c, 7, 8, 0x90, 1, 0, 0,
      0x10, 0, 0, 0,  0x1c, 0, 0, 0,  0xe0, 0xef, 0xff, 0xff,  0x20, 0, 0, 0,  0, 0, 0, 0,
      0, 0, 0, 0]"

definition sample_hdr :: "u8 list" where
  "sample_hdr =
     [1, 0x1b, 3, 0x3b,  0xfc, 0xef, 0xff, 0xff,  1, 0, 0, 0,
      0, 0xe0, 0xff, 0xff,  0x18, 0xf0, 0xff, 0xff]"

definition sample_cfi :: CallFrameInformation where
  "sample_cfi = projr (newCallFrameInformation sample_eh_frame 0x2000 sample_hdr 0x3000 0x1000)"

definition sample_cie :: CIE where
  "sample_cie =
     \<lparr>cie_Length = 20, CodeAlignmentFactor = 1, DataAlignmentFactor = - 8,
      ReturnAddressRegister = 16, HasAugmentation = True, FDEPointerEncoding = 0x1b,
      LSDAPointerEncoding = 0, cie_Instructions = [0x0c, 7, 8, 0x90, 1, 0, 0]\<rparr>"

definition sample_fde :: FDE where
  "sample_fde =
     \<lparr>fde_Length = 16, fde_CIE = sample_cie, InitialLocation = 0x1000, AddressRange = 0x20,
      fde_Instructions = [0, 0, 0]\<rparr>"

lemma sample_cfi_fields:
  "cieCache sample_cfi = Map.empty" "hdrHasTable sample_cfi" "ehFrameData sample_cfi = sample_eh_frame"
  "cfi_loadBias sample_cfi = 0"
proof -
  have "newCallFrameInformation sample_eh_frame 0x2000 sample_hdr 0x3000 0x1000 =
      Inr \<lparr>ehFrameData = sample_eh_frame, ehFrameAddr = 0x2000, textStart = 0x1000, cfi_loadBias = 0,
         cieCache = Map.empty, hdrData = sample_hdr, hdrAddr = 0x3000, hdrTableOff = 12,
         hdrTableCount = 1, hdrTableEnc = 0x3b, hdrHasTable = True\<rparr>"
    unfolding newCallFrameInformation_def parseEhFrameHdr_def sample_hdr_def
    by (simp add: readU8_def readAddress_def read_format_def readU32_def read_le_def go_index_def
        go_from_def dwPtr_defs Let_def)
  then show "cieCache sample_cfi = Map.empty" "hdrHasTable sample_cfi"
    "ehFrameData sample_cfi = sample_eh_frame" "cfi_loadBias sample_cfi = 0"
    by (simp_all add: sample_cfi_def)
qed

lemma sample_cache_ok: "cache_ok sample_cfi"
  by (simp add: cache_ok_def sample_cfi_fields)

lemma sample_table: "table_holds sample_cfi [(0x2018, sample_fde)]"
  by code_simp

lemma sample_lookup: "fst (FDEForPC sample_cfi 0x1010) = Inr sample_fde"
  by code_simp

theorem binary_search_complete_witness:
  "fst (FDEForPC sample_cfi 0x1010) = Inr sample_fde \<and>
   fst (FDEForPC sample_cfi 0x1020) = Inl (Error (NoFDE 0x1020))"
  using binary_search_complete [OF sample_cache_ok sample_cfi_fields(2) sample_table, of "0x1010"]
    binary_search_complete [OF sample_cache_ok sample_cfi_fields(2) sample_table, of "0x1020"]
  by (simp add: sample_cfi_fields(4) sample_fde_def ContainsPC_def)

theorem FDEForPC_covers_witness: "ContainsPC sample_fde 0x1010"
  using FDEForPC_covers [of sample_cfi "0x1010" sample_fde "snd (FDEForPC sample_cfi 0x1010)"]
    sample_lookup
  by (simp add: prod_eq_iff sample_cfi_fields(4))

theorem FDEForPC_terminates_witness: "fst (FDEForPC sample_cfi 0x1010) \<noteq> Inl OutOfFuel"
  by (rule FDEForPC_terminates) (simp add: sample_cfi_fields sample_eh_frame_def)

theorem FDEForPC_cache_transparent_witness:
  "fst (FDEForPC (snd (FDEForPC sample_cfi 0x1010)) 0x1010) = Inr sample_fde"
proof -
  let ?c = "snd (FDEForPC sample_cfi 0x1010)"
  have len: "length (ehFrameData sample_cfi) < 2 ^ 62"
    by (simp add: sample_cfi_fields sample_eh_frame_def)
  have "FDEForPC sample_cfi 0x1010 = (Inr sample_fde, ?c)"
    using sample_lookup by (simp add: prod_eq_iff)
  note t = FDEForPC_cache_transparent [OF sample_cache_ok len this]
  then have "ehFrameData ?c = ehFrameData sample_cfi" "?c\<lparr>cieCache := Map.empty\<rparr> = sample_cfi"
    using sample_cfi_fields(1)
    by (metis CallFrameInformation.surjective CallFrameInformation.update_convs(5)
        CallFrameInformation.select_convs(1), metis CallFrameInformation.surjective CallFrameInformation.update_convs(5))
  with t len FDEForPC_cache_transparent [of ?c "0x1010" "fst (FDEForPC ?c 0x1010)" "snd (FDEForPC ?c 0x1010)"]
    sample_lookup
  show ?thesis by simp
qed

text \<open>
  The linear scan takes the position of the CIE pointer field to be the sum of the entry's
  offset and the reader's position, which already contains that offset.  It then looks for the
  CIE in the wrong place and misses the FDE that the table finds.
\<close>

lemma linear_scan_misses:
  "fst (FDEForPC (sample_cfi\<lparr>hdrHasTable := False\<rparr>) 0x1010) = Inl (Error (NoFDE 0x1010))"
  by code_simp

end
