(* ===== verification/Elf.thy ===== *)
theory Elf
  imports Debug_Info Cfi
begin

text \<open>
  The loaded objects: \<open>ELF\<close> of \<open>src/debugger/elf.go\<close> with its symbol tables, address range and load
  bias, and \<open>ELFCollection\<close> of \<open>elf_collection.go\<close>.  What the standard library's \<open>debug/elf\<close> reads
  from a file is the record \<open>elfFile\<close>.
\<close>

section \<open>Files\<close>

datatype ProgType = PT_LOAD | PT_INTERP | PT_OTHER

record Prog =
  pr_Type :: ProgType
  pr_Vaddr :: u64
  pr_Memsz :: u64

record Symbol =
  sy_Name :: string
  sy_Info :: u8
  sy_Value :: u64
  sy_Size :: u64

record Section =
  se_Addr :: u64
  se_Size :: u64
  se_Data :: "u8 list option"

record elfFile =
  ef_Entry :: u64
  ef_Progs :: "Prog list"
  ef_Symbols :: "Symbol list option"
  ef_DynamicSymbols :: "Symbol list option"
  ef_Section :: "string \<rightharpoonup> Section"
  ef_DWARF :: "Entry list option"

record addrSymbol =
  as_addr :: u64
  as_sym :: Symbol

record ELF =
  el_path :: string
  el_file :: elfFile
  el_loadBias :: u64
  addrLow :: u64
  addrHigh :: u64
  symbolsByName :: "string \<rightharpoonup> Symbol list"
  symbolsByAddr :: "addrSymbol list"
  el_dwarf :: "DWARF option"
  el_cfi :: "CallFrameInformation option"

section \<open>Opening a file\<close>

text \<open>The loop over the program headers: whether the first segment is still to come, and the range.\<close>

definition add_segment :: "Prog \<Rightarrow> bool \<times> u64 \<times> u64 \<Rightarrow> bool \<times> u64 \<times> u64" where
  "add_segment p = (\<lambda>(first, low, high).
     if pr_Type p \<noteq> PT_LOAD then (first, low, high)
     else
       let low' = (if first then pr_Vaddr p else low);
           top = pr_Vaddr p + pr_Memsz p
       in (False, low', if high < top then top else high))"

definition computeAddressRange :: "ELF \<Rightarrow> ELF" where
  "computeAddressRange e =
     (case fold add_segment (ef_Progs (el_file e)) (True, addrLow e, addrHigh e) of
        (_, low, high) \<Rightarrow> e\<lparr>addrLow := low, addrHigh := high\<rparr>)"

definition add_symbol :: "Symbol \<Rightarrow> ELF \<Rightarrow> ELF" where
  "add_symbol sy e =
     (let named = (case symbolsByName e (sy_Name sy) of Some ss \<Rightarrow> ss | None \<Rightarrow> []);
          e1 = e\<lparr>symbolsByName := (symbolsByName e)(sy_Name sy \<mapsto> named @ [sy])\<rparr>
      in if 0 < sy_Size sy
         then e1\<lparr>symbolsByAddr := symbolsByAddr e1 @ [\<lparr>as_addr = sy_Value sy, as_sym = sy\<rparr>]\<rparr>
         else e1)"

definition add_symbols :: "Symbol list option \<Rightarrow> ELF \<Rightarrow> ELF" where
  "add_symbols syms e = (case syms of None \<Rightarrow> e | Some ss \<Rightarrow> fold add_symbol ss e)"

definition loadCFI :: "ELF \<Rightarrow> ELF res" where
  "loadCFI e =
     (let f = el_file e in
      case ef_Section f ''.eh_frame'' of
        None \<Rightarrow> Inr e
      | Some ehFrameSec \<Rightarrow>
        (case se_Data ehFrameSec of
           None \<Rightarrow> Inr e
         | Some ehData \<Rightarrow>
           let (hdrBytes, hdrStart) =
                 (case ef_Section f ''.eh_frame_hdr'' of
                    None \<Rightarrow> ([], 0)
                  | Some hdrSec \<Rightarrow>
                    (case se_Data hdrSec of None \<Rightarrow> ([], 0) | Some data \<Rightarrow> (data, se_Addr hdrSec)));
               textAddr = (case ef_Section f ''.text'' of None \<Rightarrow> 0 | Some s \<Rightarrow> se_Addr s)
           in rbind (newCallFrameInformation ehData (se_Addr ehFrameSec) hdrBytes hdrStart textAddr)
                (\<lambda>cfi. Inr (e\<lparr>el_cfi := Some cfi\<rparr>))))"

record sorters =
  by_addr :: "addrSymbol list \<Rightarrow> addrSymbol list"
  by_pc :: "funcAddrEntry list \<Rightarrow> funcAddrEntry list"
  by_line :: "LineEntry list \<Rightarrow> LineEntry list"

definition OpenELF :: "sorters \<Rightarrow> (string \<Rightarrow> elfFile option) \<Rightarrow> string \<Rightarrow> ELF res" where
  "OpenELF S elfOpen path =
     (case elfOpen path of
        None \<Rightarrow> Inl (Error (NotFound path))
      | Some f \<Rightarrow>
        let e0 = computeAddressRange
                   \<lparr>el_path = path, el_file = f, el_loadBias = 0, addrLow = 0, addrHigh = 0,
                    symbolsByName = Map.empty, symbolsByAddr = [], el_dwarf = None, el_cfi = None\<rparr>;
            e1 = add_symbols (ef_DynamicSymbols f) (add_symbols (ef_Symbols f) e0);
            e2 = e1\<lparr>symbolsByAddr := by_addr S (symbolsByAddr e1)\<rparr>;
            e3 = (case ef_DWARF f of
                    None \<Rightarrow> e2
                  | Some entries \<Rightarrow>
                      e2\<lparr>el_dwarf := Some (newDWARF (by_pc S) (by_line S) entries
                           (case ef_Section f ''.debug_loc'' of None \<Rightarrow> None | Some s \<Rightarrow> se_Data s))\<rparr>)
        in loadCFI e3)"

section \<open>Queries\<close>

definition EntryPoint :: "ELF \<Rightarrow> u64" where
  "EntryPoint e = ef_Entry (el_file e)"

definition SetLoadBias :: "ELF \<Rightarrow> u64 \<Rightarrow> ELF" where
  "SetLoadBias e bias =
     e\<lparr>el_loadBias := bias,
       el_dwarf := map_option (\<lambda>d. d\<lparr>d_loadBias := bias\<rparr>) (el_dwarf e),
       el_cfi := map_option (\<lambda>c. c\<lparr>cfi_loadBias := bias\<rparr>) (el_cfi e)\<rparr>"

definition NotifyLoaded :: "ELF \<Rightarrow> u64 \<Rightarrow> ELF" where
  "NotifyLoaded e loadAddr = SetLoadBias e loadAddr"

definition SymbolsByName :: "ELF \<Rightarrow> string \<Rightarrow> Symbol list" where
  "SymbolsByName e name = (case symbolsByName e name of Some ss \<Rightarrow> ss | None \<Rightarrow> [])"

text \<open>\<open>order\<close> lists the keys in the order in which Go ranges over the map.\<close>

definition SymbolAtAddress :: "((string \<rightharpoonup> Symbol list) \<Rightarrow> string list) \<Rightarrow> ELF \<Rightarrow> u64 \<Rightarrow> Symbol option" where
  "SymbolAtAddress order e addr =
     find (\<lambda>sy. sy_Value sy = addr - el_loadBias e)
       (concat (map (SymbolsByName e) (order (symbolsByName e))))"

definition SymbolContainingAddress :: "ELF \<Rightarrow> u64 \<Rightarrow> Symbol option" where
  "SymbolContainingAddress e addr =
     (let fileAddr = addr - el_loadBias e; n = int (length (symbolsByAddr e)) in
      if n = 0 then None
      else let idx = sort_Search n (\<lambda>i. fileAddr < as_addr (symbolsByAddr e ! nat i)) - 1 in
        if idx < 0 then None
        else let sy = as_sym (symbolsByAddr e ! nat idx) in
          if sy_Value sy \<le> fileAddr \<and> fileAddr < sy_Value sy + sy_Size sy then Some sy else None)"

definition STT_FUNC :: u8 where "STT_FUNC = 2"

definition FunctionContainingAddress :: "ELF \<Rightarrow> u64 \<Rightarrow> string option" where
  "FunctionContainingAddress e addr =
     (case SymbolContainingAddress e addr of
        None \<Rightarrow> None
      | Some sy \<Rightarrow> if sy_Info sy AND 0xf \<noteq> STT_FUNC then None else Some (sy_Name sy))"

text \<open>\<open>filepath.Base\<close>: the last element of a path.\<close>

definition path_Base :: "string \<Rightarrow> string" where
  "path_Base path =
     (if path = '''' then ''.''
      else let p = rev (dropWhile (\<lambda>c. c = CHR ''/'') (rev path)) in
        if p = '''' then ''/'' else rev (takeWhile (\<lambda>c. c \<noteq> CHR ''/'') (rev p)))"

definition Filename :: "ELF \<Rightarrow> string" where
  "Filename e = path_Base (el_path e)"

definition ContainsAddress :: "ELF \<Rightarrow> u64 \<Rightarrow> bool" where
  "ContainsAddress e addr =
     (if addrHigh e = 0 then False
      else let fileAddr = addr - el_loadBias e in addrLow e \<le> fileAddr \<and> fileAddr < addrHigh e)"

section \<open>Collections\<close>

record ELFCollection =
  elves :: "ELF list"

definition Push :: "ELFCollection \<Rightarrow> ELF \<Rightarrow> ELFCollection" where
  "Push c e = c\<lparr>elves := elves c @ [e]\<rparr>"

definition ELFContainingAddress :: "ELFCollection \<Rightarrow> u64 \<Rightarrow> ELF option" where
  "ELFContainingAddress c addr = find (\<lambda>e. ContainsAddress e addr) (elves c)"

definition ELFByPath :: "ELFCollection \<Rightarrow> string \<Rightarrow> ELF option" where
  "ELFByPath c path = find (\<lambda>e. el_path e = path) (elves c)"

definition ELFByFilename :: "ELFCollection \<Rightarrow> string \<Rightarrow> ELF option" where
  "ELFByFilename c name = find (\<lambda>e. path_Base (el_path e) = name) (elves c)"

definition CloseAll :: "ELFCollection \<Rightarrow> ELFCollection" where
  "CloseAll c = c\<lparr>elves := []\<rparr>"

section \<open>Symbols\<close>

definition file_symbols :: "elfFile \<Rightarrow> Symbol list" where
  "file_symbols f =
     (case ef_Symbols f of Some ss \<Rightarrow> ss | None \<Rightarrow> []) @ (case ef_DynamicSymbols f of Some ss \<Rightarrow> ss | None \<Rightarrow> [])"

definition sized :: "Symbol list \<Rightarrow> addrSymbol list" where
  "sized ss = map (\<lambda>s. \<lparr>as_addr = sy_Value s, as_sym = s\<rparr>) (filter (\<lambda>s. 0 < sy_Size s) ss)"

lemma fold_add_symbol: "symbolsByAddr (fold add_symbol ss e) = symbolsByAddr e @ sized ss"
  by (induction ss arbitrary: e) (simp_all add: add_symbol_def sized_def Let_def)

lemma fold_add_symbol_kept:
  "el_file (fold add_symbol ss e) = el_file e \<and> el_loadBias (fold add_symbol ss e) = el_loadBias e \<and>
   addrLow (fold add_symbol ss e) = addrLow e \<and> addrHigh (fold add_symbol ss e) = addrHigh e \<and>
   el_path (fold add_symbol ss e) = el_path e"
  by (induction ss arbitrary: e) (simp_all add: add_symbol_def Let_def)

lemma add_symbols_fold: "add_symbols m e = fold add_symbol (case m of Some ss \<Rightarrow> ss | None \<Rightarrow> []) e"
  by (simp add: add_symbols_def split: option.split)

lemma loadCFI_kept:
  "loadCFI e = Inr e' \<Longrightarrow>
    symbolsByAddr e' = symbolsByAddr e \<and> el_file e' = el_file e \<and> el_path e' = el_path e \<and>
    el_loadBias e' = el_loadBias e \<and> addrLow e' = addrLow e \<and> addrHigh e' = addrHigh e"
  by (auto simp: loadCFI_def Let_def split: option.splits prod.splits)

lemma OpenELF_fields:
  assumes "OpenELF S elfOpen path = Inr e" "elfOpen path = Some f"
  shows "el_path e = path" "el_file e = f" "el_loadBias e = 0"
    and "symbolsByAddr e = by_addr S (sized (file_symbols f))"
    and "(addrLow e, addrHigh e) = snd (fold add_segment (ef_Progs f) (True, 0, 0))"
proof -
  obtain e3 where e3: "loadCFI e3 = Inr e" "el_path e3 = path" "el_file e3 = f" "el_loadBias e3 = 0"
    "symbolsByAddr e3 = by_addr S (sized (file_symbols f))"
    "(addrLow e3, addrHigh e3) = snd (fold add_segment (ef_Progs f) (True, 0, 0))"
    using assms
    by (auto simp: OpenELF_def Let_def add_symbols_fold fold_add_symbol fold_add_symbol_kept computeAddressRange_def
        file_symbols_def sized_def split: option.splits prod.splits)
  from loadCFI_kept [OF e3(1)] e3(2-) show "el_path e = path" "el_file e = f" "el_loadBias e = 0"
    "symbolsByAddr e = by_addr S (sized (file_symbols f))"
    "(addrLow e, addrHigh e) = snd (fold add_segment (ef_Progs f) (True, 0, 0))"
    by simp_all
qed

text \<open>Sized symbols whose ranges do not overlap or wrap around.\<close>

definition symbols_apart :: "Symbol list \<Rightarrow> bool" where
  "symbols_apart ss \<longleftrightarrow>
     (\<forall>s \<in> set ss. 0 < sy_Size s \<longrightarrow> sy_Value s < sy_Value s + sy_Size s) \<and>
     (\<forall>s \<in> set ss. \<forall>t \<in> set ss. 0 < sy_Size s \<longrightarrow> 0 < sy_Size t \<longrightarrow>
        s = t \<or> sy_Value s + sy_Size s \<le> sy_Value t \<or> sy_Value t + sy_Size t \<le> sy_Value s)"

text \<open>
  C35 (functional). The symbol of an address is the symbol whose range holds it: for an opened file
  whose sized symbols do not overlap, at any load bias, \<open>SymbolContainingAddress\<close> returns a symbol
  exactly when it is a sized symbol of \<open>.symtab\<close> or \<open>.dynsym\<close> with
  \<open>Value <= addr - bias < Value + Size\<close>.
\<close>

theorem symbol_lookup:
  assumes "OpenELF S elfOpen path = Inr e" "elfOpen path = Some f" "sorts as_addr (by_addr S)"
    and "symbols_apart (file_symbols f)"
  shows "SymbolContainingAddress (SetLoadBias e b) addr = Some sy \<longleftrightarrow>
    sy \<in> set (file_symbols f) \<and> 0 < sy_Size sy \<and>
    sy_Value sy \<le> addr - b \<and> addr - b < sy_Value sy + sy_Size sy"
proof -
  let ?xs = "by_addr S (sized (file_symbols f))" and ?a = "addr - b"
  let ?t = "takeWhile (\<lambda>x. as_addr x \<le> ?a) ?xs"
  have mem: "x \<in> set ?xs \<longleftrightarrow> as_addr x = sy_Value (as_sym x) \<and> as_sym x \<in> set (file_symbols f) \<and> 0 < sy_Size (as_sym x)" for x
    unfolding sorts_set [OF assms(3)] sized_def by (cases x) auto
  have srt: "sorted (map as_addr ?xs)" by (rule sorts_sorted [OF assms(3)])
  have hit: "?t \<noteq> [] \<and> last ?t = x"
    if "x \<in> set ?xs" "as_addr x \<le> ?a" "?a < as_addr x + sy_Size (as_sym x)" for x
  proof (rule last_below_holds [OF srt, where hi = "\<lambda>x. as_addr x + sy_Size (as_sym x)"])
    show "\<forall>x\<in>set ?xs. as_addr x < as_addr x + sy_Size (as_sym x)"
      using assms(4) mem unfolding symbols_apart_def by metis
    show "\<forall>x\<in>set ?xs. \<forall>y\<in>set ?xs. x = y \<or> as_addr x + sy_Size (as_sym x) \<le> as_addr y \<or>
        as_addr y + sy_Size (as_sym y) \<le> as_addr x"
      using assms(4) mem unfolding symbols_apart_def by (metis addrSymbol.equality unit.exhaust)
  qed (use that in auto)
  have last: "last ?t \<in> set ?xs" if "?t \<noteq> []" using that by (meson last_in_set set_takeWhileD)
  have n: "nat (int (length ?t) - 1) = length ?t - 1" by simp
  have "SymbolContainingAddress (SetLoadBias e b) addr =
    (if ?t = [] then None
     else let s = as_sym (last ?t) in
       if sy_Value s \<le> ?a \<and> ?a < sy_Value s + sy_Size s then Some s else None)"
    using nth_before_takeWhile [of "\<lambda>x. as_addr x \<le> ?a" ?xs] sort_Search_above [OF srt, of ?a] n
    by (auto simp: SymbolContainingAddress_def SetLoadBias_def OpenELF_fields [OF assms(1,2)] Let_def nat_diff_distrib)
  moreover have "\<exists>x. x \<in> set ?xs \<and> as_sym x = sy" if "sy \<in> set (file_symbols f)" "0 < sy_Size sy"
    using mem [of "\<lparr>as_addr = sy_Value sy, as_sym = sy\<rparr>"] that by auto
  ultimately show ?thesis using hit last mem by (auto simp: Let_def)
qed

definition sample_elf_file :: elfFile where
  "sample_elf_file =
     \<lparr>ef_Entry = 0x10,
      ef_Progs = [\<lparr>pr_Type = PT_LOAD, pr_Vaddr = 0, pr_Memsz = 0x40\<rparr>, \<lparr>pr_Type = PT_INTERP, pr_Vaddr = 8, pr_Memsz = 4\<rparr>,
                  \<lparr>pr_Type = PT_LOAD, pr_Vaddr = 0x1000, pr_Memsz = 0x20\<rparr>],
      ef_Symbols = Some [\<lparr>sy_Name = ''main'', sy_Info = 0x12, sy_Value = 0x10, sy_Size = 0x20\<rparr>,
                         \<lparr>sy_Name = ''_start'', sy_Info = 0x12, sy_Value = 0, sy_Size = 0x10\<rparr>],
      ef_DynamicSymbols = None, ef_Section = Map.empty, ef_DWARF = Some sample_info\<rparr>"

definition std_sorters :: sorters where
  "std_sorters = \<lparr>by_addr = sort_key as_addr, by_pc = sort_key fa_startPC, by_line = sort_key le_Address\<rparr>"

definition sample_open :: "string \<rightharpoonup> elfFile" where
  "sample_open path = (if path = ''/bin/demo'' then Some sample_elf_file else None)"

lemma sample_opens: "\<exists>e. OpenELF std_sorters sample_open ''/bin/demo'' = Inr e"
proof -
  have "\<not> isl (OpenELF std_sorters sample_open ''/bin/demo'')" by code_simp
  then show ?thesis by (cases "OpenELF std_sorters sample_open ''/bin/demo''") auto
qed

lemma symbol_lookup_witness:
  "\<exists>e. OpenELF std_sorters sample_open ''/bin/demo'' = Inr e \<and>
     SymbolContainingAddress (SetLoadBias e 0x1000) 0x1015 =
       Some \<lparr>sy_Name = ''main'', sy_Info = 0x12, sy_Value = 0x10, sy_Size = 0x20\<rparr>"
proof -
  obtain e where e: "OpenELF std_sorters sample_open ''/bin/demo'' = Inr e" using sample_opens by blast
  have "sample_open ''/bin/demo'' = Some sample_elf_file" by (simp add: sample_open_def)
  moreover have "symbols_apart (file_symbols sample_elf_file)" by code_simp
  ultimately have "SymbolContainingAddress (SetLoadBias e 0x1000) 0x1015 =
       Some \<lparr>sy_Name = ''main'', sy_Info = 0x12, sy_Value = 0x10, sy_Size = 0x20\<rparr>"
    using symbol_lookup [OF e, of sample_elf_file "0x1000" "0x1015"]
    by (simp add: std_sorters_def file_symbols_def sample_elf_file_def)
  with e show ?thesis by blast
qed

section \<open>Address ranges\<close>

text \<open>When the first segment is the lowest and none wraps around, every loaded address is in the range.\<close>

lemma add_segment_seen:
  "(fst (fold add_segment ps (False, low, high)) = False) \<and>
   fst (snd (fold add_segment ps (False, low, high))) = low \<and>
   high \<le> snd (snd (fold add_segment ps (False, low, high))) \<and>
   (\<forall>p \<in> set ps. pr_Type p = PT_LOAD \<longrightarrow> pr_Vaddr p + pr_Memsz p \<le> snd (snd (fold add_segment ps (False, low, high))))"
proof (induction ps arbitrary: high)
  case (Cons p ps)
  show ?case
  proof (cases "pr_Type p = PT_LOAD \<and> high < pr_Vaddr p + pr_Memsz p")
    case True
    then show ?thesis using Cons [of "pr_Vaddr p + pr_Memsz p"]
      by (auto simp: add_segment_def Let_def)
  next
    case False
    then have "add_segment p (False, low, high) = (False, low, high)" by (auto simp: add_segment_def Let_def)
    then show ?thesis using Cons [of high] False by (auto simp: not_less intro: order_trans)
  qed
qed simp

lemma ContainsAddress_segment:
  assumes "OpenELF S elfOpen path = Inr e" "elfOpen path = Some f"
    and "filter (\<lambda>p. pr_Type p = PT_LOAD) (ef_Progs f) = p0 # ps" "p \<in> set (p0 # ps)"
    and "pr_Vaddr p0 \<le> pr_Vaddr p" "pr_Vaddr p \<le> addr - b" "addr - b < pr_Vaddr p + pr_Memsz p"
  shows "ContainsAddress (SetLoadBias e b) addr"
proof -
  have skip: "fold add_segment qs acc = fold add_segment (filter (\<lambda>p. pr_Type p = PT_LOAD) qs) acc" for qs acc
    by (induction qs arbitrary: acc) (auto simp: add_segment_def)
  have p0: "pr_Type p0 = PT_LOAD" and pl: "\<forall>q \<in> set ps. pr_Type q = PT_LOAD"
    using arg_cong [OF assms(3), of set] by auto
  let ?top0 = "pr_Vaddr p0 + pr_Memsz p0"
  have "add_segment p0 (True, 0, 0) = (False, pr_Vaddr p0, ?top0)"
    using p0 by (auto simp: add_segment_def Let_def word_gt_0)
  then have range: "(addrLow e, addrHigh e) = snd (fold add_segment ps (False, pr_Vaddr p0, ?top0))"
    unfolding OpenELF_fields(5) [OF assms(1,2)] skip [of "ef_Progs f"] assms(3) by simp
  have "addrLow e = pr_Vaddr p0" "pr_Vaddr p + pr_Memsz p \<le> addrHigh e"
    using add_segment_seen [of ps "pr_Vaddr p0" ?top0] range assms(4) pl by (auto simp: prod_eq_iff)
  moreover have "addrHigh e \<noteq> 0" using calculation(2) assms(7) by (auto simp: word_le_nat_alt word_less_nat_alt)
  moreover have "pr_Vaddr p0 \<le> addr - b" "addr - b < addrHigh e"
    using order_trans [OF assms(5,6)] less_le_trans [OF assms(7)] calculation(2) by simp_all
  ultimately show ?thesis by (simp add: ContainsAddress_def SetLoadBias_def Let_def)
qed

text \<open>In a collection of objects with disjoint ranges the address lookup does not depend on the order.\<close>

lemma ELFContainingAddress_unique:
  assumes "e \<in> set (elves c)" "ContainsAddress e addr"
    and "\<And>e'. e' \<in> set (elves c) \<Longrightarrow> ContainsAddress e' addr \<Longrightarrow> e' = e"
  shows "ELFContainingAddress c addr = Some e"
proof -
  obtain e' where "ELFContainingAddress c addr = Some e'"
    using assms(1,2) by (metis ELFContainingAddress_def find_None_iff option.exhaust)
  then show ?thesis using assms(3) find_Some_iff_mem unfolding ELFContainingAddress_def by metis
qed

end
