(* ===== verification/Dwarf_Expr.thy ===== *)
theory Dwarf_Expr
  imports Reader Registers
begin

text \<open>
  The DWARF expression evaluator of \<open>src/debugger/dwarf_expr.go\<close>: a stack machine over 64-bit
  words that computes where a variable lives.  The stack is kept with its top first.  Memory
  reads (\<open>proc.ReadMemory\<close>) and the frame base of \<open>DW_OP_fbreg\<close> are arguments.  A program may
  branch backwards, so the loop runs on fuel; \<open>OutOfFuel\<close> stands for a loop that runs on.
\<close>

unbundle bit_operations_syntax

section \<open>Results\<close>

datatype SimpleLocation =
    LocEmpty
  | LocAddress u64
  | LocRegister u64
  | LocLiteral u64
  | LocData "u8 list"

record Piece =
  p_Location :: SimpleLocation
  p_BitSize :: u64
  p_Offset :: u64

datatype ExprResult = Single SimpleLocation | Composite "Piece list"

section \<open>Opcodes\<close>

definition opAddr :: u8 where "opAddr = 0x03"
definition opDeref :: u8 where "opDeref = 0x06"
definition opConst1u :: u8 where "opConst1u = 0x08"
definition opConst1s :: u8 where "opConst1s = 0x09"
definition opConst2u :: u8 where "opConst2u = 0x0a"
definition opConst2s :: u8 where "opConst2s = 0x0b"
definition opConst4u :: u8 where "opConst4u = 0x0c"
definition opConst4s :: u8 where "opConst4s = 0x0d"
definition opConst8u :: u8 where "opConst8u = 0x0e"
definition opConst8s :: u8 where "opConst8s = 0x0f"
definition opConstu :: u8 where "opConstu = 0x10"
definition opConsts :: u8 where "opConsts = 0x11"
definition opDup :: u8 where "opDup = 0x12"
definition opDrop :: u8 where "opDrop = 0x13"
definition opOver :: u8 where "opOver = 0x14"
definition opPick :: u8 where "opPick = 0x15"
definition opSwap :: u8 where "opSwap = 0x16"
definition opRot :: u8 where "opRot = 0x17"
definition opXderef :: u8 where "opXderef = 0x18"
definition opAbs :: u8 where "opAbs = 0x19"
definition opAnd :: u8 where "opAnd = 0x1a"
definition opDiv :: u8 where "opDiv = 0x1b"
definition opMinus :: u8 where "opMinus = 0x1c"
definition opMod :: u8 where "opMod = 0x1d"
definition opMul :: u8 where "opMul = 0x1e"
definition opNeg :: u8 where "opNeg = 0x1f"
definition opNot :: u8 where "opNot = 0x20"
definition opOr :: u8 where "opOr = 0x21"
definition opPlus :: u8 where "opPlus = 0x22"
definition opPlusUconst :: u8 where "opPlusUconst = 0x23"
definition opShl :: u8 where "opShl = 0x24"
definition opShr :: u8 where "opShr = 0x25"
definition opShra :: u8 where "opShra = 0x26"
definition opXor :: u8 where "opXor = 0x27"
definition opBra :: u8 where "opBra = 0x28"
definition opEq :: u8 where "opEq = 0x29"
definition opGe :: u8 where "opGe = 0x2a"
definition opGt :: u8 where "opGt = 0x2b"
definition opLe :: u8 where "opLe = 0x2c"
definition opLt :: u8 where "opLt = 0x2d"
definition opNe :: u8 where "opNe = 0x2e"
definition opSkip :: u8 where "opSkip = 0x2f"
definition opLit0 :: u8 where "opLit0 = 0x30"
definition opLit31 :: u8 where "opLit31 = 0x4f"
definition opReg0 :: u8 where "opReg0 = 0x50"
definition opReg31 :: u8 where "opReg31 = 0x6f"
definition opBreg0 :: u8 where "opBreg0 = 0x70"
definition opBreg31 :: u8 where "opBreg31 = 0x8f"
definition opRegx :: u8 where "opRegx = 0x90"
definition opFbreg :: u8 where "opFbreg = 0x91"
definition opBregx :: u8 where "opBregx = 0x92"
definition opPiece :: u8 where "opPiece = 0x93"
definition opDerefSize :: u8 where "opDerefSize = 0x94"
definition opXderefSize :: u8 where "opXderefSize = 0x95"
definition opNop :: u8 where "opNop = 0x96"
definition opPushObjAddr :: u8 where "opPushObjAddr = 0x97"
definition opCall2 :: u8 where "opCall2 = 0x98"
definition opCall4 :: u8 where "opCall4 = 0x99"
definition opCallRef :: u8 where "opCallRef = 0x9a"
definition opFormTLSAddr :: u8 where "opFormTLSAddr = 0x9b"
definition opCallFrameCFA :: u8 where "opCallFrameCFA = 0x9c"
definition opBitPiece :: u8 where "opBitPiece = 0x9d"
definition opImplicitVal :: u8 where "opImplicitVal = 0x9e"
definition opStackValue :: u8 where "opStackValue = 0x9f"

lemmas op_defs =
  opAddr_def opDeref_def opConst1u_def opConst1s_def opConst2u_def opConst2s_def opConst4u_def
  opConst4s_def opConst8u_def opConst8s_def opConstu_def opConsts_def opDup_def opDrop_def
  opOver_def opPick_def opSwap_def opRot_def opXderef_def opAbs_def opAnd_def opDiv_def opMinus_def
  opMod_def opMul_def opNeg_def opNot_def opOr_def opPlus_def opPlusUconst_def opShl_def opShr_def
  opShra_def opXor_def opBra_def opEq_def opGe_def opGt_def opLe_def opLt_def opNe_def opSkip_def
  opLit0_def opLit31_def opReg0_def opReg31_def opBreg0_def opBreg31_def opRegx_def opFbreg_def
  opBregx_def opPiece_def opDerefSize_def opXderefSize_def opNop_def opPushObjAddr_def opCall2_def
  opCall4_def opCallRef_def opFormTLSAddr_def opCallFrameCFA_def opBitPiece_def opImplicitVal_def
  opStackValue_def

section \<open>The machine\<close>

text \<open>
  The fixed surroundings of an evaluation (\<open>DwarfExpression\<close> and the arguments of \<open>Eval\<close>), and
  the variables of the loop.
\<close>

record expr_env =
  e_data :: "u8 list"
  e_inFrameInfo :: bool
  e_loadBias :: u64
  e_regs :: Registers
  e_cfa :: u64
  e_mem :: "u64 \<Rightarrow> int \<Rightarrow> u8 list res"    \<comment> \<open>\<open>proc.ReadMemory\<close>\<close>
  e_frameBase :: "u64 res"                 \<comment> \<open>\<open>e.evalFrameBase(proc, regs)\<close>\<close>

record expr_state =
  x_reader :: cfiReader
  x_stack :: "u64 list"
  x_recent :: "SimpleLocation option"
  x_pieces :: "Piece list"
  x_isAddress :: bool

definition push :: "u64 \<Rightarrow> expr_state \<Rightarrow> expr_state res" where
  "push v s = Inr (s\<lparr>x_stack := v # x_stack s\<rparr>)"

definition binop :: "(u64 \<Rightarrow> u64 \<Rightarrow> u64) \<Rightarrow> expr_state \<Rightarrow> expr_state res" where
  "binop f s =
     (case x_stack s of
        rhs # lhs # st \<Rightarrow> Inr (s\<lparr>x_stack := f lhs rhs # st\<rparr>)
      | _ \<Rightarrow> Inl (Error StackUnderflow))"

definition relop :: "(int \<Rightarrow> int \<Rightarrow> bool) \<Rightarrow> expr_state \<Rightarrow> expr_state res" where
  "relop f s =
     (case x_stack s of
        rhs # lhs # st \<Rightarrow> Inr (s\<lparr>x_stack := (if f (sint lhs) (sint rhs) then 1 else 0) # st\<rparr>)
      | _ \<Rightarrow> Inl (Error StackUnderflow))"

definition unop :: "(u64 \<Rightarrow> u64) \<Rightarrow> expr_state \<Rightarrow> expr_state res" where
  "unop f s =
     (case x_stack s of
        v # st \<Rightarrow> Inr (s\<lparr>x_stack := f v # st\<rparr>)
      | _ \<Rightarrow> Inl (Error StackUnderflow))"

definition getCurrentLocation :: "expr_state \<Rightarrow> SimpleLocation \<times> expr_state" where
  "getCurrentLocation s =
     (case x_stack s of
        [] \<Rightarrow> (case x_recent s of Some loc \<Rightarrow> (loc, s\<lparr>x_recent := None\<rparr>) | None \<Rightarrow> (LocEmpty, s))
      | v # st \<Rightarrow>
          if x_isAddress s then (LocAddress v, s\<lparr>x_stack := st\<rparr>)
          else (LocLiteral v, s\<lparr>x_stack := st, x_isAddress := True\<rparr>))"

text \<open>The register a DWARF number names, read as \<open>regs.Read(info).(uint64)\<close>.\<close>

definition dwarf_reg :: "Registers \<Rightarrow> int \<Rightarrow> u64 res" where
  "dwarf_reg regs n =
     (case RegisterInfoByDwarf n of
        None \<Rightarrow> Inl (Error (UnknownDwarfRegister n)) | Some info \<Rightarrow> readRegisterUint64 regs info)"

text \<open>A constant operand: read it and push its value.\<close>

definition push_read ::
  "(cfiReader \<Rightarrow> ('v \<times> cfiReader) res) \<Rightarrow> ('v \<Rightarrow> u64) \<Rightarrow> expr_state \<Rightarrow> expr_state res" where
  "push_read rd f s =
     rbind (rd (x_reader s)) (\<lambda>(v, r). push (f v) (s\<lparr>x_reader := r\<rparr>))"

definition loc_register :: "expr_env \<Rightarrow> u64 \<Rightarrow> expr_state \<Rightarrow> expr_state res" where
  "loc_register env n s =
     (if e_inFrameInfo env then rbind (dwarf_reg (e_regs env) (sint n)) (\<lambda>v. push v s)
      else Inr (s\<lparr>x_recent := Some (LocRegister n)\<rparr>))"

definition add_piece :: "u64 \<Rightarrow> u64 \<Rightarrow> expr_state \<Rightarrow> expr_state" where
  "add_piece bits off s =
     (let (loc, s') = getCurrentLocation s
      in s'\<lparr>x_pieces := x_pieces s' @ [\<lparr>p_Location = loc, p_BitSize = bits, p_Offset = off\<rparr>]\<rparr>)"

section \<open>One instruction\<close>

definition binop_of :: "u8 \<Rightarrow> (u64 \<Rightarrow> u64 \<Rightarrow> u64) option" where
  "binop_of op =
     (if op = opPlus then Some (\<lambda>a b. a + b)
      else if op = opMinus then Some (\<lambda>a b. a - b)
      else if op = opMul then Some (\<lambda>a b. a * b)
      else if op = opMod then Some (\<lambda>a b. if b = 0 then 0 else a mod b)
      else if op = opAnd then Some (\<lambda>a b. a AND b)
      else if op = opOr then Some (\<lambda>a b. a OR b)
      else if op = opXor then Some (\<lambda>a b. a XOR b)
      else if op = opShl then Some (\<lambda>a b. push_bit (shift_count b) a)
      else if op = opShr then Some (\<lambda>a b. drop_bit (shift_count b) a)
      else if op = opShra then Some (\<lambda>a b. signed_drop_bit (shift_count b) a)
      else None)"

definition relop_of :: "u8 \<Rightarrow> (int \<Rightarrow> int \<Rightarrow> bool) option" where
  "relop_of op =
     (if op = opEq then Some (\<lambda>a b. a = b)
      else if op = opNe then Some (\<lambda>a b. a \<noteq> b)
      else if op = opLt then Some (\<lambda>a b. a < b)
      else if op = opLe then Some (\<lambda>a b. a \<le> b)
      else if op = opGt then Some (\<lambda>a b. a > b)
      else if op = opGe then Some (\<lambda>a b. a \<ge> b)
      else None)"

definition unsupported_ops :: "u8 list" where
  "unsupported_ops =
     [opXderef, opXderefSize, opPushObjAddr, opFormTLSAddr, opCall2, opCall4, opCallRef]"

text \<open>The operand-reading constants.\<close>

definition const_op :: "expr_env \<Rightarrow> u8 \<Rightarrow> (expr_state \<Rightarrow> expr_state res) option" where
  "const_op env op =
     (if op = opAddr then Some (push_read readU64 (\<lambda>v. v + e_loadBias env))
      else if op = opConst1u then Some (push_read readU8 ucast)
      else if op = opConst1s then Some (push_read readU8 scast)
      else if op = opConst2u then Some (push_read readU16 ucast)
      else if op = opConst2s then Some (push_read readU16 scast)
      else if op = opConst4u then Some (push_read readU32 ucast)
      else if op = opConst4s then Some (push_read readU32 scast)
      else if op = opConst8u then Some (push_read readU64 id)
      else if op = opConst8s then Some (push_read readU64 id)
      else if op = opConstu then Some (push_read readULEB128 id)
      else if op = opConsts then Some (push_read readSLEB128 id)
      else None)"

text \<open>Stack shuffling.\<close>

definition stack_op :: "u8 \<Rightarrow> (expr_state \<Rightarrow> expr_state res) option" where
  "stack_op op =
     (if op = opDup then Some (\<lambda>s. case x_stack s of
          v # st \<Rightarrow> Inr (s\<lparr>x_stack := v # v # st\<rparr>) | _ \<Rightarrow> Inl (Error StackUnderflow))
      else if op = opDrop then Some (\<lambda>s. case x_stack s of
          v # st \<Rightarrow> Inr (s\<lparr>x_stack := st\<rparr>) | _ \<Rightarrow> Inl (Error StackUnderflow))
      else if op = opPick then Some (\<lambda>s.
          rbind (readU8 (x_reader s)) (\<lambda>(idx, r).
            if length (x_stack s) \<le> unat idx then Inl (Error (BadPick idx))
            else push (x_stack s ! unat idx) (s\<lparr>x_reader := r\<rparr>)))
      else if op = opOver then Some (\<lambda>s. case x_stack s of
          v # w # st \<Rightarrow> Inr (s\<lparr>x_stack := w # v # w # st\<rparr>) | _ \<Rightarrow> Inl (Error StackUnderflow))
      else if op = opSwap then Some (\<lambda>s. case x_stack s of
          v # w # st \<Rightarrow> Inr (s\<lparr>x_stack := w # v # st\<rparr>) | _ \<Rightarrow> Inl (Error StackUnderflow))
      else if op = opRot then Some (\<lambda>s. case x_stack s of
          u # v # w # st \<Rightarrow> Inr (s\<lparr>x_stack := v # w # u # st\<rparr>) | _ \<Rightarrow> Inl (Error StackUnderflow))
      else None)"

text \<open>Signed division, unary arithmetic and the constant addition.\<close>

definition arith_op :: "u8 \<Rightarrow> (expr_state \<Rightarrow> expr_state res) option" where
  "arith_op op =
     (if op = opDiv then Some (\<lambda>s. case x_stack s of
          rhs # lhs # st \<Rightarrow>
            if sint rhs = 0 then Inl (Error DivisionByZero)
            else Inr (s\<lparr>x_stack := sdiv64 lhs rhs # st\<rparr>)
        | _ \<Rightarrow> Inl (Error StackUnderflow))
      else if op = opAbs then Some (unop (\<lambda>v. if sint v < 0 then - v else v))
      else if op = opNeg then Some (unop (\<lambda>v. - v))
      else if op = opNot then Some (unop (\<lambda>v. NOT v))
      else if op = opPlusUconst then Some (\<lambda>s.
          rbind (readULEB128 (x_reader s)) (\<lambda>(v, r). unop (\<lambda>x. x + v) (s\<lparr>x_reader := r\<rparr>)))
      else None)"

text \<open>The value of \<open>DW_OP_deref_size\<close>, assembled byte by byte.\<close>

definition deref_value :: "u8 list \<Rightarrow> u64" where
  "deref_value bs = fold (\<lambda>(i, b) val. val OR push_bit (i * 8) (ucast b)) (enumerate 0 bs) 0"

definition deref_op :: "expr_env \<Rightarrow> u8 \<Rightarrow> (expr_state \<Rightarrow> expr_state res) option" where
  "deref_op env op =
     (if op = opDeref then Some (\<lambda>s. case x_stack s of
          addr # st \<Rightarrow>
            rbind (e_mem env addr 8) (\<lambda>bs.
              if length bs < 8 then Inl Panic
              else Inr (s\<lparr>x_stack := le_word (take 8 bs) # st\<rparr>))
        | _ \<Rightarrow> Inl (Error StackUnderflow))
      else if op = opDerefSize then Some (\<lambda>s. case x_stack s of
          addr # st \<Rightarrow>
            rbind (readU8 (x_reader s)) (\<lambda>(sz, r).
            rbind (e_mem env addr (uint sz)) (\<lambda>bs.
              Inr (s\<lparr>x_reader := r, x_stack := deref_value bs # st\<rparr>)))
        | _ \<Rightarrow> Inl (Error StackUnderflow))
      else None)"

definition jump :: "int \<Rightarrow> expr_state \<Rightarrow> expr_state" where
  "jump d s = s\<lparr>x_reader := (x_reader s)\<lparr>r_pos := wrap64 (r_pos (x_reader s) + d)\<rparr>\<rparr>"

definition branch_op :: "u8 \<Rightarrow> (expr_state \<Rightarrow> expr_state res) option" where
  "branch_op op =
     (if op = opSkip then Some (\<lambda>s.
          rbind (readS16 (x_reader s)) (\<lambda>(d, r). Inr (jump d (s\<lparr>x_reader := r\<rparr>))))
      else if op = opBra then Some (\<lambda>s.
          rbind (readS16 (x_reader s)) (\<lambda>(d, r).
          case x_stack s of
            v # st \<Rightarrow>
              (let s' = s\<lparr>x_reader := r, x_stack := st\<rparr>
               in Inr (if v \<noteq> 0 then jump d s' else s'))
          | _ \<Rightarrow> Inl (Error StackUnderflow)))
      else None)"

text \<open>Values relative to a register, to the frame base, and the CFA.\<close>

definition frame_op :: "expr_env \<Rightarrow> u8 \<Rightarrow> (expr_state \<Rightarrow> expr_state res) option" where
  "frame_op env op =
     (if op = opBregx then Some (\<lambda>s.
          rbind (readULEB128 (x_reader s)) (\<lambda>(n, r).
          rbind (dwarf_reg (e_regs env) (sint n)) (\<lambda>v.
          push_read readSLEB128 (\<lambda>d. v + d) (s\<lparr>x_reader := r\<rparr>))))
      else if op = opFbreg then Some (\<lambda>s.
          rbind (readSLEB128 (x_reader s)) (\<lambda>(d, r).
          rbind (e_frameBase env) (\<lambda>fb. push (fb + d) (s\<lparr>x_reader := r\<rparr>))))
      else if op = opCallFrameCFA then Some (push (e_cfa env))
      else None)"

text \<open>The location descriptions.\<close>

definition loc_op :: "expr_env \<Rightarrow> u8 \<Rightarrow> (expr_state \<Rightarrow> expr_state res) option" where
  "loc_op env op =
     (if op = opRegx then Some (\<lambda>s.
          rbind (readULEB128 (x_reader s)) (\<lambda>(n, r). loc_register env n (s\<lparr>x_reader := r\<rparr>)))
      else if op = opImplicitVal then Some (\<lambda>s.
          rbind (readULEB128 (x_reader s)) (\<lambda>(len, r).
          if int (length (r_data r)) < wrap64 (r_pos r + sint len) then Inl (Error ImplicitOverflow)
          else rbind (go_slice (r_data r) (r_pos r) (wrap64 (r_pos r + sint len))) (\<lambda>bs.
            Inr (s\<lparr>x_reader := r\<lparr>r_pos := wrap64 (r_pos r + sint len)\<rparr>, x_recent := Some (LocData bs)\<rparr>))))
      else if op = opStackValue then Some (\<lambda>s. Inr (s\<lparr>x_isAddress := False\<rparr>))
      else if op = opNop then Some (\<lambda>s. Inr s)
      else if op = opPiece then Some (\<lambda>s.
          rbind (readULEB128 (x_reader s)) (\<lambda>(n, r). Inr (add_piece (n * 8) 0 (s\<lparr>x_reader := r\<rparr>))))
      else if op = opBitPiece then Some (\<lambda>s.
          rbind (readULEB128 (x_reader s)) (\<lambda>(n, r).
          rbind (readULEB128 r) (\<lambda>(off, r). Inr (add_piece n off (s\<lparr>x_reader := r\<rparr>)))))
      else None)"

text \<open>The opcode ranges first, then the single opcodes; the tables above are disjoint.\<close>

definition exec_op :: "expr_env \<Rightarrow> u8 \<Rightarrow> expr_state \<Rightarrow> expr_state res" where
  "exec_op env op s =
     (if opLit0 \<le> op \<and> op \<le> opLit31 then push (ucast (op - opLit0)) s
      else if opBreg0 \<le> op \<and> op \<le> opBreg31 then
        rbind (dwarf_reg (e_regs env) (uint (op - opBreg0))) (\<lambda>v. push_read readSLEB128 (\<lambda>d. v + d) s)
      else if opReg0 \<le> op \<and> op \<le> opReg31 then loc_register env (ucast (op - opReg0)) s
      else case const_op env op of Some f \<Rightarrow> f s | None \<Rightarrow>
       (case frame_op env op of Some f \<Rightarrow> f s | None \<Rightarrow>
       (case stack_op op of Some f \<Rightarrow> f s | None \<Rightarrow>
       (case arith_op op of Some f \<Rightarrow> f s | None \<Rightarrow>
       (case binop_of op of Some f \<Rightarrow> binop f s | None \<Rightarrow>
       (case relop_of op of Some f \<Rightarrow> relop f s | None \<Rightarrow>
       (case deref_op env op of Some f \<Rightarrow> f s | None \<Rightarrow>
       (case branch_op op of Some f \<Rightarrow> f s | None \<Rightarrow>
       (case loc_op env op of Some f \<Rightarrow> f s | None \<Rightarrow>
         if op \<in> set unsupported_ops then Inl (Error (UnsupportedOp op))
         else Inl (Error (UnknownOp op)))))))))))"

definition expr_step :: "expr_env \<Rightarrow> expr_state \<Rightarrow> expr_state res" where
  "expr_step env s =
     rbind (readU8 (x_reader s)) (\<lambda>(op, r). exec_op env op (s\<lparr>x_reader := r\<rparr>))"

section \<open>The loop\<close>

definition expr_result :: "expr_state \<Rightarrow> ExprResult" where
  "expr_result s =
     (if x_pieces s \<noteq> [] then Composite (x_pieces s) else Single (fst (getCurrentLocation s)))"

fun expr_loop :: "nat \<Rightarrow> expr_env \<Rightarrow> expr_state \<Rightarrow> ExprResult res" where
  "expr_loop 0 env s = (if 0 < remaining (x_reader s) then Inl OutOfFuel else Inr (expr_result s))"
| "expr_loop (Suc n) env s =
     (if 0 < remaining (x_reader s) then rbind (expr_step env s) (expr_loop n env)
      else Inr (expr_result s))"

definition init_state :: "expr_env \<Rightarrow> bool \<Rightarrow> expr_state" where
  "init_state env pushCFA =
     \<lparr>x_reader = \<lparr>r_data = e_data env, r_pos = 0, r_baseAddr = 0\<rparr>,
      x_stack = (if pushCFA then [e_cfa env] else []), x_recent = None, x_pieces = [],
      x_isAddress = True\<rparr>"

definition Eval :: "nat \<Rightarrow> expr_env \<Rightarrow> bool \<Rightarrow> ExprResult res" where
  "Eval fuel env pushCFA =
     (if e_data env = [] then Inr (Single LocEmpty) else expr_loop fuel env (init_state env pushCFA))"

section \<open>The frame base\<close>

text \<open>
  \<open>evalFrameBase\<close>, with what it calls as arguments: the function that contains a program counter
  (its DIE offset), the CFA that the unwinder computes (\<open>Some\<close> only when there is call frame
  information and \<open>UnwindFrame\<close> returns no error; it may panic), and the evaluation of the frame base attribute.
\<close>

definition evalFrameBase ::
  "bool \<Rightarrow> (u64 \<Rightarrow> 'die option) \<Rightarrow> (u64 \<Rightarrow> u64 option res) \<Rightarrow> ('die \<Rightarrow> u64 \<Rightarrow> ExprResult res) \<Rightarrow>
     Registers \<Rightarrow> u64 res" where
  "evalFrameBase hasDwarf functionContainingPC unwindCFA evalAttr regs =
     (if \<not> hasDwarf then Inl (Error NoDwarfData)
      else rbind (readRegisterUint64 regs ripInfo) (\<lambda>pc.
        case functionContainingPC pc of
          None \<Rightarrow> Inl (Error (NoFunctionAt pc))
        | Some fn \<Rightarrow>
          rbind (unwindCFA pc) (\<lambda>cfa.
          rbind (evalAttr fn (case cfa of Some c \<Rightarrow> c | None \<Rightarrow> 0)) (\<lambda>res.
          case res of
            Composite _ \<Rightarrow> Inl (Error CompositeFrameBase)
          | Single (LocAddress a) \<Rightarrow> Inr a
          | Single (LocLiteral v) \<Rightarrow> Inr v
          | Single _ \<Rightarrow> Inl (Error BadFrameBaseKind)))))"

section \<open>Fuel\<close>

text \<open>More fuel never changes a result.\<close>

lemma expr_loop_mono: "expr_loop n env s = m \<Longrightarrow> m \<noteq> Inl OutOfFuel \<Longrightarrow> n \<le> k \<Longrightarrow> expr_loop k env s = m"
proof (induction n arbitrary: s k)
  case 0
  then show ?case by (cases k) (auto split: if_splits)
next
  case (Suc n)
  then obtain j where k: "k = Suc j" "n \<le> j" by (cases k) auto
  show ?case
  proof (cases "0 < remaining (x_reader s)")
    case True
    with Suc.prems(1) have m: "rbind (expr_step env s) (expr_loop n env) = m" by simp
    show ?thesis
    proof (cases "expr_step env s")
      case (Inr s')
      with m Suc.IH [of s' j] Suc.prems(2) k True show ?thesis by simp
    qed (use m True k in simp)
  qed (use Suc.prems k in simp)
qed

section \<open>Programs without branches end\<close>

lemma push_reader: "push v s = Inr s' \<Longrightarrow> x_reader s' = x_reader s"
  by (auto simp: push_def)

lemma binop_reader: "binop f s = Inr s' \<Longrightarrow> x_reader s' = x_reader s"
  by (auto simp: binop_def split: list.splits)

lemma relop_reader: "relop f s = Inr s' \<Longrightarrow> x_reader s' = x_reader s"
  by (auto simp: relop_def split: list.splits)

lemma unop_reader: "unop f s = Inr s' \<Longrightarrow> x_reader s' = x_reader s"
  by (auto simp: unop_def split: list.splits)

lemma loc_register_reader: "loc_register env n s = Inr s' \<Longrightarrow> x_reader s' = x_reader s"
  by (auto simp: loc_register_def push_def split: if_splits)

lemma add_piece_reader [simp]: "x_reader (add_piece n off s) = x_reader s"
  by (auto simp: add_piece_def getCurrentLocation_def split: prod.splits list.splits option.splits if_splits)

lemmas op_readers = push_reader binop_reader relop_reader unop_reader loc_register_reader

lemma push_read_advances:
  assumes "byte_reader rd k" "reader_ok (x_reader s)" "push_read rd f s = Inr s'"
  shows "advanced 0 (x_reader s) (x_reader s')"
proof -
  obtain v r where r: "rd (x_reader s) = Inr (v, r)" "x_reader s' = r"
    using assms(3) by (auto simp: push_read_def push_def)
  then show ?thesis
    using byte_reader.read_advances [OF assms(1,2)] byte_reader.least_nonneg [OF assms(1)]
    by (auto intro: advanced_mono)
qed

lemma advanced_refl: "reader_ok r \<Longrightarrow> advanced 0 r r"
  by (simp add: advanced_def reader_ok_def)

lemma uleb_advances0: "reader_ok r \<Longrightarrow> readULEB128 r = Inr (v, r') \<Longrightarrow> advanced 0 r r'"
  using uleb.read_advances advanced_mono by fastforce

lemma u8_advances0: "reader_ok r \<Longrightarrow> readU8 r = Inr (v, r') \<Longrightarrow> advanced 0 r r'"
  using u8.read_advances advanced_mono by fastforce

lemma sleb_advances0: "reader_ok r \<Longrightarrow> readSLEB128 r = Inr (v, r') \<Longrightarrow> advanced 0 r r'"
  using sleb.read_advances advanced_mono by fastforce

lemma advanced0_trans: "advanced 0 r r' \<Longrightarrow> advanced 0 r' r'' \<Longrightarrow> advanced 0 r r''"
  using advanced_trans [of 0 r r' 0 r''] by simp

lemma const_op_advances:
  assumes "const_op env op = Some f" "reader_ok (x_reader s)" "f s = Inr s'"
  shows "advanced 0 (x_reader s) (x_reader s')"
  using assms
    push_read_advances [OF u8.byte_reader_axioms] push_read_advances [OF u16.byte_reader_axioms]
    push_read_advances [OF u32.byte_reader_axioms] push_read_advances [OF u64.byte_reader_axioms]
    push_read_advances [OF uleb.byte_reader_axioms] push_read_advances [OF sleb.byte_reader_axioms]
  by (auto simp: const_op_def split: if_splits)

lemma stack_op_advances:
  assumes "stack_op op = Some f" "reader_ok (x_reader s)" "f s = Inr s'"
  shows "advanced 0 (x_reader s) (x_reader s')"
  using assms(1,3) advanced_refl [OF assms(2)]
  by (auto simp: stack_op_def push_def split: if_splits list.splits
      dest!: unop_reader uleb_advances0 [OF assms(2)] u8_advances0 [OF assms(2)])

lemma arith_op_advances:
  assumes "arith_op op = Some f" "reader_ok (x_reader s)" "f s = Inr s'"
  shows "advanced 0 (x_reader s) (x_reader s')"
  using assms(1,3) advanced_refl [OF assms(2)]
  by (auto simp: arith_op_def push_def split: if_splits list.splits
      dest!: unop_reader uleb_advances0 [OF assms(2)] u8_advances0 [OF assms(2)])

lemma deref_op_advances:
  assumes "deref_op env op = Some f" "reader_ok (x_reader s)" "f s = Inr s'"
  shows "advanced 0 (x_reader s) (x_reader s')"
  using assms(1,3)
  by (auto simp: deref_op_def advanced_refl [OF assms(2)] split: if_splits list.splits
      dest!: u8_advances0 [OF assms(2)])

lemma implicit_advances:
  assumes "reader_ok r" "go_slice (r_data r) (r_pos r) (wrap64 (r_pos r + sint (len :: u64))) = Inr bs"
  shows "advanced 0 r (r\<lparr>r_pos := wrap64 (r_pos r + sint len)\<rparr>)"
  using assms by (auto simp: go_slice_def advanced_def split: if_splits)

lemma frame_op_advances:
  assumes "frame_op env op = Some f" "reader_ok (x_reader s)" "f s = Inr s'"
  shows "advanced 0 (x_reader s) (x_reader s')"
proof -
  note ok = assms(2)
  have bregx: "advanced 0 (x_reader s) (x_reader s')"
    if "readULEB128 (x_reader s) = Inr (n, r)" "push_read readSLEB128 g (s\<lparr>x_reader := r\<rparr>) = Inr s'" for n r g
    using push_read_advances [OF sleb.byte_reader_axioms _ that(2)] uleb_advances0 [OF ok that(1)]
      uleb.read_keeps_ok [OF ok that(1)] advanced0_trans by simp
  show ?thesis
    using assms(1,3) advanced_refl [OF ok] unfolding frame_op_def
    by (auto split: if_splits dest!: push_reader)
      (blast intro: bregx sleb_advances0 [OF ok])+
qed

lemma loc_op_advances:
  assumes "loc_op env op = Some f" "reader_ok (x_reader s)" "f s = Inr s'"
  shows "advanced 0 (x_reader s) (x_reader s')"
proof -
  note ok = assms(2)
  have step: "advanced 0 (x_reader s) q"
    if "readULEB128 (x_reader s) = Inr (n, r)" "reader_ok r \<Longrightarrow> advanced 0 r q" for n r q
    using that uleb_advances0 [OF ok] uleb.read_keeps_ok [OF ok] advanced0_trans by blast
  have bits: "advanced 0 (x_reader s) q"
    if "readULEB128 (x_reader s) = Inr (n, r)" "readULEB128 r = Inr (m, q)" for n r m q
    using step [OF that(1)] uleb_advances0 [OF _ that(2)] by blast
  have impl: "advanced 0 (x_reader s) (r\<lparr>r_pos := wrap64 (r_pos r + sint n)\<rparr>)"
    if "readULEB128 (x_reader s) = Inr (n, r)"
      "go_slice (r_data r) (r_pos r) (wrap64 (r_pos r + sint n)) = Inr bs" for n r bs
    using step [OF that(1)] implicit_advances [OF _ that(2)] by blast
  show ?thesis
    using assms(1,3) advanced_refl [OF ok] unfolding loc_op_def
    by (auto split: if_splits dest!: push_reader loc_register_reader)
      (blast intro: bits impl uleb_advances0 [OF ok])+
qed

lemma exec_op_advances:
  assumes "exec_op env op s = Inr s'" "reader_ok (x_reader s)" "op \<noteq> opSkip" "op \<noteq> opBra"
  shows "advanced 0 (x_reader s) (x_reader s')"
proof -
  have "branch_op op = None" using assms(3,4) by (simp add: branch_op_def)
  then show ?thesis
    using assms(1,2) push_read_advances [OF sleb.byte_reader_axioms assms(2)]
    by (auto simp: exec_op_def advanced_refl split: if_splits option.splits dest!: op_readers
        intro: const_op_advances stack_op_advances arith_op_advances deref_op_advances
          frame_op_advances loc_op_advances)
qed

lemma expr_step_advances:
  assumes "expr_step env s = Inr s'" "reader_ok (x_reader s)"
    and "opSkip \<notin> set (r_data (x_reader s))" "opBra \<notin> set (r_data (x_reader s))"
  shows "advanced 1 (x_reader s) (x_reader s')"
proof -
  obtain op r where op: "readU8 (x_reader s) = Inr (op, r)" "exec_op env op (s\<lparr>x_reader := r\<rparr>) = Inr s'"
    using assms(1) by (auto simp: expr_step_def)
  then have "op \<in> set (r_data (x_reader s))"
    using assms(2) by (auto simp: readU8_def go_index_def reader_ok_def split: if_splits)
  then have "op \<noteq> opSkip" "op \<noteq> opBra" using assms(3,4) by auto
  moreover have "advanced 1 (x_reader s) r" "reader_ok r"
    using u8.read_advances [OF assms(2) op(1)] u8.read_keeps_ok [OF assms(2) op(1)] by auto
  ultimately show ?thesis
    using exec_op_advances [OF op(2)] advanced_trans [of 1 "x_reader s" r 0] by simp
qed

definition env_fuel_free :: "expr_env \<Rightarrow> bool" where
  "env_fuel_free env \<longleftrightarrow> (\<forall>a n. fuel_free (e_mem env a n)) \<and> fuel_free (e_frameBase env)"

lemma fuel_free_Read [simp, fuel_free_intros]: "fuel_free (Read r info)"
  by (auto simp: Read_def bytesForOffset_def Let_def intro!: fuel_free_intros split: RegisterFormat.split)

lemma fuel_free_dwarf_reg [simp, fuel_free_intros]: "fuel_free (dwarf_reg regs n)"
  by (auto simp: dwarf_reg_def readRegisterUint64_def as_u64_def intro!: fuel_free_intros
      split: option.split regval.split)

lemma fuel_free_state_ops [simp, fuel_free_intros]:
  "fuel_free (push v s)" "fuel_free (binop f s)" "fuel_free (relop g s)" "fuel_free (unop h s)"
  by (auto simp: push_def binop_def relop_def unop_def split: list.splits)

lemma fuel_free_loc_register [simp, fuel_free_intros]: "fuel_free (loc_register env n s)"
  by (auto simp: loc_register_def intro!: fuel_free_intros)

lemma fuel_free_push_read [fuel_free_intros]:
  "fuel_free (rd (x_reader s)) \<Longrightarrow> fuel_free (push_read rd f s)"
  by (auto simp: push_read_def intro!: fuel_free_intros)

lemma fuel_free_const_op: "const_op env op = Some f \<Longrightarrow> fuel_free (f s)"
  by (auto simp: const_op_def split: if_splits intro!: fuel_free_push_read)

lemma fuel_free_stack_op: "stack_op op = Some f \<Longrightarrow> fuel_free (f s)"
  by (auto simp: stack_op_def split: if_splits list.split intro!: fuel_free_intros)

lemma fuel_free_arith_op: "arith_op op = Some f \<Longrightarrow> fuel_free (f s)"
  by (auto simp: arith_op_def split: if_splits list.split intro!: fuel_free_intros)

lemma fuel_free_frame_op: "frame_op env op = Some f \<Longrightarrow> env_fuel_free env \<Longrightarrow> fuel_free (f s)"
  by (auto simp: frame_op_def env_fuel_free_def split: if_splits intro!: fuel_free_intros)

lemma fuel_free_deref_op: "deref_op env op = Some f \<Longrightarrow> env_fuel_free env \<Longrightarrow> fuel_free (f s)"
  by (auto simp: deref_op_def env_fuel_free_def split: if_splits list.split intro!: fuel_free_intros)

lemma fuel_free_branch_op: "branch_op op = Some f \<Longrightarrow> fuel_free (f s)"
  by (auto simp: branch_op_def Let_def split: if_splits list.split intro!: fuel_free_intros)

lemma fuel_free_loc_op: "loc_op env op = Some f \<Longrightarrow> env_fuel_free env \<Longrightarrow> fuel_free (f s)"
  by (auto simp: loc_op_def env_fuel_free_def split: if_splits intro!: fuel_free_intros)

lemma fuel_free_expr_step: "env_fuel_free env \<Longrightarrow> fuel_free (expr_step env s)"
  unfolding expr_step_def exec_op_def
  by (intro fuel_free_intros)
    (simp_all add: fuel_free_const_op fuel_free_stack_op fuel_free_arith_op fuel_free_frame_op fuel_free_deref_op fuel_free_branch_op
      fuel_free_loc_op)

lemma expr_loop_fuel_free:
  assumes "env_fuel_free env" "reader_ok (x_reader s)" "remaining (x_reader s) \<le> int n"
    and "opSkip \<notin> set (r_data (x_reader s))" "opBra \<notin> set (r_data (x_reader s))"
  shows "fuel_free (expr_loop n env s)"
  using assms
proof (induction n arbitrary: s)
  case (Suc n)
  have "fuel_free (expr_loop n env s')" if st: "expr_step env s = Inr s'" for s'
  proof -
    note adv = expr_step_advances [OF st Suc.prems(2,4,5)]
    show ?thesis
      using Suc.prems advanced_remaining [OF Suc.prems(2) adv] advanced_ok [OF Suc.prems(2) adv] adv
      by (intro Suc.IH) (simp_all add: advanced_def)
  qed
  then show ?case using fuel_free_expr_step [OF Suc.prems(1)] by (simp add: fuel_free_rbind)
qed simp

text \<open>
  An expression without the branch opcodes ends: one unit of fuel per byte
  is enough, on every outcome.
\<close>

theorem Eval_straight_line_terminates:
  assumes "env_fuel_free env" "length (e_data env) < 2 ^ 62" "length (e_data env) \<le> fuel"
    and "opSkip \<notin> set (e_data env)" "opBra \<notin> set (e_data env)"
  shows "Eval fuel env pushCFA \<noteq> Inl OutOfFuel"
proof -
  have "fuel_free (expr_loop fuel env (init_state env pushCFA))"
    using assms by (intro expr_loop_fuel_free) (simp_all add: init_state_def reader_ok_def remaining_def)
  then show ?thesis by (simp add: Eval_def fuel_free_def)
qed

text \<open>
  A backward branch may run forever: \<open>DW_OP_skip -3\<close> jumps to itself, and no amount of fuel is
  enough.
\<close>

definition skip_env :: expr_env where
  "skip_env =
     \<lparr>e_data = [0x2f, 0xfd, 0xff], e_inFrameInfo = False, e_loadBias = 0, e_regs = zero_regs, e_cfa = 0,
      e_mem = (\<lambda>a n. Inr (replicate (nat n) 0)), e_frameBase = Inl (Error NoDwarfData)\<rparr>"

lemma skip_step: "expr_step skip_env (init_state skip_env False) = Inr (init_state skip_env False)"
  by (simp add: expr_step_def init_state_def skip_env_def readU8_def go_index_def exec_op_def op_defs
      const_op_def frame_op_def stack_op_def arith_op_def binop_of_def relop_of_def deref_op_def branch_op_def readS16_def
      readU16_def read_le_def go_from_def jump_def)

lemma skip_loops: "Eval n skip_env False = Inl OutOfFuel"
proof -
  have "0 < remaining (x_reader (init_state skip_env False))"
    by (simp add: init_state_def skip_env_def remaining_def)
  then have "expr_loop n skip_env (init_state skip_env False) = Inl OutOfFuel" for n
    by (induction n) (simp_all add: skip_step)
  then show ?thesis by (simp add: Eval_def skip_env_def)
qed

section \<open>Compiled expressions\<close>

text \<open>
  The specification of the machine: address expressions over constants, registers, the CFA,
  memory and the binary operators, their value, and the byte code the DWARF standard gives
  them.
\<close>

datatype aexp =
    Const u64
  | RegPlus nat i64
  | CFA
  | Bin u8 aexp aexp
  | Mem aexp

fun aval :: "expr_env \<Rightarrow> aexp \<Rightarrow> u64 option" where
  "aval env (Const v) = Some v"
| "aval env (RegPlus n off) =
     (if n < 32 then case dwarf_reg (e_regs env) (int n) of Inr v \<Rightarrow> Some (v + off) | Inl _ \<Rightarrow> None
      else None)"
| "aval env CFA = Some (e_cfa env)"
| "aval env (Bin op a b) =
     (case (binop_of op, aval env a, aval env b) of
        (Some f, Some x, Some y) \<Rightarrow> Some (f x y) | _ \<Rightarrow> None)"
| "aval env (Mem a) =
     (case aval env a of
        None \<Rightarrow> None
      | Some x \<Rightarrow>
        (case e_mem env x 8 of
           Inl _ \<Rightarrow> None | Inr bs \<Rightarrow> if length bs = 8 then Some (le_word bs) else None))"

fun comp :: "aexp \<Rightarrow> u8 list" where
  "comp (Const v) = opConstu # uleb_encode v"
| "comp (RegPlus n off) = (opBreg0 + of_nat n) # sleb_encode off"
| "comp CFA = [opCallFrameCFA]"
| "comp (Bin op a b) = comp a @ comp b @ [op]"
| "comp (Mem a) = comp a @ [opDeref]"

fun steps :: "aexp \<Rightarrow> nat" where
  "steps (Bin op a b) = steps a + steps b + 1"
| "steps (Mem a) = steps a + 1"
| "steps _ = 1"

lemma exec_constu: "exec_op env opConstu s = push_read readULEB128 id s"
  by (simp add: exec_op_def op_defs const_op_def)

lemma exec_cfa: "exec_op env opCallFrameCFA s = push (e_cfa env) s"
  by (simp add: exec_op_def op_defs const_op_def frame_op_def stack_op_def arith_op_def binop_of_def relop_of_def deref_op_def
      branch_op_def loc_op_def)

lemma exec_deref:
  "exec_op env opDeref s =
     (case x_stack s of
        addr # st \<Rightarrow> rbind (e_mem env addr 8) (\<lambda>bs.
          if length bs < 8 then Inl Panic else Inr (s\<lparr>x_stack := le_word (take 8 bs) # st\<rparr>))
      | _ \<Rightarrow> Inl (Error StackUnderflow))"
  by (simp add: exec_op_def op_defs const_op_def frame_op_def stack_op_def arith_op_def binop_of_def relop_of_def deref_op_def)

lemma exec_binop: "binop_of op = Some f \<Longrightarrow> exec_op env op s = binop f s"
  by (auto simp: exec_op_def binop_of_def op_defs const_op_def frame_op_def stack_op_def arith_op_def split: if_splits)

lemma exec_breg:
  assumes "n < 32"
  shows "exec_op env (opBreg0 + of_nat n) s =
    rbind (dwarf_reg (e_regs env) (int n)) (\<lambda>v. push_read readSLEB128 (\<lambda>d. v + d) s)"
proof -
  have "unat (opBreg0 + of_nat n :: u8) = 0x70 + n"
    using assms by (simp add: opBreg0_def unat_word_ariths(1) unat_of_nat take_bit_nat_eq_self)
  then have "opBreg0 \<le> opBreg0 + of_nat n" "opBreg0 + of_nat n \<le> opBreg31"
    "\<not> opBreg0 + of_nat n \<le> opLit31"
    using assms by (simp_all add: word_le_nat_alt op_defs)
  moreover have "uint (of_nat n :: u8) = int n"
    using assms by (simp add: unsigned_of_nat take_bit_nat_eq_self)
  ultimately show ?thesis by (simp add: exec_op_def)
qed

text \<open>Running the code of an expression pushes its value and leaves the rest of the program.\<close>

lemma expr_loop_at:
  assumes "x_reader s = reader_at pre (b # rest) base" "length (pre @ b # rest) < 2 ^ 62"
  shows "expr_loop (Suc n) env s =
    rbind (exec_op env b (s\<lparr>x_reader := reader_at (pre @ [b]) rest base\<rparr>)) (expr_loop n env)"
  using assms readU8_at [of pre b rest base] remaining_at [of pre "b # rest" base]
  by (simp_all add: expr_step_def)

lemma comp_run:
  assumes "aval env e = Some v" "x_reader s = reader_at pre (comp e @ rest) base"
    and "length (pre @ comp e @ rest) < 2 ^ 62"
  shows "expr_loop (steps e + n) env s =
    expr_loop n env (s\<lparr>x_reader := reader_at (pre @ comp e) rest base, x_stack := v # x_stack s\<rparr>)"
  using assms
proof (induction e arbitrary: v s pre rest n)
  case (Const c)
  then show ?case
    using expr_loop_at [of s pre opConstu "uleb_encode c @ rest" base n env]
      readULEB128_at [of "pre @ [opConstu]" c rest base]
    by (simp add: exec_constu push_read_def push_def)
next
  case (RegPlus i off)
  obtain w where i: "i < 32" "dwarf_reg (e_regs env) (int i) = Inr w" "v = w + off"
    using RegPlus.prems(1) by (auto split: if_splits sum.splits)
  with RegPlus.prems show ?case
    using expr_loop_at [of s pre "opBreg0 + of_nat i" "sleb_encode off @ rest" base n env]
      readSLEB128_at [of "pre @ [opBreg0 + of_nat i]" off rest base]
    by (simp add: exec_breg push_read_def push_def)
next
  case CFA
  then show ?case
    using expr_loop_at [of s pre opCallFrameCFA rest base n env] by (simp add: exec_cfa push_def)
next
  case (Bin op a b)
  obtain f x y where f: "binop_of op = Some f" "aval env a = Some x" "aval env b = Some y" "v = f x y"
    using Bin.prems(1) by (auto split: option.splits)
  let ?sa = "s\<lparr>x_reader := reader_at (pre @ comp a) (comp b @ op # rest) base, x_stack := x # x_stack s\<rparr>"
  let ?sb = "?sa\<lparr>x_reader := reader_at ((pre @ comp a) @ comp b) (op # rest) base,
      x_stack := y # x_stack ?sa\<rparr>"
  have "expr_loop (steps a + (steps b + Suc n)) env s = expr_loop (steps b + Suc n) env ?sa"
    using Bin.prems by (intro Bin.IH(1) [OF f(2)]) simp_all
  also have "\<dots> = expr_loop (Suc n) env ?sb"
    using Bin.prems by (intro Bin.IH(2) [OF f(3)]) simp_all
  finally show ?case
    using Bin.prems(3) expr_loop_at [of ?sb "(pre @ comp a) @ comp b" op rest base n env]
    by (simp add: exec_binop [OF f(1)] binop_def f(4) add.assoc)
next
  case (Mem a)
  obtain x bs where x: "aval env a = Some x" "e_mem env x 8 = Inr bs" "length bs = 8" "v = le_word bs"
    using Mem.prems(1) by (auto split: option.splits sum.splits if_splits)
  let ?sa = "s\<lparr>x_reader := reader_at (pre @ comp a) (opDeref # rest) base, x_stack := x # x_stack s\<rparr>"
  have "expr_loop (steps a + Suc n) env s = expr_loop (Suc n) env ?sa"
    using Mem.prems by (intro Mem.IH [OF x(1)]) simp_all
  then show ?case
    using Mem.prems(3) expr_loop_at [of ?sa "pre @ comp a" opDeref rest base n env]
    by (simp add: exec_deref x(2-4))
qed

lemma steps_le: "steps e \<le> length (comp e)"
  by (induction e) auto

lemma comp_nonempty: "comp e \<noteq> []"
  by (induction e) auto

text \<open>
  C4 (functional).  The evaluator computes what the expression means: on the byte code of an
  address expression it returns the location at the expression's value, with fuel for one step
  per byte.
\<close>

theorem Eval_compiled:
  assumes "e_data env = comp e" "aval env e = Some v" "length (comp e) < 2 ^ 62"
    and "length (comp e) \<le> fuel"
  shows "Eval fuel env pushCFA = Inr (Single (LocAddress v))"
proof -
  obtain k where k: "fuel = steps e + k" using assms(4) steps_le [of e] le_Suc_ex by (meson order_trans)
  let ?s = "init_state env pushCFA"
  let ?t = "?s\<lparr>x_reader := reader_at (comp e) [] 0, x_stack := v # x_stack ?s\<rparr>"
  have "x_reader ?s = reader_at [] (comp e @ []) 0"
    by (simp add: init_state_def reader_at_def assms(1))
  from comp_run [OF assms(2) this, where n = k] have "expr_loop fuel env ?s = expr_loop k env ?t"
    using assms(3) k by simp
  also have "\<dots> = Inr (Single (LocAddress v))"
    using assms(3) remaining_at [of "comp e" "[]" 0]
    by (cases k) (simp_all add: expr_result_def getCurrentLocation_def init_state_def)
  finally show ?thesis using assms(1) comp_nonempty [of e] by (simp add: Eval_def)
qed

definition sample_aexp :: aexp where
  "sample_aexp = Mem (Bin opPlus (RegPlus 7 (- 8)) (Const 0x1234))"

definition sample_env :: expr_env where
  "sample_env =
     \<lparr>e_data = comp sample_aexp, e_inFrameInfo = False, e_loadBias = 0, e_regs = zero_regs, e_cfa = 0,
      e_mem = (\<lambda>a n. Inr (le_bytes (nat n) (a + 1))), e_frameBase = Inl (Error NoDwarfData)\<rparr>"

theorem Eval_compiled_witness: "Eval 10 sample_env False = Inr (Single (LocAddress 0x122d))"
proof -
  have "aval sample_env sample_aexp = Some 0x122d" by code_simp
  moreover have "length (comp sample_aexp) = 7" by code_simp
  ultimately show ?thesis
    using Eval_compiled [of sample_env sample_aexp "0x122d" 10 False] by (simp add: sample_env_def)
qed

theorem Eval_straight_line_terminates_witness: "Eval 7 sample_env True \<noteq> Inl OutOfFuel"
proof -
  have "length (e_data sample_env) = 7" "opSkip \<notin> set (e_data sample_env)"
    "opBra \<notin> set (e_data sample_env)" by code_simp+
  moreover have "env_fuel_free sample_env" by (simp add: env_fuel_free_def sample_env_def)
  ultimately show ?thesis by (intro Eval_straight_line_terminates) simp_all
qed

text \<open>
  \<open>DW_OP_breg17\<close> names \<open>xmm0\<close>, whose value is not a \<open>uint64\<close>: the type assertion panics.
\<close>

lemma breg17_panics: "Eval 2 (sample_env\<lparr>e_data := [0x81, 0]\<rparr>) False = Inl Panic"
  by code_simp

end
