(* ===== verification/Unwind.thy ===== *)
theory Unwind
  imports Cfi Dwarf_Expr
begin

text \<open>
  The stack unwinder of \<open>src/debugger/unwind.go\<close>: the CFI instructions of a CIE and an FDE build
  the row of the unwind table for a program counter, and the row's rules give the caller's
  registers.  Memory reads are an argument, as is the order in which Go ranges over the map of
  register rules.
\<close>

unbundle bit_operations_syntax

section \<open>Rules and the unwind context\<close>

datatype registerRule =
    RuleUndefined
  | RuleSameValue
  | RuleOffset i64
  | RuleValOffset i64
  | RuleRegister u64
  | RuleExpression "u8 list"
  | RuleValExpression "u8 list"

record cfaRule =
  c_reg :: u64
  c_offset :: i64
  c_isExpr :: bool
  c_exprData :: "u8 list"

type_synonym rules = "u64 \<rightharpoonup> registerRule"

text \<open>The rule stack is kept with its top first.\<close>

record unwindContext =
  u_reader :: cfiReader
  u_location :: u64
  u_cfa :: cfaRule
  u_rules :: rules
  u_cieRules :: rules
  u_stack :: "(rules \<times> cfaRule) list"
  u_loadBias :: u64

definition no_cfa :: cfaRule where
  "no_cfa = \<lparr>c_reg = 0, c_offset = 0, c_isExpr = False, c_exprData = []\<rparr>"

definition newUnwindContext :: unwindContext where
  "newUnwindContext =
     \<lparr>u_reader = \<lparr>r_data = [], r_pos = 0, r_baseAddr = 0\<rparr>, u_location = 0, u_cfa = no_cfa,
      u_rules = Map.empty, u_cieRules = Map.empty, u_stack = [], u_loadBias = 0\<rparr>"

definition copyRules :: "rules \<Rightarrow> rules" where
  "copyRules src = (\<lambda>k. src k)"

section \<open>CFI instructions\<close>

definition dwCFAAdvanceLoc :: u8 where "dwCFAAdvanceLoc = 0x40"
definition dwCFAOffset :: u8 where "dwCFAOffset = 0x80"
definition dwCFARestore :: u8 where "dwCFARestore = 0xc0"
definition dwCFANop :: u8 where "dwCFANop = 0x00"
definition dwCFASetLoc :: u8 where "dwCFASetLoc = 0x01"
definition dwCFAAdvanceLoc1 :: u8 where "dwCFAAdvanceLoc1 = 0x02"
definition dwCFAAdvanceLoc2 :: u8 where "dwCFAAdvanceLoc2 = 0x03"
definition dwCFAAdvanceLoc4 :: u8 where "dwCFAAdvanceLoc4 = 0x04"
definition dwCFAOffsetExtended :: u8 where "dwCFAOffsetExtended = 0x05"
definition dwCFARestoreExtended :: u8 where "dwCFARestoreExtended = 0x06"
definition dwCFAUndefined :: u8 where "dwCFAUndefined = 0x07"
definition dwCFASameValue :: u8 where "dwCFASameValue = 0x08"
definition dwCFARegister :: u8 where "dwCFARegister = 0x09"
definition dwCFARememberState :: u8 where "dwCFARememberState = 0x0a"
definition dwCFARestoreState :: u8 where "dwCFARestoreState = 0x0b"
definition dwCFADefCFA :: u8 where "dwCFADefCFA = 0x0c"
definition dwCFADefCFARegister :: u8 where "dwCFADefCFARegister = 0x0d"
definition dwCFADefCFAOffset :: u8 where "dwCFADefCFAOffset = 0x0e"
definition dwCFADefCFAExpression :: u8 where "dwCFADefCFAExpression = 0x0f"
definition dwCFAExpression :: u8 where "dwCFAExpression = 0x10"
definition dwCFAOffsetExtendedSF :: u8 where "dwCFAOffsetExtendedSF = 0x11"
definition dwCFADefCFASF :: u8 where "dwCFADefCFASF = 0x12"
definition dwCFADefCFAOffsetSF :: u8 where "dwCFADefCFAOffsetSF = 0x13"
definition dwCFAValOffset :: u8 where "dwCFAValOffset = 0x14"
definition dwCFAValOffsetSF :: u8 where "dwCFAValOffsetSF = 0x15"
definition dwCFAValExpression :: u8 where "dwCFAValExpression = 0x16"

lemmas dwCFA_defs =
  dwCFAAdvanceLoc_def dwCFAOffset_def dwCFARestore_def dwCFANop_def dwCFASetLoc_def
  dwCFAAdvanceLoc1_def dwCFAAdvanceLoc2_def dwCFAAdvanceLoc4_def dwCFAOffsetExtended_def
  dwCFARestoreExtended_def dwCFAUndefined_def dwCFASameValue_def dwCFARegister_def
  dwCFARememberState_def dwCFARestoreState_def dwCFADefCFA_def dwCFADefCFARegister_def
  dwCFADefCFAOffset_def dwCFADefCFAExpression_def dwCFAExpression_def dwCFAOffsetExtendedSF_def
  dwCFADefCFASF_def dwCFADefCFAOffsetSF_def dwCFAValOffset_def dwCFAValOffsetSF_def
  dwCFAValExpression_def

text \<open>Reading an operand from the context's reader, and going on with it.\<close>

definition fetch ::
  "(cfiReader \<Rightarrow> ('v \<times> cfiReader) res) \<Rightarrow> unwindContext \<Rightarrow>
     ('v \<Rightarrow> unwindContext \<Rightarrow> unwindContext res) \<Rightarrow> unwindContext res" where
  "fetch rd ctx k = rbind (rd (u_reader ctx)) (\<lambda>(v, r). k v (ctx\<lparr>u_reader := r\<rparr>))"

definition set_rule :: "u64 \<Rightarrow> registerRule \<Rightarrow> unwindContext \<Rightarrow> unwindContext" where
  "set_rule reg rule ctx = ctx\<lparr>u_rules := (u_rules ctx)(reg \<mapsto> rule)\<rparr>"

definition restore_rule :: "u64 \<Rightarrow> unwindContext \<Rightarrow> unwindContext" where
  "restore_rule reg ctx =
     (case u_cieRules ctx reg of
        Some rule \<Rightarrow> set_rule reg rule ctx | None \<Rightarrow> set_rule reg RuleUndefined ctx)"

definition advance_loc :: "u64 \<Rightarrow> CIE \<Rightarrow> unwindContext \<Rightarrow> unwindContext" where
  "advance_loc delta cie ctx = ctx\<lparr>u_location := u_location ctx + delta * CodeAlignmentFactor cie\<rparr>"

text \<open>The \<open>length\<close>-prefixed expression operand.\<close>

definition fetch_expr :: "unwindContext \<Rightarrow> (u8 list \<Rightarrow> unwindContext \<Rightarrow> unwindContext res) \<Rightarrow> unwindContext res" where
  "fetch_expr ctx k =
     fetch readULEB128 ctx (\<lambda>len ctx. fetch (\<lambda>r. slice r (sint len)) ctx (\<lambda>sub. k (r_data sub)))"

definition exec_primary :: "u8 \<Rightarrow> u8 \<Rightarrow> unwindContext \<Rightarrow> CIE \<Rightarrow> unwindContext res" where
  "exec_primary primary operand ctx cie =
     (if primary = dwCFAAdvanceLoc then Inr (advance_loc (ucast operand) cie ctx)
      else if primary = dwCFAOffset then
        fetch readULEB128 ctx (\<lambda>v ctx.
          Inr (set_rule (ucast operand) (RuleOffset (v * DataAlignmentFactor cie)) ctx))
      else if primary = dwCFARestore then Inr (restore_rule (ucast operand) ctx)
      else Inr ctx)"

definition exec_rules_op :: "u8 \<Rightarrow> unwindContext \<Rightarrow> CIE \<Rightarrow> unwindContext res" where
  "exec_rules_op operand ctx cie =
     (let daf = DataAlignmentFactor cie in
      if operand = dwCFAUndefined then
        fetch readULEB128 ctx (\<lambda>reg ctx. Inr (set_rule reg RuleUndefined ctx))
      else if operand = dwCFASameValue then
        fetch readULEB128 ctx (\<lambda>reg ctx. Inr (set_rule reg RuleSameValue ctx))
      else if operand = dwCFAOffsetExtended then
        fetch readULEB128 ctx (\<lambda>reg ctx. fetch readULEB128 ctx (\<lambda>v ctx.
          Inr (set_rule reg (RuleOffset (v * daf)) ctx)))
      else if operand = dwCFAOffsetExtendedSF then
        fetch readULEB128 ctx (\<lambda>reg ctx. fetch readSLEB128 ctx (\<lambda>v ctx.
          Inr (set_rule reg (RuleOffset (v * daf)) ctx)))
      else if operand = dwCFAValOffset then
        fetch readULEB128 ctx (\<lambda>reg ctx. fetch readULEB128 ctx (\<lambda>v ctx.
          Inr (set_rule reg (RuleValOffset (v * daf)) ctx)))
      else if operand = dwCFAValOffsetSF then
        fetch readULEB128 ctx (\<lambda>reg ctx. fetch readSLEB128 ctx (\<lambda>v ctx.
          Inr (set_rule reg (RuleValOffset (v * daf)) ctx)))
      else if operand = dwCFARegister then
        fetch readULEB128 ctx (\<lambda>reg ctx. fetch readULEB128 ctx (\<lambda>other ctx.
          Inr (set_rule reg (RuleRegister other) ctx)))
      else if operand = dwCFAExpression then
        fetch readULEB128 ctx (\<lambda>reg ctx. fetch_expr ctx (\<lambda>bs ctx.
          Inr (set_rule reg (RuleExpression bs) ctx)))
      else if operand = dwCFAValExpression then
        fetch readULEB128 ctx (\<lambda>reg ctx. fetch_expr ctx (\<lambda>bs ctx.
          Inr (set_rule reg (RuleValExpression bs) ctx)))
      else if operand = dwCFARestoreExtended then
        fetch readULEB128 ctx (\<lambda>reg ctx. Inr (restore_rule reg ctx))
      else if operand = dwCFARememberState then
        Inr (ctx\<lparr>u_stack := (copyRules (u_rules ctx), u_cfa ctx) # u_stack ctx\<rparr>)
      else if operand = dwCFARestoreState then
        (case u_stack ctx of
           [] \<Rightarrow> Inl (Error RuleStackEmpty)
         | (rs, cfa) # st \<Rightarrow> Inr (ctx\<lparr>u_stack := st, u_rules := rs, u_cfa := cfa\<rparr>))
      else Inl (Error (UnknownCFI operand)))"

text \<open>The extended opcodes: locations and the CFA here, the register rules above.\<close>

definition exec_extended :: "u8 \<Rightarrow> unwindContext \<Rightarrow> CIE \<Rightarrow> unwindContext res" where
  "exec_extended operand ctx cie =
     (let daf = DataAlignmentFactor cie in
      if operand = dwCFANop then Inr ctx
      else if operand = dwCFASetLoc then
        fetch (\<lambda>r. readAddress r (FDEPointerEncoding cie)) ctx (\<lambda>loc ctx. Inr (ctx\<lparr>u_location := loc\<rparr>))
      else if operand = dwCFAAdvanceLoc1 then
        fetch readU8 ctx (\<lambda>v ctx. Inr (advance_loc (ucast v) cie ctx))
      else if operand = dwCFAAdvanceLoc2 then
        fetch readU16 ctx (\<lambda>v ctx. Inr (advance_loc (ucast v) cie ctx))
      else if operand = dwCFAAdvanceLoc4 then
        fetch readU32 ctx (\<lambda>v ctx. Inr (advance_loc (ucast v) cie ctx))
      else if operand = dwCFADefCFA then
        fetch readULEB128 ctx (\<lambda>reg ctx. fetch readULEB128 ctx (\<lambda>off ctx.
          Inr (ctx\<lparr>u_cfa := no_cfa\<lparr>c_reg := reg, c_offset := off\<rparr>\<rparr>)))
      else if operand = dwCFADefCFASF then
        fetch readULEB128 ctx (\<lambda>reg ctx. fetch readSLEB128 ctx (\<lambda>off ctx.
          Inr (ctx\<lparr>u_cfa := no_cfa\<lparr>c_reg := reg, c_offset := off * daf\<rparr>\<rparr>)))
      else if operand = dwCFADefCFARegister then
        fetch readULEB128 ctx (\<lambda>reg ctx. Inr (ctx\<lparr>u_cfa := (u_cfa ctx)\<lparr>c_reg := reg\<rparr>\<rparr>))
      else if operand = dwCFADefCFAOffset then
        fetch readULEB128 ctx (\<lambda>off ctx. Inr (ctx\<lparr>u_cfa := (u_cfa ctx)\<lparr>c_offset := off\<rparr>\<rparr>))
      else if operand = dwCFADefCFAOffsetSF then
        fetch readSLEB128 ctx (\<lambda>off ctx. Inr (ctx\<lparr>u_cfa := (u_cfa ctx)\<lparr>c_offset := off * daf\<rparr>\<rparr>))
      else if operand = dwCFADefCFAExpression then
        fetch_expr ctx (\<lambda>bs ctx. Inr (ctx\<lparr>u_cfa := no_cfa\<lparr>c_isExpr := True, c_exprData := bs\<rparr>\<rparr>))
      else exec_rules_op operand ctx cie)"

definition executeCFIInstruction :: "unwindContext \<Rightarrow> CIE \<Rightarrow> unwindContext res" where
  "executeCFIInstruction ctx cie =
     fetch readU8 ctx (\<lambda>opByte ctx.
       let primary = opByte AND 0xc0; operand = opByte AND 0x3f in
       if primary \<noteq> 0 then exec_primary primary operand ctx cie
       else exec_extended operand ctx cie)"

text \<open>The loops of \<open>UnwindFrame\<close>: instructions are executed while bytes remain and \<open>go_on\<close> holds.\<close>

fun run_cfi :: "nat \<Rightarrow> (unwindContext \<Rightarrow> bool) \<Rightarrow> CIE \<Rightarrow> unwindContext \<Rightarrow> unwindContext res" where
  "run_cfi 0 go_on cie ctx =
     (if 0 < remaining (u_reader ctx) \<and> go_on ctx then Inl OutOfFuel else Inr ctx)"
| "run_cfi (Suc n) go_on cie ctx =
     (if 0 < remaining (u_reader ctx) \<and> go_on ctx
      then rbind (executeCFIInstruction ctx cie) (run_cfi n go_on cie) else Inr ctx)"

definition instr_reader :: "u8 list \<Rightarrow> cfiReader" where
  "instr_reader bs = \<lparr>r_data = bs, r_pos = 0, r_baseAddr = 0\<rparr>"

text \<open>The row of the unwind table for a file address.\<close>

definition unwind_row :: "FDE \<Rightarrow> u64 \<Rightarrow> u64 \<Rightarrow> unwindContext res" where
  "unwind_row fde filePC bias =
     (let cie = fde_CIE fde; ctx = newUnwindContext\<lparr>u_loadBias := bias\<rparr> in
      rbind (if cie_Instructions cie \<noteq> [] then
               run_cfi (length (cie_Instructions cie)) (\<lambda>_. True) cie
                 (ctx\<lparr>u_reader := instr_reader (cie_Instructions cie)\<rparr>)
             else Inr ctx) (\<lambda>ctx.
      let ctx = ctx\<lparr>u_cieRules := copyRules (u_rules ctx), u_location := InitialLocation fde\<rparr> in
      if fde_Instructions fde \<noteq> [] then
        run_cfi (length (fde_Instructions fde)) (\<lambda>ctx. u_location ctx \<le> filePC) cie
          (ctx\<lparr>u_reader := instr_reader (fde_Instructions fde)\<rparr>)
      else Inr ctx))"

section \<open>Applying the rules\<close>

text \<open>
  An expression of the unwinder is evaluated with \<open>inFrameInfo\<close> set and without DWARF data, so
  that \<open>DW_OP_fbreg\<close> fails; \<open>fuel\<close> bounds its loop.
\<close>

definition unwind_expr ::
  "nat \<Rightarrow> (u64 \<Rightarrow> int \<Rightarrow> u8 list res) \<Rightarrow> u64 \<Rightarrow> Registers \<Rightarrow> u8 list \<Rightarrow> bool \<Rightarrow> u64 \<Rightarrow> ExprResult res" where
  "unwind_expr fuel mem bias regs bs pushCFA cfa =
     Eval fuel
       \<lparr>e_data = bs, e_inFrameInfo = True, e_loadBias = bias, e_regs = regs, e_cfa = cfa, e_mem = mem,
        e_frameBase = Inl (Error NoDwarfData)\<rparr> pushCFA"

definition read_word :: "(u64 \<Rightarrow> int \<Rightarrow> u8 list res) \<Rightarrow> u64 \<Rightarrow> u64 res" where
  "read_word mem addr =
     rbind (mem addr 8) (\<lambda>bs. if length bs < 8 then Inl Panic else Inr (le_word (take 8 bs)))"

definition compute_cfa ::
  "nat \<Rightarrow> (u64 \<Rightarrow> int \<Rightarrow> u8 list res) \<Rightarrow> unwindContext \<Rightarrow> Registers \<Rightarrow> u64 res" where
  "compute_cfa fuel mem ctx old =
     (if c_isExpr (u_cfa ctx) then
        rbind (unwind_expr fuel mem (u_loadBias ctx) old (c_exprData (u_cfa ctx)) False 0) (\<lambda>res.
          case res of Single (LocAddress a) \<Rightarrow> Inr a | _ \<Rightarrow> Inl (Error CFANotAddress))
      else rbind (dwarf_reg old (sint (c_reg (u_cfa ctx)))) (\<lambda>v. Inr (v + c_offset (u_cfa ctx))))"

text \<open>The value a rule restores, or \<open>None\<close> when it leaves the register alone.\<close>

definition rule_value ::
  "nat \<Rightarrow> (u64 \<Rightarrow> int \<Rightarrow> u8 list res) \<Rightarrow> u64 \<Rightarrow> Registers \<Rightarrow> u64 \<Rightarrow> registerRule \<Rightarrow> u64 option res" where
  "rule_value fuel mem bias old cfa rule =
     (case rule of
        RuleUndefined \<Rightarrow> Inr None
      | RuleSameValue \<Rightarrow> Inr None
      | RuleRegister other \<Rightarrow>
          (case RegisterInfoByDwarf (sint other) of
             None \<Rightarrow> Inr None
           | Some info \<Rightarrow> rbind (readRegisterUint64 old info) (\<lambda>v. Inr (Some v)))
      | RuleOffset off \<Rightarrow> rbind (read_word mem (cfa + off)) (\<lambda>v. Inr (Some v))
      | RuleValOffset off \<Rightarrow> Inr (Some (cfa + off))
      | RuleExpression bs \<Rightarrow>
          rbind (unwind_expr fuel mem bias old bs True cfa) (\<lambda>res.
          case res of
            Single (LocAddress a) \<Rightarrow> rbind (read_word mem a) (\<lambda>v. Inr (Some v))
          | _ \<Rightarrow> Inr None)
      | RuleValExpression bs \<Rightarrow>
          rbind (unwind_expr fuel mem bias old bs True cfa) (\<lambda>res.
          case res of Single (LocAddress a) \<Rightarrow> Inr (Some a) | _ \<Rightarrow> Inr None))"

fun apply_rules ::
  "nat \<Rightarrow> (u64 \<Rightarrow> int \<Rightarrow> u8 list res) \<Rightarrow> u64 \<Rightarrow> Registers \<Rightarrow> u64 \<Rightarrow> (u64 \<times> registerRule) list \<Rightarrow>
     Registers \<Rightarrow> Registers res" where
  "apply_rules fuel mem bias old cfa [] unwound = Inr unwound"
| "apply_rules fuel mem bias old cfa ((reg, rule) # rs) unwound =
     (case RegisterInfoByDwarf (sint reg) of
        None \<Rightarrow> apply_rules fuel mem bias old cfa rs unwound
      | Some info \<Rightarrow>
          rbind (rule_value fuel mem bias old cfa rule) (\<lambda>v.
          case v of
            None \<Rightarrow> apply_rules fuel mem bias old cfa rs unwound
          | Some val \<Rightarrow>
              rbind (writeRegisterValue unwound info val) (apply_rules fuel mem bias old cfa rs)))"

text \<open>The pairs of a map in the order in which a \<open>range\<close> loop visits its keys.\<close>

definition range_pairs :: "u64 list \<Rightarrow> rules \<Rightarrow> (u64 \<times> registerRule) list" where
  "range_pairs ks m = List.map_filter (\<lambda>k. map_option (Pair k) (m k)) ks"

definition executeUnwindRules ::
  "nat \<Rightarrow> (u64 \<Rightarrow> int \<Rightarrow> u8 list res) \<Rightarrow> (rules \<Rightarrow> u64 list) \<Rightarrow> unwindContext \<Rightarrow> Registers \<Rightarrow>
     (Registers \<times> u64) res" where
  "executeUnwindRules fuel mem order ctx old =
     rbind (compute_cfa fuel mem ctx old) (\<lambda>cfa.
     rbind (writeRegisterValue (cloneRegisters old) rspInfo cfa) (\<lambda>unwound.
     rbind (apply_rules fuel mem (u_loadBias ctx) old cfa
              (range_pairs (order (u_rules ctx)) (u_rules ctx)) unwound) (\<lambda>unwound.
     Inr (unwound, cfa))))"

definition UnwindFrame ::
  "nat \<Rightarrow> (u64 \<Rightarrow> int \<Rightarrow> u8 list res) \<Rightarrow> (rules \<Rightarrow> u64 list) \<Rightarrow> CallFrameInformation \<Rightarrow> u64 \<Rightarrow>
     Registers \<Rightarrow> (Registers \<times> u64) res \<times> CallFrameInformation" where
  "UnwindFrame fuel mem order cfi pc regs =
     (let (m, cfi') = FDEForPC cfi pc in
      (rbind m (\<lambda>fde.
         rbind (unwind_row fde (pc - cfi_loadBias cfi) (cfi_loadBias cfi)) (\<lambda>ctx.
         executeUnwindRules fuel mem order ctx regs)), cfi'))"

section \<open>CFI programs end\<close>

definition moves :: "unwindContext \<Rightarrow> unwindContext res \<Rightarrow> bool" where
  "moves ctx m \<longleftrightarrow> (\<forall>ctx'. m = Inr ctx' \<longrightarrow> advanced 0 (u_reader ctx) (u_reader ctx'))"

lemma moves_Inr: "reader_ok (u_reader ctx) \<Longrightarrow> u_reader c = u_reader ctx \<Longrightarrow> moves ctx (Inr c)"
  by (simp add: moves_def advanced_refl)

lemma moves_Inl: "moves ctx (Inl e)"
  by (simp add: moves_def)

lemma moves_if: "(b \<Longrightarrow> moves ctx m) \<Longrightarrow> (\<not> b \<Longrightarrow> moves ctx n) \<Longrightarrow> moves ctx (if b then m else n)"
  by simp

lemma moves_fetch:
  assumes "byte_reader rd k" "reader_ok (u_reader ctx)"
    and "\<And>v c. reader_ok (u_reader c) \<Longrightarrow> moves c (f v c)"
  shows "moves ctx (fetch rd ctx f)"
  unfolding moves_def
proof (intro allI impI)
  fix ctx' assume "fetch rd ctx f = Inr ctx'"
  then obtain v r where r: "rd (u_reader ctx) = Inr (v, r)" "f v (ctx\<lparr>u_reader := r\<rparr>) = Inr ctx'"
    by (auto simp: fetch_def)
  have "advanced 0 (u_reader ctx) r" "reader_ok r"
    using byte_reader.read_advances [OF assms(1,2) r(1)] byte_reader.read_keeps_ok [OF assms(1,2) r(1)]
      byte_reader.least_nonneg [OF assms(1)] by (auto intro: advanced_mono)
  with assms(3) [of "ctx\<lparr>u_reader := r\<rparr>" v] r(2) show "advanced 0 (u_reader ctx) (u_reader ctx')"
    using advanced0_trans by (simp add: moves_def)
qed

lemma moves_fetch_expr:
  assumes "reader_ok (u_reader ctx)" "\<And>bs c. reader_ok (u_reader c) \<Longrightarrow> moves c (f bs c)"
  shows "moves ctx (fetch_expr ctx f)"
  unfolding fetch_expr_def
proof (rule moves_fetch [OF uleb.byte_reader_axioms assms(1)])
  fix len :: u64 and c :: unwindContext assume ok: "reader_ok (u_reader c)"
  have "advanced 0 (u_reader c) (u_reader ctx')"
    if "slice (u_reader c) (sint len) = Inr (sub, r)" "f (r_data sub) (c\<lparr>u_reader := r\<rparr>) = Inr ctx'"
    for sub r ctx'
  proof -
    have sp: "advanced 0 (u_reader c) r"
      using slice_spec [OF ok that(1) sint_go_int] by (auto intro: advanced_mono)
    with assms(2) [of "c\<lparr>u_reader := r\<rparr>" "r_data sub"] that(2) advanced_ok [OF ok sp]
    show ?thesis using advanced0_trans by (simp add: moves_def)
  qed
  then show "moves c (fetch (\<lambda>r. slice r (sint len)) c (\<lambda>sub. f (r_data sub)))"
    by (auto simp: moves_def fetch_def)
qed

lemmas moves_reads =
  moves_fetch [OF u8.byte_reader_axioms] moves_fetch [OF u16.byte_reader_axioms]
  moves_fetch [OF u32.byte_reader_axioms] moves_fetch [OF uleb.byte_reader_axioms]
  moves_fetch [OF sleb.byte_reader_axioms] moves_fetch [OF addr.byte_reader_axioms]

lemma ctx_readers [simp]:
  "u_reader (set_rule reg rule ctx) = u_reader ctx" "u_reader (advance_loc d cie ctx) = u_reader ctx"
  "u_reader (restore_rule reg ctx) = u_reader ctx"
  by (simp_all add: set_rule_def advance_loc_def restore_rule_def split: option.split)

lemma moves_primary: "reader_ok (u_reader ctx) \<Longrightarrow> moves ctx (exec_primary p x ctx cie)"
  unfolding exec_primary_def by (intro moves_if moves_Inr moves_reads) simp_all

lemma moves_stack:
  "reader_ok (u_reader ctx) \<Longrightarrow> moves ctx (case u_stack ctx of
      [] \<Rightarrow> Inl (Error RuleStackEmpty)
    | (rs, cfa) # st \<Rightarrow> Inr (ctx\<lparr>u_stack := st, u_rules := rs, u_cfa := cfa\<rparr>))"
  by (auto simp: moves_Inl moves_Inr split: list.split)

lemma moves_extended: "reader_ok (u_reader ctx) \<Longrightarrow> moves ctx (exec_extended x ctx cie)"
  unfolding exec_extended_def exec_rules_op_def Let_def
  by (intro moves_if moves_Inr moves_Inl moves_reads moves_fetch_expr moves_stack) simp_all

lemma executeCFIInstruction_advances:
  assumes "reader_ok (u_reader ctx)" "executeCFIInstruction ctx cie = Inr ctx'"
  shows "advanced 1 (u_reader ctx) (u_reader ctx')"
proof -
  obtain op r where r: "readU8 (u_reader ctx) = Inr (op, r)"
    and e: "(if op AND 0xc0 \<noteq> 0 then exec_primary (op AND 0xc0) (op AND 0x3f) (ctx\<lparr>u_reader := r\<rparr>) cie
      else exec_extended (op AND 0x3f) (ctx\<lparr>u_reader := r\<rparr>) cie) = Inr ctx'"
    using assms(2) by (auto simp: executeCFIInstruction_def fetch_def Let_def)
  have "reader_ok r" using u8.read_keeps_ok [OF assms(1) r] .
  then have "advanced 0 r (u_reader ctx')"
    using e moves_primary [of "ctx\<lparr>u_reader := r\<rparr>"] moves_extended [of "ctx\<lparr>u_reader := r\<rparr>"]
    by (simp add: moves_def split: if_splits)
  with u8.read_advances [OF assms(1) r] show ?thesis
    using advanced_trans [of 1 "u_reader ctx" r 0] by simp
qed

lemma fuel_free_fetch [fuel_free_intros]:
  "fuel_free (rd (u_reader ctx)) \<Longrightarrow> (\<And>v c. fuel_free (f v c)) \<Longrightarrow> fuel_free (fetch rd ctx f)"
  unfolding fetch_def by (intro fuel_free_intros) auto

lemma fuel_free_fetch_expr [fuel_free_intros]:
  "(\<And>v c. fuel_free (f v c)) \<Longrightarrow> fuel_free (fetch_expr ctx f)"
  unfolding fetch_expr_def by (intro fuel_free_intros) auto

lemma fuel_free_executeCFIInstruction: "fuel_free (executeCFIInstruction ctx cie)"
  unfolding executeCFIInstruction_def exec_primary_def exec_extended_def exec_rules_op_def Let_def
  by (intro fuel_free_intros) (simp_all split: list.split prod.split)

lemma run_cfi_fuel_free:
  "reader_ok (u_reader ctx) \<Longrightarrow> remaining (u_reader ctx) \<le> int n \<Longrightarrow> fuel_free (run_cfi n go_on cie ctx)"
proof (induction n arbitrary: ctx)
  case (Suc n)
  have "fuel_free (run_cfi n go_on cie ctx')" if e: "executeCFIInstruction ctx cie = Inr ctx'" for ctx'
  proof -
    note adv = executeCFIInstruction_advances [OF Suc.prems(1) e]
    show ?thesis
      using Suc.prems advanced_remaining [OF Suc.prems(1) adv] advanced_ok [OF Suc.prems(1) adv]
      by (intro Suc.IH) simp_all
  qed
  then show ?case using fuel_free_executeCFIInstruction by (simp add: fuel_free_rbind)
qed simp

text \<open>
  Building the row of the unwind table ends for every CIE and FDE: one step per
  instruction byte is enough.
\<close>

theorem unwind_row_terminates:
  assumes "length (cie_Instructions (fde_CIE fde)) < 2 ^ 62" "length (fde_Instructions fde) < 2 ^ 62"
  shows "unwind_row fde filePC bias \<noteq> Inl OutOfFuel"
proof -
  have "fuel_free (run_cfi (length bs) go_on cie (ctx\<lparr>u_reader := instr_reader bs\<rparr>))"
    if "length bs < 2 ^ 62" for bs go_on cie ctx
    using that by (intro run_cfi_fuel_free) (simp_all add: instr_reader_def reader_ok_def remaining_def)
  with assms have "fuel_free (unwind_row fde filePC bias)"
    unfolding unwind_row_def Let_def by (intro fuel_free_intros) simp_all
  then show ?thesis by (simp add: fuel_free_def)
qed

section \<open>The caller's registers\<close>

text \<open>The rules of a frame that saves only the registers with DWARF numbers 0 to 16.\<close>

definition gpr_rules :: "rules \<Rightarrow> bool" where
  "gpr_rules m \<longleftrightarrow> (\<forall>k\<in>dom m. unat k < 17)"

text \<open>A \<open>range\<close> loop visits every key of the map once.\<close>

definition ranges_over :: "(rules \<Rightarrow> u64 list) \<Rightarrow> rules \<Rightarrow> bool" where
  "ranges_over order m \<longleftrightarrow> distinct (order m) \<and> set (order m) = dom m"

text \<open>
  The specification of one register of the caller: the value its rule gives; without a rule or
  with a rule that leaves it alone, the CFA for the stack pointer and the callee's value for
  the others.
\<close>

definition caller_reg ::
  "nat \<Rightarrow> (u64 \<Rightarrow> int \<Rightarrow> u8 list res) \<Rightarrow> u64 \<Rightarrow> Registers \<Rightarrow> u64 \<Rightarrow> rules \<Rightarrow> nat \<Rightarrow> u64" where
  "caller_reg fuel mem bias old cfa m i =
     (case m (of_nat i) of
        Some rule \<Rightarrow>
          (case rule_value fuel mem bias old cfa rule of
             Inr (Some v) \<Rightarrow> v
           | _ \<Rightarrow> if i = 7 then cfa else get8 (entry_at i) old)
      | None \<Rightarrow> if i = 7 then cfa else get8 (entry_at i) old)"

definition restores ::
  "nat \<Rightarrow> (u64 \<Rightarrow> int \<Rightarrow> u8 list res) \<Rightarrow> u64 \<Rightarrow> Registers \<Rightarrow> u64 \<Rightarrow> (u64 \<times> registerRule) list \<Rightarrow>
     (RegisterInfo \<times> u64) list" where
  "restores fuel mem bias old cfa rs =
     List.map_filter (\<lambda>(k, rule).
       case rule_value fuel mem bias old cfa rule of
         Inr (Some v) \<Rightarrow> Some (entry_at (unat k), v) | _ \<Rightarrow> None) rs"

lemma byDwarf_u64: "unat k < 17 \<Longrightarrow> RegisterInfoByDwarf (sint (k :: u64)) = Some (entry_at (unat k))"
proof -
  assume k: "unat k < 17"
  have "sint (of_nat n :: u64) = int n" if "n < 17" for n
    using that by (simp add: signed_of_nat signed_take_bit_int_eq_self)
  from this [OF k] have "sint k = int (unat k)" by simp
  with byDwarf_gpr [OF k] show ?thesis by simp
qed

lemma gpr_info_ok: "i < 17 \<Longrightarrow> info_ok (entry_at i)"
  by (simp add: registerInfos_ok entry_at_mem)

lemma entry_at_inject: "i < 17 \<Longrightarrow> j < 17 \<Longrightarrow> entry_at i = entry_at j \<Longrightarrow> i = j"
  by (auto simp: entry_at_eq dest: arg_cong [of _ _ ri_ID])

lemma restores_Nil [simp]: "restores fuel mem bias old cfa [] = []"
  by (simp add: restores_def map_filter_def)

lemma restores_Cons:
  "restores fuel mem bias old cfa ((k, rule) # rs) =
     (case rule_value fuel mem bias old cfa rule of
        Inr (Some v) \<Rightarrow> (entry_at (unat k), v) # restores fuel mem bias old cfa rs
      | _ \<Rightarrow> restores fuel mem bias old cfa rs)"
  by (simp add: restores_def map_filter_def split: sum.split option.split)

lemma apply_rules_fold:
  assumes "regs_ok u" "\<forall>(k, rule)\<in>set rs. unat k < 17"
    and "\<forall>(k, rule)\<in>set rs. is_ok (rule_value fuel mem bias old cfa rule)"
  shows "apply_rules fuel mem bias old cfa rs u =
    Inr (fold (\<lambda>(i, v). put8 i v) (restores fuel mem bias old cfa rs) u)"
  using assms
proof (induction rs arbitrary: u)
  case (Cons p rs)
  obtain k rule where p: "p = (k, rule)" by (cases p)
  then have k: "unat k < 17" and "is_ok (rule_value fuel mem bias old cfa rule)" using Cons.prems by auto
  then obtain v where v: "rule_value fuel mem bias old cfa rule = Inr v" by (auto simp: is_ok_def)
  show ?case
  proof (cases v)
    case None
    with Cons v p k show ?thesis by (simp add: byDwarf_u64 restores_Cons)
  next
    case (Some w)
    have "regs_ok (put8 (entry_at (unat k)) w u)"
      by (rule rf.ok_put [OF Cons.prems(1) gpr_info_ok [OF k]])
    with Cons Some v p k writeRegisterValue_put8 [OF Cons.prems(1) gpr_info_ok [OF k], of w]
    show ?thesis by (simp add: byDwarf_u64 restores_Cons)
  qed
qed simp

lemma apply_rules_ok:
  assumes "apply_rules fuel mem bias old cfa rs u = Inr u'" "\<forall>(k, rule)\<in>set rs. unat k < 17"
  shows "\<forall>(k, rule)\<in>set rs. is_ok (rule_value fuel mem bias old cfa rule)"
  using assms
proof (induction rs arbitrary: u)
  case (Cons p rs)
  obtain k rule where p: "p = (k, rule)" by (cases p)
  with Cons.prems obtain v u1 where "rule_value fuel mem bias old cfa rule = Inr v"
    "apply_rules fuel mem bias old cfa rs u1 = Inr u'"
    by (auto simp: byDwarf_u64 split: option.splits)
  with Cons p show ?case by auto
qed simp

lemma set_range_pairs: "set (range_pairs ks m) = {(k, r). k \<in> set ks \<and> m k = Some r}"
proof (induction ks)
  case (Cons k ks)
  then show ?case by (cases "m k") (auto simp: range_pairs_def map_filter_def)
qed (simp add: range_pairs_def map_filter_def)

lemma distinct_range_pairs: "distinct ks \<Longrightarrow> distinct (map fst (range_pairs ks m))"
proof (induction ks)
  case (Cons k ks)
  have "k \<notin> fst ` set (range_pairs ks m)" using Cons.prems by (auto simp: set_range_pairs)
  with Cons show ?case by (auto simp: range_pairs_def map_filter_def split: option.split)
qed (simp add: range_pairs_def map_filter_def)

lemma set_restores:
  "(x, v) \<in> set (restores fuel mem bias old cfa rs) \<longleftrightarrow>
     (\<exists>k rule. (k, rule) \<in> set rs \<and> x = entry_at (unat k) \<and>
        rule_value fuel mem bias old cfa rule = Inr (Some v))"
proof (induction rs)
  case (Cons p rs)
  obtain k rule where p: "p = (k, rule)" by (cases p)
  show ?case
  proof (cases "\<exists>w. rule_value fuel mem bias old cfa rule = Inr (Some w)")
    case True
    then obtain w where w: "rule_value fuel mem bias old cfa rule = Inr (Some w)" ..
    then have "(x, v) \<in> set (restores fuel mem bias old cfa (p # rs)) \<longleftrightarrow>
        x = entry_at (unat k) \<and> v = w \<or> (x, v) \<in> set (restores fuel mem bias old cfa rs)"
      unfolding p restores_Cons by auto
    with w Cons p show ?thesis by (metis list.set_intros(1,2) set_ConsD old.prod.inject option.inject sum.inject(2))
  next
    case False
    then have "restores fuel mem bias old cfa (p # rs) = restores fuel mem bias old cfa rs"
      unfolding p restores_Cons by (simp split: sum.split option.split)
    with False Cons p show ?thesis by auto
  qed
qed simp

lemma restores_facts:
  assumes "\<forall>(k, rule)\<in>set rs. unat k < 17" "distinct (map fst rs)"
  shows "distinct (map fst (restores fuel mem bias old cfa rs))"
    and "\<forall>(i, v)\<in>set (restores fuel mem bias old cfa rs). info_ok i"
    and "\<forall>(i, v)\<in>set (restores fuel mem bias old cfa rs).
      \<forall>(j, w)\<in>set (restores fuel mem bias old cfa rs). i \<noteq> j \<longrightarrow> apart8 i j"
proof -
  show "distinct (map fst (restores fuel mem bias old cfa rs))"
    using assms
  proof (induction rs)
    case (Cons p rs)
    obtain k rule where p: "p = (k, rule)" by (cases p)
    have "entry_at (unat k) \<notin> fst ` set (restores fuel mem bias old cfa rs)"
    proof
      assume "entry_at (unat k) \<in> fst ` set (restores fuel mem bias old cfa rs)"
      then obtain k' rule' where "(k', rule') \<in> set rs" "entry_at (unat k) = entry_at (unat k')"
        by (auto simp: set_restores)
      moreover from this have "unat k = unat k'" using Cons.prems(1) p by (intro entry_at_inject) auto
      ultimately show False using Cons.prems(2) p by (force simp: word_unat_eq_iff)
    qed
    with Cons p show ?case by (auto simp: restores_Cons split: sum.split option.split)
  qed simp
  show "\<forall>(i, v)\<in>set (restores fuel mem bias old cfa rs). info_ok i"
    using assms(1) gpr_info_ok by (fastforce simp: set_restores)
  show "\<forall>(i, v)\<in>set (restores fuel mem bias old cfa rs).
      \<forall>(j, w)\<in>set (restores fuel mem bias old cfa rs). i \<noteq> j \<longrightarrow> apart8 i j"
    using assms(1) gpr_apart by (fastforce simp: set_restores)
qed

lemma executeUnwindRules_fold:
  assumes "regs_ok old" "gpr_rules (u_rules ctx)" "ranges_over order (u_rules ctx)"
    and "executeUnwindRules fuel mem order ctx old = Inr (unwound, cfa)"
  shows "compute_cfa fuel mem ctx old = Inr cfa"
    and "unwound = fold (\<lambda>(i, v). put8 i v)
      (restores fuel mem (u_loadBias ctx) old cfa (range_pairs (order (u_rules ctx)) (u_rules ctx)))
      (put8 rspInfo cfa (cloneRegisters old))"
    and "\<forall>(k, rule)\<in>set (range_pairs (order (u_rules ctx)) (u_rules ctx)).
      is_ok (rule_value fuel mem (u_loadBias ctx) old cfa rule)"
proof -
  let ?rs = "range_pairs (order (u_rules ctx)) (u_rules ctx)"
  have keys: "\<forall>(k, rule)\<in>set ?rs. unat k < 17"
    using assms(2) by (auto simp: gpr_rules_def set_range_pairs)
  have clone: "regs_ok (cloneRegisters old)" using assms(1) by simp
  have rsp: "info_ok rspInfo" using gpr_info_ok [of 7] by (simp add: entry_rsp)
  show cfa: "compute_cfa fuel mem ctx old = Inr cfa"
    using assms(4) by (auto simp: executeUnwindRules_def)
  have u: "apply_rules fuel mem (u_loadBias ctx) old cfa ?rs (put8 rspInfo cfa (cloneRegisters old)) = Inr unwound"
    using assms(4) cfa writeRegisterValue_put8 [OF clone rsp] by (auto simp: executeUnwindRules_def)
  show ok: "\<forall>(k, rule)\<in>set ?rs. is_ok (rule_value fuel mem (u_loadBias ctx) old cfa rule)"
    by (rule apply_rules_ok [OF u keys])
  show "unwound = fold (\<lambda>(i, v). put8 i v) (restores fuel mem (u_loadBias ctx) old cfa ?rs)
      (put8 rspInfo cfa (cloneRegisters old))"
    using apply_rules_fold [OF rf.ok_put [OF clone rsp] keys ok] u by simp
qed



section \<open>A sample frame\<close>

text \<open>The row of the sample FDE, and the registers and the stack of a call from \<open>0x4242\<close>.\<close>

definition sample_ctx :: unwindContext where
  "sample_ctx =
     \<lparr>u_reader = \<lparr>r_data = [0, 0, 0], r_pos = 3, r_baseAddr = 0\<rparr>, u_location = 0x1000,
      u_cfa = \<lparr>c_reg = 7, c_offset = 8, c_isExpr = False, c_exprData = []\<rparr>,
      u_rules = [16 \<mapsto> RuleOffset (- 8)], u_cieRules = [16 \<mapsto> RuleOffset (- 8)], u_stack = [],
      u_loadBias = 0\<rparr>"

definition sample_stack :: "u64 \<Rightarrow> int \<Rightarrow> u8 list res" where
  "sample_stack a n = Inr (if a = 0x7000 then le_bytes (nat n) (0x4242 :: u64) else replicate (nat n) 0)"

definition sample_regs :: Registers where
  "sample_regs = put8 (entry_at 7) 0x7000 zero_regs"

lemma run_cfi_numeral:
  "run_cfi (numeral n) go_on cie ctx =
     (if 0 < remaining (u_reader ctx) \<and> go_on ctx
      then rbind (executeCFIInstruction ctx cie) (run_cfi (pred_numeral n) go_on cie) else Inr ctx)"
  by (simp add: numeral_eq_Suc)

lemma sample_row: "unwind_row sample_fde 0x1010 0 = Inr sample_ctx"
  by (simp add: unwind_row_def sample_fde_def sample_cie_def newUnwindContext_def instr_reader_def
      copyRules_def sample_ctx_def executeCFIInstruction_def fetch_def exec_extended_def exec_rules_op_def
      exec_primary_def dwCFA_defs readU8_def readULEB128_def go_index_def go_from_def remaining_def
      set_rule_def no_cfa_def run_cfi_numeral Let_def)

lemma sample_regs_ok: "regs_ok sample_regs" "get8 (entry_at 7) sample_regs = 0x7000"
  unfolding sample_regs_def
  by (simp_all add: rf.ok_put rf.get_put_own gpr_info_ok)

lemma sample_unwind:
  "executeUnwindRules 0 sample_stack (\<lambda>_. [16]) sample_ctx sample_regs =
     Inr (put8 ripInfo 0x4242 (put8 rspInfo 0x7008 (cloneRegisters sample_regs)), 0x7008)"
proof -
  have cfa: "compute_cfa 0 sample_stack sample_ctx sample_regs = Inr 0x7008"
    using gpr_read [of 7, OF _ sample_regs_ok(1)] sample_regs_ok(2)
    by (simp add: compute_cfa_def sample_ctx_def dwarf_reg_def entry_rsp)
  have "read_word sample_stack 0x7000 = Inr 0x4242"
    by (simp add: read_word_def sample_stack_def le_word_le_bytes)
  then have v: "rule_value 0 sample_stack 0 sample_regs 0x7008 (RuleOffset (- 8)) = Inr (Some 0x4242)"
    by (simp add: rule_value_def)
  have ok: "regs_ok (cloneRegisters sample_regs)" "info_ok rspInfo" "info_ok ripInfo"
    using sample_regs_ok(1) gpr_info_ok [of 7] by (simp_all add: entry_rsp)
  show ?thesis
    using v writeRegisterValue_put8 [OF ok(1,2)]
      writeRegisterValue_put8 [OF rf.ok_put [OF ok(1,2)] ok(3)]
    by (simp add: executeUnwindRules_def cfa) (simp add: sample_ctx_def range_pairs_def)
qed

lemma sample_rules: "gpr_rules (u_rules sample_ctx)" "ranges_over (\<lambda>_. [16]) (u_rules sample_ctx)"
  by (simp_all add: gpr_rules_def ranges_over_def sample_ctx_def)

theorem unwind_row_terminates_witness: "unwind_row sample_fde 0x1010 0 \<noteq> Inl OutOfFuel"
  by (rule unwind_row_terminates) (simp_all add: sample_fde_def sample_cie_def)



section \<open>Instruction streams\<close>

text \<open>
  The instructions compilers emit for ordinary frames, their encoding in the DWARF standard
  (section 6.4.2), and what they do to the row under construction.
\<close>

datatype cfi_instr =
    Advance u8
  | SaveAt u8 u64
  | RestoreReg u8
  | DefCFA u64 u64
  | DefCFAReg u64
  | DefCFAOff u64
  | Same u64
  | Undef u64
  | InReg u64 u64
  | Remember
  | RestoreState
  | Nop

fun encode :: "cfi_instr \<Rightarrow> u8 list" where
  "encode (Advance d) = [0x40 OR d]"
| "encode (SaveAt reg off) = (0x80 OR reg) # uleb_encode off"
| "encode (RestoreReg reg) = [0xc0 OR reg]"
| "encode (DefCFA reg off) = 0x0c # uleb_encode reg @ uleb_encode off"
| "encode (DefCFAReg reg) = 0x0d # uleb_encode reg"
| "encode (DefCFAOff off) = 0x0e # uleb_encode off"
| "encode (Same reg) = 0x08 # uleb_encode reg"
| "encode (Undef reg) = 0x07 # uleb_encode reg"
| "encode (InReg reg other) = 0x09 # uleb_encode reg @ uleb_encode other"
| "encode Remember = [0x0a]"
| "encode RestoreState = [0x0b]"
| "encode Nop = [0x00]"

fun small :: "cfi_instr \<Rightarrow> bool" where
  "small (Advance d) = (d < 64)"
| "small (SaveAt reg off) = (reg < 64)"
| "small (RestoreReg reg) = (reg < 64)"
| "small _ = True"

fun exec_instr :: "CIE \<Rightarrow> cfi_instr \<Rightarrow> unwindContext \<Rightarrow> unwindContext res" where
  "exec_instr cie (Advance d) ctx = Inr (advance_loc (ucast d) cie ctx)"
| "exec_instr cie (SaveAt reg off) ctx =
     Inr (set_rule (ucast reg) (RuleOffset (off * DataAlignmentFactor cie)) ctx)"
| "exec_instr cie (RestoreReg reg) ctx = Inr (restore_rule (ucast reg) ctx)"
| "exec_instr cie (DefCFA reg off) ctx =
     Inr (ctx\<lparr>u_cfa := \<lparr>c_reg = reg, c_offset = off, c_isExpr = False, c_exprData = []\<rparr>\<rparr>)"
| "exec_instr cie (DefCFAReg reg) ctx = Inr (ctx\<lparr>u_cfa := (u_cfa ctx)\<lparr>c_reg := reg\<rparr>\<rparr>)"
| "exec_instr cie (DefCFAOff off) ctx = Inr (ctx\<lparr>u_cfa := (u_cfa ctx)\<lparr>c_offset := off\<rparr>\<rparr>)"
| "exec_instr cie (Same reg) ctx = Inr (set_rule reg RuleSameValue ctx)"
| "exec_instr cie (Undef reg) ctx = Inr (set_rule reg RuleUndefined ctx)"
| "exec_instr cie (InReg reg other) ctx = Inr (set_rule reg (RuleRegister other) ctx)"
| "exec_instr cie Remember ctx = Inr (ctx\<lparr>u_stack := (u_rules ctx, u_cfa ctx) # u_stack ctx\<rparr>)"
| "exec_instr cie RestoreState ctx =
     (case u_stack ctx of
        [] \<Rightarrow> Inl (Error RuleStackEmpty)
      | (rs, cfa) # st \<Rightarrow> Inr (ctx\<lparr>u_stack := st, u_rules := rs, u_cfa := cfa\<rparr>))"
| "exec_instr cie Nop ctx = Inr ctx"

fun exec_all :: "CIE \<Rightarrow> cfi_instr list \<Rightarrow> unwindContext \<Rightarrow> unwindContext res" where
  "exec_all cie [] ctx = Inr ctx"
| "exec_all cie (i # is) ctx = rbind (exec_instr cie i ctx) (exec_all cie is)"

definition encode_all :: "cfi_instr list \<Rightarrow> u8 list" where
  "encode_all is = concat (map encode is)"

lemma bit_int_c0: "bit (0xc0 :: int) n \<longleftrightarrow> n = 6 \<or> n = 7"
proof -
  have "(0xc0 :: int) = push_bit 6 (mask 2)" by (simp add: mask_eq_exp_minus_1 push_bit_eq_mult)
  then show ?thesis by (simp only: bit_push_bit_iff bit_mask_iff) auto
qed

lemma bit_int_3f: "bit (0x3f :: int) n \<longleftrightarrow> n < 6"
proof -
  have "(0x3f :: int) = mask 6" by (simp add: mask_eq_exp_minus_1)
  then show ?thesis by (simp only: bit_mask_iff) auto
qed

lemma low6_bits: "d < 64 \<Longrightarrow> bit (d :: u8) n \<Longrightarrow> n < 6"
proof -
  assume d: "d < 64" and b: "bit d n"
  have "unat d < 2 ^ 6" using d by (simp add: word_less_nat_alt)
  then have "take_bit 6 (unat d) = unat d" by (simp add: take_bit_nat_eq_self)
  then have "take_bit 6 d = d" by (simp add: word_unat_eq_iff unsigned_take_bit_eq)
  then show "n < 6" using b by (metis bit_take_bit_iff)
qed

lemma split_primary:
  assumes "d < 64"
  shows "(0x40 OR d) AND 0xc0 = (0x40 :: u8)" "(0x40 OR d) AND 0x3f = d"
    "(0x80 OR d) AND 0xc0 = (0x80 :: u8)" "(0x80 OR d) AND 0x3f = d"
    "(0xc0 OR d) AND 0xc0 = (0xc0 :: u8)" "(0xc0 OR d) AND 0x3f = d"
proof -
  have n: "\<not> bit d 6" "\<not> bit d 7"
    using low6_bits [OF assms, of 6] low6_bits [OF assms, of 7] by auto
  note bits = bit_simps mask_bits bit_int_c0 bit_int_3f
  show "(0x40 OR d) AND 0xc0 = (0x40 :: u8)" by (rule bit_eqI) (use n in \<open>auto simp: bits\<close>)
  show "(0x80 OR d) AND 0xc0 = (0x80 :: u8)" by (rule bit_eqI) (use n in \<open>auto simp: bits\<close>)
  show "(0xc0 OR d) AND 0xc0 = (0xc0 :: u8)" by (rule bit_eqI) (use n in \<open>auto simp: bits\<close>)
  show "(0x40 OR d) AND 0x3f = d" by (rule bit_eqI) (use low6_bits [OF assms] in \<open>auto simp: bits\<close>)
  show "(0x80 OR d) AND 0x3f = d" by (rule bit_eqI) (use low6_bits [OF assms] in \<open>auto simp: bits\<close>)
  show "(0xc0 OR d) AND 0x3f = d" by (rule bit_eqI) (use low6_bits [OF assms] in \<open>auto simp: bits\<close>)
qed

lemmas exec_ops = executeCFIInstruction_def fetch_def exec_primary_def exec_extended_def exec_rules_op_def dwCFA_defs Let_def

lemma exec_encoded:
  assumes "u_reader ctx = reader_at pre (encode i @ rest) base" "length (pre @ encode i @ rest) < 2 ^ 62"
    and "small i"
  shows "executeCFIInstruction ctx cie =
    exec_instr cie i (ctx\<lparr>u_reader := reader_at (pre @ encode i) rest base\<rparr>)"
proof (cases i)
  case (Advance d)
  with assms readU8_at [of pre "0x40 OR d" rest base] show ?thesis
    by (simp add: exec_ops split_primary)
next
  case (SaveAt reg off)
  with assms readU8_at [of pre "0x80 OR reg" "uleb_encode off @ rest" base]
    readULEB128_at [of "pre @ [0x80 OR reg]" off rest base] show ?thesis
    by (simp add: exec_ops split_primary)
next
  case (RestoreReg reg)
  with assms readU8_at [of pre "0xc0 OR reg" rest base] show ?thesis
    by (simp add: exec_ops split_primary)
next
  case (DefCFA reg off)
  with assms readU8_at [of pre "0x0c" "uleb_encode reg @ uleb_encode off @ rest" base]
    readULEB128_at [of "pre @ [0x0c]" reg "uleb_encode off @ rest" base]
    readULEB128_at [of "pre @ 0x0c # uleb_encode reg" off rest base] show ?thesis
    by (simp add: exec_ops no_cfa_def)
next
  case (DefCFAReg reg)
  with assms readU8_at [of pre "0x0d" "uleb_encode reg @ rest" base]
    readULEB128_at [of "pre @ [0x0d]" reg rest base] show ?thesis by (simp add: exec_ops)
next
  case (DefCFAOff off)
  with assms readU8_at [of pre "0x0e" "uleb_encode off @ rest" base]
    readULEB128_at [of "pre @ [0x0e]" off rest base] show ?thesis by (simp add: exec_ops)
next
  case (Same reg)
  with assms readU8_at [of pre "0x08" "uleb_encode reg @ rest" base]
    readULEB128_at [of "pre @ [0x08]" reg rest base] show ?thesis by (simp add: exec_ops)
next
  case (Undef reg)
  with assms readU8_at [of pre "0x07" "uleb_encode reg @ rest" base]
    readULEB128_at [of "pre @ [0x07]" reg rest base] show ?thesis by (simp add: exec_ops)
next
  case (InReg reg other)
  with assms readU8_at [of pre "0x09" "uleb_encode reg @ uleb_encode other @ rest" base]
    readULEB128_at [of "pre @ [0x09]" reg "uleb_encode other @ rest" base]
    readULEB128_at [of "pre @ 0x09 # uleb_encode reg" other rest base] show ?thesis
    by (simp add: exec_ops)
next
  case Remember
  with assms readU8_at [of pre "0x0a" rest base] show ?thesis by (simp add: exec_ops copyRules_def)
next
  case RestoreState
  with assms readU8_at [of pre "0x0b" rest base] show ?thesis
    by (simp add: exec_ops split: list.split prod.split)
next
  case Nop
  with assms readU8_at [of pre 0 rest base] show ?thesis by (simp add: exec_ops)
qed

text \<open>Executing instructions does not look at the reader.\<close>

lemma exec_instr_reader:
  "exec_instr cie i (c\<lparr>u_reader := r\<rparr>) = rbind (exec_instr cie i c) (\<lambda>c. Inr (c\<lparr>u_reader := r\<rparr>))"
  by (cases i) (auto simp: set_rule_def restore_rule_def advance_loc_def split: option.split list.split)

lemma exec_all_reader:
  "rbind (exec_all cie is (c\<lparr>u_reader := r\<rparr>)) (\<lambda>c. Inr (c\<lparr>u_reader := q\<rparr>)) =
    rbind (exec_all cie is c) (\<lambda>c. Inr (c\<lparr>u_reader := q\<rparr>))"
proof (induction "is" arbitrary: c)
  case (Cons j js)
  then show ?case by (cases "exec_instr cie j c") (simp_all add: exec_instr_reader)
qed simp

lemma run_encoded:
  assumes "u_reader ctx = reader_at pre (encode_all is) base" "length (pre @ encode_all is) < 2 ^ 62"
    and "list_all small is" "length is \<le> n"
  shows "rbind (run_cfi n (\<lambda>_. True) cie ctx) (\<lambda>c. Inr (c\<lparr>u_reader := q\<rparr>)) =
    rbind (exec_all cie is ctx) (\<lambda>c. Inr (c\<lparr>u_reader := q\<rparr>))"
  using assms
proof (induction "is" arbitrary: ctx pre n)
  case Nil
  then show ?case using remaining_at [of pre "[]" base] by (cases n) (simp_all add: encode_all_def)
next
  case (Cons i "is")
  obtain m where n: "n = Suc m" "length is \<le> m" using Cons.prems(4) by (cases n) auto
  have enc: "encode_all (i # is) = encode i @ encode_all is" by (simp add: encode_all_def)
  have "0 < int (length (encode i @ encode_all is))" by (cases i) simp_all
  then have rem: "0 < remaining (u_reader ctx)"
    using Cons.prems(1,2) remaining_at [of pre "encode_all (i # is)" base] enc by simp
  let ?c = "ctx\<lparr>u_reader := reader_at (pre @ encode i) (encode_all is) base\<rparr>"
  have step: "executeCFIInstruction ctx cie = exec_instr cie i ?c"
    using Cons.prems enc by (intro exec_encoded) simp_all
  show ?case
  proof (cases "exec_instr cie i ctx")
    case (Inl e)
    then show ?thesis using n rem step exec_instr_reader [where c = ctx] by simp
  next
    case (Inr c)
    have "rbind (run_cfi m (\<lambda>_. True) cie (c\<lparr>u_reader := reader_at (pre @ encode i) (encode_all is) base\<rparr>))
        (\<lambda>c. Inr (c\<lparr>u_reader := q\<rparr>)) =
      rbind (exec_all cie is (c\<lparr>u_reader := reader_at (pre @ encode i) (encode_all is) base\<rparr>))
        (\<lambda>c. Inr (c\<lparr>u_reader := q\<rparr>))"
      using Cons.prems enc n by (intro Cons.IH [where pre = "pre @ encode i"]) simp_all
    with Inr n rem step exec_instr_reader [where c = ctx] show ?thesis by (simp add: exec_all_reader)
  qed
qed


text \<open>Programs whose remember and restore instructions match.\<close>

fun balanced :: "nat \<Rightarrow> cfi_instr list \<Rightarrow> bool" where
  "balanced d [] = (d = 0)"
| "balanced d (i # is) =
     (if i = Remember then balanced (Suc d) is
      else if i = RestoreState then 0 < d \<and> balanced (d - 1) is
      else balanced d is)"

lemma exec_instr_stack:
  "i \<noteq> Remember \<Longrightarrow> i \<noteq> RestoreState \<Longrightarrow> \<exists>c'. exec_instr cie i c = Inr c' \<and> u_stack c' = u_stack c"
  by (cases i) (auto simp: set_rule_def restore_rule_def advance_loc_def split: option.split)

lemma exec_balanced:
  "balanced d is \<Longrightarrow> u_stack c = ss @ base \<Longrightarrow> length ss = d \<Longrightarrow>
    \<exists>c'. exec_all cie is c = Inr c' \<and> u_stack c' = base"
proof (induction "is" arbitrary: c ss d)
  case (Cons i "is")
  consider "i = Remember" | "i = RestoreState" | "i \<noteq> Remember" "i \<noteq> RestoreState" by blast
  then show ?case
  proof cases
    case 1
    with Cons.prems Cons.IH [of "Suc d" "c\<lparr>u_stack := (u_rules c, u_cfa c) # u_stack c\<rparr>"
        "(u_rules c, u_cfa c) # ss"] show ?thesis by simp
  next
    case 2
    with Cons.prems obtain rs cfa ss' where "ss = (rs, cfa) # ss'" by (cases ss) auto
    with 2 Cons.prems Cons.IH [of "d - 1" "c\<lparr>u_stack := ss' @ base, u_rules := rs, u_cfa := cfa\<rparr>" ss']
    show ?thesis by simp
  next
    case 3
    then obtain c' where "exec_instr cie i c = Inr c'" "u_stack c' = u_stack c"
      using exec_instr_stack by blast
    with 3 Cons.prems Cons.IH [of d c' ss] show ?thesis by simp
  qed
qed simp

text \<open>
  \<open>DW_CFA_remember_state\<close> and the matching \<open>DW_CFA_restore_state\<close> bracket a
  change of the row: whatever balanced program runs between them, the rules, the CFA and the
  saved states afterwards are those of before.
\<close>

theorem remember_restore:
  assumes "balanced 0 body"
  shows "\<exists>c'. exec_all cie (Remember # body @ [RestoreState]) c = Inr c' \<and>
    u_rules c' = u_rules c \<and> u_cfa c' = u_cfa c \<and> u_stack c' = u_stack c"
proof -
  let ?c = "c\<lparr>u_stack := (u_rules c, u_cfa c) # u_stack c\<rparr>"
  have app: "exec_all cie (is @ js) x = rbind (exec_all cie is x) (exec_all cie js)" for "is" js x
    by (induction "is" arbitrary: x) (simp_all add: rbind_def split: sum.split)
  obtain c' where "exec_all cie body ?c = Inr c'" "u_stack c' = (u_rules c, u_cfa c) # u_stack c"
    using exec_balanced [OF assms, of ?c "[]"] by auto
  then show ?thesis by (simp add: app)
qed

theorem remember_restore_witness:
  "\<exists>c'. exec_all sample_cie [Remember, DefCFAOff 16, SaveAt 6 2, RestoreState] sample_ctx = Inr c' \<and>
    u_rules c' = u_rules sample_ctx \<and> u_cfa c' = u_cfa sample_ctx \<and> u_stack c' = u_stack sample_ctx"
  using remember_restore [of "[DefCFAOff 16, SaveAt 6 2]" sample_cie sample_ctx] by simp


end
