(* ===== verification/Locations.thy ===== *)
theory Locations
  imports Unwind Debug_Info
begin

text \<open>
  Where variables live, \<open>src/debugger/dwarf_loc.go\<close>: location attributes and location lists, the
  global variable index, and the assembly of a value from the pieces an expression yields.  With
  \<open>evalFrameBase\<close> of \<open>Dwarf_Expr\<close> the evaluation is recursive, since a frame base is itself a
  location attribute; the nesting is bounded by fuel.
\<close>

section \<open>Bit copies\<close>

definition bit_at :: "u8 list \<Rightarrow> nat \<Rightarrow> bool" where
  "bit_at bs n \<longleftrightarrow> n div 8 < length bs \<and> bit (bs ! (n div 8)) (n mod 8)"

primrec copy_bits :: "nat \<Rightarrow> u8 list \<Rightarrow> u64 \<Rightarrow> u8 list \<Rightarrow> u64 \<Rightarrow> u8 list res" where
  "copy_bits 0 dest di src si = Inr dest"
| "copy_bits (Suc n) dest di src si =
     (if length dest \<le> unat (di div 8) then Inl Panic
      else
        let destMask = push_bit (unat (di mod 8)) 1;
            b = dest ! unat (di div 8) AND NOT destMask;
            srcMask = push_bit (unat (si mod 8)) 1;
            b' = (if unat (si div 8) < length src \<and> src ! unat (si div 8) AND srcMask \<noteq> 0
                  then b OR destMask else b)
        in copy_bits n (dest[unat (di div 8) := b']) (di + 1) src (si + 1))"

definition memcpyBits :: "u8 list \<Rightarrow> u64 \<Rightarrow> u8 list \<Rightarrow> u64 \<Rightarrow> u64 \<Rightarrow> u8 list res" where
  "memcpyBits dest destBit src srcBit nBits = copy_bits (unat nBits) dest destBit src srcBit"

lemma unat_div_8: "unat (w div (8 :: u64)) = unat w div 8" and unat_mod_8: "unat (w mod (8 :: u64)) = unat w mod 8"
  by (simp_all add: unat_div unat_mod)

lemma bit_one_shift: "bit (push_bit m (1 :: u8)) n \<longleftrightarrow> n = m \<and> m < 8"
  by (auto simp: bit_simps)

lemma bit_at_update:
  assumes "i div 8 < length dest"
  shows "bit_at (dest[i div 8 := b]) j =
    (if j div 8 = i div 8 then bit b (j mod 8) else bit_at dest j)"
  using assms by (auto simp: bit_at_def nth_list_update)

lemma same_bit: "j div 8 = i div 8 \<and> j mod 8 = i mod 8 \<longleftrightarrow> j = (i :: nat)"
  by (metis div_mult_mod_eq)

lemma copy_bits_spec:
  assumes "unat di + n \<le> 8 * length dest" "unat di + n < 2 ^ 64" "unat si + n < 2 ^ 64"
  shows "\<exists>out. copy_bits n dest di src si = Inr out \<and> length out = length dest \<and>
    (\<forall>j. bit_at out j =
       (if unat di \<le> j \<and> j < unat di + n then bit_at src (unat si + (j - unat di)) else bit_at dest j))"
  using assms
proof (induction n arbitrary: dest di si)
  case (Suc n)
  let ?d = "unat di" and ?s = "unat si"
  let ?b = "dest ! (?d div 8) AND NOT (push_bit (?d mod 8) 1)"
  let ?b' = "if ?s div 8 < length src \<and> src ! (?s div 8) AND push_bit (?s mod 8) 1 \<noteq> 0
             then ?b OR push_bit (?d mod 8) 1 else ?b"
  let ?dest = "dest[?d div 8 := ?b']"
  have len: "?d div 8 < length dest" using Suc.prems(1) by (simp add: div_less_iff_less_mult mult.commute)
  have step: "copy_bits (Suc n) dest di src si = copy_bits n ?dest (di + 1) src (si + 1)"
    using len by (simp add: unat_div_8 unat_mod_8 Let_def)
  have nxt: "unat (di + 1) = ?d + 1" "unat (si + 1) = ?s + 1"
    using Suc.prems(2,3) by (simp_all add: unat_word_ariths)
  have b': "bit ?b' m = (if m = ?d mod 8 then bit_at src ?s else bit (dest ! (?d div 8)) m)" if "m < 8" for m
    using that by (auto simp: bit_at_def and_exp_eq_0_iff_not_bit bit_simps bit_one_shift)
  have upd: "bit_at ?dest j = (if j = ?d then bit_at src ?s else bit_at dest j)" for j
    unfolding bit_at_update [OF len] using b' [of "j mod 8"] same_bit [of j ?d] len
    by (auto simp: bit_at_def)
  obtain out where out: "copy_bits n ?dest (di + 1) src (si + 1) = Inr out" "length out = length ?dest"
    "\<And>j. bit_at out j = (if ?d + 1 \<le> j \<and> j < ?d + 1 + n then bit_at src (?s + 1 + (j - (?d + 1))) else bit_at ?dest j)"
    using Suc.IH [of "di + 1" ?dest "si + 1"] Suc.prems nxt by auto
  have "bit_at out j = (if ?d \<le> j \<and> j < ?d + Suc n then bit_at src (?s + (j - ?d)) else bit_at dest j)" for j
  proof (cases "?d + 1 \<le> j \<and> j < ?d + 1 + n")
    case True
    then have "?s + 1 + (j - (?d + 1)) = ?s + (j - ?d)" by arith
    with True out(3) [of j] show ?thesis by simp
  next
    case False
    then have "bit_at out j = bit_at ?dest j" using out(3) [of j] by (simp only: if_False)
    moreover have "\<not> (?d \<le> j \<and> j < ?d + Suc n)" if "j \<noteq> ?d" using False that by arith
    ultimately show ?thesis using upd [of j] by (cases "j = ?d") (simp, simp only: if_False simp_thms)
  qed
  with out(1,2) step show ?case by auto
qed auto

section \<open>Reading a value\<close>

definition go_make :: "int \<Rightarrow> u8 list res" where
  "go_make n = (if n < 0 then Inl Panic else Inr (replicate (nat n) 0))"

definition registerValueToBytes :: "regval \<Rightarrow> int \<Rightarrow> u8 list res" where
  "registerValueToBytes val regSize =
     (case val of
        VU64 v \<Rightarrow> if regSize < 8 then go_slice (le_bytes 8 v) 0 regSize else Inr (le_bytes 8 v)
      | VU32 v \<Rightarrow> Inr (le_bytes 4 v)
      | VU16 v \<Rightarrow> Inr (le_bytes 2 v)
      | VU8 v \<Rightarrow> Inr [v]
      | VB8 bs \<Rightarrow> Inr (go_copy (replicate 8 0) bs)
      | VB16 bs \<Rightarrow> Inr (go_copy (replicate 16 0) bs)
      | _ \<Rightarrow> go_make regSize)"

definition readSimpleLocationData ::
  "(u64 \<Rightarrow> int \<Rightarrow> u8 list res) \<Rightarrow> Registers \<Rightarrow> SimpleLocation \<Rightarrow> int \<Rightarrow> u8 list res" where
  "readSimpleLocationData mem regs loc sz =
     (case loc of
        LocRegister n \<Rightarrow>
          (case RegisterInfoByDwarf (sint n) of
             None \<Rightarrow> Inl (Error (UnknownDwarfRegister (sint n)))
           | Some rinfo \<Rightarrow> rbind (Read regs rinfo) (\<lambda>val. registerValueToBytes val (ri_Size rinfo)))
      | LocAddress a \<Rightarrow> mem a sz
      | LocLiteral v \<Rightarrow> if sz < 8 then go_slice (le_bytes 8 v) 0 sz else Inr (le_bytes 8 v)
      | LocData bs \<Rightarrow> rbind (go_make sz) (\<lambda>buf. Inr (go_copy buf bs))
      | LocEmpty \<Rightarrow> Inl (Error OptimizedOut))"

text \<open>One piece of a composite value, at the bit offset reached so far.\<close>

definition add_piece_data ::
  "(u64 \<Rightarrow> int \<Rightarrow> u8 list res) \<Rightarrow> Registers \<Rightarrow> Piece \<Rightarrow> u8 list \<times> u64 \<Rightarrow> (u8 list \<times> u64) res" where
  "add_piece_data mem regs p = (\<lambda>(data, bitOffset).
     rbind (readSimpleLocationData mem regs (p_Location p) (sint ((p_BitSize p + 7) div 8))) (\<lambda>pieceData.
     rbind (if bitOffset mod 8 = 0 \<and> p_Offset p = 0 \<and> p_BitSize p mod 8 = 0 then
              rbind (go_from data (uint (bitOffset div 8))) (\<lambda>_.
                Inr (overwrite (unat (bitOffset div 8))
                       (take (length data - unat (bitOffset div 8)) pieceData) data))
            else memcpyBits data bitOffset pieceData (p_Offset p) (p_BitSize p)) (\<lambda>data.
     Inr (data, bitOffset + p_BitSize p))))"

definition ReadLocationData ::
  "(u64 \<Rightarrow> int \<Rightarrow> u8 list res) \<Rightarrow> Registers \<Rightarrow> ExprResult \<Rightarrow> int \<Rightarrow> u8 list res" where
  "ReadLocationData mem regs result sz =
     (case result of
        Single loc \<Rightarrow> readSimpleLocationData mem regs loc sz
      | Composite pieces \<Rightarrow>
          rbind (go_make sz) (\<lambda>data.
          rbind (rfold (add_piece_data mem regs) pieces (data, 0)) (\<lambda>(data, _). Inr data)))"

section \<open>Location attributes\<close>

text \<open>
  What an evaluation needs of its surroundings: the memory of the process, the canonical frame
  address that the unwinder of the object at a program counter computes (if it can), and the
  fuel of one expression.
\<close>

record loc_env =
  l_mem :: "u64 \<Rightarrow> int \<Rightarrow> u8 list res"
  l_unwindCFA :: "Registers \<Rightarrow> u64 \<Rightarrow> u64 option res"
  l_fuel :: nat

definition eval_expr ::
  "loc_env \<Rightarrow> DWARF \<Rightarrow> Registers \<Rightarrow> u64 res \<Rightarrow> u8 list \<Rightarrow> bool \<Rightarrow> u64 \<Rightarrow> ExprResult res" where
  "eval_expr env d regs frameBase bs inFrameInfo cfa =
     Eval (l_fuel env)
       \<lparr>e_data = bs, e_inFrameInfo = inFrameInfo, e_loadBias = d_loadBias d, e_regs = regs, e_cfa = cfa,
        e_mem = l_mem env, e_frameBase = frameBase\<rparr> False"

function unit_base :: "Entry list \<Rightarrow> u64 \<Rightarrow> u64" where
  "unit_base [] filePC = 0"
| "unit_base (e # es) filePC =
     (if en_Tag e \<noteq> TagCompileUnit then unit_base (SkipChildren e es) filePC
      else if entry_contains e filePC then (case en_Lowpc e of Some lowPC \<Rightarrow> lowPC | None \<Rightarrow> 0)
      else unit_base (SkipChildren e es) filePC)"
  by pat_completeness auto
termination
  by (relation "measure (\<lambda>(es, _). length es)") (simp_all add: le_imp_less_Suc length_SkipChildren)

definition getCompileUnitBaseAddress :: "DWARF \<Rightarrow> u64 \<Rightarrow> u64" where
  "getCompileUnitBaseAddress d filePC = unit_base (d_data d) filePC"

definition getDebugLocData :: "DWARF \<Rightarrow> u8 list res" where
  "getDebugLocData d = (case d_locSection d of Some bs \<Rightarrow> Inr bs | None \<Rightarrow> Inl (Error NoLocSection))"

text \<open>
  The scan of a location list: the expression of the first entry that covers the program counter,
  or \<open>None\<close> at the end of the list.  The fuel bounds the entries read.
\<close>

primrec loc_list :: "nat \<Rightarrow> u64 \<Rightarrow> u64 \<Rightarrow> cfiReader \<Rightarrow> u8 list option res" where
  "loc_list 0 filePC baseAddr r = Inl OutOfFuel"
| "loc_list (Suc n) filePC baseAddr r =
     rbind (readU64 r) (\<lambda>(first, r).
     rbind (readU64 r) (\<lambda>(second, r).
     if first = 0 \<and> second = 0 then Inr None
     else if first = NOT 0 then loc_list n filePC second r
     else
       rbind (readU16 r) (\<lambda>(len, r).
       if baseAddr + first \<le> filePC \<and> filePC < baseAddr + second
       then rbind (go_slice (r_data r) (r_pos r) (r_pos r + uint len)) (\<lambda>bs. Inr (Some bs))
       else loc_list n filePC baseAddr (r\<lparr>r_pos := r_pos r + uint len\<rparr>))))"

definition evalLocationList ::
  "loc_env \<Rightarrow> DWARF \<Rightarrow> Registers \<Rightarrow> u64 res \<Rightarrow> u64 \<Rightarrow> bool \<Rightarrow> ExprResult res" where
  "evalLocationList env d regs frameBase locOffset inFrameInfo =
     rbind (getDebugLocData d) (\<lambda>locData.
     if int (length locData) \<le> sint locOffset then Inl (Error (LocOutOfRange locOffset))
     else
       rbind (readRegisterUint64 regs ripInfo) (\<lambda>virtPC.
       let filePC = virtPC - d_loadBias d in
       rbind (go_from locData (uint locOffset)) (\<lambda>bs.
       rbind (loc_list (length bs) filePC (getCompileUnitBaseAddress d filePC) \<lparr>r_data = bs, r_pos = 0, r_baseAddr = 0\<rparr>)
         (\<lambda>found. case found of
            Some exprData \<Rightarrow> eval_expr env d regs frameBase exprData inFrameInfo 0
          | None \<Rightarrow> Inr (Single LocEmpty)))))"

definition evalLocationFieldWithCFA ::
  "loc_env \<Rightarrow> DWARF \<Rightarrow> Registers \<Rightarrow> u64 res \<Rightarrow> Field \<Rightarrow> bool \<Rightarrow> u64 \<Rightarrow> ExprResult res" where
  "evalLocationFieldWithCFA env d regs frameBase field inFrameInfo cfa =
     (case f_Class field of
        ClassExprLoc \<Rightarrow>
          (case f_Val field of
             ValBytes bs \<Rightarrow> eval_expr env d regs frameBase bs inFrameInfo cfa
           | _ \<Rightarrow> Inl (Error BadAttribute))
      | ClassLocListPtr \<Rightarrow>
          (case f_Val field of
             ValInt off \<Rightarrow> evalLocationList env d regs frameBase off inFrameInfo
           | _ \<Rightarrow> Inl (Error BadAttribute))
      | ClassOther \<Rightarrow> Inl (Error BadAttribute))"

primrec EvalLocationAttrWithCFA ::
  "nat \<Rightarrow> loc_env \<Rightarrow> DWARF \<Rightarrow> Registers \<Rightarrow> Offset \<Rightarrow> bool \<Rightarrow> u64 \<Rightarrow> ExprResult res" where
  "EvalLocationAttrWithCFA 0 env d regs off inFrameInfo cfa = Inl OutOfFuel"
| "EvalLocationAttrWithCFA (Suc n) env d regs off inFrameInfo cfa =
     (case next_entry (d_data d) off of
        None \<Rightarrow> Inl (Error (NoDIE off))
      | Some e \<Rightarrow>
        (case (if inFrameInfo then en_FrameBase e else en_Location e) of
           None \<Rightarrow> Inl (Error (NoAttribute off))
         | Some field \<Rightarrow>
             evalLocationFieldWithCFA env d regs
               (evalFrameBase True (\<lambda>pc. map_option fn_DIEOffset (FunctionContainingPC d pc))
                  (l_unwindCFA env regs) (\<lambda>fn cfa. EvalLocationAttrWithCFA n env d regs fn True cfa) regs)
               field inFrameInfo cfa))"

definition EvalLocationAttr ::
  "nat \<Rightarrow> loc_env \<Rightarrow> DWARF \<Rightarrow> Registers \<Rightarrow> Offset \<Rightarrow> bool \<Rightarrow> ExprResult res" where
  "EvalLocationAttr n env d regs off inFrameInfo = EvalLocationAttrWithCFA n env d regs off inFrameInfo 0"

section \<open>The global variable index\<close>

definition add_global :: "Entry \<Rightarrow> bool \<times> int \<times> globalVarEntry list \<Rightarrow> bool \<times> int \<times> globalVarEntry list" where
  "add_global e = (\<lambda>(inFunction, functionDepth, vars).
     if en_Tag e = TagNull then
       (if inFunction then (functionDepth - 1 \<noteq> 0, functionDepth - 1, vars) else (inFunction, functionDepth, vars))
     else
       let (inF, depth, vars) =
             (case en_Tag e of
                TagSubprogram \<Rightarrow> (True, 1, vars)
              | TagVariable \<Rightarrow>
                  (inFunction, functionDepth,
                   if \<not> inFunction \<and> entryName e \<noteq> '''' \<and> en_Location e \<noteq> None
                   then vars @ [\<lparr>gv_name = entryName e, gv_dieOffset = en_Offset e\<rparr>] else vars)
              | _ \<Rightarrow> (inFunction, functionDepth, vars))
       in (inF, if inF \<and> en_Children e then depth + 1 else depth, vars))"

definition buildGlobalVarIndex :: "DWARF \<Rightarrow> DWARF" where
  "buildGlobalVarIndex d =
     (if d_globalVarsBuilt d then d
      else case fold add_global (d_data d) (False, 0, d_globalVars d) of
        (_, _, vars) \<Rightarrow> d\<lparr>d_globalVarsBuilt := True, d_globalVars := vars\<rparr>)"

definition FindGlobalVariable :: "DWARF \<Rightarrow> string \<Rightarrow> Offset option \<times> DWARF" where
  "FindGlobalVariable d name =
     (let d' = buildGlobalVarIndex d
      in (map_option gv_dieOffset (find (\<lambda>g. gv_name g = name) (d_globalVars d')), d'))"

section \<open>A composite value holds the bits of its pieces\<close>

lemma bit_at_overwrite:
  assumes "off + length src \<le> length dst"
  shows "bit_at (overwrite off src dst) j =
    (if off \<le> j div 8 \<and> j div 8 < off + length src then bit_at src (j - 8 * off) else bit_at dst j)"
proof (cases "off \<le> j div 8 \<and> j div 8 < off + length src")
  case True
  then have "8 * off \<le> j" by (simp add: less_eq_div_iff_mult_less_eq mult.commute)
  then have "(j - 8 * off) div 8 = j div 8 - off" "(j - 8 * off) mod 8 = j mod 8"
    by (metis add_diff_inverse_nat diff_add_inverse div_mult_self4 less_iff_succ_less_eq not_less zero_neq_numeral,
        metis le_add_diff_inverse2 mod_mult_self2)
  moreover have "j div 8 - off < length src" using True by linarith
  ultimately show ?thesis using True assms by (auto simp: bit_at_def overwrite_nth)
next
  case False
  then show ?thesis using assms by (auto simp: bit_at_def overwrite_nth)
qed

abbreviation piece_data :: "(u64 \<Rightarrow> int \<Rightarrow> u8 list res) \<Rightarrow> Registers \<Rightarrow> Piece \<Rightarrow> u8 list res" where
  "piece_data mem regs p \<equiv> readSimpleLocationData mem regs (p_Location p) (sint ((p_BitSize p + 7) div 8))"

text \<open>A piece whose source has all the bits the piece takes.\<close>

definition full_piece :: "(u64 \<Rightarrow> int \<Rightarrow> u8 list res) \<Rightarrow> Registers \<Rightarrow> Piece \<Rightarrow> bool" where
  "full_piece mem regs p \<longleftrightarrow>
     unat (p_Offset p) + unat (p_BitSize p) < 2 ^ 64 \<and>
     (case piece_data mem regs p of Inr bs \<Rightarrow> unat (p_BitSize p) \<le> 8 * length bs | Inl _ \<Rightarrow> True)"

lemma unat_mod8_0: "w mod 8 = 0 \<longleftrightarrow> unat (w :: u64) mod 8 = 0"
  by (metis unat_mod_8 unat_eq_zero)

lemma add_piece_bits:
  assumes "add_piece_data mem regs p (data, off) = Inr (data', off')" "full_piece mem regs p"
    and "unat off + unat (p_BitSize p) \<le> 8 * length data" "8 * length data < 2 ^ 64"
  shows "unat off' = unat off + unat (p_BitSize p) \<and> length data' = length data \<and>
    (\<forall>j < unat off. bit_at data' j = bit_at data j) \<and>
    (\<exists>bs. piece_data mem regs p = Inr bs \<and>
      (\<forall>i < unat (p_BitSize p). bit_at data' (unat off + i) = bit_at bs (unat (p_Offset p) + i)))"
proof -
  let ?n = "unat (p_BitSize p)" and ?o = "unat off"
  let ?whole = "off mod 8 = 0 \<and> p_Offset p = 0 \<and> p_BitSize p mod 8 = 0"
  obtain bs where bs: "piece_data mem regs p = Inr bs"
    and copied: "(if ?whole then rbind (go_from data (uint (off div 8))) (\<lambda>_.
        Inr (overwrite (unat (off div 8)) (take (length data - unat (off div 8)) bs) data))
      else memcpyBits data off bs (p_Offset p) (p_BitSize p)) = Inr data'"
    and off': "off' = off + p_BitSize p"
    using assms(1) by (auto simp: add_piece_data_def)
  have full: "unat (p_Offset p) + ?n < 2 ^ 64" "?n \<le> 8 * length bs"
    using assms(2) bs by (simp_all add: full_piece_def)
  have "unat off' = ?o + ?n" using off' assms(3,4) by (simp add: unat_word_ariths)
  moreover have "length data' = length data \<and> (\<forall>j < ?o. bit_at data' j = bit_at data j) \<and>
      (\<forall>i < ?n. bit_at data' (?o + i) = bit_at bs (unat (p_Offset p) + i))"
  proof (cases ?whole)
    case True
    let ?bo = "?o div 8"
    let ?src = "take (length data - ?bo) bs"
    have o: "?o = 8 * ?bo" "?n = 8 * (?n div 8)" using True unat_mod8_0 by auto
    have "uint (off div 8) \<le> int (length data)" using copied True by (auto simp: go_from_Inr)
    then have "unat (off div 8) \<le> length data" by (simp only: unat_eq_nat_uint nat_le_iff)
    then have data': "data' = overwrite ?bo ?src data" "?bo \<le> length data"
      using copied True by (auto simp: unat_div_8 go_from_Inr)
    have fit: "?bo + length ?src \<le> length data" using data'(2) by simp
    have "bit_at data' (?o + i) = bit_at bs i" if "i < ?n" for i
    proof -
      have "(?o + i) div 8 = ?bo + i div 8" using o(1) by (metis div_mult_self4 zero_neq_numeral)
      moreover have "i div 8 < length bs" "i div 8 < length data - ?bo"
        using that full(2) assms(3) o by (auto simp: div_less_iff_less_mult)
      ultimately show ?thesis using o(1) unfolding data'(1) bit_at_overwrite [OF fit]
        by (simp add: bit_at_def)
    qed
    moreover have "bit_at data' j = bit_at data j" if "j < ?o" for j
    proof -
      have "j div 8 < ?bo" using that o(1) by (metis div_less_iff_less_mult mult.commute zero_less_numeral)
      then show ?thesis unfolding data'(1) bit_at_overwrite [OF fit] by simp
    qed
    ultimately show ?thesis using data'(1) fit True by simp
  next
    case False
    with copied have "copy_bits ?n data off bs (p_Offset p) = Inr data'" by (simp add: memcpyBits_def)
    then show ?thesis using copy_bits_spec [of off ?n data "p_Offset p" bs] assms(3,4) full(1) by auto
  qed
  ultimately show ?thesis using bs by blast
qed

lemma add_pieces_bits:
  assumes "rfold (add_piece_data mem regs) ps (data, off) = Inr (data', off')"
    and "list_all (full_piece mem regs) ps"
    and "unat off + sum_list (map (\<lambda>p. unat (p_BitSize p)) ps) \<le> 8 * length data" "8 * length data < 2 ^ 64"
  shows "length data' = length data \<and> (\<forall>j < unat off. bit_at data' j = bit_at data j) \<and>
    (\<forall>k < length ps. \<exists>bs. piece_data mem regs (ps ! k) = Inr bs \<and>
      (\<forall>i < unat (p_BitSize (ps ! k)).
         bit_at data' (unat off + sum_list (map (\<lambda>p. unat (p_BitSize p)) (take k ps)) + i) =
         bit_at bs (unat (p_Offset (ps ! k)) + i)))"
  using assms
proof (induction ps arbitrary: data off)
  case (Cons p ps)
  obtain data1 off1 where first: "add_piece_data mem regs p (data, off) = Inr (data1, off1)"
    and rest: "rfold (add_piece_data mem regs) ps (data1, off1) = Inr (data', off')"
    using Cons.prems(1) by auto
  have 1: "unat off1 = unat off + unat (p_BitSize p)" "length data1 = length data"
    "\<forall>j < unat off. bit_at data1 j = bit_at data j"
    "\<exists>bs. piece_data mem regs p = Inr bs \<and>
      (\<forall>i < unat (p_BitSize p). bit_at data1 (unat off + i) = bit_at bs (unat (p_Offset p) + i))"
    using add_piece_bits [OF first] Cons.prems by simp_all
  have 2: "length data' = length data1" "\<forall>j < unat off1. bit_at data' j = bit_at data1 j"
    "\<forall>k < length ps. \<exists>bs. piece_data mem regs (ps ! k) = Inr bs \<and>
      (\<forall>i < unat (p_BitSize (ps ! k)).
         bit_at data' (unat off1 + sum_list (map (\<lambda>p. unat (p_BitSize p)) (take k ps)) + i) =
         bit_at bs (unat (p_Offset (ps ! k)) + i))"
    using Cons.IH [OF rest] Cons.prems 1(1,2) by simp_all
  have "\<exists>bs. piece_data mem regs ((p # ps) ! k) = Inr bs \<and>
      (\<forall>i < unat (p_BitSize ((p # ps) ! k)).
         bit_at data' (unat off + sum_list (map (\<lambda>p. unat (p_BitSize p)) (take k (p # ps))) + i) =
         bit_at bs (unat (p_Offset ((p # ps) ! k)) + i))" if "k < length (p # ps)" for k
  proof (cases k)
    case 0
    then show ?thesis using 1(1,4) 2(2) by simp
  next
    case (Suc m)
    then show ?thesis using 2(3) that 1(1) by (simp add: add.assoc)
  qed
  then show ?case using 1 2(1,2) by simp
qed simp

text \<open>
  C30 (functional). A value that lives in pieces is assembled bit by bit: when
  \<open>ReadLocationData\<close> returns, the result has the requested size, and the bits of the \<open>k\<close>-th piece
  stand behind those of the pieces before it, each equal to the bit of the piece's own storage at
  the piece's offset, whether the copy was by bytes or by bits.
\<close>

theorem composite_bits:
  assumes "ReadLocationData mem regs (Composite ps) sz = Inr data" "list_all (full_piece mem regs) ps"
    and "sum_list (map (\<lambda>p. unat (p_BitSize p)) ps) \<le> 8 * nat sz" "sz < 2 ^ 60" "k < length ps"
  shows "length data = nat sz \<and>
    (\<exists>bs. piece_data mem regs (ps ! k) = Inr bs \<and>
      (\<forall>i < unat (p_BitSize (ps ! k)).
         bit_at data (sum_list (map (\<lambda>p. unat (p_BitSize p)) (take k ps)) + i) =
         bit_at bs (unat (p_Offset (ps ! k)) + i)))"
proof -
  obtain off' where sz: "0 \<le> sz"
    and fold: "rfold (add_piece_data mem regs) ps (replicate (nat sz) 0, 0) = Inr (data, off')"
    using assms(1) by (auto simp: ReadLocationData_def go_make_def split: if_splits)
  have "8 * length (replicate (nat sz) (0 :: u8)) < 2 ^ 64" using assms(4) sz by simp
  from add_pieces_bits [OF fold assms(2) _ this] assms(3,5) show ?thesis by simp
qed

text \<open>A 24-bit value: a byte in memory, then 16 bits taken from bit 4 of a literal.\<close>

definition sample_pieces :: "Piece list" where
  "sample_pieces =
     [\<lparr>p_Location = LocAddress 0x1000, p_BitSize = 8, p_Offset = 0\<rparr>,
      \<lparr>p_Location = LocLiteral 0xabcde, p_BitSize = 12, p_Offset = 4\<rparr>]"

definition sample_mem :: "u64 \<Rightarrow> int \<Rightarrow> u8 list res" where
  "sample_mem a n = Inr (le_bytes (nat n) (a + 0x42))"

lemma sample_composite:
  "ReadLocationData sample_mem zero_regs (Composite sample_pieces) 3 = Inr [0x42, 0xcd, 0x0b]"
  by code_simp

lemma sample_piece_data:
  "piece_data sample_mem zero_regs (sample_pieces ! 0) = Inr [0x42]"
  "piece_data sample_mem zero_regs (sample_pieces ! 1) = Inr [0xde, 0xbc]"
  by code_simp+

lemma composite_bits_witness: "bit_at [0x42, 0xcd, 0x0b] 9 = bit_at [0xde, 0xbc] 5"
proof -
  have full: "list_all (full_piece sample_mem zero_regs) sample_pieces"
    using sample_piece_data by (simp add: full_piece_def sample_pieces_def)
  have total: "sum_list (map (\<lambda>p. unat (p_BitSize p)) sample_pieces) \<le> 8 * nat 3" "1 < length sample_pieces"
    by (simp_all add: sample_pieces_def)
  have "\<forall>i < 12. bit_at [0x42, 0xcd, 0x0b] (8 + i) = bit_at [0xde, 0xbc] (4 + i)"
    using composite_bits [OF sample_composite full total(1) _ total(2)] sample_piece_data(2)
    by (simp add: sample_pieces_def)
  from this [rule_format, of 1] show ?thesis by simp
qed

section \<open>Local variables on the stack\<close>

lemma exec_fbreg:
  "exec_op env opFbreg s =
     rbind (readSLEB128 (x_reader s)) (\<lambda>(d, r).
       rbind (e_frameBase env) (\<lambda>fb. push (fb + d) (s\<lparr>x_reader := r\<rparr>)))"
  by (simp add: exec_op_def op_defs const_op_def frame_op_def stack_op_def arith_op_def binop_of_def
      relop_of_def deref_op_def branch_op_def loc_op_def)

lemma expr_loop_end:
  assumes "length pre < 2 ^ 62" "x_reader s = reader_at pre [] base"
  shows "expr_loop n env s = Inr (expr_result s)"
  using assms remaining_at [of pre "[]" base] by (cases n) simp_all

lemma Eval_cfa:
  assumes "e_data env = [opCallFrameCFA]" "e_inFrameInfo env = True"
  shows "Eval (Suc n) env False = Inr (Single (LocAddress (e_cfa env)))"
proof -
  let ?s = "init_state env False"
  have r: "x_reader ?s = reader_at [] [opCallFrameCFA] 0" by (simp add: init_state_def reader_at_def assms(1))
  have "expr_loop (Suc n) env ?s = Inr (Single (LocAddress (e_cfa env)))"
    using expr_loop_at [of ?s "[]" opCallFrameCFA "[]" 0 n env] r
    by (simp add: exec_cfa push_def expr_loop_end [of "[opCallFrameCFA]" _ 0] expr_result_def
        getCurrentLocation_def init_state_def)
  then show ?thesis by (simp add: Eval_def assms(1))
qed

lemma Eval_fbreg:
  assumes "e_data env = opFbreg # sleb_encode off" "length (sleb_encode off) < 2 ^ 60"
    and "e_frameBase env = Inr fb"
  shows "Eval (Suc n) env False = Inr (Single (LocAddress (fb + off)))"
proof -
  let ?s = "init_state env False"
  have r: "x_reader ?s = reader_at [] (opFbreg # sleb_encode off) 0"
    by (simp add: init_state_def reader_at_def assms(1))
  have "readSLEB128 (reader_at [opFbreg] (sleb_encode off) 0) =
      Inr (off, reader_at ([opFbreg] @ sleb_encode off) [] 0)"
    using readSLEB128_at [of "[opFbreg]" off "[]" 0] assms(2) by simp
  then have "expr_loop (Suc n) env ?s = Inr (Single (LocAddress (fb + off)))"
    using expr_loop_at [of ?s "[]" opFbreg "sleb_encode off" 0 n env] r assms(2)
    by (simp add: exec_fbreg push_def assms(3) expr_loop_end [of "opFbreg # sleb_encode off" _ 0]
        expr_result_def getCurrentLocation_def init_state_def)
  then show ?thesis by (simp add: Eval_def assms(1))
qed

text \<open>
  A local variable of a compiled C function is found on the stack: its location is
  \<open>DW_OP_fbreg\<close> with an offset, the frame base of the function around the program counter is
  \<open>DW_OP_call_frame_cfa\<close>, and the evaluation yields the address that lies at the offset from the
  canonical frame address the unwinder computes there.
\<close>

theorem local_variable_address:
  assumes "next_entry (d_data d) var = Some v"
    and "en_Location v = Some \<lparr>f_Class = ClassExprLoc, f_Val = ValBytes (opFbreg # sleb_encode off)\<rparr>"
    and "readRegisterUint64 regs ripInfo = Inr pc" "FunctionContainingPC d pc = Some fn"
    and "next_entry (d_data d) (fn_DIEOffset fn) = Some fe"
    and "en_FrameBase fe = Some \<lparr>f_Class = ClassExprLoc, f_Val = ValBytes [opCallFrameCFA]\<rparr>"
    and "l_unwindCFA env regs pc = Inr (Some cfa)" "length (sleb_encode off) < 2 ^ 60" "l_fuel env = Suc m"
  shows "EvalLocationAttr (Suc (Suc n)) env d regs var False = Inr (Single (LocAddress (cfa + off)))"
proof -
  have "EvalLocationAttrWithCFA (Suc n) env d regs (fn_DIEOffset fn) True cfa = Inr (Single (LocAddress cfa))"
    using assms(5,6,9) by (simp add: evalLocationFieldWithCFA_def eval_expr_def Eval_cfa)
  then have "evalFrameBase True (\<lambda>pc. map_option fn_DIEOffset (FunctionContainingPC d pc)) (l_unwindCFA env regs)
      (\<lambda>fn cfa. EvalLocationAttrWithCFA (Suc n) env d regs fn True cfa) regs = Inr cfa"
    using assms(3,4,7) by (simp add: evalFrameBase_def del: EvalLocationAttrWithCFA.simps)
  with assms(1,2,8,9) show ?thesis
    unfolding EvalLocationAttr_def EvalLocationAttrWithCFA.simps(2) [of "Suc n"]
    by (simp add: evalLocationFieldWithCFA_def eval_expr_def Eval_fbreg del: EvalLocationAttrWithCFA.simps)
qed

definition sample_loc_env :: loc_env where
  "sample_loc_env = \<lparr>l_mem = sample_mem, l_unwindCFA = (\<lambda>_ _. Inr (Some 0x7000)), l_fuel = 1\<rparr>"

lemma local_variable_address_witness:
  "EvalLocationAttr 2 sample_loc_env (sample_index\<lparr>d_loadBias := - 0x16\<rparr>) zero_regs 60 False =
     Inr (Single (LocAddress 0x6ff0))"
proof -
  let ?d = "sample_index\<lparr>d_loadBias := - 0x16\<rparr>"
  let ?var = "sample_die 60 TagVariable False (Some ''x'') None"
  let ?main = "sample_die 30 TagSubprogram True (Some ''main'') (Some [(0x10, 0x30)])"
  have off: "sleb_encode (- 16) = [0x70]" by code_simp
  have "next_entry (d_data ?d) 60 = Some ?var" "next_entry (d_data ?d) 30 = Some ?main"
    "readRegisterUint64 zero_regs ripInfo = Inr 0"
    by code_simp+
  moreover have "FunctionContainingPC ?d 0 =
      Some \<lparr>fn_Name = ''main'', fn_Ranges = [(0x10, 0x30)], fn_IsInlined = False, fn_DIEOffset = 30\<rparr>"
    by code_simp
  ultimately have "EvalLocationAttr (Suc (Suc 0)) sample_loc_env ?d zero_regs 60 False =
      Inr (Single (LocAddress (0x7000 + - 16)))"
    by (intro local_variable_address [where v = ?var and pc = 0 and fe = ?main and m = 0 and
          fn = "\<lparr>fn_Name = ''main'', fn_Ranges = [(0x10, 0x30)], fn_IsInlined = False, fn_DIEOffset = 30\<rparr>"])
      (simp_all add: sample_die_def sample_loc_env_def op_defs off)
  then show ?thesis by (simp add: numeral_2_eq_2 del: EvalLocationAttrWithCFA.simps)
qed

section \<open>Location lists end\<close>

text \<open>Every entry of a list takes at least sixteen bytes, so the length of the section is enough fuel.\<close>

lemma readU64_pos:
  assumes "readU64 r = Inr (v, r')" "0 \<le> r_pos r" "r_pos r < 2 ^ 62"
  shows "r_pos r' = r_pos r + 8" "r_data r' = r_data r" "r_pos r' \<le> int (length (r_data r))"
  using assms by (auto simp: readU64_def read_le_def go_from_def split: if_splits)

lemma readU16_pos:
  assumes "readU16 r = Inr (v, r')" "0 \<le> r_pos r" "r_pos r < 2 ^ 62"
  shows "r_pos r' = r_pos r + 2" "r_data r' = r_data r" "r_pos r' \<le> int (length (r_data r))"
  using assms by (auto simp: readU16_def read_le_def go_from_def split: if_splits)

lemma loc_list_ends:
  assumes "int (length (r_data r)) < 2 ^ 60" "0 \<le> r_pos r" "r_pos r \<le> 2 ^ 61"
    and "int (length (r_data r)) - r_pos r < 16 * int n"  "0 < n"
  shows "fuel_free (loc_list n filePC baseAddr r)"
  using assms
proof (induction n arbitrary: baseAddr r)
  case (Suc n)
  have next_ok: "fuel_free (loc_list n filePC b r')"
    if "r_data r' = r_data r" "r_pos r + 16 \<le> r_pos r'" "r_pos r + 16 \<le> int (length (r_data r))"
      "r_pos r' \<le> 2 ^ 61" for b r'
    using Suc.IH [of r' b] Suc.prems that by (cases "n = 0") simp_all
  have len: "uint (w :: u16) < 2 ^ 16" for w using unsigned_less [of w] by simp
  show ?case
  proof (cases "readU64 r")
    case (Inr a)
    obtain first r1 where r1: "readU64 r = Inr (first, r1)" using Inr by (cases a) simp
    note p1 = readU64_pos [OF r1]
    show ?thesis
    proof (cases "readU64 r1")
      case (Inr b)
      obtain second r2 where r2: "readU64 r1 = Inr (second, r2)" using Inr by (cases b) simp
      note p2 = readU64_pos [OF r2]
      have pos: "r_pos r2 = r_pos r + 16" "r_data r2 = r_data r" "r_pos r + 16 \<le> int (length (r_data r))"
        using p1 p2 Suc.prems by simp_all
      have tail: "fuel_free (loc_list n filePC baseAddr (r3\<lparr>r_pos := r_pos r3 + uint len\<rparr>))"
        if "readU16 r2 = Inr (len, r3)" for len r3
        using next_ok [of "r3\<lparr>r_pos := r_pos r3 + uint len\<rparr>" baseAddr] readU16_pos [OF that] pos
          len [of len] uint_ge_0 [of len] Suc.prems by simp
      show ?thesis using r1 r2 tail next_ok [of r2 second] pos Suc.prems
        by (auto intro!: fuel_free_intros simp: fuel_free_reads)
    qed (use r1 fuel_free_reads(3) [of r1] in \<open>auto simp: fuel_free_def\<close>)
  qed (use fuel_free_reads(3) [of r] in \<open>auto simp: fuel_free_def\<close>)
qed simp

section \<open>Global variables\<close>

text \<open>
  A variable before the first function of its unit is found.  Leaving a function does not bring
  the depth back to zero, since the entry counts once for itself and once for its children: a
  variable after a function is taken for a local one.
\<close>

definition sample_globals :: "Entry list" where
  "sample_globals =
     [sample_die 11 TagCompileUnit True (Some ''a.c'') None,
      sample_die 20 TagVariable False (Some ''before'') None,
      sample_die 30 TagSubprogram True (Some ''main'') (Some [(0x10, 0x30)]),
      sample_die 40 TagVariable False (Some ''local'') None,
      null_entry,
      sample_die 50 TagVariable False (Some ''after'') None,
      null_entry]"

lemma global_after_function_missed:
  "map (fst o FindGlobalVariable (emptyDWARF sample_globals None)) [''before'', ''local'', ''after''] =
     [Some 20, None, None]"
  by code_simp

lemma FindGlobalVariable_idem:
  "FindGlobalVariable d name = (r, d') \<Longrightarrow> FindGlobalVariable d' name = (r, d')"
  by (auto simp: FindGlobalVariable_def buildGlobalVarIndex_def Let_def split: prod.splits if_splits)

end
