(* ===== verification/Formatting.thy ===== *)
theory Formatting
  imports Registers
begin

text \<open>
  Numbers as text: the verbs of \<open>fmt\<close> and the functions of \<open>strconv\<close> that the sources use, and on
  top of them the register values of \<open>src/debugger/format.go\<close> and \<open>parse.go\<close>.  The two floating-point
  conversions of the standard library are the arguments \<open>fmtFloat\<close> and \<open>parseFloat\<close>.
\<close>

section \<open>Digits\<close>

definition digit_char :: "nat \<Rightarrow> char" where
  "digit_char d = char_of (if d < 10 then 48 + d else 87 + d)"

function digits :: "nat \<Rightarrow> nat \<Rightarrow> string" where
  "digits b n = (if n < b \<or> b < 2 then [digit_char n] else digits b (n div b) @ [digit_char (n mod b)])"
  by pat_completeness auto
termination by (relation "measure snd") auto

declare digits.simps [simp del]

definition pad_left :: "char \<Rightarrow> nat \<Rightarrow> string \<Rightarrow> string" where
  "pad_left c w s = replicate (w - length s) c @ s"

text \<open>\<open>%d\<close> and \<open>%0*x\<close>\<close>

definition fmt_d :: "int \<Rightarrow> string" where
  "fmt_d i = (if i < 0 then CHR ''-'' # digits 10 (nat (- i)) else digits 10 (nat i))"

definition fmt_0x :: "nat \<Rightarrow> nat \<Rightarrow> string" where
  "fmt_0x w n = ''0x'' @ pad_left (CHR ''0'') w (digits 16 n)"

definition fmt_x :: "nat \<Rightarrow> string" where
  "fmt_x n = ''0x'' @ digits 16 n"

section \<open>\<open>strconv.ParseUint\<close> with base 0\<close>

abbreviation code :: "char \<Rightarrow> nat" where
  "code c \<equiv> of_char c"

text \<open>\<open>lower\<close> sets the bit of the lower-case letters, \<open>c | ('x' - 'X')\<close>.\<close>

definition lower :: "char \<Rightarrow> nat" where
  "lower c = (code c) OR 32"

definition digit_value :: "char \<Rightarrow> nat option" where
  "digit_value c =
     (if 48 \<le> code c \<and> code c \<le> 57 then Some (code c - 48)
      else if 97 \<le> lower c \<and> lower c \<le> 122 then Some (lower c - 97 + 10)
      else None)"

text \<open>The base of the literal and the text behind its prefix.\<close>

definition split_base :: "string \<Rightarrow> nat \<times> string" where
  "split_base s =
     (case s of
        c # d # rest \<Rightarrow>
          if c \<noteq> CHR ''0'' then (10, s)
          else if rest \<noteq> [] \<and> lower d = code (CHR ''b'') then (2, rest)
          else if rest \<noteq> [] \<and> lower d = code (CHR ''o'') then (8, rest)
          else if rest \<noteq> [] \<and> lower d = code (CHR ''x'') then (16, rest)
          else (8, d # rest)
      | [c] \<Rightarrow> if c = CHR ''0'' then (8, []) else (10, s)
      | [] \<Rightarrow> (10, s))"

text \<open>The loop over the digits: underscores are skipped, the value must stay at most \<open>maxVal\<close>.\<close>

fun parse_digits :: "nat \<Rightarrow> nat \<Rightarrow> string \<Rightarrow> nat \<Rightarrow> nat option" where
  "parse_digits base maxVal [] n = Some n"
| "parse_digits base maxVal (c # cs) n =
     (if c = CHR ''_'' then parse_digits base maxVal cs n
      else case digit_value c of
        None \<Rightarrow> None
      | Some d \<Rightarrow>
        if base \<le> d \<or> maxVal < n * base + d then None else parse_digits base maxVal cs (n * base + d))"

text \<open>
  \<open>underscoreOK\<close>: an underscore stands between digits, or between the prefix and a digit.  \<open>saw\<close> is
  the kind of the last character: \<open>^\<close> at the start, \<open>0\<close> a digit or a prefix, \<open>_\<close>, or \<open>!\<close> another one.
\<close>

fun underscores_ok :: "bool \<Rightarrow> char \<Rightarrow> string \<Rightarrow> bool" where
  "underscores_ok hex saw [] \<longleftrightarrow> saw \<noteq> CHR ''_''"
| "underscores_ok hex saw (c # cs) \<longleftrightarrow>
     (if 48 \<le> code c \<and> code c \<le> 57 \<or> hex \<and> 97 \<le> lower c \<and> lower c \<le> 102 then underscores_ok hex (CHR ''0'') cs
      else if c = CHR ''_'' then saw = CHR ''0'' \<and> underscores_ok hex (CHR ''_'') cs
      else saw \<noteq> CHR ''_'' \<and> underscores_ok hex (CHR ''!'') cs)"

definition underscoreOK :: "string \<Rightarrow> bool" where
  "underscoreOK s0 =
     (let s = (case s0 of c # cs \<Rightarrow> if c = CHR ''-'' \<or> c = CHR ''+'' then cs else s0 | [] \<Rightarrow> s0) in
      case s of
        c # d # rest \<Rightarrow>
          if c = CHR ''0'' \<and> (lower d = code (CHR ''b'') \<or> lower d = code (CHR ''o'') \<or> lower d = code (CHR ''x''))
          then underscores_ok (lower d = code (CHR ''x'')) (CHR ''0'') rest
          else underscores_ok False (CHR ''^'') s
      | _ \<Rightarrow> underscores_ok False (CHR ''^'') s)"

definition ParseUint :: "string \<Rightarrow> nat \<Rightarrow> nat option" where
  "ParseUint s bitSize =
     (if s = [] then None
      else case split_base s of (base, body) \<Rightarrow>
        (case parse_digits base (2 ^ bitSize - 1) body 0 of
           None \<Rightarrow> None
         | Some n \<Rightarrow> if CHR ''_'' \<in> set body \<and> \<not> underscoreOK s then None else Some n))"

section \<open>Register values\<close>

primrec join :: "string \<Rightarrow> string list \<Rightarrow> string" where
  "join sep [] = []"
| "join sep (s # ss) = (case ss of [] \<Rightarrow> s | _ \<Rightarrow> s @ sep @ join sep ss)"

definition formatBytes :: "u8 list \<Rightarrow> string" where
  "formatBytes b = ''['' @ join '','' (map (\<lambda>v. fmt_0x 2 (unat v)) b) @ '']''"

text \<open>\<open>%v\<close>\<close>

definition fmt_v :: "(u64 \<Rightarrow> string) \<Rightarrow> regval \<Rightarrow> string" where
  "fmt_v fmtFloat v =
     (case v of
        VU8 n \<Rightarrow> fmt_d (uint n) | VU16 n \<Rightarrow> fmt_d (uint n) | VU32 n \<Rightarrow> fmt_d (uint n) | VU64 n \<Rightarrow> fmt_d (uint n)
      | VI8 n \<Rightarrow> fmt_d (sint n) | VI16 n \<Rightarrow> fmt_d (sint n) | VI32 n \<Rightarrow> fmt_d (sint n) | VI64 n \<Rightarrow> fmt_d (sint n)
      | VF64 f \<Rightarrow> fmtFloat f
      | VB8 b \<Rightarrow> ''['' @ join '' '' (map (\<lambda>x. fmt_d (uint x)) b) @ '']''
      | VB16 b \<Rightarrow> ''['' @ join '' '' (map (\<lambda>x. fmt_d (uint x)) b) @ '']''
      | VNil \<Rightarrow> ''<nil>'')"

definition formatUint :: "(u64 \<Rightarrow> string) \<Rightarrow> int \<Rightarrow> regval \<Rightarrow> string" where
  "formatUint fmtFloat sz v =
     (case v of
        VU8 n \<Rightarrow> fmt_0x (nat (sz * 2)) (unat n)
      | VU16 n \<Rightarrow> fmt_0x (nat (sz * 2)) (unat n)
      | VU32 n \<Rightarrow> fmt_0x (nat (sz * 2)) (unat n)
      | VU64 n \<Rightarrow> fmt_0x (nat (sz * 2)) (unat n)
      | _ \<Rightarrow> fmt_v fmtFloat v)"

definition FormatRegisterValue :: "(u64 \<Rightarrow> string) \<Rightarrow> RegisterInfo \<Rightarrow> regval \<Rightarrow> string" where
  "FormatRegisterValue fmtFloat info v =
     (case ri_Format info of
        RegisterFormatUint \<Rightarrow> formatUint fmtFloat (ri_Size info) v
      | RegisterFormatDoubleFloat \<Rightarrow> (case v of VF64 f \<Rightarrow> fmtFloat f | _ \<Rightarrow> fmt_v fmtFloat v)
      | RegisterFormatLongDouble \<Rightarrow> (case v of VB16 b \<Rightarrow> formatBytes b | _ \<Rightarrow> fmt_v fmtFloat v)
      | RegisterFormatVector \<Rightarrow>
          (case v of VB8 b \<Rightarrow> formatBytes b | VB16 b \<Rightarrow> formatBytes b | _ \<Rightarrow> fmt_v fmtFloat v))"

definition parseUintValue :: "int \<Rightarrow> string \<Rightarrow> regval res" where
  "parseUintValue sz s =
     (case (if sz < 0 \<or> 8 < sz then None else ParseUint s (if sz = 0 then 64 else nat (sz * 8))) of
        None \<Rightarrow> Inl (Error (BadInteger s))
      | Some v \<Rightarrow>
          if sz = 1 then Inr (VU8 (of_nat v))
          else if sz = 2 then Inr (VU16 (of_nat v))
          else if sz = 4 then Inr (VU32 (of_nat v))
          else if sz = 8 then Inr (VU64 (of_nat v))
          else Inl (Error (BadFormat s)))"

definition parseFloatValue :: "(string \<Rightarrow> u64 option) \<Rightarrow> string \<Rightarrow> regval res" where
  "parseFloatValue parseFloat s =
     (case parseFloat s of None \<Rightarrow> Inl (Error (BadFloat s)) | Some v \<Rightarrow> Inr (VF64 v))"

text \<open>\<open>strings.TrimSpace\<close> and \<open>strings.Split\<close>, on ASCII text.\<close>

definition is_space :: "char \<Rightarrow> bool" where
  "is_space c \<longleftrightarrow> 9 \<le> code c \<and> code c \<le> 13 \<or> code c = 32"

definition TrimSpace :: "string \<Rightarrow> string" where
  "TrimSpace s = rev (dropWhile is_space (rev (dropWhile is_space s)))"

fun splits :: "char \<Rightarrow> string \<Rightarrow> string list" where
  "splits sep [] = [[]]"
| "splits sep (c # cs) =
     (if c = sep then [] # splits sep cs
      else case splits sep cs of [] \<Rightarrow> [[c]] | w # ws \<Rightarrow> (c # w) # ws)"

fun parse_bytes :: "string list \<Rightarrow> u8 list option" where
  "parse_bytes [] = Some []"
| "parse_bytes (p # ps) =
     (case ParseUint (TrimSpace p) 8 of
        None \<Rightarrow> None
      | Some v \<Rightarrow> (case parse_bytes ps of None \<Rightarrow> None | Some bs \<Rightarrow> Some (of_nat v # bs)))"

text \<open>The buffer has sixteen bytes: a longer vector makes the store panic.\<close>

definition parseVectorValue :: "int \<Rightarrow> string \<Rightarrow> regval res" where
  "parseVectorValue sz s0 =
     (let s = TrimSpace s0 in
      if s = [] \<or> hd s \<noteq> CHR ''['' \<or> last s \<noteq> CHR '']'' then Inl (Error (BadVector s))
      else
        let parts = splits (CHR '','') (butlast (tl s)) in
        if int (length parts) \<noteq> sz then Inl (Error (BadVector s))
        else case parse_bytes (take 16 parts) of
          None \<Rightarrow> Inl (Error (BadVector s))
        | Some bs \<Rightarrow>
            if 16 < length parts then
              (if ParseUint (TrimSpace (parts ! 16)) 8 = None then Inl (Error (BadVector s)) else Inl Panic)
            else let buf = go_copy (replicate 16 0) bs in
              Inr (if sz = 8 then VB8 (take 8 buf) else VB16 buf))"

definition ParseRegisterValue :: "(string \<Rightarrow> u64 option) \<Rightarrow> RegisterInfo \<Rightarrow> string \<Rightarrow> regval res" where
  "ParseRegisterValue parseFloat info s =
     (case ri_Format info of
        RegisterFormatUint \<Rightarrow> parseUintValue (ri_Size info) s
      | RegisterFormatDoubleFloat \<Rightarrow> parseFloatValue parseFloat s
      | RegisterFormatLongDouble \<Rightarrow> parseVectorValue 16 s
      | RegisterFormatVector \<Rightarrow> parseVectorValue (ri_Size info) s)"

section \<open>Reading back what was printed\<close>

lemma code_digit_char: "d < 36 \<Longrightarrow> code (digit_char d) = (if d < 10 then 48 + d else 87 + d)"
  by (simp add: digit_char_def)

lemma letter_OR: "87 + d OR 32 = 87 + d" if "10 \<le> d" "d < 36" for d :: nat
proof -
  have "list_all (\<lambda>d. (87 + d OR 32 :: nat) = 87 + d) [10..<36]" by (simp add: upt_rec_numeral)
  moreover have "d \<in> set [10..<36]" using that by (simp only: set_upt atLeastLessThan_iff) 
  ultimately show ?thesis unfolding list_all_iff by blast
qed

lemma digit_value_char: "d < 36 \<Longrightarrow> digit_value (digit_char d) = Some d"
  using letter_OR [of d] by (simp add: digit_value_def lower_def code_digit_char)

lemma code_inject: "c = d \<longleftrightarrow> code c = code d"
  by (metis char_of_char)

lemma digit_char_plain: "d < 36 \<Longrightarrow> digit_char d \<noteq> CHR ''_'' \<and> digit_char d \<noteq> CHR '','' \<and> \<not> is_space (digit_char d)"
  by (simp add: code_inject [of "digit_char d"] code_digit_char is_space_def)

lemma digits_not_Nil [simp]: "digits b n \<noteq> []"
  by (subst digits.simps) simp

lemma digits_chars:
  "2 \<le> b \<Longrightarrow> b \<le> 36 \<Longrightarrow> c \<in> set (digits b n) \<Longrightarrow> \<exists>d < b. c = digit_char d"
proof (induction b n rule: digits.induct)
  case (1 b n)
  show ?case
  proof (cases "n < b")
    case True
    with "1.prems"(3) show ?thesis by (subst (asm) digits.simps) auto
  next
    case False
    with "1.prems"(1,3) consider "c \<in> set (digits b (n div b))" | "c = digit_char (n mod b)"
      by (subst (asm) digits.simps) auto
    then show ?thesis
    proof cases
      case 1
      then show ?thesis using "1.IH" False "1.prems" by simp
    next
      case 2
      then show ?thesis using "1.prems"(1) by (intro exI [of _ "n mod b"]) simp
    qed
  qed
qed

lemma digits_plain: "c \<in> set (digits 16 n) \<Longrightarrow> c \<noteq> CHR ''_'' \<and> c \<noteq> CHR '','' \<and> \<not> is_space c"
  using digits_chars [of 16 c n] digit_char_plain by fastforce

lemma parse_digits_append:
  "parse_digits b m (xs @ ys) n =
     (case parse_digits b m xs n of None \<Rightarrow> None | Some k \<Rightarrow> parse_digits b m ys k)"
  by (induction b m xs n rule: parse_digits.induct) (auto split: option.splits)

lemma parse_digits_digits:
  "2 \<le> b \<Longrightarrow> b \<le> 36 \<Longrightarrow> n \<le> m \<Longrightarrow> parse_digits b m (digits b n) 0 = Some n"
proof (induction b n rule: digits.induct)
  case (1 b n)
  show ?case
  proof (cases "n < b")
    case True
    with 1 show ?thesis by (subst digits.simps) (simp add: digit_value_char digit_char_plain)
  next
    case False
    have "n div b * b + n mod b = n" by simp
    moreover have "n mod b < b" using "1.prems" by simp
    moreover have "parse_digits b m (digits b (n div b)) 0 = Some (n div b)"
    proof (rule "1.IH")
      show "n div b \<le> m" using "1.prems"(3) by (meson div_le_dividend le_trans)
    qed (use False "1.prems" in simp_all)
    moreover have "n mod b < 36" using \<open>n mod b < b\<close> "1.prems"(2) by simp
    ultimately show ?thesis using False "1.prems"
      by (subst digits.simps)
        (simp add: parse_digits_append digit_char_plain digit_value_char del: mod_less_divisor)
  qed
qed

lemma parse_digits_zeros: "2 \<le> b \<Longrightarrow> parse_digits b m (replicate k (CHR ''0'') @ xs) 0 = parse_digits b m xs 0"
proof (induction k)
  case (Suc k)
  have "digit_value (CHR ''0'') = Some 0" by (simp add: digit_value_def)
  with Suc show ?case by simp
qed simp

lemma pad_zero_plain:
  "c \<in> set (pad_left (CHR ''0'') w (digits 16 n)) \<Longrightarrow> c \<noteq> CHR ''_'' \<and> c \<noteq> CHR '','' \<and> \<not> is_space c"
proof -
  have "CHR ''0'' \<noteq> CHR ''_'' \<and> CHR ''0'' \<noteq> CHR '','' \<and> \<not> is_space (CHR ''0'')"
    by (simp add: is_space_def)
  then show "c \<in> set (pad_left (CHR ''0'') w (digits 16 n)) \<Longrightarrow> ?thesis"
    using digits_plain [of c n] by (auto simp: pad_left_def)
qed

lemma split_base_hex: "body \<noteq> [] \<Longrightarrow> split_base (''0x'' @ body) = (16, body)"
proof -
  have "lower (CHR ''x'') = 120" "code (CHR ''b'') = 98" "code (CHR ''o'') = 111" "code (CHR ''x'') = 120"
    by (simp_all add: lower_def)
  then show "body \<noteq> [] \<Longrightarrow> ?thesis" by (simp add: split_base_def)
qed

lemma ParseUint_fmt: "n < 2 ^ bits \<Longrightarrow> ParseUint (fmt_0x w n) bits = Some n"
proof -
  assume n: "n < 2 ^ bits"
  let ?body = "pad_left (CHR ''0'') w (digits 16 n)"
  have "parse_digits 16 (2 ^ bits - 1) ?body 0 = Some n"
    using n by (simp add: pad_left_def parse_digits_zeros parse_digits_digits)
  moreover have "CHR ''_'' \<notin> set ?body" using pad_zero_plain by blast
  moreover have "?body \<noteq> []" by (simp add: pad_left_def)
  ultimately show ?thesis unfolding ParseUint_def fmt_0x_def split_base_hex [OF \<open>?body \<noteq> []\<close>] by simp
qed

lemma fmt_0x_plain: "c \<in> set (fmt_0x w n) \<Longrightarrow> c \<noteq> CHR '','' \<and> \<not> is_space c"
proof -
  have "\<forall>c \<in> set ''0x''. c \<noteq> CHR '','' \<and> \<not> is_space c" by (simp add: is_space_def)
  then show "c \<in> set (fmt_0x w n) \<Longrightarrow> ?thesis"
    unfolding fmt_0x_def set_append by (metis UnE pad_zero_plain)
qed

lemma dropWhile_id: "(\<And>c. c \<in> set s \<Longrightarrow> \<not> P c) \<Longrightarrow> dropWhile P s = s"
  by (cases s) simp_all

lemma fmt_0x_no_comma: "CHR '','' \<notin> set (fmt_0x w n)"
  by (metis fmt_0x_plain)

lemma TrimSpace_id:
  assumes "\<And>c. c \<in> set s \<Longrightarrow> \<not> is_space c"
  shows "TrimSpace s = s"
proof -
  have "dropWhile is_space s = s" by (rule dropWhile_id) (rule assms)
  moreover have "dropWhile is_space (rev s) = rev s" by (rule dropWhile_id) (rule assms, simp)
  ultimately show ?thesis by (simp add: TrimSpace_def)
qed

lemma splits_word: "sep \<notin> set w \<Longrightarrow> splits sep w = [w]"
  by (induction w) auto

lemma splits_append: "sep \<notin> set w \<Longrightarrow> splits sep (w @ sep # rest) = w # splits sep rest"
  by (induction w) auto

lemma splits_join:
  "ws \<noteq> [] \<Longrightarrow> (\<And>w. w \<in> set ws \<Longrightarrow> sep \<notin> set w) \<Longrightarrow> splits sep (join [sep] ws) = ws"
proof (induction ws)
  case (Cons w ws)
  then show ?case by (cases ws) (simp_all add: splits_word splits_append)
qed simp

lemma parse_bytes_fmt: "parse_bytes (map (\<lambda>v. fmt_0x 2 (unat v)) (bs :: u8 list)) = Some bs"
proof (induction bs)
  case (Cons b bs)
  have "unat b < 2 ^ 8" using unsigned_less [of b] by simp
  then have "ParseUint (fmt_0x 2 (unat b)) 8 = Some (unat b)" by (rule ParseUint_fmt)
  moreover have "TrimSpace (fmt_0x 2 (unat b)) = fmt_0x 2 (unat b)"
    using fmt_0x_plain by (blast intro: TrimSpace_id)
  ultimately show ?case using Cons by simp
qed simp

text \<open>The dynamic type that \<open>Read\<close> gives a register and \<open>ParseRegisterValue\<close> builds for it.\<close>

definition value_type :: "RegisterInfo \<Rightarrow> regval \<Rightarrow> bool" where
  "value_type info v =
     (case ri_Format info of
        RegisterFormatUint \<Rightarrow>
          (case v of VU8 _ \<Rightarrow> ri_Size info = 1 | VU16 _ \<Rightarrow> ri_Size info = 2
           | VU32 _ \<Rightarrow> ri_Size info = 4 | VU64 _ \<Rightarrow> ri_Size info = 8 | _ \<Rightarrow> False)
      | RegisterFormatDoubleFloat \<Rightarrow> (case v of VF64 _ \<Rightarrow> True | _ \<Rightarrow> False)
      | RegisterFormatLongDouble \<Rightarrow> (case v of VB16 b \<Rightarrow> length b = 16 | _ \<Rightarrow> False)
      | RegisterFormatVector \<Rightarrow>
          (case v of VB8 b \<Rightarrow> ri_Size info = 8 \<and> length b = 8
           | VB16 b \<Rightarrow> ri_Size info = 16 \<and> length b = 16 | _ \<Rightarrow> False))"

lemma set_join: "c \<in> set (join [sep] us) \<Longrightarrow> c = sep \<or> (\<exists>u \<in> set us. c \<in> set u)"
proof (induction us)
  case (Cons u us)
  then show ?case by (cases us) auto
qed simp

lemma formatBytes_plain:
  assumes "c \<in> set (formatBytes b)"
  shows "\<not> is_space c"
proof -
  let ?ws = "map (\<lambda>v. fmt_0x 2 (unat v)) b"
  have "c = CHR ''['' \<or> c = CHR '']'' \<or> c \<in> set (join '','' ?ws)"
    using assms by (simp only: formatBytes_def set_append list.set Un_iff insert_iff empty_iff) blast
  then consider "c = CHR ''[''" | "c = CHR '']''" | "c = CHR '',''" | w where "w \<in> set ?ws" "c \<in> set w"
    using set_join [of c "CHR '',''" ?ws] by blast
  then show ?thesis
  proof cases
    case 4
    then obtain n where "c \<in> set (fmt_0x 2 n)" unfolding set_map by blast
    then show ?thesis using fmt_0x_plain by blast
  qed (simp_all add: is_space_def)
qed

lemma parse_formatBytes:
  assumes "length b = 8 \<or> length b = 16"
  shows "parseVectorValue (int (length b)) (formatBytes b) = Inr (if length b = 8 then VB8 b else VB16 b)"
proof -
  let ?ws = "map (\<lambda>v. fmt_0x 2 (unat v)) b"
  have ws: "splits (CHR '','') (join '','' ?ws) = ?ws"
  proof (rule splits_join)
    show "?ws \<noteq> []" using assms by auto
    fix w assume "w \<in> set ?ws"
    then obtain n where "w = fmt_0x 2 n" by auto
    then show "CHR '','' \<notin> set w" by (simp only: fmt_0x_no_comma not_False_eq_True)
  qed
  have trim: "TrimSpace (formatBytes b) = formatBytes b"
    by (rule TrimSpace_id) (rule formatBytes_plain)
  have sixteen: "take 16 ?ws = ?ws" using assms by auto
  have inner: "hd (formatBytes b) = CHR ''[''" "last (formatBytes b) = CHR '']''" "formatBytes b \<noteq> []"
    "butlast (tl (formatBytes b)) = join '','' ?ws"
    by (simp_all add: formatBytes_def butlast_append)
  have buf: "go_copy (replicate 16 0) b = (if length b = 8 then b @ replicate 8 0 else b)"
    using assms by (auto simp: go_copy_def)
  show ?thesis
    unfolding parseVectorValue_def trim Let_def inner ws sixteen parse_bytes_fmt
    using assms inner by (auto simp: buf)
qed

lemma parse_format:
  assumes "value_type info v" "info_ok info"
    and "\<And>f. v = VF64 f \<Longrightarrow> parseFloat (fmtFloat f) = Some f"
  shows "ParseRegisterValue parseFloat info (FormatRegisterValue fmtFloat info v) = Inr v"
proof (cases "ri_Format info")
  case RegisterFormatUint
  show ?thesis
    using assms(1) RegisterFormatUint
      unsigned_less [where 'b = 8, THEN ParseUint_fmt] unsigned_less [where 'b = 16, THEN ParseUint_fmt]
      unsigned_less [where 'b = 32, THEN ParseUint_fmt] unsigned_less [where 'b = 64, THEN ParseUint_fmt]
    by (cases v) (simp_all add: value_type_def FormatRegisterValue_def ParseRegisterValue_def
      parseUintValue_def formatUint_def)
next
  case RegisterFormatDoubleFloat
  with assms show ?thesis
    by (auto simp: ParseRegisterValue_def FormatRegisterValue_def parseFloatValue_def value_type_def
        split: regval.splits)
next
  case RegisterFormatLongDouble
  with assms(1) obtain b where "v = VB16 b" "length b = 16"
    by (auto simp: value_type_def split: regval.splits)
  with parse_formatBytes [of b] RegisterFormatLongDouble show ?thesis
    by (simp add: ParseRegisterValue_def FormatRegisterValue_def)
next
  case RegisterFormatVector
  with assms(1) obtain b where "v = VB8 b \<and> length b = 8 \<and> ri_Size info = 8 \<or> v = VB16 b \<and> length b = 16 \<and> ri_Size info = 16"
    by (auto simp: value_type_def split: regval.splits)
  with parse_formatBytes [of b] RegisterFormatVector show ?thesis
    by (auto simp: ParseRegisterValue_def FormatRegisterValue_def)
qed

section \<open>Properties\<close>

lemma decode_typed:
  assumes "regs_ok r" "info_ok info"
  shows "value_type info (decode info (get_window (ri_Offset info) (ri_Size info) r))"
  using assms length_get_window [OF assms(1) info_ok_area [OF assms(2)]]
  by (cases "ri_Format info") (auto simp: value_type_def decode_def info_ok_def)

text \<open>
  C39 (type).  Reading a register of the table never fails on a well-formed cache, and the dynamic
  type of the value is the one that the register's format and size call for, which is also the type
  that \<open>ParseRegisterValue\<close> builds for it.
\<close>

theorem Read_typed:
  assumes "regs_ok r" "info \<in> set registerInfos"
  shows "\<exists>v. Read r info = Inr v \<and> value_type info v \<and>
    (\<forall>s w. ParseRegisterValue parseFloat info s = Inr w \<longrightarrow> value_type info w)"
proof -
  have info: "info_ok info" by (rule registerInfos_ok [OF assms(2)])
  have "value_type info w" if "ParseRegisterValue parseFloat info s = Inr w" for s w
    using that info
    by (cases "ri_Format info")
      (auto simp: ParseRegisterValue_def value_type_def info_ok_def parseUintValue_def parseFloatValue_def
        parseVectorValue_def Let_def split: option.splits if_splits)
  then show ?thesis using Read_decode [OF assms(1) info] decode_typed [OF assms(1) info] by blast
qed

theorem Read_typed_witness:
  "\<exists>v. Read zero_regs ripInfo = Inr v \<and> value_type ripInfo v"
  using Read_typed [of zero_regs ripInfo "\<lambda>_. None"] by (metis rip_mem zero_regs_ok)

text \<open>
  C40 (roundtrip).  What \<open>FormatRegisterValue\<close> prints for the value of a register is text that
  \<open>ParseRegisterValue\<close> reads back as the same value; for a floating-point register this asks that
  the library's shortest decimal text of that value parses back to it.
\<close>

theorem register_value_round_trip:
  assumes "regs_ok r" "info \<in> set registerInfos" "Read r info = Inr v"
    and "\<And>f. v = VF64 f \<Longrightarrow> parseFloat (fmtFloat f) = Some f"
  shows "ParseRegisterValue parseFloat info (FormatRegisterValue fmtFloat info v) = Inr v"
proof -
  have info: "info_ok info" by (rule registerInfos_ok [OF assms(2)])
  have "value_type info v" using decode_typed [OF assms(1) info] Read_decode [OF assms(1) info] assms(3) by simp
  then show ?thesis using parse_format info assms(4) by blast
qed

lemma Read_rip_zero: "Read zero_regs ripInfo = Inr (VU64 0)"
  by (simp add: Read_def bytesForOffset_def go_slice_def zero_regs_def ripInfo_def regInfo_def offset_defs
    area_of_def area_base_def backing_def Let_def le_word_def numeral_eq_Suc)

theorem register_value_round_trip_witness:
  "ParseRegisterValue (\<lambda>_. None) ripInfo (FormatRegisterValue (\<lambda>_. '''') ripInfo (VU64 0)) = Inr (VU64 0)"
  by (rule register_value_round_trip [OF zero_regs_ok rip_mem Read_rip_zero]) simp

end
