(* ===== verification/Typed_Data.thy ===== *)
theory Typed_Data
  imports Locations Formatting
begin

text \<open>
  Typed values, \<open>src/debugger/type.go\<close>: the bytes of a variable with the type that \<open>debug/dwarf\<close> gives
  it, member access, dereferencing and indexing, bit fields, and the printing of a value.
\<close>

section \<open>Types\<close>

text \<open>
  The types of the standard library.  A type that contains itself does so through a pointer, so what
  a pointer points to is a reference and everything else is a tree.
\<close>

datatype basicKind = PlainBasic | IntKind | UintKind | FloatKind | CharKind | UcharKind | BoolKind | ComplexKind

datatype otherKind = VoidKind | AddrKind | DotDotDotKind | UnsupportedKind

datatype dtype =
    BasicType basicKind string int
  | PtrType int nat
  | ArrayType dtype int
  | StructType string int "sfield list"
  | EnumType int "(string \<times> int) list"
  | FuncType int
  | UnspecifiedType int
  | QualType dtype
  | TypedefType dtype
  | OtherType otherKind int
and sfield = Field (fd_Name: string) (fd_Type: dtype) (fd_ByteOffset: int) (fd_BitSize: int)
    (fd_BitOffset: int) (fd_DataBitOffset: int)

text \<open>\<open>Type.Size()\<close>\<close>

primrec dt_size :: "dtype \<Rightarrow> int" where
  "dt_size (BasicType k name n) = n"
| "dt_size (PtrType n r) = n"
| "dt_size (ArrayType t cnt) = wrap64 (cnt * dt_size t)"
| "dt_size (StructType name n fs) = n"
| "dt_size (EnumType n vals) = n"
| "dt_size (FuncType n) = n"
| "dt_size (UnspecifiedType n) = n"
| "dt_size (QualType t) = dt_size t"
| "dt_size (TypedefType t) = dt_size t"
| "dt_size (OtherType k n) = n"

text \<open>\<open>size := t.Size(); if size <= 0 { size = 8 }\<close>\<close>

definition size_or_8 :: "dtype \<Rightarrow> int" where
  "size_or_8 t = (if dt_size t \<le> 0 then 8 else dt_size t)"

primrec stripQualifiers :: "dtype \<Rightarrow> dtype" where
  "stripQualifiers (QualType t) = stripQualifiers t"
| "stripQualifiers (TypedefType t) = stripQualifiers t"
| "stripQualifiers (BasicType k name n) = BasicType k name n"
| "stripQualifiers (PtrType n r) = PtrType n r"
| "stripQualifiers (ArrayType t cnt) = ArrayType t cnt"
| "stripQualifiers (StructType name n fs) = StructType name n fs"
| "stripQualifiers (EnumType n vals) = EnumType n vals"
| "stripQualifiers (FuncType n) = FuncType n"
| "stripQualifiers (UnspecifiedType n) = UnspecifiedType n"
| "stripQualifiers (OtherType k n) = OtherType k n"

definition toBasicType :: "dtype \<Rightarrow> (string \<times> int) option" where
  "toBasicType t = (case t of BasicType k name n \<Rightarrow> Some (name, n) | _ \<Rightarrow> None)"

text \<open>\<open>strings.ToLower\<close>, \<open>HasPrefix\<close> and \<open>Contains\<close>, on ASCII text.\<close>

definition ToLower :: "string \<Rightarrow> string" where
  "ToLower s = map (\<lambda>c. if 65 \<le> code c \<and> code c \<le> 90 then char_of (code c + 32) else c) s"

definition HasPrefix :: "string \<Rightarrow> string \<Rightarrow> bool" where
  "HasPrefix s p \<longleftrightarrow> take (length p) s = p"

primrec Contains :: "string \<Rightarrow> string \<Rightarrow> bool" where
  "Contains [] p \<longleftrightarrow> p = []"
| "Contains (c # s) p \<longleftrightarrow> HasPrefix (c # s) p \<or> Contains s p"

definition isCharType :: "dtype \<Rightarrow> bool" where
  "isCharType t =
     (case stripQualifiers t of
        BasicType k name n \<Rightarrow>
          k = CharKind \<or> k = UcharKind \<or> ToLower name \<in> {''char'', ''signed char'', ''unsigned char''}
      | _ \<Rightarrow> False)"

section \<open>Values\<close>

record TypedData =
  td_Data :: "u8 list"
  td_Type :: dtype
  td_Address :: "u64 option"

text \<open>The memory of the process and the types behind pointers.\<close>

record type_env =
  ty_mem :: "u64 \<Rightarrow> int \<Rightarrow> u8 list res"
  ty_ref :: "nat \<Rightarrow> dtype"

definition DerefPointer :: "type_env \<Rightarrow> TypedData \<Rightarrow> TypedData res" where
  "DerefPointer V td =
     (case stripQualifiers (td_Type td) of
        PtrType n r \<Rightarrow>
          if length (td_Data td) < 8 then Inl (Error (BadFormat ''pointer''))
          else
            let addr = le_word (take 8 (td_Data td)); valueType = ty_ref V r in
            rbind (ty_mem V addr (size_or_8 valueType)) (\<lambda>data.
              Inr \<lparr>td_Data = data, td_Type = valueType, td_Address = Some addr\<rparr>)
      | _ \<Rightarrow> Inl (Error UnknownType))"

section \<open>Bit fields\<close>

definition fieldByteOffset :: "sfield \<Rightarrow> int" where
  "fieldByteOffset f =
     (if fd_ByteOffset f \<noteq> 0 then fd_ByteOffset f
      else if fd_DataBitOffset f \<noteq> 0 then int_quot (fd_DataBitOffset f) 8
      else 0)"

definition fixupBitfieldData :: "u8 list \<Rightarrow> sfield \<Rightarrow> u8 list res" where
  "fixupBitfieldData data f =
     (if fd_BitSize f = 0 then Inr data
      else
        let bitOffset =
              (if fd_DataBitOffset f \<noteq> 0 then fd_DataBitOffset f - 8 * int_quot (fd_DataBitOffset f) 8
               else if fd_BitOffset f \<noteq> 0 then int (length data) * 8 - fd_BitOffset f - fd_BitSize f
               else 0)
        in memcpyBits (replicate (length data) 0) 0 data (word_of_int bitOffset) (word_of_int (fd_BitSize f)))"

section \<open>Members and elements\<close>

definition ReadMember :: "TypedData \<Rightarrow> string \<Rightarrow> TypedData res" where
  "ReadMember td memberName =
     (case stripQualifiers (td_Type td) of
        StructType name n fs \<Rightarrow>
          (case find (\<lambda>f. fd_Name f = memberName) fs of
             None \<Rightarrow> Inl (Error (NotFound memberName))
           | Some f \<Rightarrow>
             let byteOffset = fieldByteOffset f;
                 memberSize = size_or_8 (fd_Type f);
                 top = min (byteOffset + memberSize) (int (length (td_Data td)))
             in rbind (go_slice (td_Data td) byteOffset top) (\<lambda>src.
                rbind (let memberData = go_copy (replicate (nat memberSize) 0) src in
                       if 0 < fd_BitSize f then fixupBitfieldData memberData f else Inr memberData) (\<lambda>data.
                Inr \<lparr>td_Data = data, td_Type = fd_Type f,
                     td_Address = map_option (\<lambda>a. a + word_of_int byteOffset) (td_Address td)\<rparr>)))
      | _ \<Rightarrow> Inl (Error UnknownType))"

definition Index :: "type_env \<Rightarrow> TypedData \<Rightarrow> int \<Rightarrow> TypedData res" where
  "Index V td index =
     (case stripQualifiers (td_Type td) of
        PtrType n r \<Rightarrow>
          if length (td_Data td) < 8 then Inl (Error (BadFormat ''pointer''))
          else
            let elemType = ty_ref V r;
                addr = le_word (take 8 (td_Data td)) + word_of_int index * word_of_int (size_or_8 elemType)
            in rbind (ty_mem V addr (size_or_8 elemType)) (\<lambda>data.
                 Inr \<lparr>td_Data = data, td_Type = elemType, td_Address = Some addr\<rparr>)
      | ArrayType elemType cnt \<Rightarrow>
          let elemSize = size_or_8 elemType; offset = wrap64 (index * elemSize) in
          if int (length (td_Data td)) < wrap64 (offset + elemSize) then Inl (Error (BadFormat ''index''))
          else rbind (go_slice (td_Data td) offset (wrap64 (offset + elemSize))) (\<lambda>src.
            Inr \<lparr>td_Data = go_copy (replicate (nat elemSize) 0) src, td_Type = elemType,
                 td_Address = map_option (\<lambda>a. a + word_of_int offset) (td_Address td)\<rparr>)
      | _ \<Rightarrow> Inl (Error UnknownType))"

section \<open>Printing\<close>

text \<open>
  The standard library's texts of floating-point numbers (\<open>%g\<close>) and of quoted strings (\<open>%q\<close>) are
  arguments; the fuel bounds the chunks of a string that \<open>readString\<close> reads.
\<close>

record print_env = type_env +
  pr_float32 :: "u32 \<Rightarrow> string"
  pr_float64 :: "u64 \<Rightarrow> string"
  pr_quote :: "u8 list \<Rightarrow> string"
  pr_fuel :: nat

definition isSigned :: "string \<Rightarrow> bool" where
  "isSigned name \<longleftrightarrow>
     \<not> HasPrefix name ''unsigned'' \<and>
     (name \<in> {''int'', ''short'', ''long'', ''long long'', ''long int'', ''long long int'', ''short int'', ''signed char''} \<or>
      HasPrefix name ''int'' \<or> Contains name ''signed'')"

text \<open>\<open>%c\<close> of a byte is the UTF-8 encoding of the code point.\<close>

definition fmt_c :: "u8 \<Rightarrow> string" where
  "fmt_c b = (if b < 0x80 then [char_of (unat b)]
              else [char_of (unat (0xC0 OR drop_bit 6 b)), char_of (unat (0x80 OR (b AND 0x3F)))])"

definition quoted_char :: "u8 list \<Rightarrow> string res" where
  "quoted_char data = (case data of [] \<Rightarrow> Inl Panic | b # _ \<Rightarrow> Inr (CHR 0x27 # fmt_c b @ [CHR 0x27]))"

definition signed_text :: "int \<Rightarrow> u8 list \<Rightarrow> string option" where
  "signed_text n data =
     (if n = 1 then Some (fmt_d (sint (le_word (take 1 data) :: u8)))
      else if n = 2 then Some (fmt_d (sint (le_word (take 2 data) :: u16)))
      else if n = 4 then Some (fmt_d (sint (le_word (take 4 data) :: u32)))
      else if n = 8 then Some (fmt_d (sint (le_word (take 8 data) :: u64)))
      else None)"

definition unsigned_text :: "int \<Rightarrow> u8 list \<Rightarrow> string option" where
  "unsigned_text n data =
     (if n \<in> {1, 2, 4, 8} then Some (fmt_d (int (le_nat (take (nat n) data)))) else None)"

definition visualizeBasicType :: "print_env \<Rightarrow> u8 list \<Rightarrow> string \<times> int \<Rightarrow> string res" where
  "visualizeBasicType V data = (\<lambda>(typeName, byteSize).
     let sz = (if byteSize \<le> 0 then int (length data) else byteSize); name = ToLower typeName in
     if int (length data) < sz then Inr ''<incomplete data>''
     else if name = ''bool'' \<or> name = ''_bool'' then
       Inr (if data \<noteq> [] \<and> hd data \<noteq> 0 then ''true'' else ''false'')
     else if name = ''float'' \<and> sz = 4 then Inr (pr_float32 V (le_word (take 4 data)))
     else if name = ''double'' \<and> sz = 8 then Inr (pr_float64 V (le_word (take 8 data)))
     else if name = ''long double'' \<and> 10 \<le> sz then Inr (pr_float64 V (le_word (take 8 data)))
     else if name \<in> {''char'', ''signed char'', ''unsigned char''} then quoted_char data
     else case (if isSigned name then signed_text sz data else None) of
       Some s \<Rightarrow> Inr s
     | None \<Rightarrow>
         (case unsigned_text sz data of
            Some s \<Rightarrow> Inr s
          | None \<Rightarrow> Inr (''<unknown basic type '' @ pr_quote V (map (\<lambda>c. of_nat (code c)) typeName) @
                       '' size='' @ fmt_d sz @ ''>'')))"

text \<open>The bytes before the first zero, over chunks of 256; more than 4096 end the string.\<close>

primrec read_chunks :: "type_env \<Rightarrow> nat \<Rightarrow> u64 \<Rightarrow> u8 list \<Rightarrow> u8 list res" where
  "read_chunks V 0 addr result = Inl OutOfFuel"
| "read_chunks V (Suc n) addr result =
     rbind (ty_mem V addr 256) (\<lambda>chunk.
       if 0 \<in> set chunk then Inr (result @ takeWhile (\<lambda>b. b \<noteq> 0) chunk)
       else if 4096 < length (result @ chunk) then Inr (result @ chunk)
       else read_chunks V n (addr + 256) (result @ chunk))"

definition readString :: "print_env \<Rightarrow> u64 \<Rightarrow> u8 list res" where
  "readString V addr = read_chunks (type_env.truncate V) (pr_fuel V) addr []"

definition visualizePointerType :: "print_env \<Rightarrow> u8 list \<Rightarrow> nat \<Rightarrow> string res" where
  "visualizePointerType V data r =
     (if length data < 8 then Inr ''<incomplete pointer>''
      else
        let ptr = le_word (take 8 data) :: u64 in
        if ptr = 0 then Inr ''0x0''
        else if isCharType (ty_ref V r) then
          on_error (readString V ptr) (Inr (fmt_x (unat ptr))) (\<lambda>s. Inr (pr_quote V s))
        else Inr (fmt_x (unat ptr)))"

definition visualizeEnumType :: "u8 list \<Rightarrow> int \<Rightarrow> (string \<times> int) list \<Rightarrow> string res" where
  "visualizeEnumType data byteSize vals =
     (if data = [] then Inr ''<empty enum>''
      else
        rbind (if byteSize = 1 then Inr (sint (hd data))
               else if byteSize = 2 then rbind (go_slice data 0 2) (\<lambda>bs. Inr (sint (le_word bs :: u16)))
               else if byteSize = 4 then rbind (go_slice data 0 4) (\<lambda>bs. Inr (sint (le_word bs :: u32)))
               else if byteSize = 8 then rbind (go_slice data 0 8) (\<lambda>bs. Inr (sint (le_word bs :: u64)))
               else Inr (uint (hd data))) (\<lambda>val.
        Inr (case find (\<lambda>v. snd v = val) vals of Some v \<Rightarrow> fst v | None \<Rightarrow> fmt_d val)))"

definition other_name :: "otherKind \<Rightarrow> string" where
  "other_name k =
     (case k of VoidKind \<Rightarrow> ''*dwarf.VoidType'' | AddrKind \<Rightarrow> ''*dwarf.AddrType''
      | DotDotDotKind \<Rightarrow> ''*dwarf.DotDotDotType'' | UnsupportedKind \<Rightarrow> ''*dwarf.UnsupportedType'')"

primrec rmap :: "('a \<Rightarrow> 'b res) \<Rightarrow> 'a list \<Rightarrow> 'b list res" where
  "rmap f [] = Inr []"
| "rmap f (x # xs) = rbind (f x) (\<lambda>y. rbind (rmap f xs) (\<lambda>ys. Inr (y # ys)))"

lemma rmap_cong [fundef_cong]:
  "xs = ys \<Longrightarrow> (\<And>x. x \<in> set ys \<Longrightarrow> f x = g x) \<Longrightarrow> rmap f xs = rmap g ys"
  by (induction xs arbitrary: ys) auto

text \<open>The elements of an array that lie in the data.\<close>

definition array_slices :: "u8 list \<Rightarrow> int \<Rightarrow> int \<Rightarrow> u8 list list" where
  "array_slices data elemSize cnt =
     map (\<lambda>i. take (nat elemSize) (drop (i * nat elemSize) data))
       [0..<nat (min cnt (int (length data) div elemSize))]"

text \<open>The bytes of a field of a struct; \<open>None\<close> when it begins behind the data.\<close>

definition field_data :: "u8 list \<Rightarrow> sfield \<Rightarrow> u8 list option res" where
  "field_data data f =
     (let byteOffset = fieldByteOffset f; memberSize = size_or_8 (fd_Type f) in
      if int (length data) \<le> byteOffset then Inr None
      else
        rbind (go_slice data byteOffset (byteOffset + min memberSize (int (length data) - byteOffset))) (\<lambda>src.
        rbind (let memberData = go_copy (replicate (nat memberSize) 0) src in
               if 0 < fd_BitSize f then fixupBitfieldData memberData f else Inr memberData) (\<lambda>bs.
        Inr (Some bs))))"

definition tabs :: "nat \<Rightarrow> string" where
  "tabs n = replicate n (CHR 0x09)"

definition line_end :: string where
  "line_end = [CHR 0x0A]"

fun visualize :: "print_env \<Rightarrow> u8 list \<Rightarrow> dtype \<Rightarrow> nat \<Rightarrow> string res"
  and visualize_fields :: "print_env \<Rightarrow> u8 list \<Rightarrow> sfield list \<Rightarrow> nat \<Rightarrow> string list res" where
  "visualize V data (QualType t) depth = visualize V data t depth"
| "visualize V data (TypedefType t) depth = visualize V data t depth"
| "visualize V data (BasicType k name n) depth = visualizeBasicType V data (name, n)"
| "visualize V data (PtrType n r) depth = visualizePointerType V data r"
| "visualize V data (ArrayType t cnt) depth =
     (if dt_size t \<le> 0 \<or> cnt \<le> 0 then Inr ''[]''
      else rbind (rmap (\<lambda>elem. visualize V elem t 0) (array_slices data (dt_size t) cnt)) (\<lambda>parts.
        Inr (''['' @ join '', '' parts @ '']'')))"
| "visualize V data (StructType name n fs) depth =
     (if fs = [] then Inr ''{}''
      else rbind (visualize_fields V data fs depth) (\<lambda>lines.
        Inr (''{'' @ line_end @ join line_end lines @ line_end @ tabs depth @ ''}'')))"
| "visualize V data (EnumType n vals) depth = visualizeEnumType data n vals"
| "visualize V data (FuncType n) depth =
     Inr (if 8 \<le> length data then fmt_x (unat (le_word (take 8 data) :: u64)) else ''<function>'')"
| "visualize V data (UnspecifiedType n) depth = Inr ''<unspecified>''"
| "visualize V data (OtherType k n) depth = Inr (''<unsupported type: '' @ other_name k @ ''>'')"
| "visualize_fields V data [] depth = Inr []"
| "visualize_fields V data (Field name t bo bs bi db # fs) depth =
     (if name = '''' then visualize_fields V data fs depth
      else rbind (field_data data (Field name t bo bs bi db)) (\<lambda>d.
        case d of
          None \<Rightarrow> visualize_fields V data fs depth
        | Some memberData \<Rightarrow>
            rbind (visualize V memberData t (depth + 1)) (\<lambda>memberStr.
            rbind (visualize_fields V data fs depth) (\<lambda>rest.
            Inr ((tabs (depth + 1) @ name @ '': '' @ memberStr) # rest)))))"

definition Visualize :: "print_env \<Rightarrow> TypedData \<Rightarrow> nat \<Rightarrow> string res" where
  "Visualize V td depth = visualize V (td_Data td) (td_Type td) depth"

section \<open>The value of a bit field\<close>

lemma bit_le_nat: "bit (le_nat bs) j \<longleftrightarrow> bit_at bs j"
proof (induction bs arbitrary: j)
  case (Cons b bs)
  have b: "unat b < 2 ^ 8" using unsigned_less [of b] by simp
  have "take_bit 8 (le_nat (b # bs)) = unat b" "drop_bit 8 (le_nat (b # bs)) = le_nat bs"
    using b by (simp_all add: take_bit_eq_mod drop_bit_eq_div)
  then have "bit (le_nat (b # bs)) j = (if j < 8 then bit (unat b) j else bit (le_nat bs) (j - 8))"
    using bit_take_bit_iff [of 8 "le_nat (b # bs)" j] bit_drop_bit_eq [of 8 "le_nat (b # bs)"] by (simp del: le_nat.simps)
  then show ?case
    by (cases "j < 8") (auto simp: bit_unsigned_iff Cons.IH bit_at_def nth_Cons' div_less_iff_less_mult le_div_geq le_mod_geq possible_bit_word)
qed (simp add: bit_at_def)

lemma bit_at_copied:
  assumes "src = take k (drop o' bs)" "j < 8 * k" "j < 8 * n" "j + 8 * o' < 8 * length bs"
  shows "bit_at (go_copy (replicate n 0) src) j = bit_at bs (8 * o' + j)"
proof -
  have j: "j div 8 < n" "j div 8 < k" "o' + j div 8 < length bs"
    using assms(2-4) by (simp_all add: div_less_iff_less_mult mult.commute)
  then have "j div 8 < length bs - o'" by linarith
  have d: "(8 * o' + j) div 8 = o' + j div 8" "(8 * o' + j) mod 8 = j mod 8" by simp_all
  show ?thesis unfolding bit_at_def d using j \<open>j div 8 < length bs - o'\<close> assms(1) by (simp add: go_copy_nth)
qed

definition bits_struct :: TypedData where
  "bits_struct =
     \<lparr>td_Data = [0xAD, 0x3C, 0x81, 0],
      td_Type = StructType ''s'' 4
        [Field ''a'' (BasicType IntKind ''int'' 4) 0 3 0 0, Field ''c'' (BasicType IntKind ''int'' 4) 0 10 0 11],
      td_Address = None\<rparr>"


section \<open>The text of an integer\<close>

text \<open>The names that a C compiler gives its integer types, and the number in two's complement.\<close>

definition c_integers :: "string list" where
  "c_integers = [''int'', ''short int'', ''long int'', ''long long int'', ''unsigned int'',
     ''short unsigned int'', ''long unsigned int'', ''long long unsigned int'']"

lemma c_integers_lower: "list_all (\<lambda>s. ToLower s = s) c_integers"
  by (simp add: c_integers_def ToLower_def)

lemma c_integers_signed: "map isSigned c_integers = [True, True, True, True, False, True, True, True]"
  by (simp add: c_integers_def isSigned_def HasPrefix_def)

lemma c_integers_plain: "list_all (\<lambda>s. s \<notin> {''bool'', ''_bool'', ''float'', ''double'', ''long double'', ''char'', ''signed char'', ''unsigned char''}) c_integers"
  by (simp add: c_integers_def)

definition signed_number :: "u8 list \<Rightarrow> int" where
  "signed_number bs = (let n = int (le_nat bs) in if 2 * n < 256 ^ length bs then n else n - 256 ^ length bs)"

lemma mod_halves:
  assumes "0 \<le> n" "n < 2 * h"
  shows "(n + h) mod (2 * h) = (if n < h then n + h else n - (h :: int))"
proof (cases "n < h")
  case False
  then have "(n - h) mod (2 * h) = n - h" using assms by (intro mod_pos_pos_trivial) simp_all
  moreover have "n + h = n - h + 2 * h" by simp
  ultimately show ?thesis using False by (metis mod_add_self2)
qed (use assms in \<open>simp add: mod_pos_pos_trivial\<close>)

lemma sint_le_word:
  assumes "8 * length bs = LENGTH('a::len)"
  shows "sint (le_word bs :: 'a word) = signed_number bs"
proof -
  let ?n = "int (le_nat bs)"
  have "(256 :: int) ^ length bs = 2 ^ (8 * length bs)" by (simp add: power_mult)
  then have p: "(256 :: int) ^ length bs = 2 * 2 ^ (LENGTH('a) - 1)"
    unfolding assms by (simp flip: power_Suc)
  have b: "?n < 256 ^ length bs" using le_nat_bound [of bs] by (metis of_nat_less_iff of_nat_power of_nat_numeral)
  have u: "uint (le_word bs :: 'a word) = ?n"
    using b unfolding p by (simp add: le_word_def uint_nat unsigned_of_nat take_bit_nat_eq_self flip: power_Suc)
  let ?h = "2 ^ (LENGTH('a) - 1) :: int"
  have "signed_take_bit (LENGTH('a) - 1) ?n = (?n + ?h) mod (2 * ?h) - ?h"
    by (simp add: signed_take_bit_eq_take_bit_shift take_bit_eq_mod flip: power_Suc)
  also have "(?n + ?h) mod (2 * ?h) = (if ?n < ?h then ?n + ?h else ?n - ?h)"
    using b unfolding p by (intro mod_halves) simp_all
  finally show ?thesis
    unfolding signed_number_def Let_def p sint_uint u by (auto split: if_splits)
qed

lemma list_all_at: "list_all P xs \<Longrightarrow> x \<in> set xs \<Longrightarrow> P x"
  by (simp add: list_all_iff)


definition sample_print :: print_env where
  "sample_print = \<lparr>ty_mem = (\<lambda>a n. Inl (Error VMReadFailed)), ty_ref = (\<lambda>r. BasicType IntKind ''int'' 4),
     pr_float32 = (\<lambda>w. ''0''), pr_float64 = (\<lambda>w. ''0''), pr_quote = (\<lambda>bs. []), pr_fuel = 1\<rparr>"


end
