(* ===== verification/Target.thy ===== *)
theory Target
  imports Process_Control Elf Typed_Data
begin

text \<open>
  The target, \<open>src/debugger/target.go\<close>, with the dynamic linker's rendezvous structure,
  \<open>dynlib.go\<close>, and the auxiliary vector, \<open>auxv_linux.go\<close>.  \<open>Process\<close> and \<open>Target\<close> point at each
  other, and the breakpoint handlers of the target run inside the process: the state is the process
  whose kernel component carries the target's own fields, and the handlers are the \<open>onHit\<close> of the
  environment that \<open>target_env\<close> builds.
\<close>

section \<open>State\<close>

text \<open>
  \<open>mainELF\<close> is a pointer into the collection, kept as an index; \<open>t_entryAddr\<close> is the address that
  the handler of the entry point has captured.
\<close>

record target_data =
  t_elves :: ELFCollection
  t_mainELF :: "nat option"
  t_rendezvousAddr :: u64
  t_entryAddr :: u64
  t_exprResults :: "TypedData list"

type_synonym 'k target = "('k \<times> target_data) Process"

definition tdata :: "'k target \<Rightarrow> target_data" where
  "tdata p = snd (kernel p)"

definition upd_tdata :: "(target_data \<Rightarrow> target_data) \<Rightarrow> 'k target \<Rightarrow> 'k target" where
  "upd_tdata f p = p\<lparr>kernel := (fst (kernel p), f (snd (kernel p)))\<rparr>"

lemma tdata_upd [simp]: "tdata (upd_tdata f p) = f (tdata p)"
  by (simp add: tdata_def upd_tdata_def)

lemma upd_tdata_fields [simp]:
  "breakpointSites (upd_tdata f p) = breakpointSites p" "threads (upd_tdata f p) = threads p"
  "currentThread (upd_tdata f p) = currentThread p" "p_pid (upd_tdata f p) = p_pid p"
  "watchpoints (upd_tdata f p) = watchpoints p" "p_state (upd_tdata f p) = p_state p"
  by (simp_all add: upd_tdata_def)

text \<open>
  The requests to the kernel act on the kernel component and leave the target's fields alone.
\<close>

definition lift_get :: "('k \<Rightarrow> 'a option) \<Rightarrow> 'k \<times> 'd \<Rightarrow> 'a option" where
  "lift_get f k = f (fst k)"

definition lift_req :: "('k \<Rightarrow> 'k option) \<Rightarrow> 'k \<times> 'd \<Rightarrow> ('k \<times> 'd) option" where
  "lift_req f k = (case f (fst k) of None \<Rightarrow> None | Some k' \<Rightarrow> Some (k', snd k))"

definition lift_ret :: "('k \<Rightarrow> ('a \<times> 'k) option) \<Rightarrow> 'k \<times> 'd \<Rightarrow> ('a \<times> ('k \<times> 'd)) option" where
  "lift_ret f k = (case f (fst k) of None \<Rightarrow> None | Some (x, k') \<Rightarrow> Some (x, (k', snd k)))"

definition lift_user :: "'k user_ops \<Rightarrow> ('k \<times> 'd) user_ops" where
  "lift_user U =
     \<lparr>peekUser = (\<lambda>tid off. lift_get (peekUser U tid off)), pokeUser = (\<lambda>tid off w. lift_req (pokeUser U tid off w)),
      getRegs = (\<lambda>tid. lift_get (getRegs U tid)), setRegs = (\<lambda>tid bs. lift_req (setRegs U tid bs)),
      getFPRegs = (\<lambda>tid. lift_get (getFPRegs U tid)), setFPRegs = (\<lambda>tid bs. lift_req (setFPRegs U tid bs))\<rparr>"

definition lift_mem :: "'k mem_ops \<Rightarrow> ('k \<times> 'd) mem_ops" where
  "lift_mem M =
     \<lparr>peekData = (\<lambda>pid a. lift_get (peekData M pid a)), pokeData = (\<lambda>pid a w. lift_req (pokeData M pid a w)),
      vmReadv = (\<lambda>pid iov. lift_get (vmReadv M pid iov))\<rparr>"

definition lift_env :: "'k env \<Rightarrow> ('k \<times> 'd) env" where
  "lift_env E =
     \<lparr>user = lift_user (user E), memory = lift_mem (memory E),
      sys_cont = (\<lambda>tid. lift_req (sys_cont E tid)), sys_singleStep = (\<lambda>tid. lift_req (sys_singleStep E tid)),
      sys_syscall = (\<lambda>tid. lift_req (sys_syscall E tid)),
      sys_setOptions = (\<lambda>tid opts. lift_req (sys_setOptions E tid opts)),
      sys_getSigInfo = (\<lambda>tid. lift_get (sys_getSigInfo E tid)),
      sys_wait4 = (\<lambda>tid opts. lift_ret (sys_wait4 E tid opts)),
      sys_tgkill = (\<lambda>pid tid sig. lift_req (sys_tgkill E pid tid sig)),
      sys_kill = (\<lambda>pid sig. lift_req (sys_kill E pid sig)), sys_detach = (\<lambda>tid. lift_req (sys_detach E tid)),
      sys_seize = (\<lambda>tid. lift_req (sys_seize E tid)), sys_interrupt = (\<lambda>tid. lift_req (sys_interrupt E tid)),
      sys_start = (\<lambda>debug. lift_ret (sys_start E debug)), sys_taskDir = (\<lambda>pid. lift_get (sys_taskDir E pid)),
      rangeOrder = rangeOrder E, onHit = (\<lambda>h. mret False), onLifecycle = (\<lambda>reason p. p)\<rparr>"

text \<open>
  What the target calls outside the sources: files (the executables, \<open>/proc/<pid>/auxv\<close> and
  \<open>/proc/<pid>/exe\<close>, the temporary file of the vDSO), the instruction decoder of
  \<open>golang.org/x/arch\<close> (whether it is a call, and its length), the iteration order of the register
  rules, and the fuel of one expression.
\<close>

record 'k tenv =
  te_env :: "'k env"
  te_sorters :: sorters
  te_elfOpen :: "'k \<Rightarrow> string \<Rightarrow> elfFile option"
  te_auxv :: "'k \<Rightarrow> int \<Rightarrow> u8 list option"
  te_readlink :: "'k \<Rightarrow> int \<Rightarrow> string option"
  te_writeTemp :: "u8 list \<Rightarrow> 'k \<Rightarrow> (string \<times> 'k) option"
  te_decode :: "u8 list \<Rightarrow> (bool \<times> nat) option"
  te_ruleOrder :: "rules \<Rightarrow> u64 list"
  te_keyOrder :: "(fileLineKey \<rightharpoonup> nat list) \<Rightarrow> fileLineKey list"
  te_type :: "string \<Rightarrow> Offset \<Rightarrow> dtype res"
  te_ref :: "nat \<Rightarrow> dtype"
  te_parseFloat :: "string \<Rightarrow> u64 option"
  te_fuel :: nat

definition kenv :: "'k tenv \<Rightarrow> ('k \<times> target_data) env" where
  "kenv T = lift_env (te_env T)"

definition mem :: "'k tenv \<Rightarrow> 'k target \<Rightarrow> u64 \<Rightarrow> int \<Rightarrow> u8 list res" where
  "mem T p addr amount = ReadMemory (memory (kenv T)) (p_pid p) addr amount (kernel p)"

definition main_elf :: "target_data \<Rightarrow> ELF option" where
  "main_elf td =
     (case t_mainELF td of
        None \<Rightarrow> None
      | Some i \<Rightarrow> if i < length (elves (t_elves td)) then Some (elves (t_elves td) ! i) else None)"

definition elfForPC :: "target_data \<Rightarrow> u64 \<Rightarrow> ELF option" where
  "elfForPC td pc = (case ELFContainingAddress (t_elves td) pc of Some e \<Rightarrow> Some e | None \<Rightarrow> main_elf td)"

definition ELFContainingPC :: "'k target \<Rightarrow> ELF option" where
  "ELFContainingPC p =
     (case GetPC p of
        Inl _ \<Rightarrow> main_elf (tdata p)
      | Inr pc \<Rightarrow>
          (case ELFContainingAddress (t_elves (tdata p)) pc of Some e \<Rightarrow> Some e | None \<Rightarrow> main_elf (tdata p)))"

text \<open>The position of the object at a program counter.\<close>

definition elf_index :: "target_data \<Rightarrow> u64 \<Rightarrow> nat option" where
  "elf_index td pc =
     find (\<lambda>i. ContainsAddress (elves (t_elves td) ! i) pc) [0..<length (elves (t_elves td))]"

section \<open>Tables of pairs\<close>

text \<open>\<open>binary.LittleEndian.Uint64(data[i:j])\<close>\<close>

definition u64_at :: "u8 list \<Rightarrow> int \<Rightarrow> u64 res" where
  "u64_at data i = rbind (go_slice data i (i + 8)) (\<lambda>bs. Inr (le_word bs))"

text \<open>
  The entries of the auxiliary vector and of the \<open>.dynamic\<close> section are pairs of words, up to a zero
  tag; a rest of less than sixteen bytes is ignored.
\<close>

function word_pairs :: "u8 list \<Rightarrow> (u64 \<times> u64) list" where
  "word_pairs data =
     (if length data < 16 then []
      else let tag = le_word (take 8 data); val = le_word (take 8 (drop 8 data)) in
        if tag = 0 then [] else (tag, val) # word_pairs (drop 16 data))"
  by pat_completeness auto
termination by (relation "measure length") auto

declare word_pairs.simps [simp del]

definition readAuxv :: "'k tenv \<Rightarrow> 'k target \<Rightarrow> (u64 \<rightharpoonup> u64) option" where
  "readAuxv T p =
     (case te_auxv T (fst (kernel p)) (p_pid p) of
        None \<Rightarrow> None
      | Some data \<Rightarrow> Some (fold (\<lambda>(tag, val) m. m(tag \<mapsto> val)) (word_pairs data) Map.empty))"

definition atEntry :: u64 where "atEntry = 9"
definition dtDebug :: u64 where "dtDebug = 21"

definition find_debug :: "u8 list \<Rightarrow> u64" where
  "find_debug data = (case find (\<lambda>(tag, val). tag = dtDebug) (word_pairs data) of Some (_, val) \<Rightarrow> val | None \<Rightarrow> 0)"

section \<open>The rendezvous structure\<close>

record rDebug =
  rd_Version :: u32
  rd_Map :: u64
  rd_Brk :: u64
  rd_State :: u32
  rd_LdBase :: u64

record linkMapEntry =
  lm_Addr :: u64
  lm_Name :: u64
  lm_Ld :: u64
  lm_Next :: u64
  lm_Prev :: u64

definition readRendezvous :: "'k tenv \<Rightarrow> 'k target \<Rightarrow> rDebug res" where
  "readRendezvous T p =
     rbind (mem T p (t_rendezvousAddr (tdata p)) 40) (\<lambda>data.
     rbind (go_slice data 0 4) (\<lambda>version.
     rbind (u64_at data 8) (\<lambda>m.
     rbind (u64_at data 16) (\<lambda>brk.
     rbind (go_slice data 24 28) (\<lambda>state.
     rbind (u64_at data 32) (\<lambda>ldBase.
     Inr \<lparr>rd_Version = le_word version, rd_Map = m, rd_Brk = brk, rd_State = le_word state, rd_LdBase = ldBase\<rparr>))))))"

definition read_link :: "u8 list \<Rightarrow> linkMapEntry res" where
  "read_link bs =
     rbind (u64_at bs 0) (\<lambda>addr. rbind (u64_at bs 8) (\<lambda>name. rbind (u64_at bs 16) (\<lambda>ld.
     rbind (u64_at bs 24) (\<lambda>nxt. rbind (u64_at bs 32) (\<lambda>prev.
     Inr \<lparr>lm_Addr = addr, lm_Name = name, lm_Ld = ld, lm_Next = nxt, lm_Prev = prev\<rparr>)))))"

definition go_string :: "u8 list \<Rightarrow> string" where
  "go_string bs = map (\<lambda>b. char_of (unat b)) bs"

section \<open>Loading libraries\<close>

definition vdsoName :: string where "vdsoName = ''linux-vdso.so.1''"

text \<open>\<open>dumpVDSO\<close>: the header gives the size; the image goes to a temporary file.\<close>

definition vdso_size :: "u8 list \<Rightarrow> u64 res" where
  "vdso_size header =
     rbind (u64_at header 40) (\<lambda>shOff.
     rbind (go_slice header 58 60) (\<lambda>entSize.
     rbind (go_slice header 60 62) (\<lambda>num.
     Inr (shOff + ucast (le_word entSize :: u16) * ucast (le_word num :: u16)))))"

definition dumpVDSO :: "'k tenv \<Rightarrow> u64 \<Rightarrow> ('k target, string) st" where
  "dumpVDSO T addr =
     mbind (mget (\<lambda>p. mem T p addr 64)) (\<lambda>header.
     mbind (mget (\<lambda>_. vdso_size header)) (\<lambda>totalSize.
     mbind (mget (\<lambda>p. mem T p addr (sint totalSize))) (\<lambda>image p.
       case te_writeTemp T image (fst (kernel p)) of
         None \<Rightarrow> (Inl (Error VMReadFailed), p)
       | Some (path, k) \<Rightarrow> (Inr path, p\<lparr>kernel := (k, snd (kernel p))\<rparr>))))"

definition already_loaded :: "target_data \<Rightarrow> string \<Rightarrow> bool" where
  "already_loaded td name =
     (if name = vdsoName then ELFByFilename (t_elves td) vdsoName \<noteq> None else ELFByPath (t_elves td) name \<noteq> None)"

text \<open>A call whose error ends the function quietly.\<close>

definition unless_error :: "('s, 'a) st \<Rightarrow> ('a \<Rightarrow> ('s, unit) st) \<Rightarrow> ('s, unit) st" where
  "unless_error m f = mbind (mtry m) (\<lambda>r. case r of Inl e \<Rightarrow> mret () | Inr x \<Rightarrow> f x)"

definition load_library :: "'k tenv \<Rightarrow> linkMapEntry \<Rightarrow> ('k target, unit) st" where
  "load_library T lm =
     (if lm_Name lm = 0 then mret ()
      else
        unless_error (mget (\<lambda>p. mem T p (lm_Name lm) 4096)) (\<lambda>bs.
        let name = go_string (takeWhile (\<lambda>b. b \<noteq> 0) bs) in
        if name = '''' then mret ()
        else
          mbind (mget (\<lambda>p. Inr (already_loaded (tdata p) name))) (\<lambda>found.
          if found then mret ()
          else
            unless_error (if name = vdsoName then dumpVDSO T (lm_Addr lm) else mret name) (\<lambda>elfPath.
            unless_error (mget (\<lambda>p. OpenELF (te_sorters T) (te_elfOpen T (fst (kernel p))) elfPath)) (\<lambda>newELF.
            mmodify (upd_tdata (\<lambda>td. td\<lparr>t_elves := Push (t_elves td) (NotifyLoaded newELF (lm_Addr lm))\<rparr>)))))))"

text \<open>The list may be cyclic in the memory of the tracee: the walk is bounded by fuel.\<close>

primrec walk_links :: "'k tenv \<Rightarrow> nat \<Rightarrow> u64 \<Rightarrow> ('k target, unit) st" where
  "walk_links T 0 entryPtr = (\<lambda>p. (if entryPtr = 0 then Inr () else Inl OutOfFuel, p))"
| "walk_links T (Suc fuel) entryPtr =
     (if entryPtr = 0 then mret ()
      else
        unless_error (mget (\<lambda>p. mem T p entryPtr 40)) (\<lambda>bs.
        mbind (mget (\<lambda>_. read_link bs)) (\<lambda>lm.
        mbind (load_library T lm) (\<lambda>_. walk_links T fuel (lm_Next lm)))))"

definition reloadDynamicLibraries :: "'k tenv \<Rightarrow> nat \<Rightarrow> ('k target, unit) st" where
  "reloadDynamicLibraries T fuel =
     unless_error (mget (readRendezvous T)) (\<lambda>rdebug. walk_links T fuel (rd_Map rdebug))"

text \<open>
  The handlers that the target installs: number 0 on the entry point, number 1 on
  \<open>_dl_debug_state\<close>.
\<close>

definition install :: "nat \<Rightarrow> BreakpointSite \<Rightarrow> ('k target, unit) st" where
  "install h site = on_site (\<lambda>b p. (Inr (), InstallHitHandler h b, p)) site"

definition resolveRendezvous :: "'k tenv \<Rightarrow> nat \<Rightarrow> ('k target, unit) st" where
  "resolveRendezvous T fuel p =
     (if t_rendezvousAddr (tdata p) \<noteq> 0 then (Inr (), p)
      else case main_elf (tdata p) of
        None \<Rightarrow> (Inr (), p)
      | Some e \<Rightarrow>
        (case ef_Section (el_file e) ''.dynamic'' of
           None \<Rightarrow> (Inr (), p)
         | Some dynSec \<Rightarrow>
           unless_error (mget (\<lambda>p. mem T p (se_Addr dynSec + el_loadBias e) (sint (se_Size dynSec)))) (\<lambda>dynBytes.
           mbind (mmodify (upd_tdata (\<lambda>td. td\<lparr>t_rendezvousAddr := find_debug dynBytes\<rparr>))) (\<lambda>_.
           if find_debug dynBytes = 0 then mret ()
           else
             mbind (reloadDynamicLibraries T fuel) (\<lambda>_.
             unless_error (mget (readRendezvous T)) (\<lambda>rdebug.
             if rd_Brk rdebug = 0 then mret ()
             else
               unless_error (CreateBreakpointSite (rd_Brk rdebug) False True) (\<lambda>dlDebugBP.
               mbind (install 1 dlDebugBP) (\<lambda>_.
               mdrop (on_site (Enable (kenv T)) dlDebugBP))))))) p))"

definition entryPointHit :: "'k tenv \<Rightarrow> nat \<Rightarrow> ('k target, bool) st" where
  "entryPointHit T fuel =
     mbind (resolveRendezvous T fuel) (\<lambda>_ p.
       let entryAddr = t_entryAddr (tdata p) in
       mbind (case find (\<lambda>b. bp_address b = entryAddr) (sites (breakpointSites p)) of
                None \<Rightarrow> mret () | Some bp \<Rightarrow> mdrop (on_site (Disable (kenv T)) bp)) (\<lambda>_.
       mbind (mmodify (\<lambda>q. q\<lparr>breakpointSites := snd (removeByAddress entryAddr (breakpointSites q))\<rparr>)) (\<lambda>_.
       mret False)) p)"

definition dlDebugHit :: "'k tenv \<Rightarrow> nat \<Rightarrow> ('k target, bool) st" where
  "dlDebugHit T fuel = mbind (reloadDynamicLibraries T fuel) (\<lambda>_. mret True)"

definition hitHandler :: "'k tenv \<Rightarrow> nat \<Rightarrow> nat \<Rightarrow> ('k target, bool) st" where
  "hitHandler T fuel h =
     (if h = 0 then entryPointHit T fuel else if h = 1 then dlDebugHit T fuel else mret False)"

text \<open>The environment of the process: the target's handlers, and \<open>notifyThreadLifecycle\<close>, which does nothing.\<close>

definition notifyThreadLifecycle :: "StopReason \<Rightarrow> 'k target \<Rightarrow> 'k target" where
  "notifyThreadLifecycle reason p = p"

definition target_env :: "'k tenv \<Rightarrow> nat \<Rightarrow> ('k \<times> target_data) env" where
  "target_env T fuel = (kenv T)\<lparr>onHit := hitHandler T fuel, onLifecycle := notifyThreadLifecycle\<rparr>"

section \<open>Launch and attach\<close>

definition set_elf :: "nat \<Rightarrow> ELF \<Rightarrow> target_data \<Rightarrow> target_data" where
  "set_elf i e td = td\<lparr>t_elves := (t_elves td)\<lparr>elves := (elves (t_elves td))[i := e]\<rparr>\<rparr>"

definition loadELF :: "'k tenv \<Rightarrow> string \<Rightarrow> ('k target, unit) st" where
  "loadELF T path =
     unless_error (mget (\<lambda>p. OpenELF (te_sorters T) (te_elfOpen T (fst (kernel p))) path)) (\<lambda>e.
     mbind (mmodify (upd_tdata (\<lambda>td. td\<lparr>t_mainELF := Some (length (elves (t_elves td))), t_elves := Push (t_elves td) e\<rparr>)))
       (\<lambda>_ p.
       case readAuxv T p of
         None \<Rightarrow> (Inr (), p)
       | Some auxv \<Rightarrow>
         (case (auxv atEntry, t_mainELF (tdata p)) of
            (Some actualEntry, Some i) \<Rightarrow>
              (Inr (), upd_tdata (set_elf i (SetLoadBias e (actualEntry - EntryPoint e))) p)
          | _ \<Rightarrow> (Inr (), p))))"

definition installEntryPointBreakpoint :: "'k tenv \<Rightarrow> ('k target, bool) st" where
  "installEntryPointBreakpoint T p =
     (case main_elf (tdata p) of
        None \<Rightarrow> (Inr False, p)
      | Some e \<Rightarrow>
        if \<not> list_ex (\<lambda>prog. pr_Type prog = PT_INTERP) (ef_Progs (el_file e)) then (Inr False, p)
        else case readAuxv T p of
          None \<Rightarrow> (Inr False, p)
        | Some auxv \<Rightarrow>
          (case auxv atEntry of
             None \<Rightarrow> (Inr False, p)
           | Some entryAddr \<Rightarrow>
             mbind (mtry (CreateBreakpointSite entryAddr False True)) (\<lambda>r.
             case r of
               Inl err \<Rightarrow> mret False
             | Inr bp \<Rightarrow>
               mbind (install 0 bp) (\<lambda>_.
               mbind (mmodify (upd_tdata (\<lambda>td. td\<lparr>t_entryAddr := entryAddr\<rparr>))) (\<lambda>_.
               mbind (mdrop (on_site (Enable (kenv T)) bp)) (\<lambda>_. mret True)))) p))"

definition no_target :: target_data where
  "no_target = \<lparr>t_elves = \<lparr>elves = []\<rparr>, t_mainELF = None, t_rendezvousAddr = 0, t_entryAddr = 0, t_exprResults = []\<rparr>"

definition launchTargetWithOpts :: "'k tenv \<Rightarrow> nat \<Rightarrow> string \<Rightarrow> ('k target, unit) st" where
  "launchTargetWithOpts T fuel program =
     (let E = target_env T fuel in
      mbind (Launch E fuel) (\<lambda>_.
      mbind (mmodify (upd_tdata (\<lambda>_. no_target))) (\<lambda>_.
      mbind (mdrop (EnableThreadTracking E)) (\<lambda>_.
      mbind (loadELF T program) (\<lambda>_.
      mbind (installEntryPointBreakpoint T) (\<lambda>installed.
      if installed then mbind (Resume E) (\<lambda>_. mbind (WaitOnSignal E fuel) (\<lambda>_. mret ()))
      else mret ()))))))"

definition AttachTarget :: "'k tenv \<Rightarrow> nat \<Rightarrow> int \<Rightarrow> ('k target, unit) st" where
  "AttachTarget T fuel pid =
     (let E = target_env T fuel in
      mbind (Attach E fuel pid) (\<lambda>_.
      mbind (mmodify (upd_tdata (\<lambda>_. no_target))) (\<lambda>_.
      mbind (mdrop (EnableThreadTracking E)) (\<lambda>_.
      mbind (\<lambda>p. case te_readlink T (fst (kernel p)) pid of None \<Rightarrow> (Inr (), p) | Some path \<Rightarrow> loadELF T path p) (\<lambda>_.
      resolveRendezvous T fuel)))))"

definition CloseTarget :: "'k tenv \<Rightarrow> nat \<Rightarrow> ('k target, unit) st" where
  "CloseTarget T fuel =
     mbind (mmodify (upd_tdata (\<lambda>td. td\<lparr>t_elves := CloseAll (t_elves td)\<rparr>))) (\<lambda>_. Close (target_env T fuel) fuel)"

section \<open>The auxiliary vector and the load bias\<close>

definition encode_pairs :: "(u64 \<times> u64) list \<Rightarrow> u8 list" where
  "encode_pairs ps = concat (map (\<lambda>(tag, val). le_bytes 8 tag @ le_bytes 8 val) ps)"

text \<open>The end of a table: a pair with a zero tag, or less than a pair.\<close>

definition table_end :: "u8 list \<Rightarrow> bool" where
  "table_end bs \<longleftrightarrow> length bs < 16 \<or> le_word (take 8 bs) = (0 :: u64)"

lemma word_pairs_encode:
  "list_all (\<lambda>(tag, _). tag \<noteq> 0) ps \<Longrightarrow> table_end bs \<Longrightarrow> word_pairs (encode_pairs ps @ bs) = ps"
proof (induction ps)
  case Nil
  then show ?case by (subst word_pairs.simps) (auto simp: encode_pairs_def table_end_def Let_def)
next
  case (Cons x ps)
  obtain tag val where x: "x = (tag, val)" by fastforce
  let ?rest = "encode_pairs ps @ bs"
  have e: "encode_pairs (x # ps) @ bs = le_bytes 8 tag @ le_bytes 8 val @ ?rest"
    by (simp add: encode_pairs_def x)
  have "word_pairs (le_bytes 8 tag @ le_bytes 8 val @ ?rest) = (tag, val) # word_pairs ?rest"
    using Cons.prems(1) by (subst word_pairs.simps) (simp add: x le_word_le_bytes Let_def)
  then show ?case unfolding e using Cons by (simp add: x)
qed

lemma fold_updates: "fold (\<lambda>(tag, val) m. m(tag \<mapsto> val)) ps m a = (case map_of (rev ps) a of None \<Rightarrow> m a | Some v \<Rightarrow> Some v)"
  by (induction ps arbitrary: m) (auto simp: map_add_def split: option.split)

text \<open>
  \<open>readAuxv\<close> recovers the auxiliary vector that the kernel wrote: for every list of
  entries with a tag other than zero, whatever follows the terminating entry, it returns the map of
  that list, in which the last entry of a tag counts.
\<close>

theorem auxv_round_trip:
  assumes "te_auxv T (fst (kernel p)) (p_pid p) = Some (encode_pairs ps @ bs)"
    and "list_all (\<lambda>(tag, _). tag \<noteq> 0) ps" "table_end bs"
  shows "readAuxv T p = Some (map_of (rev ps))"
  using assms by (auto simp: readAuxv_def word_pairs_encode fold_updates split: option.split)

text \<open>
  C37 (functional).  After \<open>loadELF\<close> of a file the main object is biased so that its entry point lies
  where the kernel started the program, and the line tables and the call frame information carry the
  same bias.
\<close>

theorem load_bias_of_entry:
  assumes "OpenELF (te_sorters T) (te_elfOpen T (fst (kernel p))) path = Inr e"
    and "te_auxv T (fst (kernel p)) (p_pid p) = Some (encode_pairs ps @ bs)"
    and "list_all (\<lambda>(tag, _). tag \<noteq> 0) ps" "table_end bs" "map_of (rev ps) 9 = Some entry"
  shows "\<exists>q e'. loadELF T path p = (Inr (), q) \<and> main_elf (tdata q) = Some e' \<and> el_path e' = el_path e \<and>
    EntryPoint e' + el_loadBias e' = entry \<and>
    map_option d_loadBias (el_dwarf e') = map_option (\<lambda>_. el_loadBias e') (el_dwarf e) \<and>
    map_option cfi_loadBias (el_cfi e') = map_option (\<lambda>_. el_loadBias e') (el_cfi e)"
proof -
  let ?i = "length (elves (t_elves (tdata p)))"
  let ?p1 = "upd_tdata (\<lambda>td. td\<lparr>t_mainELF := Some ?i, t_elves := Push (t_elves td) e\<rparr>) p"
  let ?e' = "SetLoadBias e (entry - EntryPoint e)"
  have "readAuxv T ?p1 = Some (map_of (rev ps))"
    using assms(2-4) by (auto simp: readAuxv_def word_pairs_encode fold_updates upd_tdata_def split: option.split)
  moreover have "upd_tdata (\<lambda>td. td\<lparr>t_mainELF := Some (length (elves (t_elves td))), t_elves := Push (t_elves td) e\<rparr>) p = ?p1"
    by (simp add: upd_tdata_def tdata_def)
  ultimately have "loadELF T path p = (Inr (), upd_tdata (set_elf ?i ?e') ?p1)"
    using assms(1,5) by (simp add: loadELF_def unless_error_def mbind_def mtry_def mget_def mret_def mmodify_def atEntry_def)
  moreover have "main_elf (tdata (upd_tdata (set_elf ?i ?e') ?p1)) = Some ?e'"
    by (simp add: main_elf_def set_elf_def Push_def)
  moreover have "EntryPoint ?e' + el_loadBias ?e' = entry" by (simp add: SetLoadBias_def EntryPoint_def)
  moreover have "map_option d_loadBias (el_dwarf ?e') = map_option (\<lambda>_. el_loadBias ?e') (el_dwarf e)"
    "map_option cfi_loadBias (el_cfi ?e') = map_option (\<lambda>_. el_loadBias ?e') (el_cfi e)" "el_path ?e' = el_path e"
    by (simp_all add: SetLoadBias_def option.map_comp comp_def)
  ultimately show ?thesis by blast
qed

section \<open>The list of libraries\<close>

text \<open>The link map at an address in the memory of the tracee: load addresses and names.\<close>

fun link_map :: "'k tenv \<Rightarrow> 'k target \<Rightarrow> u64 \<Rightarrow> (u64 \<times> string) list \<Rightarrow> bool" where
  "link_map T p ptr [] \<longleftrightarrow> ptr = 0"
| "link_map T p ptr ((addr, name) # libs) \<longleftrightarrow> ptr \<noteq> 0 \<and>
     (\<exists>bs lm nbs. mem T p ptr 40 = Inr bs \<and> read_link bs = Inr lm \<and> lm_Addr lm = addr \<and> lm_Name lm \<noteq> 0 \<and>
       mem T p (lm_Name lm) 4096 = Inr nbs \<and> go_string (takeWhile (\<lambda>b. b \<noteq> 0) nbs) = name \<and>
       link_map T p (lm_Next lm) libs)"

text \<open>What one entry does to the collection, the vDSO apart.\<close>

definition add_library :: "'k tenv \<Rightarrow> 'k \<Rightarrow> u64 \<times> string \<Rightarrow> target_data \<Rightarrow> target_data" where
  "add_library T k lib td =
     (case lib of (addr, name) \<Rightarrow>
        if name = '''' \<or> ELFByPath (t_elves td) name \<noteq> None then td
        else case OpenELF (te_sorters T) (te_elfOpen T k) name of
          Inl _ \<Rightarrow> td
        | Inr e \<Rightarrow> td\<lparr>t_elves := Push (t_elves td) (NotifyLoaded e addr)\<rparr>)"

lemma mem_upd_tdata [simp]: "mem T (upd_tdata f p) = mem T p"
  by (intro ext) (simp add: mem_def ReadMemory_def processVMReadv_def kenv_def lift_env_def lift_mem_def
      lift_get_def upd_tdata_def)

lemma fst_kernel_upd [simp]: "fst (kernel (upd_tdata f p)) = fst (kernel p)"
  by (simp add: upd_tdata_def)

lemma upd_tdata_comp [simp]: "upd_tdata f (upd_tdata g p) = upd_tdata (f \<circ> g) p" "upd_tdata (\<lambda>td. td) p = p"
  by (simp_all add: upd_tdata_def)

lemma link_map_upd [simp]: "link_map T (upd_tdata f p) ptr libs = link_map T p ptr libs"
  by (induction T p ptr libs rule: link_map.induct) simp_all

lemma upd_tdata_cong: "f (tdata p) = g (tdata p) \<Longrightarrow> upd_tdata f p = upd_tdata g p"
  by (simp add: upd_tdata_def tdata_def)

lemma load_library_adds:
  assumes "lm_Name lm \<noteq> 0" "mem T p (lm_Name lm) 4096 = Inr nbs" "go_string (takeWhile (\<lambda>b. b \<noteq> 0) nbs) = name"
    and "name \<noteq> vdsoName" "OpenELF (te_sorters T) (te_elfOpen T (fst (kernel p))) name \<noteq> Inl Panic"
    "OpenELF (te_sorters T) (te_elfOpen T (fst (kernel p))) name \<noteq> Inl OutOfFuel"
  shows "load_library T lm p = (Inr (), upd_tdata (add_library T (fst (kernel p)) (lm_Addr lm, name)) p)"
proof (cases "name = '''' \<or> ELFByPath (t_elves (tdata p)) name \<noteq> None")
  case True
  then have "upd_tdata (add_library T (fst (kernel p)) (lm_Addr lm, name)) p = upd_tdata (\<lambda>td. td) p"
    by (intro upd_tdata_cong) (auto simp: add_library_def)
  with True assms show ?thesis
    by (auto simp: load_library_def unless_error_def mbind_def mtry_def mget_def mret_def already_loaded_def Let_def)
next
  case False
  then have step: "load_library T lm p = (case OpenELF (te_sorters T) (te_elfOpen T (fst (kernel p))) name of
      Inl _ \<Rightarrow> (Inr (), p)
    | Inr e \<Rightarrow> (Inr (), upd_tdata (\<lambda>td. td\<lparr>t_elves := Push (t_elves td) (NotifyLoaded e (lm_Addr lm))\<rparr>) p))"
    using assms by (auto simp: load_library_def unless_error_def mbind_def mtry_def mget_def mret_def mmodify_def
        already_loaded_def Let_def split: sum.split failure.split)
  show ?thesis
  proof (cases "OpenELF (te_sorters T) (te_elfOpen T (fst (kernel p))) name")
    case (Inl f)
    then have "upd_tdata (add_library T (fst (kernel p)) (lm_Addr lm, name)) p = upd_tdata (\<lambda>td. td) p"
      by (intro upd_tdata_cong) (auto simp: add_library_def)
    with step Inl show ?thesis by simp
  next
    case (Inr e)
    with False have "upd_tdata (add_library T (fst (kernel p)) (lm_Addr lm, name)) p =
        upd_tdata (\<lambda>td. td\<lparr>t_elves := Push (t_elves td) (NotifyLoaded e (lm_Addr lm))\<rparr>) p"
      by (intro upd_tdata_cong) (auto simp: add_library_def)
    with step Inr show ?thesis by simp
  qed
qed

definition readable :: "'k tenv \<Rightarrow> 'k target \<Rightarrow> string \<Rightarrow> bool" where
  "readable T p name \<longleftrightarrow> name \<noteq> vdsoName \<and>
     OpenELF (te_sorters T) (te_elfOpen T (fst (kernel p))) name \<notin> {Inl Panic, Inl OutOfFuel}"

lemma walk_links_adds:
  "link_map T p ptr libs \<Longrightarrow> length libs < fuel \<Longrightarrow> (\<And>addr name. (addr, name) \<in> set libs \<Longrightarrow> readable T p name) \<Longrightarrow>
    walk_links T fuel ptr p = (Inr (), upd_tdata (fold (add_library T (fst (kernel p))) libs) p)"
proof (induction libs arbitrary: p ptr fuel)
  case Nil
  then obtain k where "fuel = Suc k" by (cases fuel) auto
  with Nil show ?case by (simp add: mret_def id_def)
next
  case (Cons lib libs)
  obtain addr name where lib: "lib = (addr, name)" by fastforce
  obtain k where k: "fuel = Suc k" "length libs < k" using Cons.prems(2) by (cases fuel) auto
  from Cons.prems(1) obtain bs lm nbs where *: "ptr \<noteq> 0" "mem T p ptr 40 = Inr bs" "read_link bs = Inr lm"
    "lm_Addr lm = addr" "lm_Name lm \<noteq> 0" "mem T p (lm_Name lm) 4096 = Inr nbs"
    "go_string (takeWhile (\<lambda>b. b \<noteq> 0) nbs) = name" "link_map T p (lm_Next lm) libs"
    unfolding lib by auto
  have "readable T p name" using Cons.prems(3) [of addr name] lib by simp
  then have load: "load_library T lm p = (Inr (), upd_tdata (add_library T (fst (kernel p)) lib) p)"
    using load_library_adds [OF *(5-7)] *(4) by (simp add: readable_def lib)
  let ?p1 = "upd_tdata (add_library T (fst (kernel p)) lib) p"
  have "walk_links T k (lm_Next lm) ?p1 = (Inr (), upd_tdata (fold (add_library T (fst (kernel ?p1))) libs) ?p1)"
    by (rule Cons.IH) (use * k Cons.prems(3) in \<open>auto simp: readable_def\<close>)
  with * load show ?case
    by (simp add: k unless_error_def mbind_def mtry_def mget_def comp_def)
qed

lemma OpenELF_path: "OpenELF S elfOpen name = Inr e \<Longrightarrow> el_path e = name"
  using OpenELF_fields(1) [of S elfOpen name e] by (cases "elfOpen name") (simp_all add: OpenELF_def [of _ _ name])

text \<open>Libraries are added behind the ones that are there, and none is dropped.\<close>

definition grown :: "'k tenv \<Rightarrow> 'k \<Rightarrow> (u64 \<times> string) set \<Rightarrow> ELF list \<Rightarrow> ELF list \<Rightarrow> bool" where
  "grown T k libs old es \<longleftrightarrow> (\<exists>new. es = old @ new \<and> (\<forall>e \<in> set new. \<exists>addr e0. (addr, el_path e) \<in> libs \<and>
     OpenELF (te_sorters T) (te_elfOpen T k) (el_path e) = Inr e0 \<and> e = NotifyLoaded e0 addr))"

lemma path_NotifyLoaded [simp]: "el_path (NotifyLoaded e b) = el_path e"
  by (simp add: NotifyLoaded_def SetLoadBias_def)

lemma grown_add_library:
  assumes "grown T k libs old (elves (t_elves td))" "lib \<in> libs"
  shows "grown T k libs old (elves (t_elves (add_library T k lib td)))"
proof -
  obtain addr name where lib: "lib = (addr, name)" by fastforce
  show ?thesis
  proof (cases "elves (t_elves (add_library T k lib td)) = elves (t_elves td)")
    case False
    then obtain e where e: "OpenELF (te_sorters T) (te_elfOpen T k) name = Inr e"
      "elves (t_elves (add_library T k lib td)) = elves (t_elves td) @ [NotifyLoaded e addr]"
      by (auto simp: add_library_def lib Push_def split: if_splits sum.splits)
    obtain new where new: "elves (t_elves td) = old @ new"
      "\<forall>e \<in> set new. \<exists>addr e0. (addr, el_path e) \<in> libs \<and>
         OpenELF (te_sorters T) (te_elfOpen T k) (el_path e) = Inr e0 \<and> e = NotifyLoaded e0 addr"
      using assms(1) by (auto simp: grown_def)
    show ?thesis unfolding grown_def e(2) new(1)
      by (rule exI [of _ "new @ [NotifyLoaded e addr]"])
        (use new(2) e(1) OpenELF_path [OF e(1)] assms(2) lib in auto)
  qed (use assms(1) in simp)
qed

lemma present_add_library:
  "ELFByPath (t_elves td) name \<noteq> None \<Longrightarrow> ELFByPath (t_elves (add_library T k lib td)) name \<noteq> None"
  by (auto simp: add_library_def ELFByPath_def Push_def find_None_iff split: prod.split sum.split)

lemma added_library:
  "name \<noteq> '''' \<Longrightarrow> OpenELF (te_sorters T) (te_elfOpen T k) name = Inr e \<Longrightarrow>
    ELFByPath (t_elves (add_library T k (addr, name) td)) name \<noteq> None"
  using OpenELF_path [of "te_sorters T" "te_elfOpen T k" name e]
  by (auto simp: add_library_def ELFByPath_def Push_def find_None_iff)

lemma grown_fold:
  "grown T k lib_set old (elves (t_elves td)) \<Longrightarrow> set libs \<subseteq> lib_set \<Longrightarrow>
    grown T k lib_set old (elves (t_elves (fold (add_library T k) libs td)))"
  by (induction libs arbitrary: td) (simp_all add: grown_add_library)

lemma present_fold:
  "ELFByPath (t_elves td) name \<noteq> None \<Longrightarrow> ELFByPath (t_elves (fold (add_library T k) libs td)) name \<noteq> None"
  by (induction libs arbitrary: td) (simp_all add: present_add_library del: not_None_eq)

lemma added_fold:
  assumes "(addr, name) \<in> set libs" "name \<noteq> ''''" "OpenELF (te_sorters T) (te_elfOpen T k) name = Inr e"
  shows "ELFByPath (t_elves (fold (add_library T k) libs td)) name \<noteq> None"
proof -
  obtain us vs where "libs = us @ (addr, name) # vs" using assms(1) by (meson split_list)
  then show ?thesis using present_fold [OF added_library [OF assms(2,3)]] by simp
qed


section \<open>A small target\<close>

definition demo_tenv :: "(u64 \<Rightarrow> u8) tenv" where
  "demo_tenv = \<lparr>te_env = flat_env, te_sorters = std_sorters, te_elfOpen = (\<lambda>k. sample_open),
     te_auxv = (\<lambda>k pid. Some (encode_pairs [(3, 0x5040), (9, 0x5010)] @ replicate 16 0)),
     te_readlink = (\<lambda>k pid. Some ''/bin/demo''), te_writeTemp = (\<lambda>bs k. None),
     te_decode = (\<lambda>bs. Some (False, 1)), te_ruleOrder = (\<lambda>rs. []), te_keyOrder = (\<lambda>m. []),
     te_type = (\<lambda>path off. Inl (Error UnknownType)), te_ref = (\<lambda>r. OtherType VoidKind 0),
     te_parseFloat = (\<lambda>s. None), te_fuel = 10\<rparr>"

definition plain_elf :: ELF where
  "plain_elf = \<lparr>el_path = ''/bin/demo'', el_file = sample_elf_file, el_loadBias = 0, addrLow = 0, addrHigh = 0x2000,
     symbolsByName = Map.empty, symbolsByAddr = [], el_dwarf = None, el_cfi = None\<rparr>"

definition demo_regs :: Registers where
  "demo_regs = zero_regs\<lparr>gprs := replicate 128 0 @ [0x10] @ replicate 87 0\<rparr>"

definition demo_target :: "(u64 \<Rightarrow> u8) target" where
  "demo_target = \<lparr>p_pid = 1, terminateOnEnd = True, isAttached = True, p_state = ProcessStopped,
     threads = [(1, (flat_thread 1)\<lparr>ts_Regs := demo_regs\<rparr>)], currentThread = 1,
     breakpointSites = \<lparr>sites = []\<rparr>, watchpoints = \<lparr>points = []\<rparr>, syscallCatchPolicy = CatchNoSyscalls,
     kernel = (code_page, \<lparr>t_elves = \<lparr>elves = [plain_elf]\<rparr>, t_mainELF = Some 0, t_rendezvousAddr = 0, t_entryAddr = 0, t_exprResults = []\<rparr>),
     breakpointIDCounter = 0, watchpointIDCounter = 0, osThreadLocks = 1\<rparr>"


lemma demo_auxv: "te_auxv demo_tenv k pid = Some (encode_pairs [(3, 0x5040), (9, 0x5010)] @ replicate 16 0)"
  by (simp add: demo_tenv_def)

lemma zeros_end: "table_end (replicate 16 0)"
  by code_simp

theorem auxv_round_trip_witness:
  "readAuxv demo_tenv demo_target = Some (map_of [(9, 0x5010), (3, 0x5040)])"
  using auxv_round_trip [of demo_tenv demo_target "[(3, 0x5040), (9, 0x5010)]" "replicate 16 0"]
  by (simp add: demo_auxv zeros_end)

theorem load_bias_of_entry_witness:
  "\<exists>q e'. loadELF demo_tenv ''/bin/demo'' demo_target = (Inr (), q) \<and> main_elf (tdata q) = Some e' \<and>
     EntryPoint e' + el_loadBias e' = 0x5010"
proof -
  obtain e where e: "OpenELF std_sorters sample_open ''/bin/demo'' = Inr e" using sample_opens by blast
  then have "OpenELF (te_sorters demo_tenv) (te_elfOpen demo_tenv (fst (kernel demo_target))) ''/bin/demo'' = Inr e"
    by (simp add: demo_tenv_def)
  from load_bias_of_entry [OF this demo_auxv _ zeros_end, of "0x5010"] show ?thesis by auto
qed

text \<open>A tracee that has the rendezvous structure at 0x900 and one library in its list.\<close>

definition linked_mem :: "u64 \<Rightarrow> u8 list" where
  "linked_mem a =
     (if a = 0x900 then le_bytes 8 (1 :: u64) @ le_bytes 8 (0x1000 :: u64) @ replicate 24 0
      else if a = 0x1000 then le_bytes 8 (0x7000 :: u64) @ le_bytes 8 (0x1100 :: u64) @ replicate 24 0
      else map (\<lambda>c. of_nat (of_char c)) ''/bin/demo'' @ [0])"

definition linked_tenv :: "(u64 \<Rightarrow> u8) tenv" where
  "linked_tenv = demo_tenv\<lparr>te_env := flat_env\<lparr>memory := (memory flat_env)\<lparr>vmReadv := (\<lambda>pid iov k.
     case iov of [] \<Rightarrow> None | (a, n) # _ \<Rightarrow> Some (linked_mem a))\<rparr>\<rparr>\<rparr>"

definition linked_target :: "(u64 \<Rightarrow> u8) target" where
  "linked_target = demo_target\<lparr>kernel := (code_page,
     \<lparr>t_elves = \<lparr>elves = []\<rparr>, t_mainELF = None, t_rendezvousAddr = 0x900, t_entryAddr = 0, t_exprResults = []\<rparr>)\<rparr>"

definition linked_rd :: rDebug where
  "linked_rd = \<lparr>rd_Version = 1, rd_Map = 0x1000, rd_Brk = 0, rd_State = 0, rd_LdBase = 0\<rparr>"

lemma linked_reads:
  "readRendezvous linked_tenv linked_target = Inr linked_rd"
  "mem linked_tenv linked_target 0x1000 40 = Inr (linked_mem 0x1000)"
  "mem linked_tenv linked_target 0x1100 4096 = Inr (linked_mem 0x1100)"
  "read_link (linked_mem 0x1000) = Inr \<lparr>lm_Addr = 0x7000, lm_Name = 0x1100, lm_Ld = 0, lm_Next = 0, lm_Prev = 0\<rparr>"
  "go_string (takeWhile (\<lambda>b. b \<noteq> 0) (linked_mem 0x1100)) = ''/bin/demo''"
  by code_simp+

lemma linked_map: "link_map linked_tenv linked_target 0x1000 [(0x7000, ''/bin/demo'')]"
  using linked_reads(2-5) by auto


end
