(* ===== verification/Variables.thy ===== *)
theory Variables
  imports Target
begin

text \<open>
  Variables of the stopped program by name, \<open>src/debugger/target.go\<close>: locals of the current scope,
  globals of every loaded object, the values of earlier expression calls, and compound names such as
  \<open>info.regs[0].name\<close>.
\<close>

section \<open>Finding a variable\<close>

text \<open>The object at the program counter, by position, with the main object as a fallback.\<close>

definition current_elf :: "'k target \<Rightarrow> nat option" where
  "current_elf p =
     (case GetPC p of
        Inl _ \<Rightarrow> (case main_elf (tdata p) of None \<Rightarrow> None | Some _ \<Rightarrow> t_mainELF (tdata p))
      | Inr pc \<Rightarrow>
        (case elf_index (tdata p) pc of
           Some i \<Rightarrow> Some i
         | None \<Rightarrow> (case main_elf (tdata p) of None \<Rightarrow> None | Some _ \<Rightarrow> t_mainELF (tdata p))))"

definition dwarf_at :: "'k target \<Rightarrow> nat \<Rightarrow> DWARF option" where
  "dwarf_at p i = el_dwarf (elves (t_elves (tdata p)) ! i)"

text \<open>The search through the objects; each builds its index of globals when it is asked.\<close>

fun find_global :: "nat list \<Rightarrow> string \<Rightarrow> ('k target, (Offset \<times> nat) option) st" where
  "find_global [] name = mret None"
| "find_global (i # is) name = (\<lambda>p.
     case dwarf_at p i of
       None \<Rightarrow> find_global is name p
     | Some d \<Rightarrow>
       (let (r, d') = FindGlobalVariable d name;
            p' = upd_tdata (set_elf i ((elves (t_elves (tdata p)) ! i)\<lparr>el_dwarf := Some d'\<rparr>)) p
        in case r of
             Some off \<Rightarrow> (Inr (Some (off, i)), p')
           | None \<Rightarrow> find_global is name p'))"

definition FindVariable :: "string \<Rightarrow> ('k target, (Offset \<times> nat) option) st" where
  "FindVariable name p =
     (case GetPC p of
        Inl Panic \<Rightarrow> (Inl Panic, p)
      | Inl OutOfFuel \<Rightarrow> (Inl OutOfFuel, p)
      | Inl (Error _) \<Rightarrow> (Inr None, p)
      | Inr pc \<Rightarrow>
        mbind (mget (\<lambda>p. case current_elf p of
            None \<Rightarrow> Inr None
          | Some i \<Rightarrow>
            (case dwarf_at p i of
               None \<Rightarrow> Inr None
             | Some d \<Rightarrow> rbind (FindLocalVariable (length (d_data d)) d name pc) (\<lambda>off. Inr (map_option (\<lambda>found. (found, i)) off)))))
        (\<lambda>local. case local of
            Some found \<Rightarrow> mret (Some found)
          | None \<Rightarrow> (\<lambda>p. find_global [0..<length (elves (t_elves (tdata p)))] name p)) p)"

section \<open>Reading a variable\<close>

text \<open>
  The canonical frame address for a frame base: the unwinder of the object at the program counter.
  Its cache of CIEs does not change what it computes and is not written back here.
\<close>

definition unwind_cfa :: "'k tenv \<Rightarrow> 'k target \<Rightarrow> Registers \<Rightarrow> u64 \<Rightarrow> u64 option res" where
  "unwind_cfa T p regs pc =
     (case elfForPC (tdata p) pc of
        None \<Rightarrow> Inr None
      | Some e \<Rightarrow>
        (case el_cfi e of
           None \<Rightarrow> Inr None
         | Some cfi \<Rightarrow>
           (case fst (UnwindFrame (te_fuel T) (mem T p) (te_ruleOrder T) cfi pc regs) of
              Inr (_, cfa) \<Rightarrow> Inr (Some cfa)
            | Inl (Error _) \<Rightarrow> Inr None
            | Inl Panic \<Rightarrow> Inl Panic
            | Inl OutOfFuel \<Rightarrow> Inl OutOfFuel)))"

definition location_env :: "'k tenv \<Rightarrow> 'k target \<Rightarrow> loc_env" where
  "location_env T p = \<lparr>l_mem = mem T p, l_unwindCFA = unwind_cfa T p, l_fuel = te_fuel T\<rparr>"

definition types_env :: "'k tenv \<Rightarrow> 'k target \<Rightarrow> type_env" where
  "types_env T p = \<lparr>ty_mem = mem T p, ty_ref = te_ref T\<rparr>"

text \<open>The type, the location and the bytes of a variable; an address only for one that is wholly in memory.\<close>

definition variable_data :: "'k tenv \<Rightarrow> 'k target \<Rightarrow> ELF \<Rightarrow> DWARF \<Rightarrow> Offset \<Rightarrow> TypedData res" where
  "variable_data T p e d off =
     rbind (ResolveType (te_type T (el_path e)) d off) (\<lambda>varType.
       case Registers_of p of
         None \<Rightarrow> Inl (Error RegistersUnavailable)
       | Some regs \<Rightarrow>
         rbind (EvalLocationAttr (te_fuel T) (location_env T p) d regs off False) (\<lambda>result.
         rbind (ReadLocationData (mem T p) regs result (size_or_8 varType)) (\<lambda>data.
         Inr \<lparr>td_Data = data, td_Type = varType,
              td_Address = (case result of Single (LocAddress a) \<Rightarrow> Some a | _ \<Rightarrow> None)\<rparr>)))"

definition GetExpressionResult :: "'k tenv \<Rightarrow> int \<Rightarrow> ('k target, TypedData) st" where
  "GetExpressionResult T index p =
     (if index < 0 \<or> int (length (t_exprResults (tdata p))) \<le> index then (Inl (Error (NotFound ''expression result'')), p)
      else
        let res = t_exprResults (tdata p) ! nat index in
        case td_Address res of
          None \<Rightarrow> (Inr res, p)
        | Some a \<Rightarrow>
          (case mem T p a (size_or_8 (td_Type res)) of
             Inl Panic \<Rightarrow> (Inl Panic, p)
           | Inl OutOfFuel \<Rightarrow> (Inl OutOfFuel, p)
           | Inl (Error _) \<Rightarrow> (Inr res, p)
           | Inr data \<Rightarrow>
               (let res' = \<lparr>td_Data = data, td_Type = td_Type res, td_Address = Some a\<rparr> in
                (Inr res', upd_tdata (\<lambda>td. td\<lparr>t_exprResults := (t_exprResults td)[nat index := res']\<rparr>) p))))"

definition getInitialVariableData :: "'k tenv \<Rightarrow> string \<Rightarrow> ('k target, TypedData) st" where
  "getInitialVariableData T name =
     (if 1 < length name \<and> hd name = CHR ''$'' then
        (case Atoi (tl name) of None \<Rightarrow> mfail (BadName name) | Some index \<Rightarrow> GetExpressionResult T index)
      else
        mbind (FindVariable name) (\<lambda>found.
          case found of
            None \<Rightarrow> mfail (NotFound name)
          | Some (off, i) \<Rightarrow>
            mget (\<lambda>p. let e = elves (t_elves (tdata p)) ! i in
              case el_dwarf e of None \<Rightarrow> Inl Panic | Some d \<Rightarrow> variable_data T p e d off)))"

section \<open>Compound names\<close>

definition is_op :: "char \<Rightarrow> bool" where
  "is_op c \<longleftrightarrow> c = CHR ''.'' \<or> c = CHR ''-'' \<or> c = CHR ''[''"

abbreviation word_of :: "string \<Rightarrow> string" where
  "word_of s \<equiv> takeWhile (\<lambda>c. \<not> is_op c) s"

abbreviation rest_of :: "string \<Rightarrow> string" where
  "rest_of s \<equiv> dropWhile (\<lambda>c. \<not> is_op c) s"

function resolve_rest :: "type_env \<Rightarrow> string \<Rightarrow> TypedData \<Rightarrow> TypedData res" where
  "resolve_rest V [] td = Inr td"
| "resolve_rest V (c # cs) td =
     (if c = CHR ''-'' then
        (case cs of
           [] \<Rightarrow> Inl (Error (BadName (c # cs)))
         | d # ds \<Rightarrow>
             if d \<noteq> CHR ''>'' then Inl (Error (BadName (c # cs)))
             else rbind (DerefPointer V td) (\<lambda>td. rbind (ReadMember td (word_of ds)) (resolve_rest V (rest_of ds))))
      else if c = CHR ''.'' then rbind (ReadMember td (word_of cs)) (resolve_rest V (rest_of cs))
      else if c = CHR ''['' then
        (if CHR '']'' \<notin> set cs then Inl (Error (BadName (c # cs)))
         else case Atoi (takeWhile (\<lambda>x. x \<noteq> CHR '']'') cs) of
           None \<Rightarrow> Inl (Error (BadName cs))
         | Some index \<Rightarrow> rbind (Index V td index) (resolve_rest V (tl (dropWhile (\<lambda>x. x \<noteq> CHR '']'') cs))))
      else Inl (Error (BadName (c # cs))))"
  by pat_completeness auto
termination
  by (relation "measure (\<lambda>(_, s, _). length s)")
     (auto simp: less_Suc_eq_le intro: le_trans [OF diff_le_self] le_SucI length_dropWhile_le)

definition ResolveIndirectName :: "'k tenv \<Rightarrow> string \<Rightarrow> ('k target, TypedData) st" where
  "ResolveIndirectName T name =
     mbind (getInitialVariableData T (word_of name)) (\<lambda>data.
     mget (\<lambda>p. resolve_rest (types_env T p) (rest_of name) data))"

definition VariableLocation :: "'k tenv \<Rightarrow> string \<Rightarrow> ('k target, ExprResult) st" where
  "VariableLocation T name =
     mbind (FindVariable name) (\<lambda>found.
       case found of
         None \<Rightarrow> mfail (NotFound name)
       | Some (off, i) \<Rightarrow>
         mget (\<lambda>p. case (Registers_of p, dwarf_at p i) of
             (None, _) \<Rightarrow> Inl (Error RegistersUnavailable)
           | (_, None) \<Rightarrow> Inl Panic
           | (Some regs, Some d) \<Rightarrow> EvalLocationAttr (te_fuel T) (location_env T p) d regs off False))"

text \<open>The locals in scope; one whose type, location or bytes cannot be had is left out.\<close>

definition local_entry :: "'k tenv \<Rightarrow> 'k target \<Rightarrow> ELF \<Rightarrow> DWARF \<Rightarrow> Offset \<Rightarrow> (string \<times> TypedData) option res" where
  "local_entry T p e d off =
     on_error (ReadDIE d off) (Inr None) (\<lambda>entry.
       if entryName entry = '''' then Inr None
       else on_error (variable_data T p e d off) (Inr None) (\<lambda>td. Inr (Some (entryName entry, td))))"

definition LocalVariables :: "'k tenv \<Rightarrow> 'k target \<Rightarrow> (string \<times> TypedData) list res" where
  "LocalVariables T p =
     rbind (GetPC p) (\<lambda>pc.
       case current_elf p of
         None \<Rightarrow> Inl (Error NoDwarfData)
       | Some i \<Rightarrow>
         let e = elves (t_elves (tdata p)) ! i in
         case el_dwarf e of
           None \<Rightarrow> Inl (Error NoDwarfData)
         | Some d \<Rightarrow>
           rbind (LocalVariablesAtAddress (length (d_data d)) d pc) (\<lambda>offsets.
             if Registers_of p = None then Inl (Error RegistersUnavailable)
             else rbind (rmap (local_entry T p e d) offsets) (\<lambda>found. Inr (map the (filter (\<lambda>x. x \<noteq> None) found)))))"

section \<open>Places\<close>

text \<open>
  What a compound name means: a path of steps from a place, an address with a type, to another one.
  A member is at its offset, an element at its index times its size, and a pointer leads to where
  the bytes in memory say; what it leads to has to be readable.  The types are laid out as a compiler
  does it: fields inside their struct, arrays of a known length, sizes in the range of \<open>int64\<close>.
\<close>

datatype pstep = Member string | Arrow string | Elem nat

primrec render_step :: "pstep \<Rightarrow> string" where
  "render_step (Member n) = CHR ''.'' # n"
| "render_step (Arrow n) = CHR ''-'' # CHR ''>'' # n"
| "render_step (Elem i) = CHR ''['' # fmt_d (int i) @ [CHR '']'']"

definition render :: "pstep list \<Rightarrow> string" where
  "render ps = concat (map render_step ps)"

definition mem_bytes :: "(u64 \<Rightarrow> u8) \<Rightarrow> u64 \<Rightarrow> int \<Rightarrow> u8 list" where
  "mem_bytes m a n = map (\<lambda>i. m (a + of_nat i)) [0..<nat n]"

fun laid_out :: "dtype \<Rightarrow> bool" and fields_laid_out :: "int \<Rightarrow> sfield list \<Rightarrow> bool" where
  "laid_out (QualType t) \<longleftrightarrow> laid_out t"
| "laid_out (TypedefType t) \<longleftrightarrow> laid_out t"
| "laid_out (PtrType n r) \<longleftrightarrow> n = 8"
| "laid_out (ArrayType t cnt) \<longleftrightarrow> laid_out t \<and> 0 < cnt \<and> cnt * dt_size t < 2 ^ 63"
| "laid_out (StructType name n fs) \<longleftrightarrow> 0 < n \<and> n < 2 ^ 63 \<and> fields_laid_out n fs"
| "laid_out (BasicType k name n) \<longleftrightarrow> 0 < n \<and> n < 2 ^ 63"
| "laid_out (EnumType n vals) \<longleftrightarrow> 0 < n \<and> n < 2 ^ 63"
| "laid_out t \<longleftrightarrow> False"
| "fields_laid_out n [] \<longleftrightarrow> True"
| "fields_laid_out n (Field name t bo bs bi db # fs) \<longleftrightarrow>
     laid_out t \<and> bs = 0 \<and> 0 \<le> bo \<and> db = 0 \<and> bo + dt_size t \<le> n \<and> fields_laid_out n fs"

definition member_place :: "string \<Rightarrow> u64 \<times> dtype \<Rightarrow> (u64 \<times> dtype) option" where
  "member_place n = (\<lambda>(a, t).
     case stripQualifiers t of
       StructType name sz fs \<Rightarrow>
         map_option (\<lambda>f. (a + word_of_int (fd_ByteOffset f), fd_Type f)) (find (\<lambda>f. fd_Name f = n) fs)
     | _ \<Rightarrow> None)"

definition readable_place :: "type_env \<Rightarrow> (u64 \<Rightarrow> u8) \<Rightarrow> u64 \<times> dtype \<Rightarrow> (u64 \<times> dtype) option" where
  "readable_place V m = (\<lambda>(a, t).
     if laid_out t \<and> ty_mem V a (dt_size t) = Inr (mem_bytes m a (dt_size t)) then Some (a, t) else None)"

definition pointer_place :: "type_env \<Rightarrow> (u64 \<Rightarrow> u8) \<Rightarrow> nat \<Rightarrow> u64 \<times> dtype \<Rightarrow> (u64 \<times> dtype) option" where
  "pointer_place V m i = (\<lambda>(a, t).
     case stripQualifiers t of
       PtrType n r \<Rightarrow>
         readable_place V m (le_word (mem_bytes m a 8) + of_nat i * word_of_int (dt_size (ty_ref V r)), ty_ref V r)
     | _ \<Rightarrow> None)"

definition elem_place :: "type_env \<Rightarrow> (u64 \<Rightarrow> u8) \<Rightarrow> nat \<Rightarrow> u64 \<times> dtype \<Rightarrow> (u64 \<times> dtype) option" where
  "elem_place V m i = (\<lambda>(a, t).
     case stripQualifiers t of
       ArrayType e cnt \<Rightarrow> if int i < cnt then Some (a + of_nat i * word_of_int (dt_size e), e) else None
     | _ \<Rightarrow> pointer_place V m i (a, t))"

primrec place_step :: "type_env \<Rightarrow> (u64 \<Rightarrow> u8) \<Rightarrow> pstep \<Rightarrow> u64 \<times> dtype \<Rightarrow> (u64 \<times> dtype) option" where
  "place_step V m (Member n) pl = member_place n pl"
| "place_step V m (Arrow n) pl = Option.bind (pointer_place V m 0 pl) (member_place n)"
| "place_step V m (Elem i) pl = elem_place V m i pl"

primrec place :: "type_env \<Rightarrow> (u64 \<Rightarrow> u8) \<Rightarrow> pstep list \<Rightarrow> u64 \<times> dtype \<Rightarrow> (u64 \<times> dtype) option" where
  "place V m [] pl = Some pl"
| "place V m (s # ss) pl = Option.bind (place_step V m s pl) (place V m ss)"

primrec writable :: "pstep \<Rightarrow> bool" where
  "writable (Member n) \<longleftrightarrow> \<not> list_ex is_op n"
| "writable (Arrow n) \<longleftrightarrow> \<not> list_ex is_op n"
| "writable (Elem i) \<longleftrightarrow> i < 2 ^ 63"

definition value_at :: "(u64 \<Rightarrow> u8) \<Rightarrow> u64 \<times> dtype \<Rightarrow> TypedData" where
  "value_at m = (\<lambda>(a, t). \<lparr>td_Data = mem_bytes m a (dt_size t), td_Type = t, td_Address = Some a\<rparr>)"

lemma strip_size: "dt_size (stripQualifiers t) = dt_size t"
  by (induction t) simp_all
lemma strip_laid_out: "laid_out (stripQualifiers t) = laid_out t"
  by (induction t) simp_all

lemma laid_out_size: "laid_out t \<Longrightarrow> 0 < dt_size t \<and> dt_size t < 2 ^ 63"
proof (induction t)
  case (ArrayType t cnt)
  then have b: "0 < cnt * dt_size t" "cnt * dt_size t < 2 ^ 63" by simp_all
  then have "wrap64 (cnt * dt_size t) = cnt * dt_size t" by (intro wrap64_id) linarith+
  with b show ?case by simp
qed (simp_all)

lemma laid_out_size_or_8: "laid_out t \<Longrightarrow> size_or_8 t = dt_size t"
  using laid_out_size by (fastforce simp: size_or_8_def)

lemma length_mem_bytes [simp]: "length (mem_bytes m a n) = nat n"
  by (simp add: mem_bytes_def)

lemma mem_bytes_slice:
  assumes "0 \<le> off" "0 \<le> n" "off + n \<le> k"
  shows "take (nat n) (drop (nat off) (mem_bytes m a k)) = mem_bytes m (a + word_of_int off) n"
  using assms by (auto simp: mem_bytes_def add.assoc intro!: nth_equalityI)

lemma fields_laid_out_at:
  "fields_laid_out n fs \<Longrightarrow> find P fs = Some f \<Longrightarrow>
    laid_out (fd_Type f) \<and> fd_BitSize f = 0 \<and> 0 \<le> fd_ByteOffset f \<and> fd_DataBitOffset f = 0 \<and>
    fd_ByteOffset f + dt_size (fd_Type f) \<le> n"
proof (induction fs)
  case (Cons g fs)
  then show ?case by (cases g) (auto split: if_splits)
qed simp

lemma array_size: "laid_out (ArrayType t cnt) \<Longrightarrow> dt_size (ArrayType t cnt) = cnt * dt_size t"
proof -
  assume l: "laid_out (ArrayType t cnt)"
  then have "0 < cnt * dt_size t" using laid_out_size [of t] by simp
  with l show ?thesis by simp
qed

lemma ReadMember_place:
  assumes "laid_out t" "member_place n (a, t) = Some (a', t')"
  shows "ReadMember (value_at m (a, t)) n = Inr (value_at m (a', t')) \<and> laid_out t'"
proof -
  obtain name sz fs f where t: "stripQualifiers t = StructType name sz fs" and f: "find (\<lambda>f. fd_Name f = n) fs = Some f"
    and a': "a' = a + word_of_int (fd_ByteOffset f)" "t' = fd_Type f"
    using assms(2) by (auto simp: member_place_def split: dtype.splits)
  have "laid_out (StructType name sz fs)" using assms(1) strip_laid_out [of t] t by simp
  then have fld: "laid_out t'" "fd_BitSize f = 0" "0 \<le> fd_ByteOffset f" "fd_DataBitOffset f = 0"
    "fd_ByteOffset f + dt_size t' \<le> sz" using fields_laid_out_at [OF _ f] a'(2) by auto
  have sz: "dt_size t = sz" "0 < dt_size t'" using strip_size [of t] t laid_out_size [OF fld(1)] by simp_all
  let ?bs = "mem_bytes m a sz" and ?o = "fd_ByteOffset f" and ?n = "dt_size t'"
  have src: "go_slice ?bs ?o (min (?o + ?n) (int (length ?bs))) = Inr (mem_bytes m a' ?n)"
    using fld(3,5) sz(2) mem_bytes_slice [of ?o ?n sz m a] by (simp add: go_slice_def a'(1))
  have "fieldByteOffset f = ?o" using fld(4) by (simp add: fieldByteOffset_def)
  then have "ReadMember (value_at m (a, t)) n =
      Inr \<lparr>td_Data = go_copy (replicate (nat ?n) 0) (mem_bytes m a' ?n), td_Type = t', td_Address = Some a'\<rparr>"
    using src f fld(2) laid_out_size_or_8 [OF fld(1)] unfolding value_at_def ReadMember_def
    by (simp add: t sz(1) a'(1) Let_def flip: a'(2))
  then show ?thesis using fld(1) by (simp add: value_at_def go_copy_all)
qed

lemma pointer_placeE:
  assumes "laid_out t" "pointer_place V m i (a, t) = Some (a', t')"
  obtains n r where "stripQualifiers t = PtrType n r" "t' = ty_ref V r" "laid_out t'" "dt_size t = 8"
    "a' = le_word (mem_bytes m a 8) + of_nat i * word_of_int (dt_size t')"
    "ty_mem V a' (dt_size t') = Inr (mem_bytes m a' (dt_size t'))"
proof -
  obtain n r where t: "stripQualifiers t = PtrType n r"
    and r: "readable_place V m (le_word (mem_bytes m a 8) + of_nat i * word_of_int (dt_size (ty_ref V r)), ty_ref V r) = Some (a', t')"
    using assms(2) by (auto simp: pointer_place_def split: dtype.splits)
  moreover have "dt_size t = 8" using assms(1) strip_laid_out [of t] strip_size [of t] t by simp
  ultimately show ?thesis by (intro that) (auto simp: readable_place_def split: if_splits)
qed

lemma DerefPointer_place:
  assumes "laid_out t" "pointer_place V m 0 (a, t) = Some (a', t')"
  shows "DerefPointer V (value_at m (a, t)) = Inr (value_at m (a', t')) \<and> laid_out t'"
  using assms by (rule pointer_placeE) (simp add: DerefPointer_def value_at_def laid_out_size_or_8 Let_def)

lemma Index_place:
  assumes "laid_out t" "elem_place V m i (a, t) = Some (a', t')" "i < 2 ^ 63"
  shows "Index V (value_at m (a, t)) (int i) = Inr (value_at m (a', t')) \<and> laid_out t'"
proof (cases "\<exists>e cnt. stripQualifiers t = ArrayType e cnt")
  case True
  then obtain e cnt where t: "stripQualifiers t = ArrayType e cnt" by blast
  have l: "laid_out (ArrayType e cnt)" using assms(1) strip_laid_out [of t] t by simp
  have i: "int i < cnt" and a': "a' = a + of_nat i * word_of_int (dt_size e)" "t' = e"
    using assms(2) by (auto simp: elem_place_def t split: if_splits)
  let ?n = "dt_size e" and ?k = "cnt * dt_size e"
  have e: "laid_out e" "0 < ?n" "?k < 2 ^ 63" using l laid_out_size [of e] by simp_all
  have sz: "dt_size t = ?k" using strip_size [of t] t array_size [OF l] by simp
  have fits: "0 \<le> int i * ?n" "int i * ?n + ?n \<le> ?k"
    using i e(2) mult_right_mono [of "int i + 1" cnt ?n] by (simp_all add: algebra_simps)
  have in_go_int: "wrap64 x = x" if "0 \<le> x" "x \<le> ?k" for x using that e(3) by (intro wrap64_id) linarith+
  have w: "wrap64 (int i * ?n) = int i * ?n"
    by (rule in_go_int) (use fits e(2) in linarith)+
  have w': "wrap64 (int i * ?n + ?n) = int i * ?n + ?n"
    by (rule in_go_int) (use fits e(2) in linarith)+
  have src: "go_slice (mem_bytes m a ?k) (int i * ?n) (int i * ?n + ?n) = Inr (mem_bytes m a' ?n)"
    using fits e(2) mem_bytes_slice [of "int i * ?n" ?n ?k m a] by (simp add: go_slice_def a'(1))
  have "0 \<le> ?k" using fits e(2) by linarith
  then have "\<not> int (length (mem_bytes m a ?k)) < int i * ?n + ?n" using fits(2) by (simp only: length_mem_bytes nat_0_le not_less)
  moreover have "go_copy (replicate (nat ?n) 0) (mem_bytes m a' ?n) = mem_bytes m a' ?n" by (simp add: go_copy_all)
  ultimately have "Index V (value_at m (a, t)) (int i) = Inr (value_at m (a', e))"
    using src laid_out_size_or_8 [OF e(1)] a'(1)
    by (simp only: Index_def value_at_def prod.case TypedData.simps t dtype.case Let_def w w' sz if_False
        rbind_Inr option.map simp_thms) simp
  then show ?thesis using e(1) a'(2) by simp
next
  case False
  then have "pointer_place V m i (a, t) = Some (a', t')"
    using assms(2) by (auto simp: elem_place_def split: dtype.splits)
  with assms(1) show ?thesis
    by (rule pointer_placeE) (simp add: Index_def value_at_def laid_out_size_or_8 Let_def)
qed

lemma decimal_append:
  "decimal (xs @ ys) acc = (case decimal xs acc of None \<Rightarrow> None | Some n \<Rightarrow> decimal ys n)"
  by (induction xs acc rule: decimal.induct) auto

lemma decimal_digits: "decimal (digits 10 n) 0 = Some n"
proof (induction "10 :: nat" n rule: digits.induct)
  case (1 n)
  show ?case
  proof (cases "n < 10")
    case True
    then show ?thesis by (subst digits.simps) (simp add: code_digit_char)
  next
    case False
    then show ?thesis
      by (subst digits.simps) (simp add: decimal_append code_digit_char "1.hyps")
  qed
qed

lemma digits_10: "c \<in> set (digits 10 n) \<Longrightarrow> 48 \<le> code c \<and> code c \<le> 57"
  using digits_chars [of 10 c n] by (auto simp: code_digit_char)

lemma Atoi_fmt_d: "i < 2 ^ 63 \<Longrightarrow> Atoi (fmt_d (int i)) = Some (int i)"
proof -
  assume i: "i < 2 ^ 63"
  obtain c cs where d: "digits 10 i = c # cs" by (cases "digits 10 i") auto
  then have "48 \<le> code c" using digits_10 [of c i] by simp
  then have "c \<noteq> CHR ''-''" "c \<noteq> CHR ''+''" by auto
  moreover have "go_int (int i)" using i by simp
  ultimately show ?thesis using decimal_digits [of i] by (simp add: Atoi_def fmt_d_def d)
qed

lemma bracket_fmt_d: "x \<in> set (fmt_d (int i)) \<Longrightarrow> x \<noteq> CHR '']''"
  using digits_10 [of x i] by (auto simp: fmt_d_def)

lemma render_op: "render ps = [] \<or> is_op (hd (render ps))"
proof (cases ps)
  case (Cons s ss)
  then show ?thesis by (cases s) (simp_all add: render_def is_op_def)
qed (simp add: render_def)

lemma word_render:
  assumes "\<not> list_ex is_op n"
  shows "word_of (n @ render ps) = n" "rest_of (n @ render ps) = render ps"
proof -
  have n: "\<And>c. c \<in> set n \<Longrightarrow> \<not> is_op c" using assms by (auto simp: list_ex_iff)
  have "word_of (render ps) = []" "rest_of (render ps) = render ps"
    using render_op [of ps] by (cases "render ps", simp_all)+
  with n show "word_of (n @ render ps) = n" "rest_of (n @ render ps) = render ps"
    by (simp_all add: takeWhile_append2 dropWhile_append2)
qed

text \<open>
  C25 (refinement).  Resolving a compound name follows its places: from a variable whose typed data are
  the bytes at its address, the operators \<open>.\<close>, \<open>->\<close> and \<open>[n]\<close> of the written name lead to the typed
  data at the address that the path denotes, with its type, its address and the bytes in memory.
\<close>

theorem resolve_places:
  assumes "laid_out t" "place V m ps (a, t) = Some (a', t')" "list_all writable ps"
  shows "resolve_rest V (render ps) (value_at m (a, t)) = Inr (value_at m (a', t'))"
  using assms
proof (induction ps arbitrary: a t)
  case Nil
  then show ?case by (simp add: render_def)
next
  case (Cons s ps)
  then obtain b u where step: "place_step V m s (a, t) = Some (b, u)" and rest: "place V m ps (b, u) = Some (a', t')"
    by (auto simp: bind_eq_Some_conv)
  have ps: "list_all writable ps" using Cons.prems(3) by simp
  have render: "render (x # ps) = render_step x @ render ps" for x by (simp add: render_def)
  show ?case
  proof (cases s)
    case (Member n)
    note mem = ReadMember_place [OF Cons.prems(1), of n a b u]
    show ?thesis
      using mem step Cons.IH [OF _ rest ps] word_render [of n ps] Cons.prems(3)
      by (simp add: render Member)
  next
    case (Arrow n)
    then obtain c v where c: "pointer_place V m 0 (a, t) = Some (c, v)" "member_place n (c, v) = Some (b, u)"
      using step by (auto simp: bind_eq_Some_conv)
    show ?thesis
      using DerefPointer_place [OF Cons.prems(1) c(1)] ReadMember_place [OF _ c(2)] Cons.IH [OF _ rest ps] word_render [of n ps] Cons.prems(3)
      by (simp add: render Arrow)
  next
    case (Elem i)
    have i: "i < 2 ^ 63" using Cons.prems(3) Elem by simp
    have e: "Index V (value_at m (a, t)) (int i) = Inr (value_at m (b, u)) \<and> laid_out u"
      using Index_place [OF Cons.prems(1) _ i] step Elem by simp
    have "takeWhile (\<lambda>x. x \<noteq> CHR '']'') (fmt_d (int i) @ CHR '']'' # render ps) = fmt_d (int i)"
      "dropWhile (\<lambda>x. x \<noteq> CHR '']'') (fmt_d (int i) @ CHR '']'' # render ps) = CHR '']'' # render ps"
      using bracket_fmt_d [of _ i] by (simp_all add: takeWhile_append2 dropWhile_append2)
    then show ?thesis
      using e Atoi_fmt_d [OF i] Cons.IH [OF _ rest ps] by (simp add: render Elem)
  qed
qed

text \<open>A linked list in memory, and the second element of an array in its second node.\<close>

definition node :: dtype where
  "node = StructType ''node'' 24
     [Field ''v'' (BasicType IntKind ''int'' 4) 0 0 0 0, Field ''next'' (PtrType 8 0) 8 0 0 0,
      Field ''a'' (ArrayType (BasicType IntKind ''int'' 4) 2) 16 0 0 0]"

definition node_byte :: "u64 \<Rightarrow> u8" where
  "node_byte a = (if a = 0x51 then 1 else if a = 0x109 then 2 else if a = 0x214 then 42 else 0)"

definition node_env :: type_env where
  "node_env = \<lparr>ty_mem = (\<lambda>a n. Inr (mem_bytes node_byte a n)), ty_ref = (\<lambda>r. node)\<rparr>"

abbreviation int_type :: dtype where
  "int_type \<equiv> BasicType IntKind ''int'' 4"

lemma upt8: "[0..<8] = [0, 1, 2, 3, 4, 5, 6, 7]" "[0..<4] = [0, 1, 2, 3]"
  by (simp_all add: upt_rec)

lemma node_pointers:
  "le_word (mem_bytes node_byte 0x50 8) = (0x100 :: u64)" "le_word (mem_bytes node_byte 0x108 8) = (0x200 :: u64)"
  by (simp_all add: mem_bytes_def upt8 node_byte_def)

lemma node_ok: "laid_out node" "dt_size node = 24"
  by (simp_all add: node_def)

lemma node_place:
  "place node_env node_byte [Arrow ''next'', Arrow ''a'', Elem 1] (0x50, PtrType 8 0) = Some (0x214, int_type)"
  by (simp add: pointer_place_def node_env_def readable_place_def node_pointers node_ok)
     (simp add: node_def member_place_def pointer_place_def elem_place_def readable_place_def node_pointers node_env_def)

theorem resolve_places_witness:
  "resolve_rest node_env ''->next->a[1]'' (value_at node_byte (0x50, PtrType 8 0)) =
  Inr \<lparr>td_Data = [42, 0, 0, 0], td_Type = int_type, td_Address = Some 0x214\<rparr>"
proof -
  have "render [Arrow ''next'', Arrow ''a'', Elem 1] = ''->next->a[1]''"
    by (simp add: render_def fmt_d_def digits.simps digit_char_def char_of_def bit_0)
  moreover have "mem_bytes node_byte 0x214 4 = [42, 0, 0, 0]"
    by (simp add: mem_bytes_def upt8 node_byte_def)
  ultimately show ?thesis
    using resolve_places [OF _ node_place] by (simp add: is_op_def value_at_def)
qed
end
