(* ===== verification/Calling.thy ===== *)
theory Calling
  imports Typed_Data
begin

text \<open>
  The pure half of \<open>src/debugger/expr.go\<close>: splitting the arguments of a call, the literals, and the
  classes of the System V x86-64 calling convention.
\<close>

section \<open>Arguments\<close>

text \<open>What an argument is when it is no typed value of the program.\<close>

datatype builtinArgType =
    builtinNone | builtinInt | builtinFloat | builtinString | builtinChar | builtinBool

record exprArg =
  ea_data :: "u8 list"
  ea_typ :: "dtype option"
  ea_builtin :: builtinArgType
  ea_address :: "u64 option"

definition literal :: "builtinArgType \<Rightarrow> u8 list \<Rightarrow> exprArg" where
  "literal b bs = \<lparr>ea_data = bs, ea_typ = None, ea_builtin = b, ea_address = None\<rparr>"

definition typed_arg :: "TypedData \<Rightarrow> exprArg" where
  "typed_arg td = \<lparr>ea_data = td_Data td, ea_typ = Some (td_Type td), ea_builtin = builtinNone, ea_address = td_Address td\<rparr>"

text \<open>
  The loop of \<open>splitArguments\<close>: the previous byte, whether a string literal is open, the depth of the
  parentheses and the bytes of the current part.
\<close>

fun split_loop :: "char option \<Rightarrow> bool \<Rightarrow> int \<Rightarrow> string \<Rightarrow> string \<Rightarrow> string list" where
  "split_loop prev inString depth current [] = (if current = [] then [] else [TrimSpace current])"
| "split_loop prev inString depth current (c # cs) =
     (let inString' = (if c = CHR 0x22 \<and> prev \<noteq> Some (CHR 0x5C) then \<not> inString else inString);
          depth' = (if inString' then depth
                    else if c = CHR 0x28 then depth + 1
                    else if c = CHR 0x29 then depth - 1 else depth)
      in if \<not> inString' \<and> c = CHR '','' \<and> depth = 0
         then TrimSpace current # split_loop (Some c) inString' depth [] cs
         else split_loop (Some c) inString' depth' (current @ [c]) cs)"

definition splitArguments :: "string \<Rightarrow> string list" where
  "splitArguments s = split_loop None False 0 [] s"

text \<open>\<open>strconv.ParseInt\<close> with base 0 and 64 bits.\<close>

definition ParseInt :: "string \<Rightarrow> int option" where
  "ParseInt s =
     (case s of
        [] \<Rightarrow> None
      | c # cs \<Rightarrow>
          (case ParseUint (if c = CHR ''-'' \<or> c = CHR ''+'' then cs else s) 64 of
             None \<Rightarrow> None
           | Some n \<Rightarrow>
               if c = CHR ''-'' then (if n \<le> 2 ^ 63 then Some (- int n) else None)
               else if n < 2 ^ 63 then Some (int n) else None))"

section \<open>Classes of parameters\<close>

datatype parameterClass =
    paramClassNoClass | paramClassInteger | paramClassSSE | paramClassMemory | paramClassX87 | paramClassX87Up

type_synonym classes = "parameterClass \<times> parameterClass"

definition mergeParamClass :: "parameterClass \<Rightarrow> parameterClass \<Rightarrow> parameterClass" where
  "mergeParamClass a b =
     (if a = b then a
      else if a = paramClassNoClass then b
      else if b = paramClassNoClass then a
      else if a = paramClassMemory \<or> b = paramClassMemory then paramClassMemory
      else if a = paramClassInteger \<or> b = paramClassInteger then paramClassInteger
      else if a = paramClassX87 \<or> b = paramClassX87 \<or> a = paramClassX87Up \<or> b = paramClassX87Up
      then paramClassMemory
      else paramClassSSE)"

definition classify_basic :: "string \<Rightarrow> classes" where
  "classify_basic typeName =
     (let name = ToLower typeName in
      if name = ''float'' \<or> name = ''double'' then (paramClassSSE, paramClassNoClass)
      else if name = ''long double'' then (paramClassX87, paramClassX87Up)
      else (paramClassInteger, paramClassNoClass))"

text \<open>The index of the eightbyte of a field; everything behind the first one counts for the second.\<close>

definition eightbyte :: "sfield \<Rightarrow> nat" where
  "eightbyte f = (if int_quot (fieldByteOffset f) 8 = 0 then 0 else 1)"

definition add_classes :: "nat \<Rightarrow> classes \<Rightarrow> classes \<Rightarrow> classes" where
  "add_classes idx fieldClasses = (\<lambda>(c0, c1).
     if idx = 0
     then (mergeParamClass c0 (fst fieldClasses),
           if snd fieldClasses \<noteq> paramClassNoClass then mergeParamClass c1 (snd fieldClasses) else c1)
     else (c0, mergeParamClass c1 (fst fieldClasses)))"

fun classify :: "dtype \<Rightarrow> classes" and classify_fields :: "sfield list \<Rightarrow> classes \<Rightarrow> classes" where
  "classify (QualType t) = classify t"
| "classify (TypedefType t) = classify t"
| "classify (PtrType n r) = (paramClassInteger, paramClassNoClass)"
| "classify (FuncType n) = (paramClassInteger, paramClassNoClass)"
| "classify (EnumType n vals) = (paramClassInteger, paramClassNoClass)"
| "classify (BasicType k name n) = classify_basic name"
| "classify (StructType name n fs) =
     (if 16 < n then (paramClassMemory, paramClassMemory)
      else let cs = classify_fields fs (paramClassNoClass, paramClassNoClass) in
        if fst cs = paramClassMemory \<or> snd cs = paramClassMemory then (paramClassMemory, paramClassMemory) else cs)"
| "classify (ArrayType t cnt) =
     (let n = dt_size (ArrayType t cnt) in
      if 16 < n then (paramClassMemory, paramClassMemory)
      else let cs = classify t in
        if 8 < n \<and> snd cs = paramClassNoClass then (fst cs, fst cs) else cs)"
| "classify (UnspecifiedType n) = (paramClassInteger, paramClassNoClass)"
| "classify (OtherType k n) = (paramClassInteger, paramClassNoClass)"
| "classify_fields [] cs = cs"
| "classify_fields (Field name t bo bs bi db # fs) cs =
     classify_fields fs
       (if name = '''' then cs else add_classes (eightbyte (Field name t bo bs bi db)) (classify t) cs)"

definition classifyType :: "dtype option \<Rightarrow> builtinArgType \<Rightarrow> classes" where
  "classifyType typ builtin =
     (case builtin of
        builtinNone \<Rightarrow> (case typ of None \<Rightarrow> (paramClassInteger, paramClassNoClass) | Some t \<Rightarrow> classify t)
      | builtinFloat \<Rightarrow> (paramClassSSE, paramClassNoClass)
      | _ \<Rightarrow> (paramClassInteger, paramClassNoClass))"

section \<open>Layout of an argument\<close>

definition padToEight :: "u8 list \<Rightarrow> u8 list" where
  "padToEight b = (if 8 \<le> length b then take 8 b else go_copy (replicate 8 0) b)"

definition roundUpToEightbyte :: "int \<Rightarrow> int" where
  "roundUpToEightbyte n = (n + 7) AND NOT 7"

text \<open>The data of an argument, at least eight bytes of it, and the size that it takes as a parameter.\<close>

definition arg_bytes :: "exprArg \<Rightarrow> u8 list" where
  "arg_bytes a = (if length (ea_data a) < 8 then go_copy (replicate 8 0) (ea_data a) else ea_data a)"

definition param_size :: "dtype option \<Rightarrow> exprArg \<Rightarrow> int" where
  "param_size typ a =
     (let declared = (case typ of Some t \<Rightarrow> dt_size t | None \<Rightarrow> 0);
          n = (if declared \<le> 0 then int (length (ea_data a)) else declared)
      in if n \<le> 0 then 8 else n)"

definition required :: "parameterClass \<Rightarrow> classes \<Rightarrow> nat" where
  "required c cs = (if fst cs = c then 1 else 0) + (if snd cs = c then 1 else 0)"

text \<open>The eight bytes of the \<open>j\<close>-th eightbyte of the data; zeros behind its end.\<close>

definition eightbyte_of :: "u8 list \<Rightarrow> nat \<Rightarrow> u8 list" where
  "eightbyte_of bs j = padToEight (take 8 (drop (8 * j) bs))"

definition on_stack :: "nat \<Rightarrow> nat \<Rightarrow> classes \<Rightarrow> bool" where
  "on_stack intReg sseReg cs \<longleftrightarrow>
     6 < intReg + required paramClassInteger cs \<or> 8 < sseReg + required paramClassSSE cs \<or>
     (required paramClassInteger cs = 0 \<and> required paramClassSSE cs = 0) \<or>
     fst cs = paramClassMemory \<or> fst cs = paramClassX87"

section \<open>Splitting\<close>

text \<open>
  What the user can write for one argument: a word without commas, quotes and parentheses, or a
  string literal without quotes and backslashes inside, which may hold commas and parentheses.
\<close>

definition plain_arg :: "string \<Rightarrow> bool" where
  "plain_arg w \<longleftrightarrow> w \<noteq> [] \<and> \<not> is_space (hd w) \<and> \<not> is_space (last w) \<and>
     list_all (\<lambda>c. c \<notin> {CHR '','', CHR 0x22, CHR 0x28, CHR 0x29, CHR 0x5C}) w"

definition string_arg :: "string \<Rightarrow> bool" where
  "string_arg w \<longleftrightarrow> (\<exists>body. w = CHR 0x22 # body @ [CHR 0x22] \<and> list_all (\<lambda>c. c \<notin> {CHR 0x22, CHR 0x5C}) body)"

lemma split_plain:
  "list_all (\<lambda>c. c \<notin> {CHR '','', CHR 0x22, CHR 0x28, CHR 0x29, CHR 0x5C}) w \<Longrightarrow>
    split_loop prev False 0 cur (w @ rest) =
      split_loop (if w = [] then prev else Some (last w)) False 0 (cur @ w) rest"
  by (induction w arbitrary: prev cur) (simp_all add: Let_def)

lemma split_quoted:
  "list_all (\<lambda>c. c \<notin> {CHR 0x22, CHR 0x5C}) w \<Longrightarrow>
    split_loop prev True 0 cur (w @ rest) =
      split_loop (if w = [] then prev else Some (last w)) True 0 (cur @ w) rest"
  by (induction w arbitrary: prev cur) (simp_all add: Let_def)

lemma last_not_backslash: "list_all (\<lambda>c. c \<notin> {CHR 0x22, CHR 0x5C}) w \<Longrightarrow> w \<noteq> [] \<Longrightarrow> last w \<noteq> CHR 0x5C"
  by (simp add: list_all_iff)

lemma split_arg:
  assumes "plain_arg w \<or> string_arg w" "prev \<noteq> Some (CHR 0x5C)"
  shows "split_loop prev False 0 cur (w @ rest) = split_loop (Some (last w)) False 0 (cur @ w) rest"
  using assms(1)
proof
  assume "plain_arg w"
  then show ?thesis using split_plain [of w] by (simp add: plain_arg_def)
next
  assume "string_arg w"
  then obtain body where w: "w = CHR 0x22 # body @ [CHR 0x22]" and b: "list_all (\<lambda>c. c \<notin> {CHR 0x22, CHR 0x5C}) body"
    by (auto simp: string_arg_def)
  show ?thesis
    using assms(2) split_quoted [OF b] last_not_backslash [OF b] by (cases "body = []") (simp_all add: w Let_def)
qed

lemma TrimSpace_arg:
  assumes "plain_arg w \<or> string_arg w"
  shows "TrimSpace w = w" "TrimSpace (CHR '' '' # w) = w"
proof -
  have ends: "w \<noteq> [] \<and> \<not> is_space (hd w) \<and> \<not> is_space (last w)"
    using assms by (auto simp: plain_arg_def string_arg_def is_space_def)
  then obtain c cs where w: "w = c # cs" by (cases w) auto
  have r: "rev w = last w # rev (butlast w)"
    using ends by (subst append_butlast_last_id [symmetric, of w]) (simp_all del: append_butlast_last_id)
  have "dropWhile is_space w = w" using ends w by simp
  moreover have "dropWhile is_space (rev w) = rev w" using ends unfolding r by simp
  moreover have "is_space (CHR '' '')" by (simp add: is_space_def)
  ultimately show "TrimSpace w = w" "TrimSpace (CHR '' '' # w) = w" by (simp_all add: TrimSpace_def)
qed

lemma split_rest:
  "list_all (\<lambda>w. plain_arg w \<or> string_arg w) ws \<Longrightarrow> ws \<noteq> [] \<Longrightarrow>
    split_loop (Some (CHR '','')) False 0 [] (CHR '' '' # join '', '' ws) = ws"
proof (induction ws)
  case (Cons w ws)
  have w: "plain_arg w \<or> string_arg w" using Cons.prems by simp
  have ne: "w \<noteq> []" using w by (auto simp: plain_arg_def string_arg_def)
  have step: "split_loop (Some (CHR '','')) False 0 [] (CHR '' '' # w @ rest) =
      split_loop (Some (last w)) False 0 (CHR '' '' # w) rest" for rest
    using split_arg [OF w, of "Some (CHR '' '')" "'' ''" rest] by (simp add: Let_def)
  show ?case
  proof (cases ws)
    case Nil
    then show ?thesis using step [of "[]"] TrimSpace_arg [OF w] by simp
  next
    case (Cons v vs)
    then show ?thesis
      using step [of "'', '' @ join '', '' ws"] TrimSpace_arg [OF w] Cons.IH Cons.prems by (simp add: Let_def)
  qed
qed simp

text \<open>
  Splitting the arguments of a call inverts writing them with a comma and a space in
  between: words come back as they are, and string literals whole, with the commas and parentheses
  inside them.
\<close>

theorem split_join:
  assumes "list_all (\<lambda>w. plain_arg w \<or> string_arg w) ws"
  shows "splitArguments (join '', '' ws) = ws"
proof (cases ws)
  case (Cons w vs)
  have w: "plain_arg w \<or> string_arg w" using assms Cons by simp
  have ne: "w \<noteq> []" using w by (auto simp: plain_arg_def string_arg_def)
  have step: "split_loop None False 0 [] (w @ rest) = split_loop (Some (last w)) False 0 w rest" for rest
    using split_arg [OF w, of None "[]" rest] by simp
  show ?thesis
  proof (cases vs)
    case Nil
    then show ?thesis using Cons step [of "[]"] TrimSpace_arg [OF w] ne by (simp add: splitArguments_def)
  next
    case (Cons v us)
    then show ?thesis
      using \<open>ws = w # vs\<close> step [of "'', '' @ join '', '' vs"] TrimSpace_arg [OF w] split_rest [of vs] assms
      by (simp add: splitArguments_def Let_def)
  qed
qed (simp add: splitArguments_def)

theorem split_join_witness: "splitArguments (join '', '' [''42'', [CHR 0x22, CHR '','', CHR 0x28, CHR 0x22]]) =
  [''42'', [CHR 0x22, CHR '','', CHR 0x28, CHR 0x22]]"
proof (rule split_join)
  have "string_arg [CHR 0x22, CHR '','', CHR 0x28, CHR 0x22]"
    unfolding string_arg_def by (rule exI [of _ "[CHR '','', CHR 0x28]"]) simp
  then show "list_all (\<lambda>w. plain_arg w \<or> string_arg w) [''42'', [CHR 0x22, CHR '','', CHR 0x28, CHR 0x22]]"
    by (simp add: plain_arg_def is_space_def)
qed

section \<open>Structs in registers\<close>

text \<open>
  The class of an eightbyte by the calling convention, for members that lie in one eightbyte each:
  INTEGER as soon as one of them is, otherwise SSE, and none if there is no member.
\<close>

definition scalar_class :: "parameterClass \<Rightarrow> bool" where
  "scalar_class c \<longleftrightarrow> c = paramClassInteger \<or> c = paramClassSSE"

definition abi_class :: "parameterClass list \<Rightarrow> parameterClass" where
  "abi_class cs =
     (if cs = [] then paramClassNoClass
      else if paramClassInteger \<in> set cs then paramClassInteger else paramClassSSE)"

definition members_in :: "nat \<Rightarrow> sfield list \<Rightarrow> parameterClass list" where
  "members_in idx fs =
     map (\<lambda>f. fst (classify (fd_Type f))) (filter (\<lambda>f. fd_Name f \<noteq> '''' \<and> eightbyte f = idx) fs)"

definition scalar_member :: "sfield \<Rightarrow> bool" where
  "scalar_member f \<longleftrightarrow>
     fd_Name f = '''' \<or> (scalar_class (fst (classify (fd_Type f))) \<and> snd (classify (fd_Type f)) = paramClassNoClass)"

lemma merge_abi:
  "list_all scalar_class cs \<Longrightarrow> scalar_class c \<Longrightarrow> mergeParamClass (abi_class cs) c = abi_class (cs @ [c])"
  by (auto simp: mergeParamClass_def abi_class_def scalar_class_def)

lemma classify_fields_abi:
  "list_all scalar_member fs \<Longrightarrow> list_all scalar_class as \<Longrightarrow> list_all scalar_class bs \<Longrightarrow>
    classify_fields fs (abi_class as, abi_class bs) = (abi_class (as @ members_in 0 fs), abi_class (bs @ members_in 1 fs))"
proof (induction fs arbitrary: "as" bs)
  case (Cons f fs)
  obtain name t bo bi bt db where f: "f = Field name t bo bi bt db" by (cases f)
  show ?case
  proof (cases "name = ''''")
    case True
    with Cons f show ?thesis by (simp add: members_in_def)
  next
    case False
    have c: "scalar_class (fst (classify t))" "snd (classify t) = paramClassNoClass"
      using Cons.prems(1) f False by (simp_all add: scalar_member_def)
    have "eightbyte f = 0 \<or> eightbyte f = 1" by (simp add: eightbyte_def)
    then show ?thesis
    proof (elim disjE)
      assume 1: "eightbyte f = 0"
      have "classify_fields (f # fs) (abi_class as, abi_class bs) =
          classify_fields fs (abi_class (as @ [fst (classify t)]), abi_class bs)"
        using False 1 c merge_abi [OF Cons.prems(2) c(1)] by (simp add: f add_classes_def)
      with Cons c 1 f False show ?thesis by (simp add: members_in_def)
    next
      assume 2: "eightbyte f = 1"
      have "classify_fields (f # fs) (abi_class as, abi_class bs) =
          classify_fields fs (abi_class as, abi_class (bs @ [fst (classify t)]))"
        using False 2 c merge_abi [OF Cons.prems(3) c(1)] by (simp add: f add_classes_def)
      with Cons c 2 f False show ?thesis by (simp add: members_in_def)
    qed
  qed
qed (simp add: members_in_def)

lemma abi_class_scalar: "abi_class cs \<noteq> paramClassMemory"
  by (simp add: abi_class_def)


text \<open>
  A member of one class that starts in the first eightbyte says nothing of the second.
\<close>

definition starts_first :: "sfield \<Rightarrow> bool" where
  "starts_first f \<longleftrightarrow> eightbyte f = 0 \<and> snd (classify (fd_Type f)) = paramClassNoClass"

lemma classify_fields_first: "list_all starts_first fs \<Longrightarrow> snd (classify_fields fs (c, d)) = d"
proof (induction fs arbitrary: c)
  case (Cons f fs)
  then show ?case by (cases f) (auto simp: starts_first_def add_classes_def)
qed simp

lemma second_class_lost:
  assumes "list_all starts_first fs" "sz \<le> 16" "fst (classify (StructType name sz fs)) \<noteq> paramClassMemory"
  shows "snd (classify (StructType name sz fs)) = paramClassNoClass"
  using classify_fields_first [OF assms(1), of paramClassNoClass paramClassNoClass] assms(2,3)
  by (auto simp: Let_def split: if_splits)

definition pair_struct :: dtype where
  "pair_struct = StructType ''s'' 12
     [Field ''a'' (BasicType IntKind ''int'' 4) 0 0 0 0, Field ''b'' (ArrayType (BasicType IntKind ''int'' 4) 2) 4 0 0 0]"

lemma pair_struct_class: "classify pair_struct = (paramClassInteger, paramClassNoClass)"
  by (simp add: pair_struct_def add_classes_def eightbyte_def fieldByteOffset_def int_quot_def mergeParamClass_def
      classify_basic_def ToLower_def Let_def)


end
