(* ===== verification/Expressions.thy ===== *)
theory Expressions
  imports Variables Calling
begin

text \<open>
  Calling a function of the stopped program, \<open>src/debugger/expr.go\<close>: its lookup, its arguments in
  registers and on the stack, \<open>malloc\<close> in the tracee, the run to the return breakpoint at the entry
  point, the return value, and the restoring of registers and breakpoint on every way out.  The code
  keeps a pointer to the registers of the thread that was current at the start; here it is the
  thread's id, and a write for a thread that has gone fails like the request to the kernel.
\<close>

section \<open>State of the call\<close>

definition regs_write :: "'k tenv \<Rightarrow> int \<Rightarrow> string \<Rightarrow> regval \<Rightarrow> ('k target, unit) st" where
  "regs_write T tid name v p =
     (case (RegisterInfoByName name, thread_of tid p) of
        (None, _) \<Rightarrow> (Inl Panic, p)
      | (_, None) \<Rightarrow> (Inl (Error PtraceFailed), p)
      | (Some info, Some t) \<Rightarrow>
          (let (r, rs, k) = Write (user (kenv T)) info v (ts_Regs t) (kernel p)
           in (r, (upd_thread tid (\<lambda>t. t\<lparr>ts_Regs := rs\<rparr>) p)\<lparr>kernel := k\<rparr>)))"

definition regs_read :: "int \<Rightarrow> string \<Rightarrow> 'k target \<Rightarrow> u64 res" where
  "regs_read tid name p =
     (case (RegisterInfoByName name, thread_of tid p) of
        (None, _) \<Rightarrow> Inl Panic
      | (_, None) \<Rightarrow> Inl (Error PtraceFailed)
      | (Some info, Some t) \<Rightarrow> readRegisterUint64 (ts_Regs t) info)"

text \<open>\<open>proc.WriteMemory\<close>\<close>

definition write_memory :: "'k tenv \<Rightarrow> u64 \<Rightarrow> u8 list \<Rightarrow> ('k target, unit) st" where
  "write_memory T addr bs p =
     (let (r, k) = WriteMemory (memory (kenv T)) (p_pid p) addr bs (kernel p) in (r, p\<lparr>kernel := k\<rparr>))"

section \<open>Finding the function\<close>

definition func_symbol :: "ELF \<Rightarrow> string \<Rightarrow> u64 option" where
  "func_symbol e name =
     map_option (\<lambda>s. sy_Value s + el_loadBias e)
       (find (\<lambda>s. sy_Info s AND 0xf = STT_FUNC \<and> sy_Value s \<noteq> 0) (SymbolsByName e name))"

definition func_entry :: "ELF \<Rightarrow> string \<Rightarrow> (u64 \<times> Entry) option" where
  "func_entry e name =
     (case el_dwarf e of
        None \<Rightarrow> None
      | Some d \<Rightarrow>
          map_option (\<lambda>fn. (fst (hd (fn_Ranges fn)) + el_loadBias e, projr (ReadDIE d (fn_DIEOffset fn))))
            (find (\<lambda>fn. \<not> fn_IsInlined fn \<and> \<not> isl (ReadDIE d (fn_DIEOffset fn)) \<and> fn_Ranges fn \<noteq> [])
              (FunctionsByName d name)))"

definition first_some :: "('a \<Rightarrow> 'b option) \<Rightarrow> 'a list \<Rightarrow> 'b option" where
  "first_some f xs = (case List.map_filter f xs of [] \<Rightarrow> None | y # _ \<Rightarrow> Some y)"

definition findCallableFunction :: "string \<Rightarrow> 'k target \<Rightarrow> (u64 \<times> Entry option) res" where
  "findCallableFunction name p =
     (let es = elves (t_elves (tdata p)) in
      case first_some (\<lambda>e. func_entry e name) es of
        Some (addr, entry) \<Rightarrow> Inr (addr, Some entry)
      | None \<Rightarrow>
        (case first_some (\<lambda>e. func_symbol e name) es of
           Some addr \<Rightarrow> Inr (addr, None)
         | None \<Rightarrow> Inl (Error (NotFound name))))"

definition findSymbolAddress :: "string \<Rightarrow> 'k target \<Rightarrow> u64 res" where
  "findSymbolAddress name p =
     (case first_some (\<lambda>e. func_symbol e name) (elves (t_elves (tdata p))) of
        Some addr \<Rightarrow> Inr addr
      | None \<Rightarrow> Inl (Error (NotFound name)))"

definition getEntryPointAddress :: "'k tenv \<Rightarrow> 'k target \<Rightarrow> u64 res" where
  "getEntryPointAddress T p =
     (case readAuxv T p of
        None \<Rightarrow> Inl (Error (NotFound ''auxv''))
      | Some auxv \<Rightarrow>
        (case auxv atEntry of None \<Rightarrow> Inl (Error (NotFound ''AT_ENTRY'')) | Some addr \<Rightarrow> Inr addr))"

text \<open>
  Types of the return value and of the parameters.  Offsets are looked up in the debug information
  of the object at the program counter, whichever object the function came from.
\<close>

definition type_here :: "'k tenv \<Rightarrow> 'k target \<Rightarrow> Offset \<Rightarrow> dtype option" where
  "type_here T p off =
     (case current_elf p of
        None \<Rightarrow> None
      | Some i \<Rightarrow>
        (case dwarf_at p i of
           None \<Rightarrow> None
         | Some d \<Rightarrow>
           (case te_type T (el_path (elves (t_elves (tdata p)) ! i)) off of Inr t \<Rightarrow> Some t | Inl _ \<Rightarrow> None)))"

definition getFunctionReturnType :: "'k tenv \<Rightarrow> 'k target \<Rightarrow> Entry \<Rightarrow> dtype option" where
  "getFunctionReturnType T p funcDIE = Option.bind (en_Type funcDIE) (type_here T p)"

definition getFunctionParameters :: "'k tenv \<Rightarrow> 'k target \<Rightarrow> Entry option \<Rightarrow> dtype list" where
  "getFunctionParameters T p funcDIE =
     (case (Option.bind (current_elf p) (dwarf_at p), funcDIE) of
        (Some d, Some die) \<Rightarrow>
          if en_Children die then
            List.map_filter (\<lambda>c. if en_Tag c = TagFormalParameter then Option.bind (en_Type c) (type_here T p) else None)
              (siblings (tl (Seek (d_data d) (en_Offset die))))
          else []
      | _ \<Rightarrow> [])"

section \<open>Return breakpoint and restoring\<close>

text \<open>
  The breakpoint at the entry point that ends a call, an existing one or an internal one made for
  the call, with a handler (number 2) that stops the process; the old handler comes back at the end.
\<close>

definition set_handler :: "nat option \<Rightarrow> BreakpointSite \<Rightarrow> ('k target, unit) st" where
  "set_handler h site = on_site (\<lambda>b p. (Inr (), b\<lparr>bp_onHit := h\<rparr>, p)) site"

definition return_site :: "'k tenv \<Rightarrow> nat \<Rightarrow> u64 \<Rightarrow> ('k target, BreakpointSite \<times> bool) st" where
  "return_site T fuel entryAddr p =
     (case getByAddress (breakpointSites p) entryAddr of
        Some bp \<Rightarrow> mbind (set_handler (Some 2) bp) (\<lambda>_. mret (bp, True)) p
      | None \<Rightarrow>
          mbind (CreateBreakpointSite entryAddr False True) (\<lambda>bp.
          mbind (mdrop (on_site (Enable (target_env T fuel)) bp)) (\<lambda>_.
          mbind (set_handler (Some 2) bp) (\<lambda>_. mret (bp, False)))) p)"

definition restore_regs :: "'k tenv \<Rightarrow> Registers \<Rightarrow> 'k target \<Rightarrow> 'k target" where
  "restore_regs T saved p =
     (if Registers_of p = None then p
      else let U = user (kenv T); k = snd (WriteGPRs U saved (kernel p)) in
        (upd_thread (currentThread p) (\<lambda>t. t\<lparr>ts_Regs := saved\<rparr>) p)\<lparr>kernel := snd (WriteFPRs U saved k)\<rparr>)"

definition restoreExprState ::
  "'k tenv \<Rightarrow> nat \<Rightarrow> BreakpointSite \<times> bool \<Rightarrow> nat option \<Rightarrow> Registers \<Rightarrow> ('k target, unit) st" where
  "restoreExprState T fuel = (\<lambda>(bp, bpExisted) oldHandler saved.
     mbind (mmodify (restore_regs T saved)) (\<lambda>_.
     if bpExisted then set_handler oldHandler bp
     else
       mbind (mdrop (on_site (Disable (target_env T fuel)) bp)) (\<lambda>_.
       mmodify (\<lambda>p. p\<lparr>breakpointSites := snd (removeByAddress (bp_address bp) (breakpointSites p))\<rparr>))))"

section \<open>\<open>malloc\<close> in the tracee\<close>

text \<open>The return address goes above the stack; errors are dropped.\<close>

definition malloc_registers :: "'k tenv \<Rightarrow> int \<Rightarrow> int \<Rightarrow> u64 \<Rightarrow> u64 \<Rightarrow> ('k target, unit) st" where
  "malloc_registers T tid n mallocAddr entryAddr =
     mbind (mdrop (regs_write T tid ''rdi'' (VU64 (word_of_int n)))) (\<lambda>_.
     mbind (mdrop (regs_write T tid ''rip'' (VU64 mallocAddr))) (\<lambda>_.
     mbind (mget (regs_read tid ''rsp'')) (\<lambda>rsp.
     mbind (mdrop (write_memory T (rsp - 8) (le_bytes 8 entryAddr))) (\<lambda>_.
     mbind (mdrop (regs_write T tid ''rsp'' (VU64 (rsp - 8)))) (\<lambda>_.
     mdrop (regs_write T tid ''rax'' (VU64 0)))))))"

text \<open>Resuming and waiting for the return breakpoint.\<close>

definition run_call :: "'k tenv \<Rightarrow> nat \<Rightarrow> ('k target, unit) st" where
  "run_call T fuel =
     mbind (Resume (target_env T fuel)) (\<lambda>_.
     mbind (WaitOnSignal (target_env T fuel) fuel) (\<lambda>reason.
     if sr_Reason reason \<noteq> ProcessStopped then mfail (NotFound ''process'') else mret ()))"

text \<open>\<open>*proc.Registers()\<close>; a nil pointer panics.\<close>

definition registers_now :: "'k target \<Rightarrow> Registers res" where
  "registers_now p = (case Registers_of p of None \<Rightarrow> Inl Panic | Some regs \<Rightarrow> Inr regs)"

definition inferiorMalloc :: "'k tenv \<Rightarrow> nat \<Rightarrow> int \<Rightarrow> ('k target, u64) st" where
  "inferiorMalloc T fuel n =
     mbind (mget (findSymbolAddress ''malloc'')) (\<lambda>mallocAddr.
     mbind (mget (getEntryPointAddress T)) (\<lambda>entryAddr p.
     case Registers_of p of
       None \<Rightarrow> (Inl (Error RegistersUnavailable), p)
     | Some saved \<Rightarrow>
       (let tid = currentThread p;
            old = Option.bind (getByAddress (breakpointSites p) entryAddr) bp_onHit
        in mbind (return_site T fuel entryAddr) (\<lambda>bp.
           mbind (malloc_registers T tid n mallocAddr entryAddr) (\<lambda>_.
           mbind (or_else (run_call T fuel) (restoreExprState T fuel bp old saved)) (\<lambda>_.
           mbind (mget (\<lambda>q. rbind (registers_now q) (\<lambda>regs.
             case RegisterInfoByName ''rax'' of None \<Rightarrow> Inl Panic | Some info \<Rightarrow> readRegisterUint64 regs info))) (\<lambda>result.
           mbind (restoreExprState T fuel bp old saved) (\<lambda>_.
           if result = 0 then mfail (NotFound ''malloc'') else mret result)))))) p))"

section \<open>Arguments\<close>

definition bytes_of :: "string \<Rightarrow> u8 list" where
  "bytes_of s = map (\<lambda>c. of_nat (code c)) s"

definition parseStringArg :: "'k tenv \<Rightarrow> nat \<Rightarrow> string \<Rightarrow> ('k target, exprArg) st" where
  "parseStringArg T fuel s =
     mbind (inferiorMalloc T fuel (int (length s) + 1)) (\<lambda>ptr.
     mbind (write_memory T ptr (bytes_of s @ [0])) (\<lambda>_.
     mret (literal builtinString (le_bytes 8 ptr))))"

definition quoted :: "char \<Rightarrow> string \<Rightarrow> bool" where
  "quoted q s \<longleftrightarrow> 2 \<le> length s \<and> hd s = q \<and> last s = q"

definition is_digit :: "char \<Rightarrow> bool" where
  "is_digit c \<longleftrightarrow> 48 \<le> code c \<and> code c \<le> 57"

definition parseSingleArgument :: "'k tenv \<Rightarrow> nat \<Rightarrow> string \<Rightarrow> ('k target, exprArg) st" where
  "parseSingleArgument T fuel arg =
     (if arg = '''' then mfail (BadFormat arg)
      else if quoted (CHR 0x22) arg then parseStringArg T fuel (butlast (tl arg))
      else if arg = ''true'' then mret (literal builtinBool [1])
      else if arg = ''false'' then mret (literal builtinBool [0])
      else if length arg = 3 \<and> quoted (CHR 0x27) arg then mret (literal builtinChar (bytes_of [arg ! 1]))
      else if hd arg = CHR ''$'' then
        (case Atoi (tl arg) of
           None \<Rightarrow> mfail (BadName arg)
         | Some index \<Rightarrow> mbind (GetExpressionResult T index) (\<lambda>td. mret (typed_arg td)))
      else if hd arg = CHR ''-'' \<or> is_digit (hd arg) then
        (if CHR ''.'' \<in> set arg then
           (case te_parseFloat T arg of
              None \<Rightarrow> mfail (BadFloat arg) | Some f \<Rightarrow> mret (literal builtinFloat (le_bytes 8 f)))
         else
           (case ParseInt arg of
              None \<Rightarrow> mfail (BadInteger arg)
            | Some i \<Rightarrow> mret (literal builtinInt (le_bytes 8 (word_of_int i :: u64)))))
      else mbind (ResolveIndirectName T arg) (\<lambda>td. mret (typed_arg td)))"

fun parse_all :: "'k tenv \<Rightarrow> nat \<Rightarrow> string list \<Rightarrow> ('k target, exprArg list) st" where
  "parse_all T fuel [] = mret []"
| "parse_all T fuel (s # ss) =
     mbind (parseSingleArgument T fuel s) (\<lambda>a. mbind (parse_all T fuel ss) (\<lambda>as. mret (a # as)))"

definition parseArguments :: "'k tenv \<Rightarrow> nat \<Rightarrow> string \<Rightarrow> ('k target, exprArg list) st" where
  "parseArguments T fuel argString =
     (if argString = '''' then mret [] else parse_all T fuel (splitArguments argString))"

section \<open>Registers and stack of the call\<close>

definition intRegNames :: "string list" where
  "intRegNames = [''rdi'', ''rsi'', ''rdx'', ''rcx'', ''r8'', ''r9'']"

definition sseRegNames :: "string list" where
  "sseRegNames = [''xmm0'', ''xmm1'', ''xmm2'', ''xmm3'', ''xmm4'', ''xmm5'', ''xmm6'', ''xmm7'']"

text \<open>
  One eightbyte into the next register of its class, as long as there is one; the numbers of integer
  and of SSE registers in use are the state of the loop.
\<close>

definition put_eightbyte ::
  "'k tenv \<Rightarrow> int \<Rightarrow> parameterClass \<Rightarrow> u8 list \<Rightarrow> nat \<times> nat \<Rightarrow> ('k target, nat \<times> nat) st" where
  "put_eightbyte T tid c bs = (\<lambda>(intReg, sseReg).
     if c = paramClassInteger \<and> intReg < length intRegNames then
       mbind (regs_write T tid (intRegNames ! intReg) (VU64 (le_word bs))) (\<lambda>_. mret (intReg + 1, sseReg))
     else if c = paramClassSSE \<and> sseReg < length sseRegNames then
       mbind (regs_write T tid (sseRegNames ! sseReg) (VB16 (bs @ replicate 8 0))) (\<lambda>_. mret (intReg, sseReg + 1))
     else mret (intReg, sseReg))"

definition put_registers ::
  "'k tenv \<Rightarrow> int \<Rightarrow> classes \<Rightarrow> int \<Rightarrow> u8 list \<Rightarrow> nat \<times> nat \<Rightarrow> ('k target, nat \<times> nat) st" where
  "put_registers T tid cs paramSize argData regs =
     mbind (put_eightbyte T tid (fst cs) (eightbyte_of argData 0) regs) (\<lambda>regs.
     if 8 < paramSize then put_eightbyte T tid (snd cs) (eightbyte_of argData 1) regs else mret regs)"

text \<open>The loop over the arguments; what goes on the stack is collected from left to right.\<close>

fun place_args ::
  "'k tenv \<Rightarrow> int \<Rightarrow> dtype list \<Rightarrow> exprArg list \<Rightarrow> nat \<times> nat \<Rightarrow> u8 list list \<Rightarrow>
    ('k target, (nat \<times> nat) \<times> u8 list list) st" where
  "place_args T tid paramTypes [] regs stackArgs = mret (regs, stackArgs)"
| "place_args T tid paramTypes (arg # args) regs stackArgs =
     (let argType = (case paramTypes of t # _ \<Rightarrow> Some t | [] \<Rightarrow> ea_typ arg);
          cs = classifyType argType (ea_builtin arg);
          argData = arg_bytes arg;
          paramSize = param_size argType arg
      in if on_stack (fst regs) (snd regs) cs then
           mbind (mget (\<lambda>_. go_make (roundUpToEightbyte paramSize))) (\<lambda>padded.
           place_args T tid (tl paramTypes) args regs (stackArgs @ [go_copy padded argData]))
         else
           mbind (put_registers T tid cs paramSize argData regs) (\<lambda>regs.
           place_args T tid (tl paramTypes) args regs stackArgs))"

fun write_stack :: "'k tenv \<Rightarrow> u64 \<Rightarrow> u8 list list \<Rightarrow> ('k target, unit) st" where
  "write_stack T pos [] = mret ()"
| "write_stack T pos (bs # bss) =
     mbind (write_memory T pos bs) (\<lambda>_. write_stack T (pos + of_nat (length bs)) bss)"

definition push_args :: "'k tenv \<Rightarrow> int \<Rightarrow> u8 list list \<Rightarrow> ('k target, unit) st" where
  "push_args T tid stackArgs =
     (if stackArgs = [] then mret ()
      else
        mbind (mget (regs_read tid ''rsp'')) (\<lambda>rsp.
        let pos = (rsp - of_nat (length (concat stackArgs))) AND NOT 0xf in
        mbind (write_stack T pos stackArgs) (\<lambda>_. regs_write T tid ''rsp'' (VU64 pos))))"

text \<open>The register for the address of a return value in memory, and the integer registers it uses.\<close>

definition put_return_slot :: "'k tenv \<Rightarrow> int \<Rightarrow> (dtype \<times> u64) option \<Rightarrow> ('k target, nat) st" where
  "put_return_slot T tid ret =
     (case ret of
        None \<Rightarrow> mret 0
      | Some (returnType, slot) \<Rightarrow>
          if fst (classify returnType) = paramClassMemory
          then mbind (regs_write T tid ''rdi'' (VU64 slot)) (\<lambda>_. mret 1)
          else mret 0)"

definition setupArguments ::
  "'k tenv \<Rightarrow> int \<Rightarrow> exprArg list \<Rightarrow> Entry option \<Rightarrow> (dtype \<times> u64) option \<Rightarrow> ('k target, unit) st" where
  "setupArguments T tid args funcDIE ret =
     mbind (put_return_slot T tid ret) (\<lambda>used.
     mbind (mget (\<lambda>p. Inr (getFunctionParameters T p funcDIE))) (\<lambda>paramTypes.
     mbind (place_args T tid paramTypes args (used, 0) []) (\<lambda>(regs, stackArgs).
     mbind (push_args T tid stackArgs) (\<lambda>_.
     regs_write T tid ''rax'' (VU64 (of_nat (snd regs)))))))"

section \<open>The return value\<close>

definition value_register :: "Registers \<Rightarrow> string \<Rightarrow> u8 list res" where
  "value_register regs name =
     (case RegisterInfoByName name of
        None \<Rightarrow> Inl Panic
      | Some info \<Rightarrow> rbind (Read regs info) (\<lambda>v. registerValueToBytes v (ri_Size info)))"

text \<open>The eightbytes of a value from \<open>rax\<close>, \<open>rdx\<close>, \<open>xmm0\<close> and \<open>xmm1\<close>.\<close>

fun value_bytes :: "Registers \<Rightarrow> parameterClass list \<Rightarrow> bool \<Rightarrow> bool \<Rightarrow> u8 list res" where
  "value_bytes regs [] usedInt usedSSE = Inr []"
| "value_bytes regs (c # cs) usedInt usedSSE =
     (if c = paramClassInteger then
        rbind (value_register regs (if usedInt then ''rdx'' else ''rax'')) (\<lambda>bs.
        rbind (value_bytes regs cs True usedSSE) (\<lambda>rest. Inr (bs @ rest)))
      else if c = paramClassSSE then
        rbind (value_register regs (if usedSSE then ''xmm1'' else ''xmm0'')) (\<lambda>bs.
        rbind (go_slice bs 0 8) (\<lambda>low.
        rbind (value_bytes regs cs usedInt True) (\<lambda>rest. Inr (low @ rest))))
      else value_bytes regs cs usedInt usedSSE)"

definition slot_value :: "dtype \<Rightarrow> u64 \<Rightarrow> u8 list \<Rightarrow> TypedData" where
  "slot_value returnType slot bs = \<lparr>td_Data = bs, td_Type = returnType, td_Address = Some slot\<rparr>"

definition readReturnValue :: "'k tenv \<Rightarrow> dtype \<Rightarrow> u64 \<Rightarrow> Registers \<Rightarrow> ('k target, TypedData) st" where
  "readReturnValue T returnType slot regs =
     (let cs = classify returnType in
      if fst cs = paramClassMemory then
        mget (\<lambda>p. rbind (mem T p slot (size_or_8 returnType)) (\<lambda>bs. Inr (slot_value returnType slot bs)))
      else if fst cs = paramClassX87 then
        mbind (mget (\<lambda>_. value_register regs ''st0'')) (\<lambda>bs.
        mbind (write_memory T slot bs) (\<lambda>_. mret (slot_value returnType slot bs)))
      else
        mbind (mget (\<lambda>_. value_bytes regs [fst cs, snd cs] False False)) (\<lambda>value.
        if value = [] then mfail (NotFound ''return value'')
        else
          let n = dt_size returnType;
              bs = (if 0 < n \<and> n < int (length value) then take (nat n) value else value)
          in mbind (write_memory T slot bs) (\<lambda>_. mret (slot_value returnType slot bs))))"

section \<open>Evaluation\<close>

definition index_of :: "char \<Rightarrow> string \<Rightarrow> nat option" where
  "index_of c s = (if c \<in> set s then Some (length (takeWhile (\<lambda>x. x \<noteq> c) s)) else None)"

definition last_index_of :: "char \<Rightarrow> string \<Rightarrow> nat option" where
  "last_index_of c s = map_option (\<lambda>i. length s - 1 - i) (index_of c (rev s))"

text \<open>The name of the function and the text of the arguments.\<close>

definition parse_call :: "string \<Rightarrow> (string \<times> string) res" where
  "parse_call expr =
     (case index_of (CHR 0x28) expr of
        None \<Rightarrow> Inl (Error (BadFormat expr))
      | Some parenPos \<Rightarrow>
          let funcName = TrimSpace (take parenPos expr) in
          if funcName = '''' then Inl (Error (BadFormat expr))
          else
            (case last_index_of (CHR 0x29) expr of
               None \<Rightarrow> Inl (Error (BadFormat expr))
             | Some closePos \<Rightarrow>
                 rbind (go_slice expr (int parenPos + 1) (int closePos)) (\<lambda>argString.
                 Inr (funcName, TrimSpace argString))))"

definition return_slot :: "'k tenv \<Rightarrow> nat \<Rightarrow> dtype option \<Rightarrow> ('k target, (dtype \<times> u64) option) st" where
  "return_slot T fuel returnType =
     (case returnType of
        None \<Rightarrow> mret None
      | Some t \<Rightarrow> mbind (inferiorMalloc T fuel (size_or_8 t)) (\<lambda>slot. mret (Some (t, slot))))"

text \<open>From the slot of the return value to the stop at the return breakpoint.\<close>

definition prepare_and_run ::
  "'k tenv \<Rightarrow> nat \<Rightarrow> int \<Rightarrow> u64 \<Rightarrow> Entry option \<Rightarrow> exprArg list \<Rightarrow> u64 \<Rightarrow> ('k target, (dtype \<times> u64) option) st" where
  "prepare_and_run T fuel tid funcAddr funcDIE args entryAddr =
     mbind (mget (\<lambda>p. Inr (Option.bind funcDIE (getFunctionReturnType T p)))) (\<lambda>returnType.
     mbind (return_slot T fuel returnType) (\<lambda>ret.
     mbind (setupArguments T tid args funcDIE ret) (\<lambda>_.
     mbind (regs_write T tid ''rip'' (VU64 funcAddr)) (\<lambda>_.
     mbind (mget (regs_read tid ''rsp'')) (\<lambda>rsp.
     mbind (write_memory T (rsp - 8) (le_bytes 8 entryAddr)) (\<lambda>_.
     mbind (regs_write T tid ''rsp'' (VU64 (rsp - 8))) (\<lambda>_.
     mbind (run_call T fuel) (\<lambda>_. mret ret))))))))"

definition record_result :: "'k tenv \<Rightarrow> (dtype \<times> u64) option \<Rightarrow> ('k target, (TypedData \<times> nat) option) st" where
  "record_result T ret =
     mbind (mget registers_now) (\<lambda>callRegs.
     case ret of
       None \<Rightarrow> mret None
     | Some (returnType, slot) \<Rightarrow>
         mbind (mtry (readReturnValue T returnType slot callRegs)) (\<lambda>r.
         case r of
           Inl _ \<Rightarrow> mret None
         | Inr td \<Rightarrow> (\<lambda>p.
             (Inr (Some (td, length (t_exprResults (tdata p)))),
              upd_tdata (\<lambda>d. d\<lparr>t_exprResults := t_exprResults d @ [td]\<rparr>) p))))"

definition EvaluateExpression :: "'k tenv \<Rightarrow> nat \<Rightarrow> string \<Rightarrow> ('k target, (TypedData \<times> nat) option) st" where
  "EvaluateExpression T fuel expr =
     mbind (mget (\<lambda>_. parse_call expr)) (\<lambda>(funcName, argString).
     mbind (mget (findCallableFunction funcName)) (\<lambda>(funcAddr, funcDIE).
     mbind (parseArguments T fuel argString) (\<lambda>args.
     mbind (mget (getEntryPointAddress T)) (\<lambda>entryAddr p.
     case Registers_of p of
       None \<Rightarrow> (Inl (Error RegistersUnavailable), p)
     | Some saved \<Rightarrow>
       (let tid = currentThread p;
            old = Option.bind (getByAddress (breakpointSites p) entryAddr) bp_onHit
        in mbind (return_site T fuel entryAddr) (\<lambda>bp.
           mbind (or_else (prepare_and_run T fuel tid funcAddr funcDIE args entryAddr)
                    (restoreExprState T fuel bp old saved)) (\<lambda>ret.
           mbind (record_result T ret) (\<lambda>result.
           mbind (restoreExprState T fuel bp old saved) (\<lambda>_. mret result)))) p)))))"

end
