(* ===== verification/Backtrace.thy ===== *)
theory Backtrace
  imports Target
begin

text \<open>
  Call stacks, \<open>src/debugger/stack.go\<close>: the walk over physical frames by call frame information,
  and the inlined frames at each of them.
\<close>

section \<open>Frames\<close>

record StackFrame =
  sf_Regs :: Registers
  sf_PC :: u64
  sf_FunctionName :: string
  sf_ELFFilename :: string
  sf_Inlined :: bool
  sf_Location :: SourceLocation
  sf_CFA :: u64

definition no_location :: SourceLocation where
  "no_location = \<lparr>sl_File = '''', sl_Line = 0, sl_Column = 0\<rparr>"

definition emptyFrame :: "Registers \<Rightarrow> StackFrame" where
  "emptyFrame regs = \<lparr>sf_Regs = regs, sf_PC = 0, sf_FunctionName = '''', sf_ELFFilename = '''',
     sf_Inlined = False, sf_Location = no_location, sf_CFA = 0\<rparr>"

definition createPhysicalFrame ::
  "DWARF option \<Rightarrow> Registers \<Rightarrow> u64 \<Rightarrow> FunctionEntry option \<Rightarrow> bool \<Rightarrow> StackFrame" where
  "createPhysicalFrame dw regs pc fn isDeepest =
     (let frame = (emptyFrame regs)\<lparr>sf_PC := pc,
                     sf_FunctionName := (case fn of Some f \<Rightarrow> fn_Name f | None \<Rightarrow> '''')\<rparr>
      in case dw of
           None \<Rightarrow> frame
         | Some d \<Rightarrow>
           (case GetEntryByAddress d pc of
              None \<Rightarrow> frame
            | Some entry \<Rightarrow>
                let frame' = frame\<lparr>sf_Location := toSourceLocation entry\<rparr>
                in if isDeepest then frame' else frame'\<lparr>sf_PC := le_Address entry\<rparr>))"

section \<open>Call locations\<close>

text \<open>
  The compile unit of an entry: the reader stands on a unit at \<open>cuOffset\<close>; the next entry after its
  children bounds it.  \<open>nextReader\<close> seeks the unit again and skips its children.
\<close>

definition next_unit :: "Entry list \<Rightarrow> Offset \<Rightarrow> Entry option" where
  "next_unit data cuOffset =
     (case Seek data cuOffset of
        [] \<Rightarrow> None
      | cu # rest \<Rightarrow> (case SkipChildren cu rest of [] \<Rightarrow> None | e # _ \<Rightarrow> Some e))"

function find_call_file :: "Entry list \<Rightarrow> Entry list \<Rightarrow> Offset \<Rightarrow> int \<Rightarrow> string" where
  "find_call_file data [] dieOffset fileIdx = ''''"
| "find_call_file data (e # es) dieOffset fileIdx =
     (if en_Tag e \<noteq> TagCompileUnit then find_call_file data (SkipChildren e es) dieOffset fileIdx
      else case en_LineReader e of
        None \<Rightarrow> find_call_file data es dieOffset fileIdx
      | Some (_, files) \<Rightarrow>
        let inThisCU = (case next_unit data (en_Offset e) of
              None \<Rightarrow> en_Offset e \<le> dieOffset
            | Some nxt \<Rightarrow> en_Offset e \<le> dieOffset \<and> dieOffset < en_Offset nxt)
        in if \<not> inThisCU then find_call_file data es dieOffset fileIdx
           else if 0 \<le> fileIdx \<and> fileIdx < int (length files) then
             (case files ! nat fileIdx of Some name \<Rightarrow> name | None \<Rightarrow> '''')
           else '''')"
  by pat_completeness auto
termination
  by (relation "measure (\<lambda>(data, es, _). length es)") (auto simp: le_imp_less_Suc length_SkipChildren)

definition resolveCallFile :: "DWARF \<Rightarrow> Offset \<Rightarrow> int \<Rightarrow> string" where
  "resolveCallFile d dieOffset fileIdx = find_call_file (d_data d) (d_data d) dieOffset fileIdx"

definition getInlineCallLocation :: "DWARF \<Rightarrow> Offset \<Rightarrow> SourceLocation" where
  "getInlineCallLocation d dieOffset =
     (case next_entry (d_data d) dieOffset of
        None \<Rightarrow> no_location
      | Some entry \<Rightarrow>
          \<lparr>sl_File = (case en_CallFile entry of Some i \<Rightarrow> resolveCallFile d dieOffset i | None \<Rightarrow> ''''),
           sl_Line = (case en_CallLine entry of Some l \<Rightarrow> l | None \<Rightarrow> 0),
           sl_Column = (case en_CallColumn entry of Some c \<Rightarrow> c | None \<Rightarrow> 0)\<rparr>)"

section \<open>Inlined frames\<close>

text \<open>
  The stack comes outermost first and the frames go out innermost first.  \<open>inner\<close> is the function
  inlined next, if any.
\<close>

definition inlineFrame ::
  "DWARF \<Rightarrow> Registers \<Rightarrow> u64 \<Rightarrow> FunctionEntry \<Rightarrow> FunctionEntry option \<Rightarrow> StackFrame" where
  "inlineFrame d regs pc fn inner =
     (let frame = (emptyFrame regs)\<lparr>sf_FunctionName := fn_Name fn, sf_Inlined := fn_IsInlined fn\<rparr> in
      case inner of
        None \<Rightarrow>
          (case GetEntryByAddress d pc of
             None \<Rightarrow> frame\<lparr>sf_PC := pc\<rparr>
           | Some entry \<Rightarrow> frame\<lparr>sf_PC := pc, sf_Location := toSourceLocation entry\<rparr>)
      | Some inn \<Rightarrow>
          let frame' = (case fn_Ranges inn of [] \<Rightarrow> frame | r # _ \<Rightarrow> frame\<lparr>sf_PC := fst r + d_loadBias d\<rparr>);
              callLoc = getInlineCallLocation d (fn_DIEOffset inn)
          in if sl_File callLoc \<noteq> '''' then frame'\<lparr>sf_Location := callLoc\<rparr> else frame')"

fun inlineFrames :: "DWARF \<Rightarrow> Registers \<Rightarrow> u64 \<Rightarrow> FunctionEntry list \<Rightarrow> StackFrame list" where
  "inlineFrames d regs pc [] = []"
| "inlineFrames d regs pc [fn] = [inlineFrame d regs pc fn None]"
| "inlineFrames d regs pc (fn # inn # fns) =
     inlineFrames d regs pc (inn # fns) @ [inlineFrame d regs pc fn (Some inn)]"

definition createInlineFrames :: "DWARF \<Rightarrow> Registers \<Rightarrow> u64 \<Rightarrow> FunctionEntry list \<Rightarrow> StackFrame list" where
  "createInlineFrames d regs pc inlineStack = inlineFrames d regs pc inlineStack"

section \<open>Unwinding\<close>

text \<open>The frames at one program counter, tagged with the name of the object.\<close>

definition frames_at ::
  "ELF \<Rightarrow> Registers \<Rightarrow> u64 \<Rightarrow> FunctionEntry option \<Rightarrow> bool \<Rightarrow> StackFrame list res" where
  "frames_at e regs pc fn deepest =
     rbind (case el_dwarf e of
              None \<Rightarrow> Inr [createPhysicalFrame None regs pc None deepest]
            | Some d \<Rightarrow>
              rbind (InlineStackAtAddress (length (d_data d)) d pc) (\<lambda>inlineStack.
                Inr (if 1 < length inlineStack then createInlineFrames d regs pc inlineStack
                     else [createPhysicalFrame (Some d) regs pc fn deepest])))
       (\<lambda>fs. Inr (map (\<lambda>f. f\<lparr>sf_ELFFilename := Filename e\<rparr>) fs))"

text \<open>The canonical frame address goes to the last frame that is not inlined.\<close>

primrec record_first :: "u64 \<Rightarrow> StackFrame list \<Rightarrow> StackFrame list" where
  "record_first cfa [] = []"
| "record_first cfa (f # fs) = (if sf_Inlined f then f # record_first cfa fs else f\<lparr>sf_CFA := cfa\<rparr> # fs)"

definition recordCFA :: "u64 \<Rightarrow> StackFrame list \<Rightarrow> StackFrame list" where
  "recordCFA cfa frames = rev (record_first cfa (rev frames))"

text \<open>The position of the object at a program counter, with the main object as a fallback for the first frame.\<close>

definition frame_elf :: "target_data \<Rightarrow> u64 \<Rightarrow> nat \<Rightarrow> nat option" where
  "frame_elf td pc physicalCount =
     (case elf_index td pc of
        Some i \<Rightarrow> Some i
      | None \<Rightarrow>
        if 0 < physicalCount then None
        else case main_elf td of None \<Rightarrow> None | Some _ \<Rightarrow> t_mainELF td)"

text \<open>What one more frame does to the loop: it stops with these frames, or goes on from there.\<close>

datatype 'a walk = Stop 'a | Walk u64 Registers 'a

definition walk_step ::
  "'k tenv \<Rightarrow> int \<Rightarrow> u64 \<Rightarrow> Registers \<Rightarrow> nat \<Rightarrow> StackFrame list \<Rightarrow> ('k target, StackFrame list walk) st" where
  "walk_step T maxFrames pc regs physicalCount frames = (\<lambda>p.
     if pc = 0 \<or> 0 < maxFrames \<and> maxFrames \<le> int physicalCount then (Inr (Stop frames), p)
     else case frame_elf (tdata p) pc physicalCount of
       None \<Rightarrow> (Inr (Stop frames), p)
     | Some i \<Rightarrow>
       let curELF = elves (t_elves (tdata p)) ! i;
           fn = (case el_dwarf curELF of None \<Rightarrow> None | Some d \<Rightarrow> FunctionContainingPC d pc)
       in if el_dwarf curELF \<noteq> None \<and> fn = None \<and> 0 < physicalCount then (Inr (Stop frames), p)
          else case frames_at curELF regs pc fn (physicalCount = 0) of
            Inl e \<Rightarrow> (Inl e, p)
          | Inr new \<Rightarrow>
            (case el_cfi curELF of
               None \<Rightarrow> (Inr (Stop (frames @ new)), p)
             | Some cfi \<Rightarrow>
               let (m, cfi') = UnwindFrame (te_fuel T) (mem T p) (te_ruleOrder T) cfi pc regs;
                   p' = upd_tdata (set_elf i (curELF\<lparr>el_cfi := Some cfi'\<rparr>)) p
               in case m of
                    Inl (Error _) \<Rightarrow> (Inr (Stop (frames @ new)), p')
                  | Inl Panic \<Rightarrow> (Inl Panic, p')
                  | Inl OutOfFuel \<Rightarrow> (Inl OutOfFuel, p')
                  | Inr (unwoundRegs, frameCFA) \<Rightarrow>
                    let frames' = recordCFA frameCFA (frames @ new) in
                    (case readRegisterUint64 unwoundRegs ripInfo of
                       Inl e \<Rightarrow> (Inl e, p')
                     | Inr returnAddr \<Rightarrow>
                       if returnAddr = 0 then (Inr (Stop frames'), p')
                       else (Inr (Walk (returnAddr - 1) unwoundRegs frames'), p'))))"

primrec unwind_loop ::
  "'k tenv \<Rightarrow> nat \<Rightarrow> int \<Rightarrow> u64 \<Rightarrow> Registers \<Rightarrow> nat \<Rightarrow> StackFrame list \<Rightarrow> ('k target, StackFrame list) st" where
  "unwind_loop T 0 maxFrames pc regs physicalCount frames = (\<lambda>p. (Inl OutOfFuel, p))"
| "unwind_loop T (Suc fuel) maxFrames pc regs physicalCount frames =
     mbind (walk_step T maxFrames pc regs physicalCount frames) (\<lambda>w.
       case w of
         Stop frames' \<Rightarrow> mret frames'
       | Walk pc' regs' frames' \<Rightarrow> unwind_loop T fuel maxFrames pc' regs' (physicalCount + 1) frames')"

definition UnwindStack :: "'k tenv \<Rightarrow> nat \<Rightarrow> int \<Rightarrow> ('k target, StackFrame list) st" where
  "UnwindStack T fuel maxFrames p =
     (case GetPC p of
        Inl Panic \<Rightarrow> (Inl Panic, p)
      | Inl OutOfFuel \<Rightarrow> (Inl OutOfFuel, p)
      | Inl (Error _) \<Rightarrow> (Inr [], p)
      | Inr pc \<Rightarrow>
        (case Registers_of p of
           None \<Rightarrow> (Inl Panic, p)
         | Some regs \<Rightarrow> unwind_loop T fuel maxFrames pc regs 0 [] p))"

definition Backtrace :: "'k tenv \<Rightarrow> nat \<Rightarrow> int \<Rightarrow> ('k target, StackFrame list) st" where
  "Backtrace T fuel maxFrames = UnwindStack T fuel maxFrames"

section \<open>Printing\<close>

definition newline :: string where
  "newline = [CHR 0x0A]"

definition formatFrame :: "nat \<Rightarrow> StackFrame \<Rightarrow> string" where
  "formatFrame i frame =
     (let marker = (if i = 0 then ''*'' else '' '');
          loc = (if sl_File (sf_Location frame) \<noteq> ''''
                 then '' at '' @ path_Base (sl_File (sf_Location frame)) @ '':'' @ fmt_d (sl_Line (sf_Location frame))
                 else '''');
          named = (if sf_FunctionName frame = '''' then ''??'' else sf_FunctionName frame);
          funcName = (if sf_ELFFilename frame \<noteq> '''' then sf_ELFFilename frame @ [CHR 0x60] @ named else named);
          inl = (if sf_Inlined frame then '' [inlined]'' else '''')
      in marker @ ''['' @ fmt_d (int i) @ '']: '' @ fmt_x (unat (sf_PC frame)) @ '' '' @ funcName @ inl @ loc @ newline)"

definition FormatBacktrace :: "StackFrame list \<Rightarrow> string" where
  "FormatBacktrace frames =
     (if frames = [] then ''no stack frames available'' @ newline
      else concat (map (\<lambda>(i, frame). formatFrame i frame) (enumerate 0 frames)))"

section \<open>Physical frames\<close>

definition physical :: "StackFrame list \<Rightarrow> nat" where
  "physical frames = length (filter (\<lambda>f. \<not> sf_Inlined f) frames)"

lemma physical_append [simp]: "physical (xs @ ys) = physical xs + physical ys"
  by (simp add: physical_def)

lemma rfold_invariant:
  "rfold f xs s = Inr t \<Longrightarrow> P s \<Longrightarrow> (\<And>x u v. x \<in> set xs \<Longrightarrow> P u \<Longrightarrow> f x u = Inr v \<Longrightarrow> P v) \<Longrightarrow> P t"
  by (induction xs arbitrary: s) auto

text \<open>Everything that the walk pushes on the stack is inlined.\<close>

definition inlined_above :: "FunctionEntry list \<Rightarrow> bool" where
  "inlined_above stack \<longleftrightarrow> stack \<noteq> [] \<and> list_all fn_IsInlined (tl stack)"

lemma walkInlineChildren_inlined:
  "walkInlineChildren n es parent a stack = Inr s \<Longrightarrow> inlined_above stack \<Longrightarrow> inlined_above s"
proof (induction n arbitrary: parent stack s)
  case (Suc n)
  show ?case
  proof (rule rfold_invariant [where P = inlined_above, OF Suc.prems(1) [unfolded walkInlineChildren.simps] Suc.prems(2)])
    fix child u v
    assume u: "inlined_above u" and v: "(case en_Tag child of
         TagInlinedSubroutine \<Rightarrow>
           if entry_contains child a
           then walkInlineChildren n es (en_Offset child) a (u @ [inlined_call es child])
           else Inr u
       | TagLexDwarfBlock \<Rightarrow>
           if entry_contains child a then walkInlineChildren n es (en_Offset child) a u else Inr u
       | _ \<Rightarrow> Inr u) = Inr v"
    have "inlined_above (u @ [inlined_call es child])"
      using u by (cases u) (auto simp: inlined_above_def inlined_call_def)
    then show "inlined_above v" using u v Suc.IH by (auto split: Tag.splits if_splits)
  qed
qed simp

lemma physical_single [simp]: "physical [f] \<le> Suc 0"
  by (simp add: physical_def)

lemma physical_map [simp]: "(\<And>f. sf_Inlined (g f) = sf_Inlined f) \<Longrightarrow> physical (map g xs) = physical xs"
  by (simp add: physical_def filter_map comp_def)

lemma inlineFrame_inlined [simp]: "sf_Inlined (inlineFrame d regs pc fn inn) = fn_IsInlined fn"
  by (simp add: inlineFrame_def Let_def emptyFrame_def split: option.split list.split)

lemma physical_inlineFrames:
  "physical (inlineFrames d regs pc fns) = length (filter (\<lambda>fn. \<not> fn_IsInlined fn) fns)"
  by (induction d regs pc fns rule: inlineFrames.induct) (auto simp: physical_def)

lemma createPhysicalFrame_fields [simp]:
  "\<not> sf_Inlined (createPhysicalFrame dw regs pc fn deepest)"
  "sf_Regs (createPhysicalFrame dw regs pc fn deepest) = regs"
  "sf_PC (createPhysicalFrame dw regs pc fn True) = pc"
  by (simp_all add: createPhysicalFrame_def Let_def emptyFrame_def split: option.split)

lemma frames_at_physical:
  assumes "frames_at e regs pc fn deepest = Inr fs"
  shows "physical fs \<le> 1"
proof (cases "el_dwarf e")
  case None
  with assms show ?thesis by (auto simp: frames_at_def physical_def)
next
  case (Some d)
  with assms obtain stack where s: "InlineStackAtAddress (length (d_data d)) d pc = Inr stack"
    and fs: "physical fs = physical (if 1 < length stack then createInlineFrames d regs pc stack
                     else [createPhysicalFrame (Some d) regs pc fn deepest])"
    by (auto simp: frames_at_def)
  have "length (filter (\<lambda>fn. \<not> fn_IsInlined fn) stack) \<le> 1"
  proof (cases "FunctionContainingPC d pc")
    case None
    with s show ?thesis by (simp add: InlineStackAtAddress_def)
  next
    case (Some outerFn)
    with s have "inlined_above stack"
      by (auto simp: InlineStackAtAddress_def inlined_above_def elim!: walkInlineChildren_inlined [unfolded inlined_above_def])
    then show ?thesis by (cases stack) (auto simp: inlined_above_def list_all_iff filter_empty_conv)
  qed
  then show ?thesis
    using fs by (cases "1 < length stack") (simp_all add: createInlineFrames_def physical_inlineFrames)
qed

section \<open>The first frame\<close>

definition heads :: "Registers \<Rightarrow> u64 \<Rightarrow> StackFrame list \<Rightarrow> bool" where
  "heads regs pc frames \<longleftrightarrow> frames \<noteq> [] \<and> sf_Regs (hd frames) = regs \<and> sf_PC (hd frames) = pc"

lemma hd_inlineFrames: "fns \<noteq> [] \<Longrightarrow> inlineFrames d regs pc fns \<noteq> [] \<and>
    hd (inlineFrames d regs pc fns) = inlineFrame d regs pc (last fns) None"
  by (induction d regs pc fns rule: inlineFrames.induct) auto

lemma inlineFrame_innermost [simp]:
  "sf_PC (inlineFrame d regs pc fn None) = pc" "sf_Regs (inlineFrame d regs pc fn inn) = regs"
  by (simp_all add: inlineFrame_def Let_def emptyFrame_def split: option.split list.split)

lemma heads_map: "(\<And>f. sf_Regs (g f) = sf_Regs f \<and> sf_PC (g f) = sf_PC f) \<Longrightarrow> heads regs pc (map g fs) = heads regs pc fs"
  by (cases fs) (simp_all add: heads_def)

lemma heads_append: "heads regs pc fs \<Longrightarrow> heads regs pc (fs @ gs)"
  by (cases fs) (simp_all add: heads_def)

lemma frames_at_heads:
  assumes "frames_at e regs pc fn True = Inr fs"
  shows "heads regs pc fs"
proof -
  have single: "heads regs pc [createPhysicalFrame dw regs pc fn' True]" for dw fn'
    by (simp add: heads_def)
  have inl: "heads regs pc (createInlineFrames d regs pc stack)" if "1 < length stack" for d stack
    using that hd_inlineFrames [of stack d regs pc] by (cases stack) (auto simp: heads_def createInlineFrames_def)
  have tag: "heads regs pc (map (\<lambda>f. f\<lparr>sf_ELFFilename := Filename e\<rparr>) gs) = heads regs pc gs" for gs
    by (rule heads_map) simp
  show ?thesis
  proof (cases "el_dwarf e")
    case None
    with assms tag [of "[createPhysicalFrame None regs pc None True]"] single show ?thesis
      by (simp add: frames_at_def)
  next
    case (Some d)
    with assms obtain stack where
      "fs = map (\<lambda>f. f\<lparr>sf_ELFFilename := Filename e\<rparr>)
         (if 1 < length stack then createInlineFrames d regs pc stack
          else [createPhysicalFrame (Some d) regs pc fn True])"
      by (auto simp: frames_at_def)
    with tag single inl show ?thesis by (cases "1 < length stack") (simp_all del: list.map)
  qed
qed

lemma record_first_same:
  "map sf_PC (record_first cfa fs) = map sf_PC fs" "map sf_Regs (record_first cfa fs) = map sf_Regs fs"
  "map sf_Inlined (record_first cfa fs) = map sf_Inlined fs"
  by (induction fs) auto

lemma physical_count: "physical fs = length (filter Not (map sf_Inlined fs))"
  by (simp add: physical_def filter_map comp_def)

lemma physical_recordCFA [simp]: "physical (recordCFA cfa fs) = physical fs"
proof -
  have "map sf_Inlined (recordCFA cfa fs) = map sf_Inlined fs"
    by (simp add: recordCFA_def rev_map record_first_same flip: rev_map)
  then show ?thesis by (simp only: physical_count)
qed

lemma heads_recordCFA [simp]: "heads regs pc (recordCFA cfa fs) = heads regs pc fs"
proof -
  have "map sf_PC (recordCFA cfa fs) = map sf_PC fs" "map sf_Regs (recordCFA cfa fs) = map sf_Regs fs"
    by (simp_all add: recordCFA_def record_first_same flip: rev_map)
  then show ?thesis
    unfolding heads_def by (metis hd_map map_is_Nil_conv)
qed

section \<open>The walk\<close>

definition room :: "int \<Rightarrow> nat \<Rightarrow> bool" where
  "room maxFrames n \<longleftrightarrow> 0 < maxFrames \<longrightarrow> int n \<le> maxFrames"

text \<open>The loop invariant: how many physical frames there are, and which frame comes first.\<close>

definition walked :: "Registers \<Rightarrow> u64 \<Rightarrow> nat \<Rightarrow> StackFrame list \<Rightarrow> bool" where
  "walked regs pc n frames \<longleftrightarrow> physical frames \<le> n \<and> (if n = 0 then frames = [] else heads regs pc frames)"

lemma walk_step_cases:
  assumes "walk_step T maxFrames pc regs n frames p = (Inr w, q)"
  obtains "w = Stop frames"
  | new cfa e fn frames' where "pc \<noteq> 0" "\<not> (0 < maxFrames \<and> maxFrames \<le> int n)"
      "frames_at e regs pc fn (n = 0) = Inr new"
      "frames' = frames @ new \<or> frames' = recordCFA cfa (frames @ new)"
      "w = Stop frames' \<or> (\<exists>pc' regs'. w = Walk pc' regs' frames')"
proof (cases "pc = 0 \<or> 0 < maxFrames \<and> maxFrames \<le> int n")
  case True
  with assms that(1) show ?thesis by (auto simp: walk_step_def)
next
  case go: False
  show ?thesis
  proof (cases "frame_elf (tdata p) pc n")
    case None
    with assms go that(1) show ?thesis by (auto simp: walk_step_def)
  next
    case (Some i)
    let ?e = "elves (t_elves (tdata p)) ! i"
    let ?fn = "case el_dwarf ?e of None \<Rightarrow> None | Some d \<Rightarrow> FunctionContainingPC d pc"
    show ?thesis
    proof (cases "el_dwarf ?e \<noteq> None \<and> ?fn = None \<and> 0 < n")
      case True
      with assms go Some that(1) show ?thesis by (simp add: walk_step_def Let_def)
    next
      case False
      with assms go Some obtain new where new: "frames_at ?e regs pc ?fn (n = 0) = Inr new"
        by (auto simp: walk_step_def Let_def split: sum.splits)
      show ?thesis
        using assms go Some False new that(2) [of ?e ?fn new]
        by (auto simp: walk_step_def Let_def split: option.splits prod.splits sum.splits failure.splits if_splits)
    qed
  qed
qed

lemma walk_step_walked:
  assumes "walk_step T maxFrames pc' regs' n frames p = (Inr w, q)" "walked regs pc n frames" "room maxFrames n"
    and "n = 0 \<Longrightarrow> pc' = pc \<and> regs' = regs"
  shows "case w of
      Stop frames' \<Rightarrow> room maxFrames (physical frames') \<and> (frames' = [] \<or> heads regs pc frames')
    | Walk _ _ frames' \<Rightarrow> walked regs pc (Suc n) frames' \<and> room maxFrames (Suc n)"
  using assms(1)
proof (cases rule: walk_step_cases)
  case 1
  with assms(2,3) show ?thesis by (auto simp: walked_def room_def split: if_splits)
next
  case (2 new cfa e fn frames')
  have "physical frames' \<le> Suc n"
    using 2(4) frames_at_physical [OF 2(3)] assms(2) by (auto simp: walked_def)
  moreover have "room maxFrames (Suc n)" using 2(2) by (auto simp: room_def)
  moreover have "heads regs pc frames'"
  proof (cases "n = 0")
    case True
    with 2(3) assms(4) have "heads regs pc new" using frames_at_heads [of e regs pc fn new] by simp
    with True 2(4) assms(2) show ?thesis by (auto simp: walked_def)
  next
    case False
    with 2(4) assms(2) show ?thesis by (auto simp: walked_def heads_append)
  qed
  ultimately show ?thesis using 2(5) by (auto simp: walked_def room_def)
qed

lemma unwind_loop_walked:
  "unwind_loop T fuel maxFrames pc' regs' n frames p = (Inr fs, q) \<Longrightarrow> walked regs pc n frames \<Longrightarrow>
    room maxFrames n \<Longrightarrow> (n = 0 \<Longrightarrow> pc' = pc \<and> regs' = regs) \<Longrightarrow>
    room maxFrames (physical fs) \<and> (fs = [] \<or> heads regs pc fs)"
proof (induction fuel arbitrary: pc' regs' n frames p)
  case (Suc fuel)
  from Suc.prems(1) obtain w p1 where step: "walk_step T maxFrames pc' regs' n frames p = (Inr w, p1)"
    and rest: "(case w of Stop fs' \<Rightarrow> mret fs'
       | Walk pc' regs' fs' \<Rightarrow> unwind_loop T fuel maxFrames pc' regs' (n + 1) fs') p1 = (Inr fs, q)"
    by (auto simp: mbind_eq_Inr)
  note inv = walk_step_walked [OF step Suc.prems(2-4)]
  show ?case
  proof (cases w)
    case (Stop fs')
    with rest inv show ?thesis by simp
  next
    case (Walk pc'' regs'' fs')
    with rest inv Suc.IH [of pc'' regs'' "n + 1" fs' p1] show ?thesis by simp
  qed
qed simp

text \<open>
  C10 (bounds).  A backtrace limited to \<open>maxFrames\<close> holds at most that many physical frames, however
  many inlined ones come with them, and its first frame reports the program counter and the
  registers of the stopped tracee.
\<close>

theorem backtrace_bounded:
  assumes "Backtrace T fuel maxFrames p = (Inr frames, q)" "0 < maxFrames"
  shows "int (length (filter (\<lambda>f. \<not> sf_Inlined f) frames)) \<le> maxFrames \<and>
    (frames = [] \<or> GetPC p = Inr (sf_PC (hd frames)) \<and> Registers_of p = Some (sf_Regs (hd frames)))"
proof (cases "GetPC p")
  case (Inl e)
  with assms show ?thesis by (cases e) (auto simp: Backtrace_def UnwindStack_def)
next
  case (Inr pc)
  with assms(1) obtain regs where regs: "Registers_of p = Some regs"
    and run: "unwind_loop T fuel maxFrames pc regs 0 [] p = (Inr frames, q)"
    by (auto simp: Backtrace_def UnwindStack_def split: option.splits)
  have "walked regs pc 0 []" "room maxFrames 0" by (simp_all add: walked_def physical_def room_def)
  from unwind_loop_walked [OF run this] assms(2) Inr regs show ?thesis
    by (auto simp: room_def heads_def physical_def)
qed

lemma unwind_loop_fuel:
  "room maxFrames n \<Longrightarrow> 0 < maxFrames \<Longrightarrow> nat maxFrames < fuel + n \<Longrightarrow> nat maxFrames < fuel' + n \<Longrightarrow>
    unwind_loop T fuel maxFrames pc regs n frames p = unwind_loop T fuel' maxFrames pc regs n frames p"
proof (induction fuel arbitrary: fuel' pc regs n frames p)
  case 0
  then show ?case by (simp add: room_def)
next
  case (Suc fuel)
  then obtain k where k: "fuel' = Suc k" by (cases fuel') (auto simp: room_def)
  show ?case unfolding k unwind_loop.simps
  proof (rule mbind_cong [OF refl _ refl])
    fix w p1 assume step: "walk_step T maxFrames pc regs n frames p = (Inr w, p1)"
    show "(case w of Stop fs \<Rightarrow> mret fs | Walk pc' regs' fs \<Rightarrow> unwind_loop T fuel maxFrames pc' regs' (n + 1) fs) p1 =
      (case w of Stop fs \<Rightarrow> mret fs | Walk pc' regs' fs \<Rightarrow> unwind_loop T k maxFrames pc' regs' (n + 1) fs) p1"
    proof (cases w)
      case (Walk pc' regs' fs)
      from step have "room maxFrames (n + 1)"
        by (cases rule: walk_step_cases) (auto simp: Walk room_def)
      with Suc.IH [of "n + 1" k] Suc.prems k Walk show ?thesis by simp
    qed simp
  qed
qed

text \<open>
  C11 (termination).  The walk over the stack ends after \<open>maxFrames\<close> physical frames: with a limit,
  one round of the loop more than the limit allows is enough, and more fuel never changes the
  backtrace, its errors included.
\<close>

theorem backtrace_terminates:
  assumes "0 < maxFrames" "nat maxFrames < fuel" "nat maxFrames < fuel'"
  shows "Backtrace T fuel maxFrames p = Backtrace T fuel' maxFrames p"
proof -
  have "unwind_loop T fuel maxFrames pc regs 0 [] p = unwind_loop T fuel' maxFrames pc regs 0 [] p" for pc regs
    by (rule unwind_loop_fuel) (use assms in \<open>simp_all add: room_def\<close>)
  then show ?thesis by (simp add: Backtrace_def UnwindStack_def split: sum.split failure.split option.split)
qed

section \<open>A small target\<close>

lemma demo_pc: "GetPC demo_target = Inr 0x10" "Registers_of demo_target = Some demo_regs"
  by code_simp+

definition demo_frame :: StackFrame where
  "demo_frame = (emptyFrame demo_regs)\<lparr>sf_PC := 0x10, sf_ELFFilename := ''demo''\<rparr>"

lemma demo_backtrace:
  "Backtrace demo_tenv 3 1 demo_target = (Inr [demo_frame], snd (Backtrace demo_tenv 3 1 demo_target))"
proof -
  have "fst (Backtrace demo_tenv 3 1 demo_target) = Inr [demo_frame]" by code_simp
  then show ?thesis by (simp add: prod_eq_iff)
qed

theorem backtrace_bounded_witness:
  "int (length (filter (\<lambda>f. \<not> sf_Inlined f) [demo_frame])) \<le> 1 \<and> GetPC demo_target = Inr (sf_PC demo_frame)"
  using backtrace_bounded [OF demo_backtrace] by simp

theorem backtrace_terminates_witness:
  "fst (Backtrace demo_tenv 2 1 demo_target) = Inr [demo_frame]"
proof -
  have "Backtrace demo_tenv 2 1 demo_target = Backtrace demo_tenv 3 1 demo_target"
    by (rule backtrace_terminates) simp_all
  then show ?thesis by (metis demo_backtrace fst_conv)
qed

end
