(* ===== verification/Frame.thy ===== *)
theory Frame
  imports Process_Control
begin

text \<open>
  What waiting for and resuming the tracee leave alone.  The locale \<open>process_frame\<close> names the
  changes that the control code makes to the process: to the kernel, a thread, the run state, a
  watchpoint's value, the enabled flag of a site, and whatever the callbacks do.  A predicate that
  each of them preserves holds after \<open>Resume\<close>, \<open>WaitOnSignal\<close> and \<open>StepInstruction\<close>, on every
  outcome.
\<close>

section \<open>Outcomes\<close>

text \<open>
  From \<open>P\<close>, the code returns in \<open>Q\<close> or with an error in \<open>R\<close>; nothing is said of a panic, or of a loop
  that runs on.
\<close>

definition triple :: "('s \<Rightarrow> bool) \<Rightarrow> ('s, 'a) st \<Rightarrow> ('s \<Rightarrow> bool) \<Rightarrow> ('s \<Rightarrow> bool) \<Rightarrow> bool" where
  "triple P m Q R \<longleftrightarrow>
     (\<forall>s. P s \<longrightarrow> (case m s of (Inr _, t) \<Rightarrow> Q t | (Inl (Error _), t) \<Rightarrow> R t | _ \<Rightarrow> True))"

lemma triple_keeps: "keeps P m \<Longrightarrow> triple P m P P"
  unfolding triple_def keeps_def by (auto split: prod.split sum.split failure.split)

lemma triple_mono:
  "triple P m Q R \<Longrightarrow> (\<And>s. P' s \<Longrightarrow> P s) \<Longrightarrow> (\<And>s. Q s \<Longrightarrow> Q' s) \<Longrightarrow> (\<And>s. R s \<Longrightarrow> R' s) \<Longrightarrow> triple P' m Q' R'"
  unfolding triple_def by (fastforce split: prod.splits sum.splits failure.splits)

lemma triple_mbind: "triple P m Q R \<Longrightarrow> (\<And>x. triple Q (f x) S R) \<Longrightarrow> triple P (mbind m f) S R"
  unfolding triple_def mbind_def by (fastforce split: prod.splits sum.splits failure.splits)

lemma triple_mtry: "triple P m Q Q \<Longrightarrow> triple P (mtry m) Q R"
  unfolding triple_def mtry_def by (fastforce split: prod.splits sum.splits failure.splits)

lemma triple_mret: "(\<And>s. P s \<Longrightarrow> Q s) \<Longrightarrow> triple P (mret x) Q R"
  by (simp add: triple_def mret_def)

lemma triple_mfail: "(\<And>s. P s \<Longrightarrow> R s) \<Longrightarrow> triple P (mfail e) Q R"
  by (simp add: triple_def mfail_def)

lemma triple_mdrop: "triple P m Q Q \<Longrightarrow> triple P (mdrop m) Q R"
  unfolding mdrop_def by (rule triple_mbind [OF triple_mtry]) (auto intro: triple_mret)

lemma triple_or_else: "triple P m Q S \<Longrightarrow> triple S n R R \<Longrightarrow> triple P (or_else m n) Q R"
proof -
  assume m: "triple P m Q S" and n: "triple S n R R"
  have d: "triple S (mdrop n) R R" by (rule triple_mdrop [OF n])
  show ?thesis unfolding triple_def
  proof (intro allI impI)
    fix s assume "P s"
    with m have 1: "case m s of (Inr _, t) \<Rightarrow> Q t | (Inl (Error _), t) \<Rightarrow> S t | _ \<Rightarrow> True"
      by (simp add: triple_def)
    from d have 2: "S t \<Longrightarrow> (case mdrop n t of (Inr _, u) \<Rightarrow> R u | (Inl (Error _), u) \<Rightarrow> R u | _ \<Rightarrow> True)" for t
      by (simp add: triple_def)
    show "case or_else m n s of (Inr _, t) \<Rightarrow> Q t | (Inl (Error _), t) \<Rightarrow> R t | _ \<Rightarrow> True"
      using 1 2 [of "snd (m s)"] by (auto simp: or_else_def mbind_def mtry_def mret_def mfail_def
          split: prod.splits sum.splits failure.splits)
  qed
qed

section \<open>Identity of a site\<close>

type_synonym site_id = "i32 \<times> u64 \<times> nat option \<times> bool"

definition site_key :: "BreakpointSite \<Rightarrow> site_id" where
  "site_key b = (bp_id b, bp_address b, bp_onHit b, bp_isHardware b)"

lemma site_key_Enable [simp]: "site_key (fst (snd (Enable E b p))) = site_key b"
  by (simp add: Enable_def site_key_def Let_def split: option.split prod.split sum.split)

lemma site_key_Disable [simp]: "site_key (fst (snd (Disable E b p))) = site_key b"
  by (simp add: Disable_def site_key_def Let_def split: option.split prod.split sum.split)

text \<open>The site to write back is the one that its address finds, up to the fields outside the key.\<close>

definition same_site :: "BreakpointSite \<Rightarrow> 'k Process \<Rightarrow> bool" where
  "same_site b p \<longleftrightarrow>
     (case getByAddress (breakpointSites p) (bp_address b) of None \<Rightarrow> True | Some c \<Rightarrow> site_key c = site_key b)"

locale request_frame =
  fixes E :: "'k env" and P :: "'k Process \<Rightarrow> bool"
  assumes kernel: "P p \<Longrightarrow> P (p\<lparr>kernel := k\<rparr>)"
    and thread: "P p \<Longrightarrow> P (upd_thread tid f p)"
begin

lemmas requests = kernel thread

lemma f_request [keeps_intros]: "keeps P (request f)"
  by (rule keeps_at) (simp add: request_def requests split: option.split)

lemma f_wait4 [keeps_intros]: "keeps P (wait4 E tid opts)"
  by (rule keeps_at) (simp add: wait4_def requests split: option.split prod.split)

lemma f_writeReg [keeps_intros]: "keeps P (writeReg E tid info v)"
  by (rule keeps_at) (simp add: writeReg_def requests Let_def split: option.split prod.split)

lemma f_replicate [keeps_intros]: "keeps P (replicate_dr E i a d)"
proof (rule keeps_at)
  have body: "keeps P (replicate_to E i a d tid)" for tid
    by (rule keeps_at) (simp add: replicate_to_def keeps_app keeps_intros)
  fix s assume "P s"
  then show "P (snd (replicate_dr E i a d s))"
    unfolding replicate_dr_def by (rule keeps_app [OF keeps_mfor [OF body]])
qed

lemma f_set [keeps_intros]: "keeps P (setHardwareStoppoint E addr mode sz)"
proof (rule keeps_at)
  fix s assume "P s"
  then show "P (snd (setHardwareStoppoint E addr mode sz s))"
    unfolding setHardwareStoppoint_def Let_def
    by (cases "Registers_of s = None") (simp_all add: keeps_app keeps_intros)
qed

lemma f_clear [keeps_intros]: "keeps P (ClearHardwareStoppoint E idx)"
proof (rule keeps_at)
  fix s assume "P s"
  then show "P (snd (ClearHardwareStoppoint E idx s))"
    unfolding ClearHardwareStoppoint_def Let_def
    by (cases "Registers_of s = None") (simp_all add: keeps_app keeps_intros)
qed

lemma f_setPC [keeps_intros]: "keeps P (setPCForThread E tid pc)"
  by (rule keeps_at) (simp add: setPCForThread_def keeps_app keeps_intros split: option.split)

lemma f_Enable: "P p \<Longrightarrow> P (snd (snd (Enable E b p)))"
  using keepsD [OF f_set, of p "bp_address b" StoppointModeExecute 1]
  by (auto simp: Enable_def SetHardwareBreakpoint_def requests Let_def split: option.splits prod.splits sum.splits)

lemma f_Disable: "P p \<Longrightarrow> P (snd (snd (Disable E b p)))"
  using keepsD [OF f_clear, of p "bp_hardwareRegisterIndex b"]
  by (auto simp: Disable_def requests Let_def split: option.splits prod.splits sum.splits)

end

interpretation sites_frame: request_frame E "\<lambda>p. breakpointSites p = c" for E c
  by unfold_locales (simp_all add: upd_thread_def)

locale process_frame = request_frame +
  assumes new_thread: "P p \<Longrightarrow> P (add_thread tid t p)"
    and gone_thread: "P p \<Longrightarrow> P (del_thread tid p)"
    and run_state: "P p \<Longrightarrow> P (p\<lparr>p_state := st\<rparr>)"
    and current: "P p \<Longrightarrow> P (p\<lparr>currentThread := tid\<rparr>)"
    and watch: "P p \<Longrightarrow> P (put_point w p)"
    and site: "P p \<Longrightarrow> same_site b p \<Longrightarrow> P (put_site b p)"
    and hit: "P p \<Longrightarrow> b \<in> set (sites (breakpointSites p)) \<Longrightarrow> bp_onHit b = Some h \<Longrightarrow> P (snd (onHit E h p))"
    and lifecycle: "P p \<Longrightarrow> P (onLifecycle E reason p)"
begin

lemmas changes = kernel thread new_thread gone_thread run_state current watch lifecycle

lemma f_on_site [keeps_intros]:
  assumes "\<And>b q. P q \<Longrightarrow> P (snd (snd (f b q)))" "\<And>b q. site_key (fst (snd (f b q))) = site_key b"
    and "\<And>b q. breakpointSites (snd (snd (f b q))) = breakpointSites q"
  shows "keeps P (on_site f b)"
proof (rule keeps_at)
  fix p assume p: "P p"
  define cur where "cur = (case getByAddress (breakpointSites p) (bp_address b) of Some x \<Rightarrow> x | None \<Rightarrow> b)"
  have addr: "bp_address cur = bp_address b"
    by (auto simp: cur_def getByAddress_def find_Some_iff split: option.split)
  have "bp_address (fst (snd (f cur p))) = bp_address b"
    using assms(2) [of cur p] addr by (simp add: site_key_def)
  moreover have "getByAddress (breakpointSites p) (bp_address b) = None \<or>
      getByAddress (breakpointSites p) (bp_address b) = Some cur"
    by (auto simp: cur_def split: option.split)
  ultimately have "same_site (fst (snd (f cur p))) (snd (snd (f cur p)))"
    using assms(2) [of cur p] by (auto simp: same_site_def assms(3))
  with p show "P (snd (on_site f b p))"
    unfolding on_site_def cur_def [symmetric] by (simp add: Let_def case_prod_beta site assms(1))
qed

lemma f_sites [keeps_intros]: "keeps P (on_site (Enable E) b)" "keeps P (on_site (Disable E) b)"
  using sites_frame.f_Enable [OF refl] sites_frame.f_Disable [OF refl]
  by (auto intro!: f_on_site f_Enable f_Disable)

lemma f_swallow [keeps_intros]: "keeps P (swallowPendingSigstop E tid)"
  by (rule keeps_at) (simp add: swallowPendingSigstop_def keeps_app keeps_intros changes split: option.split)

lemma f_stepOver [keeps_intros]: "keeps P (stepOverBreakpointForThread E tid)"
  by (rule keeps_at)
    (simp add: stepOverBreakpointForThread_def keeps_app keeps_intros split: option.split sum.split)

lemma f_sendContinue [keeps_intros]: "keeps P (sendContinue E tid)"
  by (rule keeps_at) (simp add: sendContinue_def keeps_app keeps_intros changes)

lemma f_Resume: "keeps P (Resume E)"
  by (rule keeps_at) (simp add: Resume_def keeps_app keeps_intros)

lemma f_readAll [keeps_intros]: "keeps P (readAllThread E tid)"
  by (rule keeps_at) (simp add: readAllThread_def keeps_app keeps_intros changes Let_def split: option.split prod.split)

lemma f_augment [keeps_intros]: "keeps P (augmentStopReasonForThread E tid reason)"
  by (rule keeps_at) (simp add: augmentStopReasonForThread_def changes Let_def split: option.split sum.split)

lemma f_softwareBreak [keeps_intros]: "keeps P (softwareBreak E tid main)"
proof (rule keeps_at)
  fix p assume p: "P p"
  have step: "P (snd (mbind (mdrop (setPCForThread E tid a)) (\<lambda>_. mbind (notifyHit E b) (\<lambda>h. mret (g h))) p))"
    if b: "b \<in> set (sites (breakpointSites p))" for a b and g :: "bool \<Rightarrow> bool"
  proof -
    obtain r q where q: "mdrop (setPCForThread E tid a) p = (r, q)" by fastforce
    have "P q" using keepsD [OF keeps_mdrop [OF f_setPC] p q] .
    moreover have "breakpointSites q = breakpointSites p"
      using keepsD [OF keeps_mdrop [OF sites_frame.f_setPC] refl q] .
    then have "P q \<Longrightarrow> P (snd (notifyHit E b q))"
      using hit [of q b] b by (simp add: notifyHit_def mret_def split: option.split)
    moreover obtain r2 q2 where "notifyHit E b q = (r2, q2)" by fastforce
    ultimately show ?thesis using q by (simp add: mbind_def mret_def split: sum.split)
  qed
  show "P (snd (softwareBreak E tid main p))"
    using p step find_Some_iff [of _ "sites (breakpointSites p)"]
    by (auto simp: softwareBreak_def enabledSoftwareAtAddress_def split: sum.splits failure.splits option.splits)
qed

lemma f_hardwareBreak [keeps_intros]: "keeps P (hardwareBreak E tid)"
proof (rule keeps_at)
  fix p assume p: "P p"
  have point: "keeps P (\<lambda>q. case find (f q) (points (watchpoints q)) of
             None \<Rightarrow> (Inr False, q)
           | Some wp \<Rightarrow>
             (case UpdateData E wp q of
                (Inl Panic, wp') \<Rightarrow> (Inl Panic, put_point wp' q)
              | (_, wp') \<Rightarrow> (Inr False, put_point wp' q)))" for f
    by (rule keeps_at) (auto simp: changes split: option.split prod.split sum.split failure.split)
  show "P (snd (hardwareBreak E tid p))"
    unfolding hardwareBreak_def Let_def by (rule keeps_app [where P = P, OF _ p]) (intro keeps_intros point)
qed

lemma f_trapAction [keeps_intros]: "keeps P (trapAction E tid main reason)"
  by (rule keeps_at) (simp add: trapAction_def keeps_app keeps_intros split: option.split TrapType.split)

lemma f_consume [keeps_intros]: "keeps P (consume tid reason)"
  by (rule keeps_at) (simp add: consume_def changes split: option.split)

lemma f_report [keeps_intros]: "keeps P (reportThreadLifecycle E reason)"
  by (simp add: reportThreadLifecycle_def keeps_intros changes)

lemma f_discover [keeps_intros]: "keeps P (discover E tid main reason)"
  by (rule keeps_at) (simp add: discover_def keeps_app keeps_intros changes)

lemma f_inspect [keeps_intros]: "keeps P (inspect E tid main reason)"
  by (rule keeps_at) (simp add: inspect_def keeps_app keeps_intros)

lemma f_handleSignal [keeps_intros]: "keeps P (handleSignal E reason main)"
  by (rule keeps_at) (simp add: handleSignal_def keeps_app keeps_intros Let_def)

lemma f_recordStop [keeps_intros]: "keeps P (recordStop E tid reason)"
  by (simp add: recordStop_def keeps_intros changes Let_def)

lemma f_stopThread [keeps_intros]: "keeps P (stopThread E ex tid)"
  by (rule keeps_at)
    (simp add: stopThread_def keeps_app keeps_intros split: option.split)

lemma f_stopRunning [keeps_intros]: "keeps P (stopRunningThreads E ex)"
  by (rule keeps_at) (simp add: stopRunningThreads_def keeps_app keeps_intros)

lemma f_cleanup_loop: "P p \<Longrightarrow> P (snd (cleanup_loop E m ts rm ex p))"
  by (induction ts arbitrary: rm ex p) (simp_all add: changes split: option.split)

lemma f_cleanup [keeps_intros]: "keeps P (cleanupExitedThreads E m)"
proof (rule keeps_at)
  fix p assume "P p"
  moreover have "P q \<Longrightarrow> P (fold del_thread ts q)" for ts q
    by (induction ts arbitrary: q) (simp_all add: changes)
  ultimately show "P (snd (cleanupExitedThreads E m p))"
    using f_cleanup_loop [of p m "tids E p" "[]" None]
    by (auto simp: cleanupExitedThreads_def split: prod.splits)
qed

lemma f_waitOnSignalFor [keeps_intros]: "keeps P (waitOnSignalFor E fuel tid)"
proof (induction fuel arbitrary: tid)
  case 0
  show ?case by (rule keeps_at) simp
next
  case (Suc fuel)
  have del: "keeps P (\<lambda>q. if b q then (r q, q\<lparr>p_state := st\<rparr>) else waitOnSignalFor E fuel (- 1) (del_thread t q))"
    for b r st t
    by (rule keeps_at) (simp add: changes keeps_app [OF Suc.IH])
  show ?case
  proof (rule keeps_at)
    fix p assume p: "P p"
    show "P (snd (waitOnSignalFor E (Suc fuel) tid p))"
      unfolding waitOnSignalFor.simps Let_def
      by (rule keeps_app [where P = P, OF _ p]) (intro keeps_intros del Suc.IH changes)
  qed
qed

lemma f_WaitOnSignal: "keeps P (WaitOnSignal E fuel)"
  by (simp add: WaitOnSignal_def f_waitOnSignalFor)

lemma f_StepInstruction: "keeps P (StepInstruction E fuel)"
  by (rule keeps_at)
    (simp add: StepInstruction_def Let_def keeps_app keeps_intros changes split: option.split sum.split)

end

end
