(* ===== verification/Stepping.thy ===== *)
theory Stepping
  imports Backtrace Frame
begin

text \<open>
  Source-level control, \<open>src/debugger/stepping.go\<close>: running to an address through a temporary
  breakpoint, step in, over and out, and breakpoints by function and by line.  A step ends when the
  tracee reaches another line, which it may never do: the loops are bounded by fuel.
\<close>

section \<open>Source locations\<close>

definition dwarfAtPC :: "'k target \<Rightarrow> DWARF option" where
  "dwarfAtPC p = (case ELFContainingPC p of Some e \<Rightarrow> el_dwarf e | None \<Rightarrow> None)"

definition dwarfForPC :: "target_data \<Rightarrow> u64 \<Rightarrow> DWARF option" where
  "dwarfForPC td pc =
     (case ELFContainingAddress (t_elves td) pc of
        Some e \<Rightarrow> el_dwarf e
      | None \<Rightarrow> (case main_elf td of Some e \<Rightarrow> el_dwarf e | None \<Rightarrow> None))"

definition sourceLocationAtPC :: "'k target \<Rightarrow> LineEntry option" where
  "sourceLocationAtPC p =
     (case dwarfAtPC p of
        None \<Rightarrow> None
      | Some dw \<Rightarrow> (case GetPC p of Inl _ \<Rightarrow> None | Inr pc \<Rightarrow> GetEntryByAddress dw pc))"

definition SourceLocationAtPC :: "'k target \<Rightarrow> SourceLocation option" where
  "SourceLocationAtPC p = map_option toSourceLocation (sourceLocationAtPC p)"

definition currentPC :: "'k target \<Rightarrow> u64" where
  "currentPC p = (case GetPC p of Inr pc \<Rightarrow> pc | Inl _ \<Rightarrow> 0)"

definition InlineDepthAtPC :: "'k target \<Rightarrow> int res" where
  "InlineDepthAtPC p =
     (case dwarfAtPC p of
        None \<Rightarrow> Inr 0
      | Some dw \<Rightarrow>
          rbind (InlineStackAtAddress (length (d_data dw)) dw (currentPC p)) (\<lambda>stack.
            Inr (if length stack \<le> 1 then 0 else int (length stack) - 1)))"

section \<open>Running to an address\<close>

definition dropSite :: "BreakpointSite \<Rightarrow> ('k target, unit) st" where
  "dropSite site = mmodify (\<lambda>p. p\<lparr>breakpointSites := snd (removeByID (bp_id site) (breakpointSites p))\<rparr>)"

definition RunUntilAddress :: "'k tenv \<Rightarrow> nat \<Rightarrow> u64 \<Rightarrow> ('k target, StopReason) st" where
  "RunUntilAddress T fuel addr p =
     (let E = target_env T fuel in
      if enabledAtAddress (breakpointSites p) addr \<noteq> None then mbind (Resume E) (\<lambda>_. WaitOnSignal E fuel) p
      else
        mbind (CreateBreakpointSite addr False True) (\<lambda>site.
        mbind (or_else (on_site (Enable E) site) (dropSite site)) (\<lambda>_.
        mbind (or_else (Resume E) (mbind (mdrop (on_site (Disable E) site)) (\<lambda>_. dropSite site))) (\<lambda>_.
        mbind (mtry (WaitOnSignal E fuel)) (\<lambda>result.
        mbind (mdrop (on_site (Disable E) site)) (\<lambda>_.
        mbind (dropSite site) (\<lambda>_.
        case result of
          Inl e \<Rightarrow> mfail e
        | Inr reason \<Rightarrow>
          (\<lambda>q. case GetPC q of
             Inl Panic \<Rightarrow> (Inl Panic, q)
           | Inl _ \<Rightarrow> (Inr reason, q)
           | Inr pc \<Rightarrow>
             (Inr (if pc = addr \<and> sr_TrapReason reason = Some TrapSoftwareBreak
                   then reason\<lparr>sr_TrapReason := Some TrapSingleStep\<rparr> else reason), q)))))))) p)"

section \<open>Stepping\<close>

definition same_line :: "LineEntry \<Rightarrow> LineEntry \<Rightarrow> bool" where
  "same_line a b \<longleftrightarrow> le_File a = le_File b \<and> le_Line a = le_Line b"

text \<open>The location at the program counter is on another line than \<open>start\<close>, and a real one.\<close>

definition new_line :: "LineEntry \<Rightarrow> 'k target \<Rightarrow> bool" where
  "new_line start p =
     (case sourceLocationAtPC p of
        None \<Rightarrow> False
      | Some loc \<Rightarrow> \<not> le_EndSequence loc \<and> \<not> same_line loc start)"

definition entry_range :: "DWARF \<Rightarrow> FunctionEntry \<Rightarrow> u64 \<Rightarrow> (u64 \<times> u64) option" where
  "entry_range dw fn pc = find (\<lambda>r. pc = fst r + d_loadBias dw) (fn_Ranges fn)"

definition skipPrologueIfNeeded :: "'k tenv \<Rightarrow> nat \<Rightarrow> ('k target, unit) st" where
  "skipPrologueIfNeeded T fuel p =
     (case (dwarfAtPC p, GetPC p) of
        (Some dw, Inr pc) \<Rightarrow>
          (case FunctionContainingPC dw pc of
             None \<Rightarrow> (Inr (), p)
           | Some fn \<Rightarrow>
             (case entry_range dw fn pc of
                None \<Rightarrow> (Inr (), p)
              | Some r \<Rightarrow>
                (case PrologueEndForRange dw (fst r) (snd r) of
                   None \<Rightarrow> (Inr (), p)
                 | Some pe \<Rightarrow>
                   if pc < pe + d_loadBias dw
                   then mbind (RunUntilAddress T fuel (pe + d_loadBias dw)) (\<lambda>_. mret ()) p
                   else (Inr (), p))))
      | _ \<Rightarrow> (Inr (), p))"

definition single_step :: "StopReason \<Rightarrow> StopReason" where
  "single_step reason = reason\<lparr>sr_TrapReason := Some TrapSingleStep\<rparr>"

fun step_in_loop :: "'k tenv \<Rightarrow> nat \<Rightarrow> nat \<Rightarrow> LineEntry \<Rightarrow> ('k target, StopReason) st" where
  "step_in_loop T fuel 0 startLoc = (\<lambda>p. (Inl OutOfFuel, p))"
| "step_in_loop T fuel (Suc n) startLoc =
     mbind (StepInstruction (target_env T fuel) fuel) (\<lambda>reason.
       if sr_Reason reason \<noteq> ProcessStopped then mret reason
       else (\<lambda>q. if new_line startLoc q
                 then mbind (skipPrologueIfNeeded T fuel) (\<lambda>_. mret (single_step reason)) q
                 else step_in_loop T fuel n startLoc q))"

definition StepIn :: "'k tenv \<Rightarrow> nat \<Rightarrow> ('k target, StopReason) st" where
  "StepIn T fuel p =
     (case (sourceLocationAtPC p, dwarfAtPC p) of
        (Some startLoc, Some dw) \<Rightarrow> step_in_loop T fuel fuel startLoc p
      | _ \<Rightarrow> StepInstruction (target_env T fuel) fuel p)"

text \<open>Whether the instruction at an address is a call, and its length; a decoding error is no call.\<close>

definition isCallAt :: "'k tenv \<Rightarrow> 'k target \<Rightarrow> u64 \<Rightarrow> (bool \<times> nat) res" where
  "isCallAt T p addr =
     rbind (ReadMemoryWithoutTraps (kenv T) addr 15 p) (\<lambda>data.
       Inr (case te_decode T data of None \<Rightarrow> (False, 1) | Some r \<Rightarrow> r))"

text \<open>One round of the loop: a call runs to its return address, any other instruction is one step.\<close>

definition over_once :: "'k tenv \<Rightarrow> nat \<Rightarrow> ('k target, StopReason) st" where
  "over_once T fuel =
     mbind (mget GetPC) (\<lambda>pc.
     mbind (mget (\<lambda>p. isCallAt T p pc)) (\<lambda>(isCall, instrLen).
     if isCall then RunUntilAddress T fuel (pc + of_nat instrLen)
     else StepInstruction (target_env T fuel) fuel))"

fun step_over_loop :: "'k tenv \<Rightarrow> nat \<Rightarrow> nat \<Rightarrow> LineEntry \<Rightarrow> ('k target, StopReason) st" where
  "step_over_loop T fuel 0 startLoc = (\<lambda>p. (Inl OutOfFuel, p))"
| "step_over_loop T fuel (Suc n) startLoc =
     mbind (over_once T fuel) (\<lambda>reason.
       if sr_Reason reason \<noteq> ProcessStopped then mret reason
       else (\<lambda>q. if new_line startLoc q then (Inr (single_step reason), q)
                 else step_over_loop T fuel n startLoc q))"

definition StepOver :: "'k tenv \<Rightarrow> nat \<Rightarrow> ('k target, StopReason) st" where
  "StepOver T fuel p =
     (case (sourceLocationAtPC p, dwarfAtPC p) of
        (Some startLoc, Some dw) \<Rightarrow> step_over_loop T fuel fuel startLoc p
      | _ \<Rightarrow> StepInstruction (target_env T fuel) fuel p)"

text \<open>
  The address a step out runs to.  First the end of the innermost inlined function, then the return
  address that the unwinder restores, then the word above the saved frame pointer.
\<close>

definition inline_end :: "DWARF option \<Rightarrow> u64 \<Rightarrow> u64 option res" where
  "inline_end dw pc =
     (case dw of
        None \<Rightarrow> Inr None
      | Some d \<Rightarrow>
          rbind (InlineStackAtAddress (length (d_data d)) d pc) (\<lambda>stack.
            Inr (if 1 < length stack \<and> fn_IsInlined (last stack)
                 then Some (fold (\<lambda>r m. if m < snd r then snd r else m) (fn_Ranges (last stack)) 0) else None)))"

definition unwound_return :: "'k tenv \<Rightarrow> u64 \<Rightarrow> ('k target, u64 option) st" where
  "unwound_return T pc p =
     (case (elf_index (tdata p) pc, t_mainELF (tdata p)) of
        (None, None) \<Rightarrow> (Inr None, p)
      | (idx, mainIdx) \<Rightarrow>
        (let i = (case idx of Some i \<Rightarrow> i | None \<Rightarrow> the mainIdx) in
         if length (elves (t_elves (tdata p))) \<le> i then (Inr None, p)
         else
           (let e = elves (t_elves (tdata p)) ! i in
            case el_cfi e of
              None \<Rightarrow> (Inr None, p)
            | Some cfi \<Rightarrow>
              (case Registers_of p of
                 None \<Rightarrow> (Inl Panic, p)
               | Some regs \<Rightarrow>
                 (let (m, cfi') = UnwindFrame (te_fuel T) (mem T p) (te_ruleOrder T) cfi pc regs;
                      p' = upd_tdata (set_elf i (e\<lparr>el_cfi := Some cfi'\<rparr>)) p
                  in case m of
                       Inl (Error _) \<Rightarrow> (Inr None, p')
                     | Inl Panic \<Rightarrow> (Inl Panic, p')
                     | Inl OutOfFuel \<Rightarrow> (Inl OutOfFuel, p')
                     | Inr (unwound, _) \<Rightarrow>
                       (rbind (readRegisterUint64 unwound ripInfo) (\<lambda>ret. Inr (if ret = 0 then None else Some ret)), p'))))))"

definition frame_pointer_return :: "'k tenv \<Rightarrow> 'k target \<Rightarrow> u64 res" where
  "frame_pointer_return T p =
     (case (RegisterInfoByName ''rbp'', Registers_of p) of
        (None, _) \<Rightarrow> Inl (Error (NotFound ''rbp''))
      | (_, None) \<Rightarrow> Inl Panic
      | (Some rbpInfo, Some regs) \<Rightarrow>
          rbind (readRegisterUint64 regs rbpInfo) (\<lambda>rbp.
          rbind (mem T p (rbp + 8) 8) (\<lambda>bs.
            if length bs < 8 then Inl Panic else Inr (le_word (take 8 bs)))))"

definition StepOut :: "'k tenv \<Rightarrow> nat \<Rightarrow> ('k target, StopReason) st" where
  "StepOut T fuel =
     mbind (mget GetPC) (\<lambda>pc.
     mbind (mget (\<lambda>p. inline_end (dwarfAtPC p) pc)) (\<lambda>end_of_inline p.
     case end_of_inline of
       Some maxHigh \<Rightarrow>
         (case elfForPC (tdata p) pc of
            None \<Rightarrow> (Inl Panic, p)
          | Some e \<Rightarrow> RunUntilAddress T fuel (maxHigh + el_loadBias e) p)
     | None \<Rightarrow>
         mbind (unwound_return T pc) (\<lambda>ret.
           case ret of
             Some retAddr \<Rightarrow> RunUntilAddress T fuel retAddr
           | None \<Rightarrow> mbind (mget (frame_pointer_return T)) (RunUntilAddress T fuel)) p))"

section \<open>Breakpoints by function and by line\<close>

text \<open>
  One candidate address: a site that cannot be created or enabled is skipped.  The result collects
  the sites, as the pointers that \<open>CreateBreakpointSite\<close> returned.
\<close>

definition try_site ::
  "'k tenv \<Rightarrow> bool \<Rightarrow> u64 \<Rightarrow> BreakpointSite list \<Rightarrow> ('k target, BreakpointSite list) st" where
  "try_site T hardware addr created =
     mbind (mtry (CreateBreakpointSite addr hardware False)) (\<lambda>r.
       case r of
         Inl e \<Rightarrow> mret created
       | Inr site \<Rightarrow>
         mbind (mtry (on_site (Enable (kenv T)) site)) (\<lambda>r.
           case r of
             Inl e \<Rightarrow> mbind (dropSite site) (\<lambda>_. mret created)
           | Inr _ \<Rightarrow> mret (created @ [site])))"

primrec try_sites ::
  "'k tenv \<Rightarrow> bool \<Rightarrow> u64 list \<Rightarrow> BreakpointSite list \<Rightarrow> ('k target, BreakpointSite list) st" where
  "try_sites T hardware [] created = mret created"
| "try_sites T hardware (addr # addrs) created =
     mbind (try_site T hardware addr created) (try_sites T hardware addrs)"

definition range_start :: "DWARF \<Rightarrow> u64 \<times> u64 \<Rightarrow> u64" where
  "range_start dw r = (case PrologueEndForRange dw (fst r) (snd r) of Some pe \<Rightarrow> pe | None \<Rightarrow> fst r)"

definition function_addresses :: "string \<Rightarrow> ELF \<Rightarrow> u64 list" where
  "function_addresses name e =
     (case el_dwarf e of
        None \<Rightarrow> []
      | Some dw \<Rightarrow>
          concat (map (\<lambda>fn. if fn_IsInlined fn then [] else map (\<lambda>r. range_start dw r + el_loadBias e) (fn_Ranges fn))
            (FunctionsByName dw name)))"

definition symbol_addresses :: "string \<Rightarrow> ELF \<Rightarrow> u64 list" where
  "symbol_addresses name e = map (\<lambda>sy. sy_Value sy + el_loadBias e) (SymbolsByName e name)"

definition SetBreakpointAtFunction :: "'k tenv \<Rightarrow> string \<Rightarrow> bool \<Rightarrow> ('k target, BreakpointSite list) st" where
  "SetBreakpointAtFunction T name hardware p =
     (let es = elves (t_elves (tdata p)) in
      mbind (try_sites T hardware (concat (map (function_addresses name) es)) []) (\<lambda>fromDwarf.
      mbind (if fromDwarf = [] then try_sites T hardware (concat (map (symbol_addresses name) es)) []
             else mret fromDwarf) (\<lambda>created.
      if created = [] then mfail (NotFound name) else mret created)) p)"

definition skip_prologue_at :: "target_data \<Rightarrow> u64 \<Rightarrow> u64" where
  "skip_prologue_at td addr =
     (case dwarfForPC td addr of
        None \<Rightarrow> addr
      | Some dw \<Rightarrow>
        (case FunctionContainingPC dw addr of
           None \<Rightarrow> addr
         | Some fn \<Rightarrow>
           (case fn_Ranges fn of
              [] \<Rightarrow> addr
            | r # _ \<Rightarrow>
              if addr = fst r + d_loadBias dw then
                (case PrologueEndForRange dw (fst r) (snd r) of Some pe \<Rightarrow> pe + d_loadBias dw | None \<Rightarrow> addr)
              else addr)))"

definition line_entries :: "'k tenv \<Rightarrow> string \<Rightarrow> int \<Rightarrow> ELF \<Rightarrow> LineEntry list" where
  "line_entries T file line e =
     (case el_dwarf e of
        None \<Rightarrow> []
      | Some dw \<Rightarrow> GetEntriesByLine (te_keyOrder T) (by_line (te_sorters T)) dw file line)"

definition SetBreakpointAtLine :: "'k tenv \<Rightarrow> string \<Rightarrow> int \<Rightarrow> bool \<Rightarrow> ('k target, BreakpointSite list) st" where
  "SetBreakpointAtLine T file line hardware p =
     (let entries = concat (map (line_entries T file line) (elves (t_elves (tdata p)))) in
      if entries = [] then (Inl (Error (NoCode file line)), p)
      else
        mbind (try_sites T hardware (map (\<lambda>e. skip_prologue_at (tdata p) (le_Address e)) entries) []) (\<lambda>created.
        if created = [] then mfail (CannotSet file line) else mret created) p)"

section \<open>Source text\<close>

text \<open>
  \<open>PrintSource\<close> writes the lines of the file around the current one; \<open>content\<close> is what the scanner
  delivers, with the number of each line in front.
\<close>

definition source_line :: "int \<Rightarrow> nat \<Rightarrow> int \<times> string \<Rightarrow> string" where
  "source_line currentLine cols = (\<lambda>(lineNum, content).
     (if lineNum = currentLine then ''>'' else '' '') @ '' '' @
     pad_left (CHR '' '') cols (fmt_d lineNum) @ ''  '' @ content @ newline)"

definition PrintSource :: "string list \<Rightarrow> int \<Rightarrow> int \<Rightarrow> string" where
  "PrintSource content currentLine contextLines =
     (let startLine = max 1 (currentLine - contextLines);
          endLine = currentLine + contextLines;
          cols = length (fmt_d endLine)
      in concat (map (source_line currentLine cols)
           (filter (\<lambda>(lineNum, _). startLine \<le> lineNum \<and> lineNum \<le> endLine)
             (zip [1..int (length content)] content))))"

section \<open>The sites during a run\<close>

text \<open>
  The identities of the sites, in the order of the collection.  They stay put while the tracee runs,
  as long as no two sites share an address and the one-shot handler of the entry point is gone.
\<close>

definition keys :: "'k Process \<Rightarrow> site_id list" where
  "keys p = map site_key (sites (breakpointSites p))"

definition settled :: "site_id list \<Rightarrow> bool" where
  "settled l \<longleftrightarrow> distinct (map (fst \<circ> snd) l) \<and> list_all (\<lambda>(_, _, h, _). h \<noteq> Some 0) l"

definition keyed :: "site_id list \<Rightarrow> 'k Process \<Rightarrow> bool" where
  "keyed l p \<longleftrightarrow> settled l \<longrightarrow> keys p = l"

lemma keys_simps [simp]:
  "keys (p\<lparr>kernel := k\<rparr>) = keys p" "keys (upd_thread tid f p) = keys p" "keys (add_thread tid t p) = keys p"
  "keys (del_thread tid p) = keys p" "keys (p\<lparr>p_state := st\<rparr>) = keys p" "keys (p\<lparr>currentThread := c\<rparr>) = keys p"
  "keys (put_point w p) = keys p" "keys (upd_tdata g q) = keys q"
  by (simp_all add: keys_def upd_thread_def add_thread_def del_thread_def put_point_def)

lemma keyed_simps [simp]:
  "keyed l (p\<lparr>kernel := k\<rparr>) = keyed l p" "keyed l (upd_tdata g q) = keyed l q"
  by (simp_all add: keyed_def)

lemma key_address [simp]: "fst \<circ> snd \<circ> site_key = bp_address"
  by (simp add: fun_eq_iff site_key_def)

lemma keys_put_site:
  assumes "settled (keys p)" "same_site b p"
  shows "keys (put_site b p) = keys p"
proof -
  let ?xs = "sites (breakpointSites p)"
  have d: "distinct (map bp_address ?xs)"
    using assms(1) unfolding settled_def keys_def map_map key_address by blast
  have "site_key b = site_key x" if x: "x \<in> set ?xs" "bp_address x = bp_address b" for x
  proof -
    obtain c where c: "find (\<lambda>s. bp_address s = bp_address b) ?xs = Some c"
      using x by (cases "find (\<lambda>s. bp_address s = bp_address b) ?xs") (auto simp: find_None_iff)
    then have "c \<in> set ?xs \<and> bp_address c = bp_address b" using find_Some_iff_mem [OF c] by simp
    then have "c = x" using d x by (metis distinct_map inj_onD)
    then show ?thesis using assms(2) c by (simp add: same_site_def getByAddress_def)
  qed
  then show ?thesis by (auto simp: keys_def put_site_def)
qed

lemma keeps_unless [keeps_intros]: "keeps P m \<Longrightarrow> (\<And>x. keeps P (f x)) \<Longrightarrow> keeps P (unless_error m f)"
  by (simp add: unless_error_def keeps_intros)

lemma keeps_dumpVDSO [keeps_intros]: "keeps (keyed l) (dumpVDSO T addr)"
proof -
  have "keeps (keyed l) (\<lambda>p. case te_writeTemp T image (fst (kernel p)) of
         None \<Rightarrow> (Inl (Error VMReadFailed), p)
       | Some (path, k) \<Rightarrow> (Inr path, p\<lparr>kernel := (k, snd (kernel p))\<rparr>))" for image
    by (rule keeps_at) (simp split: option.split prod.split)
  then show ?thesis unfolding dumpVDSO_def by (intro keeps_intros)
qed

lemma keeps_load_library [keeps_intros]: "keeps (keyed l) (load_library T lm)"
  unfolding load_library_def Let_def by (intro keeps_intros) simp

lemma keeps_walk_links [keeps_intros]: "keeps (keyed l) (walk_links T fuel ptr)"
proof (induction fuel arbitrary: ptr)
  case 0
  show ?case by (rule keeps_at) simp
next
  case (Suc fuel)
  then show ?case unfolding walk_links.simps by (intro keeps_intros)
qed

lemma keeps_handler:
  "h \<noteq> 0 \<Longrightarrow> keeps (keyed l) (hitHandler T fuel h)"
  unfolding hitHandler_def dlDebugHit_def reloadDynamicLibraries_def by (simp add: keeps_intros)

interpretation running: process_frame "target_env T fuel" "keyed l" for T fuel l
proof unfold_locales
  fix p :: "'a target" and b h
  assume p: "keyed l p" and b: "b \<in> set (sites (breakpointSites p))" and h: "bp_onHit b = Some h"
  show "keyed l (snd (onHit (target_env T fuel) h p))"
  proof (cases "settled l")
    case True
    with p b have "bp_onHit b \<noteq> Some 0" by (auto simp: keyed_def keys_def settled_def list_all_iff site_key_def)
    with h have "h \<noteq> 0" by simp
    then show ?thesis using keeps_app [OF keeps_handler p] by (simp add: target_env_def)
  qed (simp add: keyed_def)
next
  fix p :: "'a target" and b
  assume "keyed l p" "same_site b p"
  then show "keyed l (put_site b p)" using keys_put_site [of p b] by (auto simp: keyed_def)
qed (simp_all add: keyed_def target_env_def notifyThreadLifecycle_def)

section \<open>Cleaning up\<close>

definition no_internal :: "site_id list \<Rightarrow> bool" where
  "no_internal l \<longleftrightarrow> list_all (\<lambda>(i, _). i \<noteq> - 1) l"

definition cleaned :: "site_id list \<Rightarrow> site_id list" where
  "cleaned l = snd (remove_first (\<lambda>(i, _). i = - 1) l)"

definition keys_are :: "site_id list \<Rightarrow> 'k Process \<Rightarrow> bool" where
  "keys_are l p \<longleftrightarrow> keys p = l"

lemma keys_are_keyed: "settled l \<Longrightarrow> keyed l = keys_are l"
  by (rule ext) (simp add: keyed_def keys_are_def)

lemma remove_first_map:
  "map f (snd (remove_first (\<lambda>x. Q (f x)) xs)) = snd (remove_first Q (map f xs))"
  by (induction xs) (auto split: prod.splits)

lemma triple_dropSite:
  "bp_id b = - 1 \<Longrightarrow> triple (keys_are l) (dropSite b) (keys_are (cleaned l)) R"
  using remove_first_map [of site_key "\<lambda>(i, _). i = - 1"]
  by (auto simp: triple_def dropSite_def mmodify_def keys_are_def keys_def cleaned_def removeByID_def
      site_key_def split: prod.splits) (metis snd_conv)

lemma run_with_site:
  assumes l: "settled l" and b: "bp_id site = - 1"
    and f: "\<And>r. triple (keys_are (cleaned l)) (f r) (keys_are (cleaned l)) (keys_are (cleaned l))"
  shows "triple (keys_are l)
    (mbind (or_else (on_site (Enable (target_env T fuel)) site) (dropSite site)) (\<lambda>_.
     mbind (or_else (Resume (target_env T fuel))
       (mbind (mdrop (on_site (Disable (target_env T fuel)) site)) (\<lambda>_. dropSite site))) (\<lambda>_.
     mbind (mtry (WaitOnSignal (target_env T fuel) fuel)) (\<lambda>result.
     mbind (mdrop (on_site (Disable (target_env T fuel)) site)) (\<lambda>_.
     mbind (dropSite site) (\<lambda>_. f result)))))) (keys_are (cleaned l)) (keys_are (cleaned l))"
proof -
  have run: "triple (keys_are l) (Resume (target_env T fuel)) (keys_are l) (keys_are l)"
    "triple (keys_are l) (WaitOnSignal (target_env T fuel) fuel) (keys_are l) (keys_are l)"
    "triple (keys_are l) (on_site (Enable (target_env T fuel)) site) (keys_are l) (keys_are l)"
    "triple (keys_are l) (on_site (Disable (target_env T fuel)) site) (keys_are l) (keys_are l)"
    using running.f_Resume [of l T fuel] running.f_WaitOnSignal [of l T fuel]
      running.f_sites [of l T fuel] unfolding keys_are_keyed [OF l]
    by (simp_all add: triple_keeps)
  show ?thesis
    by (rule triple_mbind [OF triple_or_else [OF run(3) triple_dropSite [OF b]]],
      rule triple_mbind [OF triple_or_else [OF run(1) triple_mbind [OF triple_mdrop [OF run(4)] triple_dropSite [OF b]]]],
      rule triple_mbind [OF triple_mtry [OF run(2)]], rule triple_mbind [OF triple_mdrop [OF run(4)]],
      rule triple_mbind [OF triple_dropSite [OF b]], rule f)
qed

lemma tripleD:
  "triple P m Q R \<Longrightarrow> P s \<Longrightarrow> m s = (r, t) \<Longrightarrow> r \<noteq> Inl Panic \<Longrightarrow> r \<noteq> Inl OutOfFuel \<Longrightarrow> Q t \<or> R t"
  unfolding triple_def by (fastforce split: sum.splits failure.splits)

lemma keys_site_push:
  "keys (p\<lparr>breakpointIDCounter := n, breakpointSites := site_push b (breakpointSites p)\<rparr>) = keys p @ [site_key b]"
  by (simp add: keys_def site_push_def)

lemma settled_push:
  "settled (keys p) \<Longrightarrow> \<not> containsAddress (breakpointSites p) addr \<Longrightarrow> settled (keys p @ [(i, addr, None, hw)])"
  by (auto simp: settled_def keys_def containsAddress_def list_ex_iff site_key_def)

lemma enabled_contains: "enabledAtAddress c addr \<noteq> None \<Longrightarrow> containsAddress c addr"
  using find_Some_iff_mem by (fastforce simp: enabledAtAddress_def containsAddress_def list_ex_iff)

lemma RunUntilAddress_keys:
  assumes s: "settled (keys p)" and new: "\<not> containsAddress (breakpointSites p) addr"
    and run: "RunUntilAddress T fuel addr p = (r, q)" and r: "r \<noteq> Inl Panic" "r \<noteq> Inl OutOfFuel"
  shows "keys q = cleaned (keys p @ [(- 1, addr, None, False)])"
proof -
  let ?l = "keys p @ [(- 1, addr, None, False)]"
  obtain site p1 where c: "CreateBreakpointSite addr False True p = (Inr site, p1)"
    and site: "site_key site = (- 1, addr, None, False)" and p1: "keys p1 = ?l"
    using new keys_site_push
    by (auto simp: CreateBreakpointSite_def nextBreakpointID_def Let_def site_key_def keys_def site_push_def)
  have b: "bp_id site = - 1" using site by (simp add: site_key_def)
  have none: "enabledAtAddress (breakpointSites p) addr = None" using enabled_contains new by blast
  define final where "final result = (case result of
          Inl e \<Rightarrow> mfail e
        | Inr reason \<Rightarrow>
          (\<lambda>q :: 'a target. case GetPC q of
             Inl Panic \<Rightarrow> (Inl Panic, q)
           | Inl _ \<Rightarrow> (Inr reason, q)
           | Inr pc \<Rightarrow>
             (Inr (if pc = addr \<and> sr_TrapReason reason = Some TrapSoftwareBreak
                   then reason\<lparr>sr_TrapReason := Some TrapSingleStep\<rparr> else reason), q)))"
    for result :: "go_error + StopReason"
  have fin: "triple (keys_are (cleaned ?l)) (final result) (keys_are (cleaned ?l)) (keys_are (cleaned ?l))" for result
    by (auto simp: triple_def mfail_def final_def split: sum.split failure.split)
  note t = run_with_site [OF settled_push [OF s new] b fin, where T = T and fuel = fuel]
  show ?thesis
    using tripleD [OF t, where s = p1 and r = r and t = q] run c none p1 r
    by (simp add: RunUntilAddress_def Let_def mbind_def [of "CreateBreakpointSite addr False True"] keys_are_def final_def)
qed

lemma cleaned_push: "no_internal l \<Longrightarrow> cleaned (l @ [(- 1, a, h, hw)]) = l"
  unfolding cleaned_def no_internal_def by (induction l) (auto split: prod.splits)

lemma RunUntilAddress_existing:
  assumes s: "settled (keys p)" and old: "containsAddress (breakpointSites p) addr"
    and run: "RunUntilAddress T fuel addr p = (r, q)"
  shows "keys q = keys p"
proof (cases "enabledAtAddress (breakpointSites p) addr")
  case None
  with run old show ?thesis by (auto simp: RunUntilAddress_def CreateBreakpointSite_def mbind_def Let_def)
next
  case (Some b)
  have "keeps (keyed (keys p)) (mbind (Resume (target_env T fuel)) (\<lambda>_. WaitOnSignal (target_env T fuel) fuel))"
    by (intro keeps_intros running.f_Resume running.f_WaitOnSignal)
  moreover have "mbind (Resume (target_env T fuel)) (\<lambda>_. WaitOnSignal (target_env T fuel) fuel) p = (r, q)"
    using run Some by (simp add: RunUntilAddress_def Let_def)
  ultimately show ?thesis using keepsD [of "keyed (keys p)" _ p r q] s by (simp add: keyed_def)
qed

text \<open>
  C16 (safety).  Running to an address leaves the user's breakpoints as they were: when no internal site
  is in the collection, the sites afterwards are the same ones, by id and address and in the same
  order, whatever made the tracee stop and whichever call failed on the way.
\<close>

theorem run_until_restores_sites:
  assumes "distinct (map bp_address (sites (breakpointSites p)))"
    and "\<And>b. b \<in> set (sites (breakpointSites p)) \<Longrightarrow> bp_onHit b \<noteq> Some 0 \<and> bp_id b \<noteq> - 1"
    and "RunUntilAddress T fuel addr p = (r, q)" "r \<noteq> Inl Panic" "r \<noteq> Inl OutOfFuel"
  shows "map (\<lambda>b. (bp_id b, bp_address b, bp_onHit b)) (sites (breakpointSites q)) =
    map (\<lambda>b. (bp_id b, bp_address b, bp_onHit b)) (sites (breakpointSites p))"
proof -
  have s: "settled (keys p)"
    using assms(1,2) unfolding settled_def keys_def map_map key_address list_all_iff
    by (auto simp: site_key_def)
  have "no_internal (keys p)" using assms(2) by (auto simp: no_internal_def keys_def site_key_def list_all_iff)
  then have "keys q = keys p"
    using RunUntilAddress_existing [OF s _ assms(3)] RunUntilAddress_keys [OF s _ assms(3-5)]
    by (cases "containsAddress (breakpointSites p) addr") (simp_all add: cleaned_push)
  then have "map (\<lambda>(i, a, h, _). (i, a, h)) (keys q) = map (\<lambda>(i, a, h, _). (i, a, h)) (keys p)" by simp
  then show ?thesis by (simp add: keys_def site_key_def comp_def)
qed

text \<open>
  Every internal site has the id -1, and the temporary site is removed by its id: when
  another internal site comes first in the collection, such as the one on the dynamic linker's
  notification function, it is that one which disappears, and the temporary site stays behind.
\<close>

theorem run_until_removes_another:
  assumes "sites (breakpointSites p) = us @ b # vs" "bp_id b = - 1" "\<And>u. u \<in> set us \<Longrightarrow> bp_id u \<noteq> - 1"
    and "distinct (map bp_address (sites (breakpointSites p)))"
    and "\<And>b. b \<in> set (sites (breakpointSites p)) \<Longrightarrow> bp_onHit b \<noteq> Some 0 \<and> bp_address b \<noteq> addr"
    and "RunUntilAddress T fuel addr p = (r, q)" "r \<noteq> Inl Panic" "r \<noteq> Inl OutOfFuel"
  shows "map (\<lambda>b. (bp_id b, bp_address b)) (sites (breakpointSites q)) =
    map (\<lambda>b. (bp_id b, bp_address b)) (us @ vs) @ [(- 1, addr)]"
proof -
  have s: "settled (keys p)"
    using assms(4,5) unfolding settled_def keys_def map_map key_address list_all_iff
    by (auto simp: site_key_def)
  have new: "\<not> containsAddress (breakpointSites p) addr"
    using assms(5) by (auto simp: containsAddress_def list_ex_iff)
  have "remove_first (\<lambda>(i, _). i = - 1) (map site_key us @ site_key b # map site_key vs @ [(- 1, addr, None, False)]) =
      (True, map site_key us @ map site_key vs @ [(- 1, addr, None, False)])"
    by (rule remove_first_found) (use assms(2,3) in \<open>auto simp: site_key_def\<close>)
  then have "keys q = map site_key us @ map site_key vs @ [(- 1, addr, None, False)]"
    unfolding RunUntilAddress_keys [OF s new assms(6-8)] by (simp add: cleaned_def keys_def assms(1))
  then have "map (\<lambda>k. (fst k, fst (snd k))) (keys q) =
      map (\<lambda>k. (fst k, fst (snd k))) (map site_key us @ map site_key vs @ [(- 1, addr, None, False)])"
    by simp
  then show ?thesis by (simp add: keys_def site_key_def comp_def)
qed

section \<open>Reaching another line\<close>

text \<open>Rounds of the loop that stop the tracee on the line it started from, or on no line.\<close>

inductive stays :: "'k tenv \<Rightarrow> nat \<Rightarrow> LineEntry \<Rightarrow> nat \<Rightarrow> 'k target \<Rightarrow> 'k target \<Rightarrow> bool"
  for T fuel startLoc where
  stays_here: "stays T fuel startLoc 0 p p"
| stays_on: "over_once T fuel p = (Inr reason, p1) \<Longrightarrow> sr_Reason reason = ProcessStopped \<Longrightarrow>
    \<not> new_line startLoc p1 \<Longrightarrow> stays T fuel startLoc n p1 q \<Longrightarrow> stays T fuel startLoc (Suc n) p q"

inductive_simps stays_zero: "stays T fuel startLoc 0 p q"
inductive_simps stays_Suc: "stays T fuel startLoc (Suc n) p q"

text \<open>The round that ends the loop.\<close>

definition leaves :: "LineEntry \<Rightarrow> StopReason \<Rightarrow> 'k target \<Rightarrow> StopReason \<Rightarrow> bool" where
  "leaves startLoc r q reason \<longleftrightarrow>
     (if sr_Reason r = ProcessStopped then new_line startLoc q \<and> reason = single_step r else reason = r)"

lemma step_over_loop_iff:
  "step_over_loop T fuel m startLoc p = (Inr reason, q) \<longleftrightarrow>
    (\<exists>n<m. \<exists>p' r. stays T fuel startLoc n p p' \<and> over_once T fuel p' = (Inr r, q) \<and> leaves startLoc r q reason)"
proof (induction m arbitrary: p)
  case (Suc m)
  show ?case
  proof (cases "over_once T fuel p")
    case (Pair res p1)
    show ?thesis
    proof (cases "\<exists>r. res = Inr r \<and> sr_Reason r = ProcessStopped \<and> \<not> new_line startLoc p1")
      case True
      then obtain r where r: "over_once T fuel p = (Inr r, p1)" "sr_Reason r = ProcessStopped" "\<not> new_line startLoc p1"
        using Pair by blast
      have "step_over_loop T fuel (Suc m) startLoc p = step_over_loop T fuel m startLoc p1"
        using r by (simp add: mbind_def)
      also have "\<dots> = (Inr reason, q) \<longleftrightarrow> (\<exists>n<m. \<exists>p' r. stays T fuel startLoc n p1 p' \<and>
          over_once T fuel p' = (Inr r, q) \<and> leaves startLoc r q reason)" by (simp add: Suc.IH)
      also have "\<dots> \<longleftrightarrow> (\<exists>n<m. \<exists>p' r. stays T fuel startLoc (Suc n) p p' \<and>
          over_once T fuel p' = (Inr r, q) \<and> leaves startLoc r q reason)"
        using r by (simp add: stays_Suc)
      also have "\<dots> \<longleftrightarrow> (\<exists>n<Suc m. \<exists>p' r. stays T fuel startLoc n p p' \<and>
          over_once T fuel p' = (Inr r, q) \<and> leaves startLoc r q reason)"
        using r by (auto simp: Ex_less_Suc2 stays_zero leaves_def)
      finally show ?thesis .
    next
      case False
      have "stays T fuel startLoc n p p' \<longleftrightarrow> n = 0 \<and> p' = p" for n p'
        using False Pair by (auto intro: stays_here elim: stays.cases)
      with Pair False show ?thesis
        by (cases res) (auto simp: mbind_def leaves_def)
    qed
  qed
qed simp


text \<open>
  C18 (functional).  When a step over returns with the tracee stopped, the tracee is on another line
  than the one it started from, a real one and not an end marker, and until the last round it had
  not been on such a line.
\<close>

theorem step_over_stops_on_new_line:
  assumes "sourceLocationAtPC p = Some startLoc" "StepOver T fuel p = (Inr reason, q)"
    and "sr_Reason reason = ProcessStopped"
  shows "new_line startLoc q \<and> sr_TrapReason reason = Some TrapSingleStep \<and>
    (\<exists>n < fuel. \<exists>p' r. stays T fuel startLoc n p p' \<and> over_once T fuel p' = (Inr r, q))"
proof -
  have "dwarfAtPC p \<noteq> None" using assms(1) by (auto simp: sourceLocationAtPC_def split: option.splits)
  then have "step_over_loop T fuel fuel startLoc p = (Inr reason, q)"
    using assms(1,2) by (auto simp: StepOver_def split: option.splits)
  then obtain n p' r where *: "n < fuel" "stays T fuel startLoc n p p'" "over_once T fuel p' = (Inr r, q)"
    "leaves startLoc r q reason" unfolding step_over_loop_iff by blast
  moreover have "sr_Reason r = ProcessStopped" using *(4) assms(3) by (auto simp: leaves_def split: if_splits)
  ultimately show ?thesis by (auto simp: leaves_def single_step_def)
qed

text \<open>A tracee whose kernel state is its program counter, which every step moves by one.\<close>

definition walk_gprs :: "u64 \<Rightarrow> u8 list" where
  "walk_gprs pc = replicate 128 0 @ le_bytes 8 pc @ replicate 80 0"

definition walk_env :: "u64 env" where
  "walk_env = \<lparr>user = \<lparr>peekUser = (\<lambda>tid off k. Some 0), pokeUser = (\<lambda>tid off w k. Some k),
       getRegs = (\<lambda>tid k. Some (walk_gprs k)), setRegs = (\<lambda>tid bs k. Some k),
       getFPRegs = (\<lambda>tid k. Some (replicate 512 0)), setFPRegs = (\<lambda>tid bs k. Some k)\<rparr>,
     memory = \<lparr>peekData = (\<lambda>pid a k. Some 0), pokeData = (\<lambda>pid a w k. Some k),
       vmReadv = (\<lambda>pid iov k. Some (concat (map (\<lambda>(a, n). replicate (unat n) 0) iov)))\<rparr>,
     sys_cont = (\<lambda>tid k. Some k), sys_singleStep = (\<lambda>tid k. Some (k + 1)), sys_syscall = (\<lambda>tid k. Some k),
     sys_setOptions = (\<lambda>tid opts k. Some k), sys_getSigInfo = (\<lambda>tid k. Some 2),
     sys_wait4 = (\<lambda>tid opts k. Some ((if tid = - 1 then 1 else tid, 0x57F), k)),
     sys_tgkill = (\<lambda>pid tid sig k. Some k), sys_kill = (\<lambda>pid sig k. Some k), sys_detach = (\<lambda>tid k. Some k),
     sys_seize = (\<lambda>tid k. Some k), sys_interrupt = (\<lambda>tid k. Some k),
     sys_start = (\<lambda>debug k. Some (1, k)), sys_taskDir = (\<lambda>pid k. Some [''1'']), rangeOrder = (\<lambda>xs. xs),
     onHit = (\<lambda>h. mret False), onLifecycle = (\<lambda>r p. p)\<rparr>"

definition walk_tenv :: "u64 tenv" where
  "walk_tenv = \<lparr>te_env = walk_env, te_sorters = std_sorters, te_elfOpen = (\<lambda>k. sample_open),
     te_auxv = (\<lambda>k pid. None), te_readlink = (\<lambda>k pid. Some ''/bin/demo''), te_writeTemp = (\<lambda>bs k. None),
     te_decode = (\<lambda>bs. Some (False, 1)), te_ruleOrder = (\<lambda>rs. []), te_keyOrder = (\<lambda>m. []),
     te_type = (\<lambda>path off. Inl (Error UnknownType)), te_ref = (\<lambda>r. OtherType VoidKind 0),
     te_parseFloat = (\<lambda>s. None), te_fuel = 10\<rparr>"

definition walk_target :: "u64 target" where
  "walk_target = \<lparr>p_pid = 1, terminateOnEnd = True, isAttached = True, p_state = ProcessStopped,
     threads = [(1, (flat_thread 1)\<lparr>ts_Regs := zero_regs\<lparr>g_pid := 1, gprs := walk_gprs 0x17\<rparr>\<rparr>)], currentThread = 1,
     breakpointSites = \<lparr>sites = []\<rparr>, watchpoints = \<lparr>points = []\<rparr>, syscallCatchPolicy = CatchNoSyscalls,
     kernel = (0x17, \<lparr>t_elves = \<lparr>elves = [plain_elf\<lparr>el_dwarf := Some sample_index\<rparr>]\<rparr>, t_mainELF = Some 0,
                     t_rendezvousAddr = 0, t_entryAddr = 0, t_exprResults = []\<rparr>),
     breakpointIDCounter = 0, watchpointIDCounter = 0, osThreadLocks = 1\<rparr>"

lemma walk_start: "map_option le_Line (sourceLocationAtPC walk_target) = Some 3"
  by code_simp

lemma walk_over:
  "(case fst (StepOver walk_tenv 3 walk_target) of Inl _ \<Rightarrow> None | Inr r \<Rightarrow> Some (sr_Reason r)) = Some ProcessStopped"
  by code_simp

lemma walk_runs:
  obtains startLoc reason q where "sourceLocationAtPC walk_target = Some startLoc"
    "StepOver walk_tenv 3 walk_target = (Inr reason, q)" "sr_Reason reason = ProcessStopped"
proof -
  obtain startLoc where s: "sourceLocationAtPC walk_target = Some startLoc" using walk_start by auto
  obtain res q where o: "StepOver walk_tenv 3 walk_target = (res, q)" by fastforce
  then obtain reason where "res = Inr reason" "sr_Reason reason = ProcessStopped"
    using walk_over by (cases res) auto
  then show thesis using that s o by blast
qed

theorem step_over_stops_on_new_line_witness:
  "\<exists>startLoc reason q. sourceLocationAtPC walk_target = Some startLoc \<and>
     StepOver walk_tenv 3 walk_target = (Inr reason, q) \<and> new_line startLoc q"
  using walk_runs step_over_stops_on_new_line by metis


definition walk_with :: "i32 \<Rightarrow> u64 target" where
  "walk_with i = walk_target\<lparr>breakpointSites := \<lparr>sites = [\<lparr>bp_id = i, bp_pid = 1, bp_address = 0x20, bp_isEnabled = True,
     bp_savedData = 0, bp_isHardware = False, bp_isInternal = (i = - 1), bp_hardwareRegisterIndex = - 1,
     bp_onHit = None\<rparr>]\<rparr>\<rparr>"

lemma walk_with_site:
  "sites (breakpointSites (walk_with i)) = [\<lparr>bp_id = i, bp_pid = 1, bp_address = 0x20, bp_isEnabled = True,
     bp_savedData = 0, bp_isHardware = False, bp_isInternal = (i = - 1), bp_hardwareRegisterIndex = - 1,
     bp_onHit = None\<rparr>]"
  by (simp add: walk_with_def)

lemma walk_until:
  "\<not> isl (fst (RunUntilAddress walk_tenv 3 0x18 (walk_with 1)))"
  "\<not> isl (fst (RunUntilAddress walk_tenv 3 0x18 (walk_with (- 1))))"
  by code_simp+

theorem run_until_restores_sites_witness:
  "map (\<lambda>b. (bp_id b, bp_address b, bp_onHit b))
     (sites (breakpointSites (snd (RunUntilAddress walk_tenv 3 0x18 (walk_with 1))))) = [(1, 0x20, None)]"
proof -
  obtain r q where run: "RunUntilAddress walk_tenv 3 0x18 (walk_with 1) = (r, q)" by fastforce
  then have "r \<noteq> Inl Panic" "r \<noteq> Inl OutOfFuel" using walk_until(1) by auto
  from run_until_restores_sites [OF _ _ run this] run show ?thesis by (simp add: walk_with_site)
qed

theorem run_until_removes_another_witness:
  "map (\<lambda>b. (bp_id b, bp_address b))
     (sites (breakpointSites (snd (RunUntilAddress walk_tenv 3 0x18 (walk_with (- 1)))))) = [(- 1, 0x18)]"
proof -
  obtain r q where run: "RunUntilAddress walk_tenv 3 0x18 (walk_with (- 1)) = (r, q)" by fastforce
  then have r: "r \<noteq> Inl Panic" "r \<noteq> Inl OutOfFuel" using walk_until(2) by auto
  from run_until_removes_another [OF _ _ _ _ _ run r, of "[]" _ "[]"] run show ?thesis
    by (simp add: walk_with_site)
qed

end
