(* ===== verification/Disassembler.thy ===== *)
theory Disassembler
  imports Breakpoints Formatting
begin

text \<open>
  \<open>src/debugger/disassembler.go\<close>: the loop that decodes instructions from the tracee's memory with the
  breakpoints taken out.  The decoder, \<open>x86asm\<close>, is a package of its own and a parameter here.
  \<open>NewDisassembler\<close> only pairs the process with the methods; its process is the argument \<open>p\<close>.
\<close>

section \<open>The decoder\<close>

record Instruction =
  in_Address :: u64
  in_Text :: string

record 'i x86asm =
  Decode :: "u8 list \<Rightarrow> 'i option"
  inst_Len :: "'i \<Rightarrow> nat"
  GNUSyntax :: "'i \<Rightarrow> u64 \<Rightarrow> string"

text \<open>An instruction that \<open>Decode\<close> finds has between 1 and 15 bytes, all of them in its argument.\<close>

definition decoder_laws :: "'i x86asm \<Rightarrow> bool" where
  "decoder_laws X \<longleftrightarrow> (\<forall>bs i. Decode X bs = Some i \<longrightarrow> 0 < inst_Len X i \<and> inst_Len X i \<le> 15 \<and> inst_Len X i \<le> length bs)"

section \<open>The loop\<close>

text \<open>\<open>n\<close> is the number of rounds left, \<open>nInstructions - i\<close>.\<close>

fun disassemble_loop :: "'i x86asm \<Rightarrow> u64 \<Rightarrow> u8 list \<Rightarrow> nat \<Rightarrow> nat \<Rightarrow> Instruction list" where
  "disassemble_loop X startAddr data offset 0 = []"
| "disassemble_loop X startAddr data offset (Suc n) =
     (if offset < length data then
        (case Decode X (drop offset data) of
           None \<Rightarrow> \<lparr>in_Address = startAddr + of_nat offset, in_Text = ''.byte '' @ fmt_0x 2 (unat (data ! offset))\<rparr>
                     # disassemble_loop X startAddr data (offset + 1) n
         | Some inst \<Rightarrow> \<lparr>in_Address = startAddr + of_nat offset, in_Text = GNUSyntax X inst (startAddr + of_nat offset)\<rparr>
                     # disassemble_loop X startAddr data (offset + inst_Len X inst) n)
      else [])"

text \<open>\<open>addr\<close> is \<open>None\<close> for a nil pointer; the message around a failed read is not kept.\<close>

definition Disassemble :: "'i x86asm \<Rightarrow> 'k env \<Rightarrow> int \<Rightarrow> u64 option \<Rightarrow> 'k Process \<Rightarrow> Instruction list res" where
  "Disassemble X E nInstructions addr p =
     rbind (case addr of Some a \<Rightarrow> Inr a | None \<Rightarrow> GetPC p) (\<lambda>startAddr.
     rbind (ReadMemoryWithoutTraps E startAddr (wrap64 (nInstructions * 15)) p) (\<lambda>data.
       Inr (disassemble_loop X startAddr data 0 (nat nInstructions))))"

section \<open>Listings\<close>

text \<open>
  What a listing shows: a chunk of bytes is rendered as the instruction that the decoder finds at
  its start, or as one raw byte.
\<close>

definition shown_at :: "'i x86asm \<Rightarrow> u64 \<Rightarrow> u8 list \<Rightarrow> nat \<times> string" where
  "shown_at X a bs = (case Decode X bs of
       None \<Rightarrow> (1, ''.byte '' @ fmt_0x 2 (unat (hd bs)))
     | Some inst \<Rightarrow> (inst_Len X inst, GNUSyntax X inst a))"

fun listing :: "'i x86asm \<Rightarrow> u64 \<Rightarrow> u8 list list \<Rightarrow> u8 list \<Rightarrow> Instruction list \<Rightarrow> bool" where
  "listing X a [] rest [] \<longleftrightarrow> True"
| "listing X a (c # cs) rest (i # is) \<longleftrightarrow>
     in_Address i = a \<and> shown_at X a (c @ concat cs @ rest) = (length c, in_Text i) \<and> listing X (a + of_nat (length c)) cs rest is"
| "listing X a _ rest _ \<longleftrightarrow> False"

lemma render_length:
  assumes "decoder_laws X" "bs \<noteq> []"
  shows "0 < fst (shown_at X a bs) \<and> fst (shown_at X a bs) \<le> 15 \<and> fst (shown_at X a bs) \<le> length bs"
  using assms by (cases bs) (auto simp: shown_at_def decoder_laws_def split: option.splits dest: spec [of _ bs])

lemma loop_step:
  assumes "offset < length data" "shown_at X (a + of_nat offset) (drop offset data) = (l, t)"
  shows "disassemble_loop X a data offset (Suc n) =
    \<lparr>in_Address = a + of_nat offset, in_Text = t\<rparr> # disassemble_loop X a data (offset + l) n"
  using assms by (auto simp: shown_at_def hd_drop_conv_nth split: option.splits)

lemma loop_listing:
  assumes "decoder_laws X"
  shows "\<exists>chunks rest. drop offset data = concat chunks @ rest
    \<and> listing X (a + of_nat offset) chunks rest (disassemble_loop X a data offset n)
    \<and> length chunks \<le> n \<and> (length chunks < n \<longrightarrow> rest = []) \<and> (\<forall>c\<in>set chunks. 0 < length c \<and> length c \<le> 15)"
proof (induction n arbitrary: offset)
  case 0
  show ?case by (rule exI [of _ "[]"]) simp
next
  case (Suc n)
  show ?case
  proof (cases "offset < length data")
    case True
    let ?bs = "drop offset data"
    obtain l t where r: "shown_at X (a + of_nat offset) ?bs = (l, t)" by fastforce
    have l: "0 < l" "l \<le> 15" "l \<le> length ?bs"
      using render_length [OF assms, of ?bs "a + of_nat offset"] True r by auto
    obtain chunks rest where c: "drop (offset + l) data = concat chunks @ rest"
      "listing X (a + of_nat (offset + l)) chunks rest (disassemble_loop X a data (offset + l) n)"
      "length chunks \<le> n" "length chunks < n \<longrightarrow> rest = []" "\<forall>c\<in>set chunks. 0 < length c \<and> length c \<le> 15"
      using Suc.IH [of "offset + l"] by blast
    have bs: "?bs = take l ?bs @ concat chunks @ rest"
      using c(1) by (metis add.commute append_take_drop_id drop_drop)
    have len: "length (take l ?bs) = l" using l(3) by simp
    have "listing X (a + of_nat offset) (take l ?bs # chunks) rest (disassemble_loop X a data offset (Suc n))"
      unfolding loop_step [OF True r] using r c(2) len bs by (simp add: add.assoc del: disassemble_loop.simps)
    then show ?thesis
      using c(3-5) l len bs by (intro exI [of _ "take l ?bs # chunks"] exI [of _ rest]) auto
  next
    case False
    then show ?thesis by (intro exI [of _ "[]"]) simp
  qed
qed

lemma few_chunks:
  assumes "\<forall>c\<in>set chunks. length c \<le> 15"
  shows "length (concat chunks) \<le> 15 * length chunks"
  using assms by (induction chunks) auto

lemma listing_length: "listing X a cs rest is \<Longrightarrow> length is = length cs"
  by (induction X a cs rest "is" rule: listing.induct) auto


text \<open>A decoder of a made-up instruction set: the low two bits give the number of operand bytes.\<close>

definition toy_decoder :: "nat x86asm" where
  "toy_decoder =
     \<lparr>Decode = (\<lambda>bs. if bs \<noteq> [] \<and> unat (hd bs) mod 4 < length bs \<and> unat (hd bs) < 200 then Some (unat (hd bs)) else None),
      inst_Len = (\<lambda>b. b mod 4 + 1), GNUSyntax = (\<lambda>b a. ''op'' @ digits 10 b)\<rparr>"

lemma toy_decoder_laws: "decoder_laws toy_decoder"
  by (auto simp: decoder_laws_def toy_decoder_def split: if_splits)

lemma demo_read_pair:
  "ReadMemory (memory flat_env) (p_pid demo_enabled) 0x401008 30 (kernel demo_enabled) =
     Inr (bytes_at (kernel demo_enabled) 0x401008 30)"
proof -
  have "list_all (\<lambda>(a, len). one_page a) (remoteIov 0x401008 (word_of_int 30))" by code_simp
  then show ?thesis using flat_read [of 30 one_page "0x401008"] by simp
qed


end
