(* ===== verification/Console.thy ===== *)
theory Console
  imports Expressions Stepping Syscalls Disassembler
begin

text \<open>
  The commands of the debugger's prompt that work on the process, \<open>src/cmd/toydbg/main.go\<close>: breakpoints,
  watchpoints, caught system calls, registers, memory, disassembly and threads.  A handler changes the
  target and returns what it prints, piece by piece.
\<close>

section \<open>Output and text\<close>

text \<open>
  Text for standard output, text for standard error, and a line for standard error that ends with the
  message of an error, \<open>toydbg: ...: %v\<close>.
\<close>

datatype printed = Out string | Err string | Failed string go_error

text \<open>
  What the commands use beside the target: the texts of floating-point numbers, \<open>strconv.Quote\<close>, the
  order of the range over the system call table, \<open>unix.SignalName\<close> and \<open>x86asm\<close> (packages of their own),
  and the files of source text, by name, with the lines that a scanner reads.
\<close>

record ('k, 'i) cli =
  cl_target :: "'k tenv"
  cl_fuel :: nat
  cl_float :: "u64 \<Rightarrow> string"
  cl_float32 :: "u32 \<Rightarrow> string"
  cl_float64 :: "u64 \<Rightarrow> string"
  cl_quote :: "u8 list \<Rightarrow> string"
  cl_order :: "(int \<times> string) list"
  cl_signalName :: "u8 \<Rightarrow> string"
  cl_stat :: "string \<Rightarrow> bool"
  cl_open :: "string \<Rightarrow> string list option"
  cl_x86asm :: "'i x86asm"

type_synonym 'k handler = "('k target, printed list) st"

definition cl_env :: "('k, 'i) cli \<Rightarrow> ('k \<times> target_data) env" where
  "cl_env C = target_env (cl_target C) (cl_fuel C)"

definition println :: "string \<Rightarrow> printed" where
  "println s = Out (s @ newline)"

definition prints :: "string list \<Rightarrow> 'k handler" where
  "prints ls = mret (map println ls)"

definition complain :: "string \<Rightarrow> 'k handler" where
  "complain s = mret [Err (''toydbg: '' @ s @ newline)]"

definition fails :: "string \<Rightarrow> go_error \<Rightarrow> 'k handler" where
  "fails s e = mret [Failed (''toydbg: '' @ s) e]"

text \<open>A call whose error ends the command with a message.\<close>

definition attempt :: "string \<Rightarrow> ('k target, 'a) st \<Rightarrow> ('a \<Rightarrow> 'k handler) \<Rightarrow> 'k handler" where
  "attempt s m f = mbind (mtry m) (\<lambda>r. case r of Inl e \<Rightarrow> fails s e | Inr x \<Rightarrow> f x)"

text \<open>\<open>%q\<close>, \<open>%-12s\<close>, and the functions of \<open>strings\<close> and \<open>strconv\<close>, on ASCII text.\<close>

definition quote_char :: "char \<Rightarrow> string" where
  "quote_char c =
     (if c = CHR 0x22 \<or> c = CHR 0x5C then [CHR 0x5C, c]
      else if 32 \<le> code c \<and> code c < 127 then [c]
      else if code c \<in> {7, 8, 9, 10, 11, 12, 13} then [CHR 0x5C, ''abtnvfr'' ! (code c - 7)]
      else CHR 0x5C # CHR ''x'' # pad_left (CHR ''0'') 2 (digits 16 (code c)))"

definition fmt_q :: "string \<Rightarrow> string" where
  "fmt_q s = CHR 0x22 # concat (map quote_char s) @ [CHR 0x22]"

definition pad_right :: "nat \<Rightarrow> string \<Rightarrow> string" where
  "pad_right w s = s @ replicate (w - length s) (CHR '' '')"

definition TrimPrefix :: "string \<Rightarrow> string \<Rightarrow> string" where
  "TrimPrefix s p = (if HasPrefix s p then drop (length p) s else s)"

definition TrimSuffix :: "string \<Rightarrow> string \<Rightarrow> string" where
  "TrimSuffix s p = (if HasPrefix (rev s) (rev p) then take (length s - length p) s else s)"

definition Fields :: "string \<Rightarrow> string list" where
  "Fields s = filter (\<lambda>w. w \<noteq> []) (splits (CHR '' '') (map (\<lambda>c. if is_space c then CHR '' '' else c) s))"

text \<open>\<open>ParseUint\<close> with base 16, which takes no prefix and no underscores, and \<open>ParseInt\<close> with base 10 and 32 bits.\<close>

definition ParseHex :: "string \<Rightarrow> nat \<Rightarrow> nat option" where
  "ParseHex s bitSize = (if s = [] \<or> CHR ''_'' \<in> set s then None else parse_digits 16 (2 ^ bitSize - 1) s 0)"

definition ParseInt32 :: "string \<Rightarrow> int option" where
  "ParseInt32 s = Option.bind (Atoi s) (\<lambda>v. if - (2 ^ 31) \<le> v \<and> v < 2 ^ 31 then Some v else None)"

text \<open>An address in hexadecimal, with or without \<open>0x\<close>.\<close>

definition with_address :: "string \<Rightarrow> (u64 \<Rightarrow> 'k handler) \<Rightarrow> 'k handler" where
  "with_address s f =
     (case ParseHex (TrimPrefix s ''0x'') 64 of
        None \<Rightarrow> fails (''invalid address '' @ fmt_q s) (BadInteger s)
      | Some a \<Rightarrow> f (of_nat a))"

text \<open>The subcommands that take the id of a stop point.\<close>

definition with_id :: "string \<Rightarrow> string \<Rightarrow> string list \<Rightarrow> (int \<Rightarrow> 'k handler) \<Rightarrow> 'k handler" where
  "with_id kind verb args f =
     (case args of
        [] \<Rightarrow> prints [''usage: '' @ kind @ '' '' @ verb @ '' <id>'']
      | w # _ \<Rightarrow>
          (case ParseInt32 w of
             None \<Rightarrow> fails (''invalid ID '' @ fmt_q w) (BadInteger w)
           | Some i \<Rightarrow> f i))"

definition done_with :: "string \<Rightarrow> int \<Rightarrow> string \<Rightarrow> 'k handler" where
  "done_with kind i what = prints [kind @ '' '' @ fmt_d i @ '' '' @ what]"

definition not_found :: "string \<Rightarrow> int \<Rightarrow> 'k handler" where
  "not_found kind i = complain (kind @ '' '' @ fmt_d i @ '' not found'')"

definition unknown_sub :: "string \<Rightarrow> string \<Rightarrow> 'k handler" where
  "unknown_sub kind w = prints [''unknown '' @ kind @ '' subcommand: '' @ fmt_q w]"

section \<open>Help\<close>

definition help_topic :: "string \<Rightarrow> string list" where
  "help_topic topic =
     (if topic \<in> {''register'', ''reg''} then
       [''register subcommands:'',
        ''  register read             - read all GPRs'',
        ''  register read all          - read all registers'',
        ''  register read <name>       - read a single register'',
        ''  register write <name> <value> - write a register'']
      else if topic \<in> {''breakpoint'', ''break''} then
       [''breakpoint subcommands:'',
        ''  breakpoint set <hex-addr>         - set breakpoint at address'',
        ''  breakpoint set <function>         - set breakpoint at function'',
        ''  breakpoint set <file>:<line>      - set breakpoint at source line'',
        ''  breakpoint set -h <location>      - set a hardware breakpoint'',
        ''  breakpoint list                   - list all breakpoints'',
        ''  breakpoint enable <id>            - enable a breakpoint'',
        ''  breakpoint disable <id>           - disable a breakpoint'',
        ''  breakpoint delete <id>            - delete a breakpoint'']
      else if topic \<in> {''watchpoint'', ''watch''} then
       [''watchpoint subcommands:'',
        ''  watchpoint set <hex-addr> <mode> <size>  - set a watchpoint'',
        ''    modes: write, rw (read-write)'',
        ''    sizes: 1, 2, 4, 8'',
        ''  watchpoint list                          - list all watchpoints'',
        ''  watchpoint enable <id>                   - enable a watchpoint'',
        ''  watchpoint disable <id>                  - disable a watchpoint'',
        ''  watchpoint delete <id>                   - delete a watchpoint'']
      else if topic \<in> {''memory'', ''mem''} then
       [''memory subcommands:'',
        ''  memory read <address>       - read 32 bytes at address'',
        ''  memory read <address> <n>   - read n bytes at address'',
        ''  memory write <address> [0xff,0x01,...] - write bytes at address'']
      else if topic \<in> {''disassemble'', ''disas''} then
       [''disassemble options:'',
        ''  disassemble                - disassemble 5 instructions at PC'',
        ''  disassemble -c <n>         - disassemble n instructions at PC'',
        ''  disassemble -a <address>   - disassemble 5 instructions at address'',
        ''  disassemble -c <n> -a <address> - disassemble n instructions at address'']
      else if topic \<in> {''catchpoint'', ''catch''} then
       [''catchpoint subcommands:'',
        ''  catchpoint syscall              - catch all syscalls'',
        ''  catchpoint syscall none         - stop catching syscalls'',
        ''  catchpoint syscall <list>       - catch specific syscalls (by name or number)'',
        ''  example: catchpoint syscall write,read,42'']
      else if topic \<in> {''variable'', ''var''} then
       [''variable subcommands:'',
        ''  variable read <name>            - read a variable (supports name.field, ptr->field, arr[i])'',
        ''  variable locals                 - print all local variables in scope'',
        ''  variable location <name>        - print where a variable lives (register/address)'']
      else if topic \<in> {''expression'', ''expr''} then
       [''expression evaluates a function call in the running process.'',
        ''  expression <func>(<args...>)    - call a function and display the return value'',
        ''  examples:'',
        ''    expr get_value(42)'',
        ''    expr format_name('' @ [CHR 0x22] @ ''test'' @ [CHR 0x22] @ '')'',
        ''    expr compute(3.14)'',
        ''    expr process(my_var)'',
        ''    expr transform($0)            - pass a previous expression result'']
      else [])"

definition commands_line :: string where
  "commands_line =
     ''commands: continue (c), step (s), next (n), finish (fin), stepi (si), list (l), '' @
     ''backtrace (bt), breakpoint (break), watchpoint (watch), register (reg), '' @
     ''memory (mem), disassemble (disas), catchpoint (catch), variable (var), '' @
     ''expression (expr), thread (t), quit (q), help (h)''"

definition handleHelp :: "string list \<Rightarrow> 'k handler" where
  "handleHelp args =
     (case args of
        [] \<Rightarrow> prints [commands_line]
      | topic # _ \<Rightarrow> prints (if help_topic topic = [] then [commands_line] else help_topic topic))"

section \<open>Breakpoints\<close>

definition site_line :: "string \<Rightarrow> BreakpointSite \<Rightarrow> string" where
  "site_line rest s = ''breakpoint '' @ fmt_d (sint (bp_id s)) @ '' set at '' @ fmt_x (unat (bp_address s)) @ rest"

definition break_at :: "('k, 'i) cli \<Rightarrow> bool \<Rightarrow> string \<Rightarrow> 'k handler" where
  "break_at C hardware location =
     (if HasPrefix location ''0x'' then
        with_address location (\<lambda>addr.
          attempt '''' (CreateBreakpointSite addr hardware False) (\<lambda>site.
          attempt '''' (on_site (Enable (cl_env C)) site) (\<lambda>_.
            prints [(if hardware then ''hardware '' else ''software '') @ site_line '''' site])))
      else if CHR '':'' \<in> set location then
        (let file = takeWhile (\<lambda>c. c \<noteq> CHR '':'') location; line = tl (dropWhile (\<lambda>c. c \<noteq> CHR '':'') location) in
         case Atoi line of
           None \<Rightarrow> fails (''invalid line number '' @ fmt_q line) (BadInteger line)
         | Some n \<Rightarrow>
             attempt '''' (SetBreakpointAtLine (cl_target C) file n hardware) (\<lambda>created.
               prints (map (site_line ('' ('' @ file @ '':'' @ fmt_d n @ '')'')) created)))
      else
        attempt '''' (SetBreakpointAtFunction (cl_target C) location hardware) (\<lambda>created.
          prints (map (site_line ('' (function '' @ location @ '')'')) created)))"

definition break_set :: "('k, 'i) cli \<Rightarrow> string list \<Rightarrow> 'k handler" where
  "break_set C args =
     (let hardware = (args \<noteq> [] \<and> hd args = ''-h'') in
      case (if hardware then tl args else args) of
        [] \<Rightarrow> prints [''usage: breakpoint set [-h] <addr|func|file:line>'']
      | location # _ \<Rightarrow> break_at C hardware location)"

definition break_list :: "'k target \<Rightarrow> string list" where
  "break_list p =
     (if BreakpointSites p = [] then [''no breakpoints'']
      else map (\<lambda>s. ''  '' @ fmt_d (sint (bp_id s)) @ '': '' @ fmt_x (unat (bp_address s)) @ '' ['' @
             (if bp_isHardware s then ''hw'' else ''sw'') @ ''] ('' @ (if bp_isEnabled s then ''enabled'' else ''disabled'') @ '')'')
           (BreakpointSites p))"

text \<open>Enabling and disabling by id.\<close>

definition break_switch ::
  "(BreakpointSite \<Rightarrow> 'k target \<Rightarrow> unit res \<times> BreakpointSite \<times> 'k target) \<Rightarrow> string \<Rightarrow> int \<Rightarrow> 'k handler" where
  "break_switch f what i p =
     (case BreakpointSiteByID p (word_of_int i) of
        None \<Rightarrow> not_found ''breakpoint'' i p
      | Some site \<Rightarrow> attempt '''' (on_site f site) (\<lambda>_. done_with ''breakpoint'' i what) p)"

definition handleBreakpoint :: "('k, 'i) cli \<Rightarrow> string list \<Rightarrow> 'k handler" where
  "handleBreakpoint C args =
     (case args of
        [] \<Rightarrow> prints [''usage: breakpoint <set|list|enable|disable|delete> [args...]'', ''  type 'help breakpoint' for details'']
      | sub # rest \<Rightarrow>
          if sub = ''set'' then break_set C rest
          else if sub = ''list'' then (\<lambda>p. prints (break_list p) p)
          else if sub = ''enable'' then with_id ''breakpoint'' sub rest (break_switch (Enable (cl_env C)) ''enabled'')
          else if sub = ''disable'' then with_id ''breakpoint'' sub rest (break_switch (Disable (cl_env C)) ''disabled'')
          else if sub = ''delete'' then
            with_id ''breakpoint'' sub rest (\<lambda>i.
              attempt '''' (RemoveBreakpointSite (cl_env C) (word_of_int i)) (\<lambda>_. done_with ''breakpoint'' i ''deleted''))
          else unknown_sub ''breakpoint'' sub)"

section \<open>Watchpoints\<close>

definition watch_mode :: "string \<Rightarrow> StoppointMode option" where
  "watch_mode w =
     (if w \<in> {''write'', ''w''} then Some StoppointModeWrite
      else if w \<in> {''rw'', ''readwrite''} then Some StoppointModeReadWrite
      else None)"

definition watch_set :: "('k, 'i) cli \<Rightarrow> string list \<Rightarrow> 'k handler" where
  "watch_set C args =
     (case args of
        addr # mode # sz # _ \<Rightarrow>
          with_address addr (\<lambda>a.
          case watch_mode mode of
            None \<Rightarrow> complain (''invalid mode '' @ fmt_q mode @ '' (use 'write' or 'rw')'')
          | Some m \<Rightarrow>
            (case Atoi sz of
               Some n \<Rightarrow>
                 if n \<in> {1, 2, 4, 8} then
                   attempt '''' (CreateWatchpoint (cl_env C) a m n) (\<lambda>wp.
                     prints [''watchpoint '' @ fmt_d (sint (wp_id wp)) @ '' set at '' @ fmt_x (unat (wp_address wp)) @
                       '' (mode='' @ mode @ '', size='' @ fmt_d (wp_size wp) @ '')''])
                 else complain (''invalid size '' @ fmt_q sz @ '' (must be 1, 2, 4, or 8)'')
             | None \<Rightarrow> complain (''invalid size '' @ fmt_q sz @ '' (must be 1, 2, 4, or 8)'')))
      | _ \<Rightarrow> prints [''usage: watchpoint set <hex-addr> <write|rw> <1|2|4|8>''])"

definition watch_list :: "'k target \<Rightarrow> string list" where
  "watch_list p =
     (if points (watchpoints p) = [] then [''no watchpoints'']
      else map (\<lambda>w. ''  '' @ fmt_d (sint (wp_id w)) @ '': '' @ fmt_x (unat (wp_address w)) @ '' (mode='' @
             (if wp_mode w = StoppointModeReadWrite then ''rw'' else ''write'') @ '', size='' @ fmt_d (wp_size w) @ '', '' @
             (if wp_isEnabled w then ''enabled'' else ''disabled'') @ '')'')
           (points (watchpoints p)))"

definition watch_switch ::
  "(Watchpoint \<Rightarrow> 'k target \<Rightarrow> unit res \<times> Watchpoint \<times> 'k target) \<Rightarrow> string \<Rightarrow> int \<Rightarrow> 'k handler" where
  "watch_switch f what i p =
     (case WatchpointByID p (word_of_int i) of
        None \<Rightarrow> not_found ''watchpoint'' i p
      | Some wp \<Rightarrow>
          attempt '''' (\<lambda>p. let (r, wp', q) = f wp p in (r, put_point wp' q)) (\<lambda>_. done_with ''watchpoint'' i what) p)"

definition handleWatchpoint :: "('k, 'i) cli \<Rightarrow> string list \<Rightarrow> 'k handler" where
  "handleWatchpoint C args =
     (case args of
        [] \<Rightarrow> prints [''usage: watchpoint <set|list|enable|disable|delete> [args...]'', ''  type 'help watchpoint' for details'']
      | sub # rest \<Rightarrow>
          if sub = ''set'' then watch_set C rest
          else if sub = ''list'' then (\<lambda>p. prints (watch_list p) p)
          else if sub = ''enable'' then with_id ''watchpoint'' sub rest (watch_switch (wp_Enable (cl_env C)) ''enabled'')
          else if sub = ''disable'' then with_id ''watchpoint'' sub rest (watch_switch (wp_Disable (cl_env C)) ''disabled'')
          else if sub = ''delete'' then
            with_id ''watchpoint'' sub rest (\<lambda>i.
              attempt '''' (RemoveWatchpoint (cl_env C) (word_of_int i)) (\<lambda>_. done_with ''watchpoint'' i ''deleted''))
          else unknown_sub ''watchpoint'' sub)"

section \<open>Caught system calls\<close>

text \<open>The names and numbers of the list, up to the first word that is neither.\<close>

fun parse_calls :: "(int \<times> string) list \<Rightarrow> string list \<Rightarrow> string + int list" where
  "parse_calls order [] = Inr []"
| "parse_calls order (w # ws) =
     (let s = TrimSpace w; rest = parse_calls order ws in
      if s = [] then rest
      else case Atoi s of
        Some i \<Rightarrow> (case rest of Inl u \<Rightarrow> Inl u | Inr ids \<Rightarrow> Inr (i # ids))
      | None \<Rightarrow>
          (case SyscallNameToID order s of
             (i, True) \<Rightarrow> (case rest of Inl u \<Rightarrow> Inl u | Inr ids \<Rightarrow> Inr (i # ids))
           | (_, False) \<Rightarrow> Inl s))"

definition set_policy :: "SyscallCatchPolicy \<Rightarrow> string \<Rightarrow> 'k handler" where
  "set_policy policy s = mbind (mmodify (SetSyscallCatchPolicy policy)) (\<lambda>_. prints [s])"

definition handleCatchpoint :: "('k, 'i) cli \<Rightarrow> string list \<Rightarrow> 'k handler" where
  "handleCatchpoint C args =
     (case args of
        [] \<Rightarrow> prints [''usage: catchpoint syscall [none|<name-or-number>,...]'', ''  type 'help catchpoint' for details'']
      | kind # rest \<Rightarrow>
          if kind \<noteq> ''syscall'' then
            prints [''unknown catchpoint type: '' @ fmt_q kind @ '' (only 'syscall' is supported)'']
          else case rest of
            [] \<Rightarrow> set_policy CatchAllSyscalls ''catching all syscalls''
          | what # _ \<Rightarrow>
              if what = ''none'' then set_policy CatchNoSyscalls ''stopped catching syscalls''
              else case parse_calls (cl_order C) (splits (CHR '','') what) of
                Inl w \<Rightarrow> complain (''unknown syscall '' @ fmt_q w)
              | Inr ids \<Rightarrow>
                  if ids = [] then prints [''no valid syscalls specified'']
                  else set_policy (CatchSomeSyscalls ids)
                         (''catching syscalls: '' @ join '', '' (map SyscallIDToName ids)))"

section \<open>Registers\<close>

definition register_line :: "('k, 'i) cli \<Rightarrow> RegisterInfo \<Rightarrow> regval \<Rightarrow> string" where
  "register_line C info v = pad_right 12 (ri_Name info) @ '' '' @ FormatRegisterValue (cl_float C) info v"

fun register_lines :: "('k, 'i) cli \<Rightarrow> Registers \<Rightarrow> RegisterInfo list \<Rightarrow> string list res" where
  "register_lines C regs [] = Inr []"
| "register_lines C regs (info # infos) =
     rbind (Read regs info) (\<lambda>v.
     rbind (register_lines C regs infos) (\<lambda>ls. Inr (register_line C info v # ls)))"

definition print_registers :: "('k, 'i) cli \<Rightarrow> Registers \<Rightarrow> RegisterInfo list \<Rightarrow> 'k handler" where
  "print_registers C regs infos = mbind (mget (\<lambda>_. register_lines C regs infos)) prints"

definition handleRegisterRead :: "('k, 'i) cli \<Rightarrow> string list \<Rightarrow> 'k handler" where
  "handleRegisterRead C args p =
     (case Registers_of p of
        None \<Rightarrow> complain ''registers not available'' p
      | Some regs \<Rightarrow>
          (case args of
             [] \<Rightarrow> print_registers C regs (filter (\<lambda>info. ri_Type info = RegisterTypeGPR) AllRegisterInfos) p
           | name # _ \<Rightarrow>
               if name = ''all'' then print_registers C regs AllRegisterInfos p
               else case RegisterInfoByName name of
                 None \<Rightarrow> complain (''unknown register '' @ fmt_q name) p
               | Some info \<Rightarrow> print_registers C regs [info] p))"

definition handleRegisterWrite :: "('k, 'i) cli \<Rightarrow> string list \<Rightarrow> 'k handler" where
  "handleRegisterWrite C args p =
     (case args of
        name # v # vs \<Rightarrow>
          (case RegisterInfoByName name of
             None \<Rightarrow> complain (''unknown register '' @ fmt_q name) p
           | Some info \<Rightarrow>
               attempt '''' (mget (\<lambda>_. ParseRegisterValue (te_parseFloat (cl_target C)) info (join '' '' (v # vs)))) (\<lambda>val p.
                 if Registers_of p = None then complain ''registers not available'' p
                 else attempt ''write failed: '' (regs_write (cl_target C) (currentThread p) name val) (\<lambda>_.
                        prints [register_line C info val]) p) p)
      | _ \<Rightarrow> prints [''usage: register write <name> <value>''] p)"

definition handleRegister :: "('k, 'i) cli \<Rightarrow> string list \<Rightarrow> 'k handler" where
  "handleRegister C args =
     (case args of
        [] \<Rightarrow> prints [''usage: register <read|write> [args...]'', ''  type 'help register' for details'']
      | sub # rest \<Rightarrow>
          if sub = ''read'' then handleRegisterRead C rest
          else if sub = ''write'' then handleRegisterWrite C rest
          else unknown_sub ''register'' sub)"

section \<open>Memory\<close>

definition hex_byte :: "u8 \<Rightarrow> string" where
  "hex_byte b = pad_left (CHR ''0'') 2 (digits 16 (unat b))"

text \<open>Rows of 16 bytes.\<close>

function hex_rows :: "u64 \<Rightarrow> u8 list \<Rightarrow> string list" where
  "hex_rows addr bs =
     (if bs = [] then []
      else (''  '' @ fmt_x (unat addr) @ '': '' @ concat (map (\<lambda>b. hex_byte b @ '' '') (take 16 bs)))
             # hex_rows (addr + 16) (drop 16 bs))"
  by pat_completeness auto
termination by (relation "measure (length \<circ> snd)") auto

declare hex_rows.simps [simp del]

text \<open>The bytes of \<open>[0xff,0x01]\<close>; the brackets may be missing, and empty pieces are skipped.\<close>

fun parse_hex_bytes :: "string list \<Rightarrow> u8 list res" where
  "parse_hex_bytes [] = Inr []"
| "parse_hex_bytes (p # ps) =
     (let s = TrimSpace p in
      if s = [] then parse_hex_bytes ps
      else case ParseHex (TrimPrefix s ''0x'') 8 of
        None \<Rightarrow> Inl (Error (BadInteger s))
      | Some v \<Rightarrow> rbind (parse_hex_bytes ps) (\<lambda>bs. Inr (of_nat v # bs)))"

definition parseByteList :: "string \<Rightarrow> u8 list res" where
  "parseByteList s =
     rbind (parse_hex_bytes (splits (CHR '','') (TrimSuffix (TrimPrefix s ''['') '']''))) (\<lambda>bs.
       if bs = [] then Inl (Error (BadVector s)) else Inr bs)"

definition memory_read :: "('k, 'i) cli \<Rightarrow> u64 \<Rightarrow> int \<Rightarrow> 'k handler" where
  "memory_read C addr amount =
     attempt ''memory read failed: '' (mget (\<lambda>p. mem (cl_target C) p addr amount)) (\<lambda>data. prints (hex_rows addr data))"

definition handleMemory :: "('k, 'i) cli \<Rightarrow> string list \<Rightarrow> 'k handler" where
  "handleMemory C args =
     (case args of
        [] \<Rightarrow> prints [''usage: memory <read|write> [args...]'', ''  type 'help memory' for details'']
      | sub # rest \<Rightarrow>
          if sub = ''read'' then
            (case rest of
               [] \<Rightarrow> prints [''usage: memory read <address> [n]'']
             | a # amounts \<Rightarrow>
                 with_address a (\<lambda>addr.
                   case amounts of
                     [] \<Rightarrow> memory_read C addr 32
                   | n # _ \<Rightarrow>
                       (case Atoi n of
                          Some amount \<Rightarrow> if amount \<le> 0 then complain (''invalid byte count '' @ fmt_q n) else memory_read C addr amount
                        | None \<Rightarrow> complain (''invalid byte count '' @ fmt_q n))))
          else if sub = ''write'' then
            (case rest of
               a # bytes # _ \<Rightarrow>
                 with_address a (\<lambda>addr.
                   attempt '''' (mget (\<lambda>_. parseByteList bytes)) (\<lambda>data.
                   attempt ''memory write failed: '' (write_memory (cl_target C) addr data) (\<lambda>_.
                     prints [''wrote '' @ fmt_d (int (length data)) @ '' bytes at '' @ fmt_x (unat addr)])))
             | _ \<Rightarrow> prints [''usage: memory write <address> [0xff,0x01,...]''])
          else unknown_sub ''memory'' sub)"

section \<open>Disassembly\<close>

definition printDisassembly :: "('k, 'i) cli \<Rightarrow> int \<Rightarrow> u64 option \<Rightarrow> 'k handler" where
  "printDisassembly C n addr =
     attempt ''disassemble failed: '' (mget (Disassemble (cl_x86asm C) (cl_env C) n addr)) (\<lambda>insts.
       prints (map (\<lambda>i. ''  '' @ fmt_x (unat (in_Address i)) @ '': '' @ in_Text i) insts))"

text \<open>The flags; on the left the message that ends the command.\<close>

fun disassemble_flags :: "string list \<Rightarrow> int \<times> u64 option \<Rightarrow> printed list + (int \<times> u64 option)" where
  "disassemble_flags [] opts = Inr opts"
| "disassemble_flags (w # ws) (n, addr) =
     (if w = ''-c'' then
        (case ws of
           [] \<Rightarrow> Inl [println ''usage: disassemble [-c count] [-a address]'']
         | v # vs \<Rightarrow>
             (case Atoi v of
                Some m \<Rightarrow>
                  if m \<le> 0 then Inl [Err (''toydbg: invalid count '' @ fmt_q v @ newline)]
                  else disassemble_flags vs (m, addr)
              | None \<Rightarrow> Inl [Err (''toydbg: invalid count '' @ fmt_q v @ newline)]))
      else if w = ''-a'' then
        (case ws of
           [] \<Rightarrow> Inl [println ''usage: disassemble [-c count] [-a address]'']
         | v # vs \<Rightarrow>
             (case ParseHex (TrimPrefix v ''0x'') 64 of
                None \<Rightarrow> Inl [Failed (''toydbg: invalid address '' @ fmt_q v) (BadInteger v)]
              | Some a \<Rightarrow> disassemble_flags vs (n, Some (of_nat a))))
      else Inl [Err (''toydbg: unknown disassemble flag '' @ fmt_q w @ newline)])"

definition handleDisassemble :: "('k, 'i) cli \<Rightarrow> string list \<Rightarrow> 'k handler" where
  "handleDisassemble C args =
     (case disassemble_flags args (5, None) of
        Inl out \<Rightarrow> mret out
      | Inr (n, addr) \<Rightarrow> printDisassembly C n addr)"

section \<open>Threads\<close>

definition state_name :: "ProcessState \<Rightarrow> string" where
  "state_name s =
     (case s of ProcessRunning \<Rightarrow> ''running'' | ProcessExited \<Rightarrow> ''exited'' | ProcessTerminated \<Rightarrow> ''terminated''
      | ProcessStopped \<Rightarrow> ''stopped'')"

definition thread_lines :: "('k, 'i) cli \<Rightarrow> 'k target \<Rightarrow> string list" where
  "thread_lines C p =
     map (\<lambda>tid. (if tid = currentThread p then ''*'' else '' '') @ '' thread '' @ fmt_d tid @
            (case thread_of tid p of None \<Rightarrow> [] | Some t \<Rightarrow> '' ('' @ state_name (ts_State t) @ '')''))
       (tids (cl_env C) p)"

definition handleThread :: "('k, 'i) cli \<Rightarrow> string list \<Rightarrow> 'k handler" where
  "handleThread C args p =
     (case args of
        [] \<Rightarrow> prints [''usage: thread <list|select> [tid]''] p
      | sub # rest \<Rightarrow>
          if sub = ''list'' then prints (thread_lines C p) p
          else if sub = ''select'' then
            (case rest of
               [] \<Rightarrow> prints [''usage: thread select <tid>''] p
             | w # _ \<Rightarrow>
                 (case Atoi w of
                    None \<Rightarrow> fails (''invalid TID '' @ fmt_q w) (BadInteger w) p
                  | Some tid \<Rightarrow>
                      if thread_of tid p = None then complain (''thread '' @ fmt_d tid @ '' not found'') p
                      else mbind (mmodify (SetCurrentThread tid)) (\<lambda>_. prints [''switched to thread '' @ fmt_d tid]) p))
          else unknown_sub ''thread'' sub p)"

end
