(* ===== verification/Arguments.thy ===== *)
theory Arguments
  imports Stepping Expressions
begin

text \<open>
  The arguments of a call in the registers: what \<open>setupArguments\<close> of \<open>Expressions\<close> leaves in the
  general-purpose registers of the thread, by the independence of the registers in the cache.
\<close>

section \<open>Arguments in registers\<close>

text \<open>The position of an argument register among the first entries of the register table.\<close>

definition argument_entry :: "nat \<Rightarrow> nat" where
  "argument_entry i = [5, 4, 1, 2, 8, 9] ! i"

lemma argument_names:
  assumes "i < 6"
  shows "RegisterInfoByName (intRegNames ! i) = Some (entry_at (argument_entry i))"
proof -
  have "ri_Name (registerTable ! argument_entry i) = intRegNames ! i"
    using assms unfolding intRegNames_def argument_entry_def
    by (auto simp: less_Suc_eq numeral_eq_Suc table_defs regInfo_def)
  moreover have "argument_entry i < 125"
    using assms by (auto simp: argument_entry_def less_Suc_eq numeral_eq_Suc)
  ultimately show ?thesis by (intro byName)
qed

lemma lookup_rax: "RegisterInfoByName ''rax'' = Some (entry_at 0)"
  by (rule byName) (simp_all add: table_defs regInfo_def)

lemma argument_entry_bound: "i < 6 \<Longrightarrow> argument_entry i < 17 \<and> argument_entry i \<noteq> 0 \<and> argument_entry i \<noteq> 7"
  by (auto simp: argument_entry_def less_Suc_eq numeral_eq_Suc)

lemma argument_entry_inject: "i < 6 \<Longrightarrow> j < 6 \<Longrightarrow> argument_entry i = argument_entry j \<longleftrightarrow> i = j"
  by (auto simp: argument_entry_def less_Suc_eq numeral_eq_Suc)

lemma gpr_format:
  assumes "i < 17"
  shows "ri_Size (entry_at i) = 8" "ri_Format (entry_at i) = RegisterFormatUint" "info_ok (entry_at i)"
proof -
  have "list_all (\<lambda>i. ri_Size (registerTable ! i) = 8 \<and> ri_Format (registerTable ! i) = RegisterFormatUint) [0..<17]"
    by (simp add: table_defs regInfo_def upt_rec numeral_eq_Suc)
  then show "ri_Size (entry_at i) = 8" "ri_Format (entry_at i) = RegisterFormatUint"
    using assms by (simp_all add: list_all_iff entry_at_eq)
  show "info_ok (entry_at i)" using assms by (intro registerInfos_ok entry_at_mem) simp
qed

lemma Write_gpr:
  assumes "i < 17" "regs_ok r" "Write os (entry_at i) (VU64 v) r k = (res, r', k')"
  shows "r' = put8 (entry_at i) v r"
proof -
  have e: "encodeValue (entry_at i) (VU64 v) = Some (put64 v)"
    using gpr_format [OF assms(1)] by (simp add: encodeValue_def Let_def)
  show ?thesis
    using Write_cache [OF assms(2) gpr_format(3) [OF assms(1)] e assms(3)] assms(1)
    by (simp add: gpr_format put8_def put64_def)
qed

text \<open>The value of a general-purpose register in the cache of a thread.\<close>

definition gpr_of :: "int \<Rightarrow> nat \<Rightarrow> 'k target \<Rightarrow> u64" where
  "gpr_of tid i p = (case thread_of tid p of Some t \<Rightarrow> get8 (entry_at i) (ts_Regs t) | None \<Rightarrow> 0)"

definition has_thread :: "int \<Rightarrow> 'k target \<Rightarrow> bool" where
  "has_thread tid p \<longleftrightarrow> (\<exists>t. thread_of tid p = Some t \<and> regs_ok (ts_Regs t))"

lemma regs_read_gpr:
  "has_thread tid p \<Longrightarrow> RegisterInfoByName name = Some (entry_at i) \<Longrightarrow> i < 17 \<Longrightarrow>
    regs_read tid name p = Inr (gpr_of tid i p)"
  by (auto simp: has_thread_def regs_read_def gpr_of_def gpr_read)

lemma regs_write_gpr:
  assumes "has_thread tid p" "RegisterInfoByName name = Some (entry_at i)" "i < 17"
    and "regs_write T tid name (VU64 v) p = (r, q)"
  shows "has_thread tid q \<and> (\<forall>j < 17. gpr_of tid j q = (if j = i then v else gpr_of tid j p))"
proof -
  obtain t where t: "thread_of tid p = Some t" "regs_ok (ts_Regs t)" using assms(1) by (auto simp: has_thread_def)
  obtain rs k where w: "Write (user (kenv T)) (entry_at i) (VU64 v) (ts_Regs t) (kernel p) = (r, rs, k)"
    and q: "q = (upd_thread tid (\<lambda>t. t\<lparr>ts_Regs := rs\<rparr>) p)\<lparr>kernel := k\<rparr>"
    using assms(2,4) t by (auto simp: regs_write_def Let_def split: prod.splits)
  have rs: "rs = put8 (entry_at i) v (ts_Regs t)" by (rule Write_gpr [OF assms(3) t(2) w])
  have "thread_of tid q = Some (t\<lparr>ts_Regs := rs\<rparr>)"
    using t(1) by (simp add: q thread_of_def upd_thread_def map_of_map_entry)
  moreover have "regs_ok rs" "get8 (entry_at i) rs = v"
    using rf.ok_put rf.get_put_own gpr_format(3) [OF assms(3)] t(2) unfolding rs by auto
  moreover have "get8 (entry_at j) rs = get8 (entry_at j) (ts_Regs t)" if "j < 17" "j \<noteq> i" for j
    unfolding rs using gpr_apart [OF assms(3) that(1)] that(2)
    by (intro rf.get_put_indep t(2) gpr_format(3) assms(3) that(1)) simp
  ultimately show ?thesis by (auto simp: has_thread_def gpr_of_def t(1))
qed

definition integer_class :: "exprArg \<Rightarrow> bool" where
  "integer_class a \<longleftrightarrow> classifyType (ea_typ a) (ea_builtin a) = (paramClassInteger, paramClassNoClass)"

definition register_value :: "exprArg \<Rightarrow> u64" where
  "register_value a = le_word (eightbyte_of (arg_bytes a) 0)"

lemma put_registers_int:
  "n < 6 \<Longrightarrow> put_registers T tid (paramClassInteger, paramClassNoClass) sz bs (n, m) =
    mbind (regs_write T tid (intRegNames ! n) (VU64 (le_word (eightbyte_of bs 0)))) (\<lambda>_. mret (n + 1, m))"
  by (rule ext) (simp add: put_registers_def put_eightbyte_def intRegNames_def mbind_def mret_def split: prod.split sum.split)

lemma place_int_args:
  "list_all integer_class args \<Longrightarrow> n + length args \<le> 6 \<Longrightarrow> has_thread tid p \<Longrightarrow>
    place_args T tid [] args (n, 0) [] p = (Inr (regs, stack), q) \<Longrightarrow>
    regs = (n + length args, 0) \<and> stack = [] \<and> has_thread tid q \<and>
    (\<forall>i < length args. gpr_of tid (argument_entry (n + i)) q = register_value (args ! i)) \<and>
    (\<forall>j < 17. (\<forall>i < length args. j \<noteq> argument_entry (n + i)) \<longrightarrow> gpr_of tid j q = gpr_of tid j p)"
proof (induction args arbitrary: n p)
  case (Cons a as)
  let ?e = "argument_entry n"
  have c: "classifyType (ea_typ a) (ea_builtin a) = (paramClassInteger, paramClassNoClass)"
    using Cons.prems(1) by (simp add: integer_class_def)
  have n: "n < 6" "Suc n + length as \<le> 6" using Cons.prems(2) by simp_all
  have "\<not> on_stack n 0 (paramClassInteger, paramClassNoClass)"
    using n by (simp add: on_stack_def required_def)
  with Cons.prems(4) c have "mbind (regs_write T tid (intRegNames ! n) (VU64 (register_value a)))
      (\<lambda>_. place_args T tid [] as (Suc n, 0) []) p = (Inr (regs, stack), q)"
    by (simp add: put_registers_int [OF n(1)] mbind_assoc register_value_def Let_def)
  then obtain p1 where w: "regs_write T tid (intRegNames ! n) (VU64 (register_value a)) p = (Inr (), p1)"
    and rest: "place_args T tid [] as (Suc n, 0) [] p1 = (Inr (regs, stack), q)"
    by (auto simp: mbind_eq_Inr)
  have e: "?e < 17" using argument_entry_bound [OF n(1)] by simp
  have p1: "has_thread tid p1 \<and> (\<forall>j < 17. gpr_of tid j p1 = (if j = ?e then register_value a else gpr_of tid j p))"
    by (rule regs_write_gpr [OF Cons.prems(3) argument_names [OF n(1)] e w])
  have IH: "regs = (Suc n + length as, 0) \<and> stack = [] \<and> has_thread tid q \<and>
    (\<forall>i < length as. gpr_of tid (argument_entry (Suc n + i)) q = register_value (as ! i)) \<and>
    (\<forall>j < 17. (\<forall>i < length as. j \<noteq> argument_entry (Suc n + i)) \<longrightarrow> gpr_of tid j q = gpr_of tid j p1)"
    using Cons.IH [OF _ n(2) _ rest] Cons.prems(1) p1 by simp
  have other: "?e \<noteq> argument_entry (Suc n + i)" if "i < length as" for i
    using argument_entry_inject [of n "Suc n + i"] that n by simp
  have "gpr_of tid (argument_entry (n + i)) q = register_value ((a # as) ! i)" if "i < length (a # as)" for i
    using IH p1 e other that by (cases i) auto
  moreover have "gpr_of tid j q = gpr_of tid j p" if "j < 17" "\<forall>i < length (a # as). j \<noteq> argument_entry (n + i)" for j
  proof -
    have "j \<noteq> ?e" using that(2) [rule_format, of 0] by simp
    moreover have "\<forall>i < length as. j \<noteq> argument_entry (Suc n + i)"
      using that(2) [rule_format, of "Suc _"] by simp
    ultimately show ?thesis using IH p1 that(1) by simp
  qed
  ultimately show ?case using IH by simp
qed simp


text \<open>The walking tracee with an entry point and a function symbol.\<close>

definition call_tenv :: "u64 tenv" where
  "call_tenv = walk_tenv\<lparr>te_auxv := (\<lambda>k pid. Some (encode_pairs [(9, 0x500)] @ replicate 16 0))\<rparr>"

definition call_target :: "u64 target" where
  "call_target = (walk_with 1)\<lparr>kernel := (0x17, \<lparr>t_elves = \<lparr>elves = [plain_elf\<lparr>symbolsByName :=
     [''f'' \<mapsto> [\<lparr>sy_Name = ''f'', sy_Info = 2, sy_Value = 0x40, sy_Size = 4\<rparr>]]\<rparr>]\<rparr>, t_mainELF = Some 0,
     t_rendezvousAddr = 0, t_entryAddr = 0, t_exprResults = []\<rparr>)\<rparr>"

lemma call_sets_up:
  "fst (setupArguments call_tenv 1 [literal builtinInt (le_bytes 8 (7 :: u64)), literal builtinBool [1]] None None call_target) = Inr ()"
  by code_simp

lemma call_thread: "has_thread 1 call_target"
  by (simp add: has_thread_def call_target_def walk_with_def walk_target_def thread_of_def regs_ok_def zero_regs_def walk_gprs_def)


section \<open>A struct that loses its end\<close>

definition struct_arg :: "dtype \<Rightarrow> u8 list \<Rightarrow> exprArg" where
  "struct_arg t bs = \<lparr>ea_data = bs, ea_typ = Some t, ea_builtin = builtinNone, ea_address = None\<rparr>"

text \<open>
  A struct by value whose members all start in its first eightbyte, and name one
  class each, is passed by its first eight bytes only: what lies behind them, the end of a nested
  struct or of an array that reaches into the second eightbyte, makes no difference to the call.
\<close>

theorem struct_tail_lost:
  assumes "list_all starts_first fs" "sz \<le> 16" "fst (classify (StructType name sz fs)) = paramClassInteger"
    and "8 \<le> length bs" "8 \<le> length cs" "take 8 bs = take 8 cs" "0 < sz"
  shows "place_args T tid [] [struct_arg (StructType name sz fs) bs] (0, 0) [] =
    place_args T tid [] [struct_arg (StructType name sz fs) cs] (0, 0) []"
proof -
  let ?t = "StructType name sz fs"
  have c: "classify ?t = (paramClassInteger, paramClassNoClass)"
    using second_class_lost [OF assms(1,2), of name] assms(3) by (simp add: prod_eq_iff del: classify.simps)
  have first: "eightbyte_of bs 0 = eightbyte_of cs 0" using assms(6) by (simp add: eightbyte_of_def)
  have "\<not> on_stack 0 0 (paramClassInteger, paramClassNoClass)" by (simp add: on_stack_def required_def)
  then show ?thesis
    using assms(4,5,7) c first
    by (simp add: struct_arg_def classifyType_def arg_bytes_def param_size_def put_registers_int Let_def del: classify.simps)
qed

theorem struct_tail_lost_witness:
  "place_args T tid [] [struct_arg pair_struct [1, 0, 0, 0, 2, 0, 0, 0, 3, 0, 0, 0]] (0, 0) [] =
    place_args T tid [] [struct_arg pair_struct [1, 0, 0, 0, 2, 0, 0, 0, 4, 0, 0, 0]] (0, 0) []"
  unfolding pair_struct_def
  by (rule struct_tail_lost)
    (simp_all add: pair_struct_class [unfolded pair_struct_def] starts_first_def eightbyte_def fieldByteOffset_def
      int_quot_def classify_basic_def ToLower_def del: classify.simps(7))

end
