(* ===== verification/Calls.thy ===== *)
theory Calls
  imports Arguments
begin

text \<open>
  What a call in the tracee leaves behind: the sites and the registers after \<open>inferiorMalloc\<close> and
  \<open>EvaluateExpression\<close> of \<open>Expressions\<close>, on every outcome, by the triples of \<open>Frame\<close> and the frame of
  a running process in \<open>Stepping\<close>.
\<close>

section \<open>The breakpoint of a call\<close>

definition addresses :: "site_id list \<Rightarrow> u64 list" where
  "addresses l = map (fst \<circ> snd) l"

definition rehook :: "u64 \<Rightarrow> nat option \<Rightarrow> site_id list \<Rightarrow> site_id list" where
  "rehook a h l = map (\<lambda>(i, b, g, w). (i, b, if b = a then h else g, w)) l"

definition hooked :: "u64 \<Rightarrow> site_id list \<Rightarrow> site_id list" where
  "hooked a l = (if a \<in> set (addresses l) then rehook a (Some 2) l else l @ [(- 1, a, Some 2, False)])"

definition handler_at :: "u64 \<Rightarrow> site_id list \<Rightarrow> nat option" where
  "handler_at a l = Option.bind (find (\<lambda>k. fst (snd k) = a) l) (\<lambda>(_, _, h, _). h)"

lemma addresses_keys: "addresses (keys p) = map bp_address (sites (breakpointSites p))"
  by (simp add: addresses_def keys_def)

lemma addresses_rehook [simp]: "addresses (rehook a h l) = addresses l"
  by (simp add: addresses_def rehook_def comp_def case_prod_beta)

lemma addresses_hooked: "set (addresses (hooked a l)) = insert a (set (addresses l))"
  by (auto simp: hooked_def) (auto simp: addresses_def)

lemma settled_addresses: "settled l \<longleftrightarrow> distinct (addresses l) \<and> list_all (\<lambda>(_, _, h, _). h \<noteq> Some 0) l"
  by (simp add: settled_def addresses_def)

lemma rehook_handlers:
  "list_all (\<lambda>(_, _, g, _). g \<noteq> Some 0) l \<Longrightarrow> h \<noteq> Some 0 \<Longrightarrow>
    list_all (\<lambda>(_, _, g, _). g \<noteq> Some 0) (rehook a h l)"
  by (induction l) (auto simp: rehook_def split: if_splits)

lemma settled_hooked:
  assumes "settled l"
  shows "settled (hooked a l)"
proof (cases "a \<in> set (addresses l)")
  case True
  then show ?thesis using assms rehook_handlers [of l "Some 2" a] by (simp add: settled_addresses hooked_def)
next
  case False
  then show ?thesis using assms by (auto simp: settled_addresses hooked_def) (auto simp: addresses_def)
qed

lemma rehook_rehook: "rehook a h (rehook a g l) = rehook a h l"
  by (simp add: rehook_def comp_def case_prod_beta)

lemma rehook_new: "a \<notin> set (addresses l) \<Longrightarrow> rehook a h l = l"
  by (auto simp: rehook_def addresses_def intro!: map_idI) force

lemma hooked_hooked: "hooked a (hooked a l) = hooked a l"
proof (cases "a \<in> set (addresses l)")
  case False
  then show ?thesis using addresses_hooked [of a l] rehook_new [OF False]
    by (simp add: hooked_def) (simp add: rehook_def)
qed (simp add: hooked_def rehook_rehook)

lemma find_map_key: "find P (map f xs) = map_option f (find (\<lambda>x. P (f x)) xs)"
  by (induction xs) simp_all

lemma find_key: "find (\<lambda>k. fst (snd k) = a) (keys p) = map_option site_key (getByAddress (breakpointSites p) a)"
  unfolding keys_def getByAddress_def find_map_key by (simp add: site_key_def)

lemma handler_at_keys: "handler_at a (keys p) = Option.bind (getByAddress (breakpointSites p) a) bp_onHit"
  by (cases "getByAddress (breakpointSites p) a") (simp_all add: handler_at_def find_key site_key_def)

lemma distinct_key:
  assumes "distinct (addresses l)" "k \<in> set l" "find (\<lambda>k. fst (snd k) = a) l = Some k'" "fst (snd k) = a"
  shows "k = k'"
proof -
  have "k' \<in> set l" "fst (snd k') = a" using find_Some_iff_mem [OF assms(3)] by simp_all
  with assms(1,2,4) show ?thesis by (auto simp: addresses_def distinct_map inj_on_def)
qed

lemma rehook_back: "distinct (addresses l) \<Longrightarrow> rehook a (handler_at a l) (rehook a h l) = l"
proof -
  assume d: "distinct (addresses l)"
  have "handler_at a l = g" if k: "(i, a, g, w) \<in> set l" for i g w
  proof -
    obtain k' where k': "find (\<lambda>k. fst (snd k) = a) l = Some k'"
      using k by (cases "find (\<lambda>k. fst (snd k) = a) l") (auto simp: find_None_iff)
    then show ?thesis using distinct_key [OF d k k'] by (auto simp: handler_at_def)
  qed
  then show ?thesis by (auto simp: rehook_def comp_def intro!: map_idI)
qed

lemma set_handler_keys:
  assumes "distinct (addresses (keys p))"
  shows "fst (set_handler h b p) = Inr ()" "keys (snd (set_handler h b p)) = rehook (bp_address b) h (keys p)"
    "threads (snd (set_handler h b p)) = threads p" "currentThread (snd (set_handler h b p)) = currentThread p"
proof -
  let ?xs = "sites (breakpointSites p)"
  define cur where "cur = (case getByAddress (breakpointSites p) (bp_address b) of Some x \<Rightarrow> x | None \<Rightarrow> b)"
  have cur: "bp_address cur = bp_address b"
    by (auto simp: cur_def getByAddress_def find_Some_iff split: option.split)
  have same: "x = cur" if x: "x \<in> set ?xs" "bp_address x = bp_address b" for x
  proof -
    obtain c where c: "find (\<lambda>s. bp_address s = bp_address b) ?xs = Some c"
      using x by (cases "find (\<lambda>s. bp_address s = bp_address b) ?xs") (auto simp: find_None_iff)
    then have "c \<in> set ?xs \<and> bp_address c = bp_address b" using find_Some_iff_mem [OF c] by simp
    then have "c = x" using assms x unfolding addresses_keys by (metis distinct_map inj_onD)
    with c show ?thesis by (simp add: cur_def getByAddress_def)
  qed
  have eq: "set_handler h b p = (Inr (), put_site (cur\<lparr>bp_onHit := h\<rparr>) p)"
    by (simp add: set_handler_def on_site_def cur_def Let_def)
  show "fst (set_handler h b p) = Inr ()" "threads (snd (set_handler h b p)) = threads p"
    "currentThread (snd (set_handler h b p)) = currentThread p"
    by (simp_all add: eq put_site_def)
  show "keys (snd (set_handler h b p)) = rehook (bp_address b) h (keys p)"
    using same cur by (auto simp: eq keys_def put_site_def rehook_def site_key_def)
qed

lemma alive_thread: "thread_of tid (upd_thread i f p) \<noteq> None \<longleftrightarrow> thread_of tid p \<noteq> None"
  by (simp add: thread_of_def upd_thread_def map_of_map_entry split: option.split)

text \<open>A software site is enabled and disabled in memory only.\<close>

definition soft_at :: "u64 \<Rightarrow> site_id list \<Rightarrow> bool" where
  "soft_at a l \<longleftrightarrow> list_all (\<lambda>(_, b, _, hw). b = a \<longrightarrow> \<not> hw) l"

lemma soft_site:
  assumes "soft_at (bp_address b) (keys p)" "\<not> bp_isHardware b"
  shows "threads (snd (on_site (Enable E) b p)) = threads p \<and>
      currentThread (snd (on_site (Enable E) b p)) = currentThread p"
    and "threads (snd (on_site (Disable E) b p)) = threads p \<and>
      currentThread (snd (on_site (Disable E) b p)) = currentThread p"
proof -
  define cur where "cur = (case getByAddress (breakpointSites p) (bp_address b) of Some x \<Rightarrow> x | None \<Rightarrow> b)"
  have "\<not> bp_isHardware cur"
  proof (cases "getByAddress (breakpointSites p) (bp_address b)")
    case (Some c)
    then have "c \<in> set (sites (breakpointSites p))" "bp_address c = bp_address b"
      using find_Some_iff_mem by (fastforce simp: getByAddress_def)+
    with Some assms(1) show ?thesis by (auto simp: soft_at_def keys_def list_all_iff site_key_def cur_def)
  qed (simp add: cur_def assms(2))
  then show "threads (snd (on_site (Enable E) b p)) = threads p \<and>
      currentThread (snd (on_site (Enable E) b p)) = currentThread p"
    "threads (snd (on_site (Disable E) b p)) = threads p \<and>
      currentThread (snd (on_site (Disable E) b p)) = currentThread p"
    unfolding on_site_def cur_def [symmetric]
    by (simp_all add: Enable_def Disable_def put_site_def Let_def split: option.split)
qed

lemma soft_new: "a \<notin> set (addresses l) \<Longrightarrow> soft_at a (l @ [(i, a, h, False)])"
  by (induction l) (auto simp: soft_at_def addresses_def)

lemma mdrop_eq: "mdrop m p = (r, q) \<Longrightarrow> r = Inl Panic \<or> r = Inl OutOfFuel \<or> (r = Inr () \<and> q = snd (m p))"
  by (auto simp: mdrop_def mbind_def mtry_def mret_def split: prod.splits sum.splits failure.splits)

lemma contains_addresses: "containsAddress (breakpointSites p) a \<longleftrightarrow> a \<in> set (addresses (keys p))"
  by (auto simp: containsAddress_def list_ex_iff addresses_keys)

lemma return_site_keys:
  assumes s: "settled (keys p)" and r: "return_site T fuel a p = (r, q)"
  shows "r = Inl Panic \<or> r = Inl OutOfFuel \<or>
    (\<exists>bp. r = Inr (bp, a \<in> set (addresses (keys p))) \<and> bp_address bp = a \<and> \<not> (bp_isHardware bp \<and> a \<notin> set (addresses (keys p))) \<and>
      keys q = hooked a (keys p) \<and> threads q = threads p \<and> currentThread q = currentThread p)"
proof (cases "getByAddress (breakpointSites p) a")
  case (Some bp)
  have b: "bp \<in> set (sites (breakpointSites p))" "bp_address bp = a"
    using Some find_Some_iff_mem by (fastforce simp: getByAddress_def)+
  then have a: "a \<in> set (addresses (keys p))" by (auto simp: addresses_keys)
  have d: "distinct (addresses (keys p))" using s by (simp add: settled_addresses)
  note h = set_handler_keys [OF d, of "Some 2" bp]
  have "return_site T fuel a p = (Inr (bp, True), snd (set_handler (Some 2) bp p))"
    using h(1) by (cases "set_handler (Some 2) bp p") (simp add: return_site_def Some mbind_def)
  with r h a b show ?thesis by (auto simp: hooked_def)
next
  case None
  then have a: "a \<notin> set (addresses (keys p))" by (auto simp: getByAddress_def addresses_keys find_None_iff)
  let ?l = "keys p @ [(- 1, a, None, False)]"
  obtain bp p1 where c: "CreateBreakpointSite a False True p = (Inr bp, p1)" and bp: "site_key bp = (- 1, a, None, False)"
    and p1: "keys p1 = ?l" "threads p1 = threads p" "currentThread p1 = currentThread p"
    using a keys_site_push
    by (auto simp: CreateBreakpointSite_def nextBreakpointID_def Let_def site_key_def keys_def site_push_def contains_addresses)
  define p2 where "p2 = snd (on_site (Enable (target_env T fuel)) bp p1)"
  have addr: "bp_address bp = a" "\<not> bp_isHardware bp" using bp by (simp_all add: site_key_def)
  have t2: "threads p2 = threads p" "currentThread p2 = currentThread p"
    using soft_site(1) [of bp p1] soft_new [OF a] addr p1 by (simp_all add: p2_def)
  have l: "settled ?l" using settled_push [OF s] a by (simp add: contains_addresses)
  have k2: "keys p2 = ?l"
    using keeps_app [OF running.f_sites(1) [of ?l T fuel bp], of p1] p1(1) l by (simp add: p2_def keyed_def)
  have d: "distinct (addresses (keys p2))" using l by (simp add: k2 settled_addresses)
  note h = set_handler_keys [OF d, of "Some 2" bp]
  have "keys (snd (set_handler (Some 2) bp p2)) = hooked a (keys p)"
    using h(2) a by (simp add: addr k2 hooked_def rehook_def) (simp add: rehook_new [unfolded rehook_def])
  moreover have "return_site T fuel a p =
      mbind (mdrop (on_site (Enable (target_env T fuel)) bp)) (\<lambda>_. mbind (set_handler (Some 2) bp) (\<lambda>_. mret (bp, False))) p1"
    using c by (simp add: return_site_def None mbind_def)
  ultimately show ?thesis
    using r a addr t2 h mdrop_eq [of "on_site (Enable (target_env T fuel)) bp" p1]
    by (cases "mdrop (on_site (Enable (target_env T fuel)) bp) p1") (fastforce simp: mbind_def mret_def p2_def split: prod.splits sum.splits)
qed

lemma restore_regs_effect:
  "keys (restore_regs T saved p) = keys p" "currentThread (restore_regs T saved p) = currentThread p"
  "Registers_of (restore_regs T saved p) = (if Registers_of p = None then None else Some saved)"
  by (simp_all add: restore_regs_def Let_def keys_def upd_thread_def)
    (simp add: Registers_of_def thread_of_def map_of_map_entry split: option.split)

lemma Registers_of_threads:
  "threads q = threads p \<Longrightarrow> currentThread q = currentThread p \<Longrightarrow> Registers_of q = Registers_of p"
  by (simp add: Registers_of_def thread_of_def)

lemma remove_new:
  assumes "a \<notin> set (addresses l)" "keys p = l @ [(- 1, a, h, False)]"
  shows "keys (p\<lparr>breakpointSites := snd (removeByAddress a (breakpointSites p))\<rparr>) = l"
proof -
  have "map site_key (snd (remove_first (\<lambda>b. bp_address b = a) (sites (breakpointSites p)))) =
      snd (remove_first (\<lambda>k. fst (snd k) = a) (keys p))"
    unfolding keys_def by (simp add: remove_first_map [symmetric] site_key_def)
  also have "remove_first (\<lambda>k. fst (snd k) = a) (keys p) = (True, l @ [])"
    unfolding assms(2) by (rule remove_first_found) (use assms(1) in \<open>auto simp: addresses_def\<close>)
  finally show ?thesis by (simp add: keys_def removeByAddress_def case_prod_beta)
qed

lemma restore_effect:
  assumes l: "settled l" and a: "bp_address bp = a" "a \<in> set (addresses l) \<or> \<not> bp_isHardware bp"
    and k: "keys q = hooked a l"
    and r: "restoreExprState T fuel (bp, a \<in> set (addresses l)) (handler_at a l) saved q = (r, q')"
  shows "r = Inl Panic \<or> r = Inl OutOfFuel \<or>
    (r = Inr () \<and> keys q' = l \<and> Registers_of q' = (if Registers_of q = None then None else Some saved))"
proof -
  let ?q = "restore_regs T saved q"
  have k': "keys ?q = hooked a l" using k by (simp add: restore_regs_effect)
  have s: "settled (hooked a l)" by (rule settled_hooked [OF l])
  have d: "distinct (addresses l)" using l by (simp add: settled_addresses)
  show ?thesis
  proof (cases "a \<in> set (addresses l)")
    case True
    have d': "distinct (addresses (keys ?q))" using s by (simp add: k' settled_addresses)
    note h = set_handler_keys [OF d', of "handler_at a l" bp]
    have "(r, q') = set_handler (handler_at a l) bp ?q"
      using r True by (simp add: restoreExprState_def mbind_def mmodify_def)
    then have e: "r = fst (set_handler (handler_at a l) bp ?q)" "q' = snd (set_handler (handler_at a l) bp ?q)"
      by (metis fst_conv, metis snd_conv)
    have "keys q' = rehook a (handler_at a l) (rehook a (Some 2) l)"
      unfolding e h(2) using a(1) True by (simp add: k' hooked_def)
    then have "keys q' = l" by (simp only: rehook_back [OF d])
    moreover have "Registers_of q' = Registers_of ?q" unfolding e by (rule Registers_of_threads [OF h(3,4)])
    ultimately show ?thesis using e(1) h(1) by (simp add: restore_regs_effect)
  next
    case False
    let ?E = "target_env T fuel"
    let ?q2 = "snd (on_site (Disable ?E) bp ?q)"
    have new: "keys ?q = l @ [(- 1, a, Some 2, False)]" using k' False by (simp add: hooked_def)
    have t: "Registers_of ?q2 = Registers_of ?q"
      using soft_site(2) [of bp ?q ?E] soft_new [OF False] a False new by (intro Registers_of_threads) simp_all
    have k2: "keys ?q2 = l @ [(- 1, a, Some 2, False)]"
      using keeps_app [OF running.f_sites(2) [of "hooked a l" T fuel bp], of ?q] k' s new by (simp add: keyed_def)
    have "mbind (mdrop (on_site (Disable ?E) bp))
        (\<lambda>_. mmodify (\<lambda>p. p\<lparr>breakpointSites := snd (removeByAddress a (breakpointSites p))\<rparr>)) ?q = (r, q')"
      using r False a(1) by (simp add: restoreExprState_def mbind_def [of "mmodify _"] mmodify_def)
    then consider "r = Inl Panic" | "r = Inl OutOfFuel" |
      "r = Inr ()" "q' = ?q2\<lparr>breakpointSites := snd (removeByAddress a (breakpointSites ?q2))\<rparr>"
      using mdrop_eq [of "on_site (Disable ?E) bp" ?q]
      by (cases "mdrop (on_site (Disable ?E) bp) ?q") (fastforce simp: mbind_def split: sum.splits)
    then show ?thesis
    proof cases
      case 3
      have "Registers_of q' = Registers_of ?q2" unfolding 3 by (rule Registers_of_threads) simp_all
      moreover have "keys q' = l" unfolding 3 by (rule remove_new [OF False k2])
      ultimately show ?thesis using 3 t by (simp add: restore_regs_effect)
    qed simp_all
  qed
qed

text \<open>What holds around a call: the sites, and the registers of the current thread if there is one.\<close>

definition at_rest :: "site_id list \<Rightarrow> Registers option \<Rightarrow> 'k target \<Rightarrow> bool" where
  "at_rest l R p \<longleftrightarrow> keys p = l \<and> (Registers_of p = R \<or> Registers_of p = None)"

definition restored :: "site_id list \<Rightarrow> Registers option \<Rightarrow> 'k target \<Rightarrow> bool" where
  "restored l R p \<longleftrightarrow> keys p = l \<and> Registers_of p = R"

definition stopped_in :: "site_id list \<Rightarrow> 'k target \<Rightarrow> bool" where
  "stopped_in l p \<longleftrightarrow> keys p = l \<and> Registers_of p \<noteq> None"

lemma triple_restore:
  fixes T :: "'k tenv" and fuel :: nat and saved :: Registers
  assumes "settled l" "bp_address bp = a" "a \<in> set (addresses l) \<or> \<not> bp_isHardware bp"
  defines "m \<equiv> restoreExprState T fuel (bp, a \<in> set (addresses l)) (handler_at a l) saved"
  shows "triple (keys_are (hooked a l)) m (at_rest l (Some saved)) (at_rest l (Some saved))"
    and "triple (stopped_in (hooked a l)) m (restored l (Some saved)) (at_rest l (Some saved))"
proof -
  have "case m q of (Inr _, t) \<Rightarrow> at_rest l (Some saved) t \<and> (Registers_of q \<noteq> None \<longrightarrow> restored l (Some saved) t)
      | (Inl (Error _), t) \<Rightarrow> False | _ \<Rightarrow> True" if "keys q = hooked a l" for q
    using restore_effect [OF assms(1-3) that, of T fuel saved] unfolding m_def
    by (cases "restoreExprState T fuel (bp, a \<in> set (addresses l)) (handler_at a l) saved q")
      (fastforce simp: at_rest_def restored_def split: sum.split failure.split if_splits)
  then show "triple (keys_are (hooked a l)) m (at_rest l (Some saved)) (at_rest l (Some saved))"
    "triple (stopped_in (hooked a l)) m (restored l (Some saved)) (at_rest l (Some saved))"
    by (fastforce simp: triple_def keys_are_def stopped_in_def split: prod.splits sum.splits failure.splits)+
qed

text \<open>
  A call in the tracee.  Whatever it does between the installing of the return breakpoint and the
  restoring, if the sites stay what they are while it runs then everything is at rest afterwards.
\<close>

lemma call_frame:
  fixes s :: "'k target"
  assumes l: "settled l" "keys s = l" and R: "Registers_of s = Some saved"
    and before: "triple (\<lambda>q. keys q = hooked a l \<and> threads q = threads s \<and> currentThread q = currentThread s) before
        (keys_are (hooked a l)) (\<lambda>_. False)"
    and run: "triple (keys_are (hooked a l)) run (keys_are (hooked a l)) (keys_are (hooked a l))"
    and after: "\<And>x. triple (keys_are (hooked a l)) (after x) (stopped_in (hooked a l)) (\<lambda>_. False)"
    and result: "\<And>y q. snd (result y q) = q"
    and m: "mbind (return_site T fuel a) (\<lambda>bp.
      mbind before (\<lambda>_.
      mbind (or_else run (restoreExprState T fuel bp (handler_at a l) saved)) (\<lambda>x.
      mbind (after x) (\<lambda>y.
      mbind (restoreExprState T fuel bp (handler_at a l) saved) (\<lambda>_. result y))))) s = (r, q)"
    and ok: "r \<noteq> Inl Panic" "r \<noteq> Inl OutOfFuel"
  shows "at_rest l (Some saved) q \<and> (\<forall>v. r = Inr v \<longrightarrow> restored l (Some saved) q)"
proof -
  obtain r1 s1 where r1: "return_site T fuel a s = (r1, s1)" by fastforce
  let ?restore = "\<lambda>bp. restoreExprState T fuel (bp, a \<in> set (addresses l)) (handler_at a l) saved"
  have "r1 \<noteq> Inl Panic \<and> r1 \<noteq> Inl OutOfFuel" using m ok r1 by (auto simp: mbind_def)
  then obtain bp where bp: "r1 = Inr (bp, a \<in> set (addresses l))" "bp_address bp = a"
    "a \<in> set (addresses l) \<or> \<not> bp_isHardware bp"
    and s1: "keys s1 = hooked a l \<and> threads s1 = threads s \<and> currentThread s1 = currentThread s"
    using return_site_keys [of s T fuel a r1 s1] l r1 by auto
  note restore = triple_restore [OF l(1) bp(2,3)]
  have done': "triple (restored l (Some saved)) (result y) (restored l (Some saved)) (at_rest l (Some saved))" for y
    unfolding triple_def
  proof (intro allI impI)
    fix q :: "'k target"
    assume q: "restored l (Some saved) q"
    obtain v where "result y q = (v, q)" using result [of y q] by (cases "result y q") auto
    with q show "case result y q of (Inr _, t) \<Rightarrow> restored l (Some saved) t | (Inl (Error _), t) \<Rightarrow> at_rest l (Some saved) t | _ \<Rightarrow> True"
      by (simp add: at_rest_def restored_def split: sum.split failure.split)
  qed
  have "triple (\<lambda>q. keys q = hooked a l \<and> threads q = threads s \<and> currentThread q = currentThread s)
      (mbind before (\<lambda>_. mbind (or_else run (?restore bp)) (\<lambda>x. mbind (after x) (\<lambda>y. mbind (?restore bp) (\<lambda>_. result y)))))
      (restored l (Some saved)) (at_rest l (Some saved))"
    by (rule triple_mbind [OF triple_mono [OF before]], assumption, assumption, simp,
      rule triple_mbind [OF triple_or_else [OF run restore(1)]],
      rule triple_mbind [OF triple_mono [OF after]], assumption, assumption, simp,
      rule triple_mbind [OF restore(2)], rule done')
  moreover have "mbind before (\<lambda>_. mbind (or_else run (?restore bp)) (\<lambda>x. mbind (after x) (\<lambda>y.
      mbind (?restore bp) (\<lambda>_. result y)))) s1 = (r, q)"
    using m r1 bp(1) by (simp add: mbind_def [of "return_site T fuel a"])
  ultimately have "case r of Inr _ \<Rightarrow> restored l (Some saved) q | Inl (Error _) \<Rightarrow> at_rest l (Some saved) q | _ \<Rightarrow> True"
    using s1 by (fastforce simp: triple_def split: sum.splits failure.splits prod.splits)
  then show ?thesis using ok by (auto simp: at_rest_def restored_def split: sum.splits failure.splits)
qed

section \<open>What leaves the sites alone\<close>

lemma keeps_regs_write [keeps_intros]: "keeps (keyed l) (regs_write T tid name v)"
  by (rule keeps_at) (simp add: regs_write_def Let_def keyed_def split: option.split prod.split)

lemma keeps_write_memory [keeps_intros]: "keeps (keyed l) (write_memory T a bs)"
  by (rule keeps_at) (simp add: write_memory_def keyed_def split: prod.split)

lemma keeps_run_call [keeps_intros]: "keeps (keyed l) (run_call T fuel)"
  unfolding run_call_def by (intro keeps_intros running.f_Resume running.f_WaitOnSignal)

lemma triple_keyed: "settled l \<Longrightarrow> keeps (keyed l) m \<Longrightarrow> triple (keys_are l) m (keys_are l) (keys_are l)"
  using triple_keeps [of "keyed l" m] by (simp add: keys_are_keyed)

lemma Read_error: "Read r info \<noteq> Inl (Error e)"
  by (cases "ri_Format info") (simp_all add: Read_def rbind_def bytesForOffset_def go_slice_def Let_def)

lemma readRegisterUint64_error: "readRegisterUint64 r info \<noteq> Inl (Error e)"
  using Read_error [of r info]
  by (cases "Read r info") (auto simp: readRegisterUint64_def as_u64_def split: regval.splits)

lemma malloc_registers_frame:
  "triple (\<lambda>q. keys q = l \<and> thread_of tid q \<noteq> None) (malloc_registers T tid n f e) (keys_are l) (\<lambda>_. False)"
proof -
  let ?P = "\<lambda>q. keys q = l \<and> thread_of tid q \<noteq> None"
  have w: "triple ?P (mdrop (regs_write T tid name v)) ?P (\<lambda>_. False)" for name v
    by (rule triple_mdrop)
      (auto simp: triple_def regs_write_def Let_def alive_thread thread_of_def keys_def upd_thread_def map_of_map_entry
        split: prod.split sum.split failure.split option.split)
  have m: "triple ?P (mdrop (write_memory T a bs)) ?P (\<lambda>_. False)" for a bs
    by (rule triple_mdrop)
      (auto simp: triple_def write_memory_def thread_of_def keys_def split: prod.split sum.split failure.split)
  have g: "triple ?P (mget (regs_read tid ''rsp'')) ?P (\<lambda>_. False)"
    by (auto simp: triple_def mget_def regs_read_def readRegisterUint64_error split: option.split sum.split failure.split)
  show ?thesis
    unfolding malloc_registers_def
    by (rule triple_mbind [OF w], rule triple_mbind [OF w], rule triple_mbind [OF g], rule triple_mbind [OF m],
      rule triple_mbind [OF w], rule triple_mono [OF w]) (simp_all add: keys_are_def)
qed

lemma inferiorMalloc_frame:
  fixes T :: "'k tenv"
  assumes l: "settled l"
  shows "triple (at_rest l R) (inferiorMalloc T fuel n) (at_rest l R) (at_rest l R)"
  unfolding triple_def
proof (intro allI impI)
  fix s :: "'k target"
  assume s: "at_rest l R s"
  obtain r q where q: "inferiorMalloc T fuel n s = (r, q)" by fastforce
  have "at_rest l R q" if "r \<noteq> Inl Panic" "r \<noteq> Inl OutOfFuel"
  proof (cases "\<exists>f e saved. findSymbolAddress ''malloc'' s = Inr f \<and> getEntryPointAddress T s = Inr e \<and>
      Registers_of s = Some saved")
    case False
    then have "q = s"
      using q by (auto simp: inferiorMalloc_def mbind_def mget_def split: sum.splits option.splits)
    with s show ?thesis by simp
  next
    case True
    then obtain f e saved where f: "findSymbolAddress ''malloc'' s = Inr f" "getEntryPointAddress T s = Inr e"
      and saved: "Registers_of s = Some saved" by blast
    have k: "keys s = l" and R: "R = Some saved" using s saved by (auto simp: at_rest_def)
    have alive: "thread_of (currentThread s) s \<noteq> None" using saved by (auto simp: Registers_of_def)
    have "at_rest l (Some saved) q \<and> (\<forall>v. r = Inr v \<longrightarrow> restored l (Some saved) q)"
    proof (rule call_frame [OF l k saved])
      show "triple (\<lambda>q. keys q = hooked e l \<and> threads q = threads s \<and> currentThread q = currentThread s)
          (malloc_registers T (currentThread s) n f e) (keys_are (hooked e l)) (\<lambda>_. False)"
        by (rule triple_mono [OF malloc_registers_frame]) (use alive in \<open>auto simp: thread_of_def\<close>)
      show "triple (keys_are (hooked e l)) (run_call T fuel) (keys_are (hooked e l)) (keys_are (hooked e l))"
        by (rule triple_keyed [OF settled_hooked [OF l] keeps_run_call])
      show "triple (keys_are (hooked e l)) (mget (\<lambda>q. rbind (registers_now q) (\<lambda>regs.
          case RegisterInfoByName ''rax'' of None \<Rightarrow> Inl Panic | Some info \<Rightarrow> readRegisterUint64 regs info)))
          (stopped_in (hooked e l)) (\<lambda>_. False)" for x :: unit
        by (auto simp: triple_def mget_def registers_now_def keys_are_def stopped_in_def readRegisterUint64_error
            split: option.splits sum.splits failure.splits)
      show "snd ((if y = 0 then mfail (NotFound ''malloc'') else mret y) q) = q" for y :: u64 and q :: "'k target"
        by (simp add: mfail_def mret_def)
      show "mbind (return_site T fuel e) (\<lambda>bp.
          mbind (malloc_registers T (currentThread s) n f e) (\<lambda>_.
          mbind (or_else (run_call T fuel) (restoreExprState T fuel bp (handler_at e l) saved)) (\<lambda>x.
          mbind (mget (\<lambda>q. rbind (registers_now q) (\<lambda>regs.
            case RegisterInfoByName ''rax'' of None \<Rightarrow> Inl Panic | Some info \<Rightarrow> readRegisterUint64 regs info))) (\<lambda>y.
          mbind (restoreExprState T fuel bp (handler_at e l) saved) (\<lambda>_.
            if y = 0 then mfail (NotFound ''malloc'') else mret y))))) s = (r, q)"
        using q f saved k by (simp add: inferiorMalloc_def mbind_def [of "mget _"] mget_def Let_def flip: handler_at_keys)
    qed (rule that)+
    then show ?thesis using R by simp
  qed
  then show "case inferiorMalloc T fuel n s of (Inr _, t) \<Rightarrow> at_rest l R t | (Inl (Error _), t) \<Rightarrow> at_rest l R t | _ \<Rightarrow> True"
    by (simp add: q split: sum.split failure.split)
qed

lemma at_rest_upd [simp]: "at_rest l R (upd_tdata f p) = at_rest l R p" "at_rest l R (p\<lparr>kernel := k\<rparr>) = at_rest l R p"
  by (simp_all add: at_rest_def Registers_of_def thread_of_def keys_def)

lemma stopped_in_upd [simp]: "stopped_in l (upd_tdata f p) = stopped_in l p" "stopped_in l (p\<lparr>kernel := k\<rparr>) = stopped_in l p"
  by (simp_all add: stopped_in_def Registers_of_def thread_of_def keys_def)

lemma if_cases: "triple P m Q R \<Longrightarrow> triple P n Q R \<Longrightarrow> triple P (if b then m else n) Q R"
  by simp

text \<open>Code that only touches the kernel and the target's own data.\<close>

locale quiet_data =
  fixes P :: "'k target \<Rightarrow> bool"
  assumes data: "P p \<Longrightarrow> P (upd_tdata f p)"
    and kernel: "P p \<Longrightarrow> P (p\<lparr>kernel := k\<rparr>)"
begin

lemma q_write: "keeps P (write_memory T a bs)"
  by (rule keeps_at) (simp add: write_memory_def kernel split: prod.split)

lemma q_find_global: "keeps P (find_global is name)"
proof (induction "is")
  case (Cons i "is")
  show ?case
  proof (rule keeps_at)
    fix s assume s: "P s"
    then show "P (snd (find_global (i # is) name s))"
      using keeps_app [OF Cons.IH] by (auto simp: Let_def data split: option.split prod.split)
  qed
qed (simp add: keeps_intros)

lemma q_FindVariable: "keeps P (FindVariable name)"
proof (rule keeps_at)
  fix s assume s: "P s"
  have "keeps P (\<lambda>p. find_global [0..<length (elves (t_elves (tdata p)))] name p)"
    by (rule keeps_at) (rule keeps_app [OF q_find_global])
  then have body: "keeps P (mbind (mget g) (case_option (\<lambda>p. find_global [0..<length (elves (t_elves (tdata p)))] name p)
      (\<lambda>found. mret (Some found))))" for g
    by (intro keeps_intros)
  show "P (snd (FindVariable name s))"
    using s keeps_app [OF body] unfolding FindVariable_def
    by (simp split: sum.split failure.split)
qed

lemma q_result: "keeps P (GetExpressionResult T i)"
  by (rule keeps_at) (simp add: GetExpressionResult_def Let_def data split: option.split sum.split failure.split)

lemma q_initial: "keeps P (getInitialVariableData T name)"
  unfolding getInitialVariableData_def by (intro keeps_intros q_result q_FindVariable)

lemma q_resolve: "keeps P (ResolveIndirectName T name)"
  unfolding ResolveIndirectName_def by (intro keeps_intros q_initial)

lemma q_readReturnValue: "keeps P (readReturnValue T t slot regs)"
  unfolding readReturnValue_def Let_def by (intro keeps_intros q_write)

end

interpretation rest_data: quiet_data "at_rest l R" for l R
  by unfold_locales simp_all

interpretation stopped_data: quiet_data "stopped_in l" for l
  by unfold_locales simp_all

lemma parse_frame:
  assumes l: "settled l"
  shows "triple (at_rest l R) (parseArguments T fuel s) (at_rest l R) (at_rest l R)"
proof -
  have string: "triple (at_rest l R) (parseStringArg T fuel u) (at_rest l R) (at_rest l R)" for u
    unfolding parseStringArg_def
    by (intro triple_mbind [OF inferiorMalloc_frame [OF l]] triple_keeps keeps_intros rest_data.q_write)
  have single: "triple (at_rest l R) (parseSingleArgument T fuel u) (at_rest l R) (at_rest l R)" for u
    unfolding parseSingleArgument_def
    by (intro if_cases string triple_keeps keeps_intros rest_data.q_result rest_data.q_resolve)
  have "triple (at_rest l R) (parse_all T fuel us) (at_rest l R) (at_rest l R)" for us
  proof (induction us)
    case (Cons u us)
    show ?case unfolding parse_all.simps
      by (rule triple_mbind [OF single], rule triple_mbind [OF Cons.IH], rule triple_mret)
  qed (simp add: triple_mret)
  then show ?thesis unfolding parseArguments_def by (auto intro: triple_keeps keeps_intros)
qed

lemma keeps_put_eightbyte [keeps_intros]: "keeps (keyed l) (put_eightbyte T tid c bs regs)"
  unfolding put_eightbyte_def by (intro keeps_intros)

lemma keeps_place_args [keeps_intros]: "keeps (keyed l) (place_args T tid ts args regs stack)"
proof (induction args arbitrary: ts regs stack)
  case (Cons a as)
  show ?case unfolding place_args.simps Let_def put_registers_def by (intro keeps_intros Cons.IH)
qed (simp add: keeps_intros)

lemma keeps_write_stack [keeps_intros]: "keeps (keyed l) (write_stack T pos bss)"
  by (induction bss arbitrary: pos) (simp_all add: keeps_intros)

lemma keeps_setupArguments: "keeps (keyed l) (setupArguments T tid args die ret)"
  unfolding setupArguments_def put_return_slot_def push_args_def Let_def by (intro keeps_intros)

lemma malloc_keys:
  fixes T :: "'k tenv"
  assumes "settled l"
  shows "triple (keys_are l) (inferiorMalloc T fuel n) (keys_are l) (keys_are l)"
  unfolding triple_def
proof (intro allI impI)
  fix s :: "'k target"
  assume "keys_are l s"
  then have "at_rest l (Registers_of s) s" by (simp add: keys_are_def at_rest_def)
  moreover obtain r t where "inferiorMalloc T fuel n s = (r, t)" by fastforce
  ultimately show "case inferiorMalloc T fuel n s of
      (Inr _, t) \<Rightarrow> keys_are l t | (Inl (Error _), t) \<Rightarrow> keys_are l t | _ \<Rightarrow> True"
    using tripleD [OF inferiorMalloc_frame [OF assms], where s = s and r = r and t = t]
    by (auto simp: at_rest_def keys_are_def split: sum.split failure.split)
qed

lemma prepare_frame:
  assumes l: "settled l"
  shows "triple (keys_are l) (prepare_and_run T fuel tid f die args e) (keys_are l) (keys_are l)"
proof -
  have slot: "triple (keys_are l) (return_slot T fuel t) (keys_are l) (keys_are l)" for t
    unfolding return_slot_def
    by (cases t) (auto intro!: triple_mbind [OF malloc_keys [OF l]] triple_mret)
  have rest: "triple (keys_are l) (mbind (setupArguments T tid args die ret) (\<lambda>_.
      mbind (regs_write T tid ''rip'' (VU64 f)) (\<lambda>_. mbind (mget (regs_read tid ''rsp'')) (\<lambda>rsp.
      mbind (write_memory T (rsp - 8) (le_bytes 8 e)) (\<lambda>_.
      mbind (regs_write T tid ''rsp'' (VU64 (rsp - 8))) (\<lambda>_.
      mbind (run_call T fuel) (\<lambda>_. mret ret))))))) (keys_are l) (keys_are l)" for ret
    by (intro triple_keyed [OF l] keeps_intros keeps_setupArguments)
  show ?thesis unfolding prepare_and_run_def
    by (rule triple_mbind [OF triple_keyed [OF l keeps_basic(4)]], rule triple_mbind [OF slot], rule rest)
qed

lemma record_frame: "triple (keys_are l) (record_result T ret) (stopped_in l) (\<lambda>_. False)"
proof -
  have "triple (keys_are l) (mget registers_now) (stopped_in l) (\<lambda>_. False)"
    by (auto simp: triple_def mget_def registers_now_def keys_are_def stopped_in_def split: option.splits)
  moreover have "triple (stopped_in l) (case ret of None \<Rightarrow> mret None
      | Some (t, slot) \<Rightarrow> mbind (mtry (readReturnValue T t slot regs)) (\<lambda>r.
         case r of Inl _ \<Rightarrow> mret None
         | Inr td \<Rightarrow> (\<lambda>p. (Inr (Some (td, length (t_exprResults (tdata p)))),
              upd_tdata (\<lambda>d. d\<lparr>t_exprResults := t_exprResults d @ [td]\<rparr>) p)))) (stopped_in l) (\<lambda>_. False)" for regs
  proof (cases ret)
    case (Some x)
    have r: "triple (stopped_in l) (mtry (readReturnValue T t slot regs)) (stopped_in l) (\<lambda>_. False)" for t slot
      by (rule triple_mtry [OF triple_keeps [OF stopped_data.q_readReturnValue]])
    show ?thesis unfolding Some
      by (auto intro!: triple_mbind [OF r] triple_mret split: prod.split sum.split) (simp_all add: triple_def)
  qed (simp add: triple_mret)
  ultimately show ?thesis unfolding record_result_def by (rule triple_mbind)
qed

lemma evaluation_frame:
  assumes l: "settled (keys p)" and run: "EvaluateExpression T fuel expr p = (r, q)"
    and ok: "r \<noteq> Inl Panic" "r \<noteq> Inl OutOfFuel"
  shows "at_rest (keys p) (Registers_of p) q \<and> (\<forall>v. r = Inr v \<longrightarrow> Registers_of q = Registers_of p)"
proof -
  let ?l = "keys p" and ?R = "Registers_of p"
  have start: "at_rest ?l ?R p" by (simp add: at_rest_def)
  show ?thesis
  proof (cases "\<exists>fn a addr die. parse_call expr = Inr (fn, a) \<and> findCallableFunction fn p = Inr (addr, die)")
    case False
    then have "q = p \<and> isl r" using run by (auto simp: EvaluateExpression_def mbind_def mget_def split: sum.splits prod.splits)
    with start show ?thesis by auto
  next
    case True
    then obtain fn a addr die where f: "parse_call expr = Inr (fn, a)" "findCallableFunction fn p = Inr (addr, die)" by blast
    obtain r1 p1 where args: "parseArguments T fuel a p = (r1, p1)" by fastforce
    have "r1 \<noteq> Inl Panic \<and> r1 \<noteq> Inl OutOfFuel" using run ok f args by (auto simp: EvaluateExpression_def mbind_def mget_def)
    then have p1: "at_rest ?l ?R p1" using tripleD [OF parse_frame [OF l] start args] by blast
    show ?thesis
    proof (cases "\<exists>as e saved. r1 = Inr as \<and> getEntryPointAddress T p1 = Inr e \<and> Registers_of p1 = Some saved")
      case False
      then have "q = p1 \<and> isl r" using run f args
        by (auto simp: EvaluateExpression_def mbind_def mget_def split: sum.splits option.splits)
      with p1 show ?thesis by auto
    next
      case True
      then obtain "as" e saved where g: "r1 = Inr as" "getEntryPointAddress T p1 = Inr e" "Registers_of p1 = Some saved"
        by blast
      have R: "?R = Some saved" and k: "keys p1 = ?l" using p1 g(3) by (auto simp: at_rest_def)
      have h: "settled (hooked e ?l)" by (rule settled_hooked [OF l])
      have "at_rest ?l (Some saved) q \<and> (\<forall>v. r = Inr v \<longrightarrow> restored ?l (Some saved) q)"
      proof (rule call_frame [OF l k g(3)])
        show "triple (\<lambda>q. keys q = hooked e ?l \<and> threads q = threads p1 \<and> currentThread q = currentThread p1)
            (mret ()) (keys_are (hooked e ?l)) (\<lambda>_. False)"
          by (rule triple_mret) (simp add: keys_are_def)
        show "triple (keys_are (hooked e ?l)) (prepare_and_run T fuel (currentThread p1) addr die as e)
            (keys_are (hooked e ?l)) (keys_are (hooked e ?l))" by (rule prepare_frame [OF h])
        show "triple (keys_are (hooked e ?l)) (record_result T ret) (stopped_in (hooked e ?l)) (\<lambda>_. False)" for ret
          by (rule record_frame)
        show "snd (mret v s) = s" for v :: "(TypedData \<times> nat) option" and s :: "'a target" by (simp add: mret_def)
        show "mbind (return_site T fuel e) (\<lambda>bp. mbind (mret ()) (\<lambda>_.
            mbind (or_else (prepare_and_run T fuel (currentThread p1) addr die as e)
              (restoreExprState T fuel bp (handler_at e ?l) saved)) (\<lambda>ret.
            mbind (record_result T ret) (\<lambda>result.
            mbind (restoreExprState T fuel bp (handler_at e ?l) saved) (\<lambda>_. mret result))))) p1 = (r, q)"
          using run f args g by (simp add: EvaluateExpression_def mbind_def [of "mget _"] mbind_def [of "parseArguments _ _ _"]
              mget_def Let_def handler_at_keys flip: k)
      qed (rule ok)+
      then show ?thesis using R by (auto simp: restored_def)
    qed
  qed
qed

text \<open>
  C12 (safety).  Evaluating a call gives back what it takes.  When \<open>EvaluateExpression\<close> returns, with a
  value or an error at any stage, the \<open>malloc\<close> calls for strings and for the return value included,
  the breakpoint sites are the ones from before, in order and with their handlers, and the
  registers cached for the current thread are those from before; they can only be missing after an
  error that has left no current thread.
\<close>

theorem evaluation_restores:
  assumes "distinct (map bp_address (sites (breakpointSites p)))"
    and "\<And>b. b \<in> set (sites (breakpointSites p)) \<Longrightarrow> bp_onHit b \<noteq> Some 0"
    and "EvaluateExpression T fuel expr p = (r, q)" "r \<noteq> Inl Panic" "r \<noteq> Inl OutOfFuel"
  shows "map (\<lambda>b. (bp_id b, bp_address b, bp_onHit b)) (sites (breakpointSites q)) =
      map (\<lambda>b. (bp_id b, bp_address b, bp_onHit b)) (sites (breakpointSites p)) \<and>
    (Registers_of q = Registers_of p \<or> (Registers_of q = None \<and> isl r))"
proof -
  have s: "settled (keys p)"
    using assms(1,2) unfolding settled_def keys_def map_map key_address list_all_iff
    by (auto simp: site_key_def)
  note f = evaluation_frame [OF s assms(3-5)]
  then have "map (\<lambda>(i, a, h, _). (i, a, h)) (keys q) = map (\<lambda>(i, a, h, _). (i, a, h)) (keys p)"
    by (simp add: at_rest_def)
  then show ?thesis using f by (cases r) (auto simp: at_rest_def keys_def site_key_def comp_def)
qed

lemma call_returns: "\<not> isl (fst (EvaluateExpression call_tenv 3 ''f()'' call_target))"
  by code_simp

theorem evaluation_restores_witness:
  "map (\<lambda>b. (bp_id b, bp_address b, bp_onHit b))
      (sites (breakpointSites (snd (EvaluateExpression call_tenv 3 ''f()'' call_target)))) = [(1, 0x20, None)] \<and>
    Registers_of (snd (EvaluateExpression call_tenv 3 ''f()'' call_target)) = Registers_of call_target"
proof -
  obtain r q where run: "EvaluateExpression call_tenv 3 ''f()'' call_target = (r, q)" by fastforce
  then have r: "r \<noteq> Inl Panic" "r \<noteq> Inl OutOfFuel" "\<not> isl r" using call_returns by auto
  have s: "sites (breakpointSites call_target) = sites (breakpointSites (walk_with 1))" by (simp add: call_target_def)
  from evaluation_restores [OF _ _ run r(1,2)] r(3) run show ?thesis by (simp add: s walk_with_site)
qed

end
