(* ===== verification/Toydbg.thy ===== *)
theory Toydbg
  imports Console Calls
begin

text \<open>
  The prompt of the debugger, the rest of \<open>src/cmd/toydbg/main.go\<close>: what is printed when the tracee stops,
  the commands on variables, expressions and the call stack, and the loop that reads command lines.
  The goroutine that turns Ctrl+C into a \<open>SIGSTOP\<close> acts on the tracee from outside and is not part of the model.
\<close>

section \<open>Source lines\<close>

text \<open>\<open>filepath.Clean\<close>, \<open>Dir\<close> and \<open>Join\<close>.\<close>

fun clean_parts :: "bool \<Rightarrow> string list \<Rightarrow> string list \<Rightarrow> string list" where
  "clean_parts rooted acc [] = rev acc"
| "clean_parts rooted acc (c # cs) =
     (if c = [] \<or> c = ''.'' then clean_parts rooted acc cs
      else if c = ''..'' then
        (if acc \<noteq> [] \<and> hd acc \<noteq> ''..'' then clean_parts rooted (tl acc) cs
         else if rooted then clean_parts rooted acc cs
         else clean_parts rooted (c # acc) cs)
      else clean_parts rooted (c # acc) cs)"

definition path_Clean :: "string \<Rightarrow> string" where
  "path_Clean s =
     (let rooted = (s \<noteq> [] \<and> hd s = CHR ''/'');
          r = (if rooted then ''/'' else '''') @ join ''/'' (clean_parts rooted [] (splits (CHR ''/'') s))
      in if r = [] then ''.'' else r)"

definition path_Dir :: "string \<Rightarrow> string" where
  "path_Dir s = path_Clean (rev (dropWhile (\<lambda>c. c \<noteq> CHR ''/'') (rev s)))"

definition path_Join :: "string \<Rightarrow> string \<Rightarrow> string" where
  "path_Join a b =
     (case filter (\<lambda>s. s \<noteq> []) [a, b] of [] \<Rightarrow> [] | parts \<Rightarrow> path_Clean (join ''/'' parts))"

text \<open>What is printed, and whether the source was.\<close>

definition source_file :: "('k, 'i) cli \<Rightarrow> 'k target \<Rightarrow> string \<Rightarrow> string" where
  "source_file C p file =
     (if cl_stat C file then file
      else case main_elf (tdata p) of
        None \<Rightarrow> file
      | Some e \<Rightarrow>
          (let candidate = path_Join (path_Dir (el_path e)) (path_Base file)
           in if cl_stat C candidate then candidate else file))"

definition PrintSourceAtPC :: "('k, 'i) cli \<Rightarrow> int \<Rightarrow> 'k target \<Rightarrow> printed list \<times> bool" where
  "PrintSourceAtPC C contextLines p =
     (case SourceLocationAtPC p of
        None \<Rightarrow> ([], False)
      | Some loc \<Rightarrow>
          (let fn = (case dwarfAtPC p of None \<Rightarrow> '''' | Some dw \<Rightarrow>
                 (case FunctionContainingPC dw (currentPC p) of None \<Rightarrow> '''' | Some f \<Rightarrow> fn_Name f));
               place = path_Base (sl_File loc) @ '':'' @ fmt_d (sl_Line loc);
               header = println (if fn \<noteq> '''' then fn @ '' at '' @ place else place)
           in case cl_open C (source_file C p (sl_File loc)) of
                None \<Rightarrow> ([header], False)
              | Some content \<Rightarrow> ([header, Out (PrintSource content (sl_Line loc) contextLines)], True)))"

section \<open>Stops\<close>

definition signalName :: "('k, 'i) cli \<Rightarrow> u8 \<Rightarrow> string" where
  "signalName C sig = (if cl_signalName C sig \<noteq> '''' then cl_signalName C sig else ''signal '' @ fmt_d (uint sig))"

definition syscall_text :: "SyscallInformation \<Rightarrow> string" where
  "syscall_text info =
     (let name = SyscallIDToName (uint (si_ID info)) in
      if si_Entry info then
        '' (syscall entry)'' @ newline @ ''syscall: '' @ name @ ''('' @ join '', '' (map (\<lambda>a. fmt_x (unat a)) (si_Args info)) @ '')''
      else '' (syscall exit)'' @ newline @ ''syscall: '' @ name @ '' returned '' @ fmt_d (sint (si_Ret info)))"

definition watch_text :: "'k target \<Rightarrow> i32 \<Rightarrow> string" where
  "watch_text p i =
     (case WatchpointByID p i of
        Some w \<Rightarrow> '' (watchpoint '' @ fmt_d (sint (wp_id w)) @ '')'' @ newline @ ''Old value: '' @ fmt_x (unat (wp_previousData w)) @
                  newline @ ''New value: '' @ fmt_x (unat (wp_data w))
      | None \<Rightarrow> '' (watchpoint '' @ fmt_d (sint i) @ '')'')"

definition getSigtrapInfo :: "'k target \<Rightarrow> StopReason \<Rightarrow> string res" where
  "getSigtrapInfo p reason =
     (case sr_TrapReason reason of
        Some TrapSingleStep \<Rightarrow> Inr '' (single step)''
      | Some TrapSoftwareBreak \<Rightarrow>
          on_error (GetPC p) (Inr '' (software breakpoint)'') (\<lambda>pc.
            Inr (case find (\<lambda>b. bp_address b = pc \<and> \<not> bp_isHardware b) (BreakpointSites p) of
                   Some b \<Rightarrow> '' (breakpoint '' @ fmt_d (sint (bp_id b)) @ '')''
                 | None \<Rightarrow> '' (software breakpoint)''))
      | Some TrapHardwareBreak \<Rightarrow>
          on_error (GetCurrentHardwareStoppoint p) (Inr '' (hardware breakpoint)'') (\<lambda>hs.
            Inr (if hs_IsWatchpoint hs then watch_text p (hs_WatchpointID hs)
                 else '' (breakpoint '' @ fmt_d (sint (hs_BreakpointID hs)) @ '')''))
      | Some TrapSyscall \<Rightarrow>
          Inr (case sr_SyscallInfo reason of None \<Rightarrow> '' (syscall)'' | Some info \<Rightarrow> syscall_text info)
      | _ \<Rightarrow> Inr '''')"

text \<open>The name of the function at an address, qualified by the file name of an object other than the main one.\<close>

definition function_text :: "ELF \<Rightarrow> u64 \<Rightarrow> string option" where
  "function_text e pc =
     (case Option.bind (el_dwarf e) (\<lambda>dw. map_option (Pair dw) (FunctionContainingPC dw pc)) of
        Some (dw, fn) \<Rightarrow>
          Some (case PCToSourceLocation dw pc of
                  Some loc \<Rightarrow> fn_Name fn @ '' at '' @ path_Base (sl_File loc) @ '':'' @ fmt_d (sl_Line loc)
                | None \<Rightarrow> fn_Name fn)
      | None \<Rightarrow> FunctionContainingAddress e pc)"

definition formatFunctionInfo :: "'k target \<Rightarrow> u64 \<Rightarrow> string" where
  "formatFunctionInfo p pc =
     (let td = tdata p;
          i = (case elf_index td pc of Some i \<Rightarrow> Some i | None \<Rightarrow> t_mainELF td)
      in case elfForPC td pc of
           None \<Rightarrow> ''''
         | Some e \<Rightarrow>
             (let prefix = (if i = t_mainELF td then '''' else Filename e @ [CHR 0x60])
              in case function_text e pc of None \<Rightarrow> '''' | Some t \<Rightarrow> '' ('' @ prefix @ t @ '')''))"

definition stop_line :: "('k, 'i) cli \<Rightarrow> 'k target \<Rightarrow> StopReason \<Rightarrow> string res" where
  "stop_line C p reason =
     (let thread = (if 1 < length (threads p) \<and> sr_TID reason \<noteq> 0 then ''thread '' @ fmt_d (sr_TID reason) @ '': '' else '''');
          name = signalName C (sr_Info reason)
      in case sr_Reason reason of
           ProcessStopped \<Rightarrow>
             rbind (getSigtrapInfo p reason) (\<lambda>trap.
             on_error (GetPC p) (Inr (thread @ ''process stopped by '' @ name @ trap)) (\<lambda>pc.
               Inr (thread @ ''process stopped by '' @ name @ '' at '' @ fmt_x (unat pc) @ formatFunctionInfo p pc @ trap)))
         | ProcessExited \<Rightarrow> Inr (''process exited with code '' @ fmt_d (uint (sr_Info reason)))
         | ProcessTerminated \<Rightarrow> Inr (''process terminated by '' @ name)
         | ProcessRunning \<Rightarrow> Inr ''process running'')"

text \<open>The outputs of two handlers, one after the other.\<close>

definition both :: "'k handler \<Rightarrow> 'k handler \<Rightarrow> 'k handler" where
  "both m n = mbind m (\<lambda>out. mbind n (\<lambda>out'. mret (out @ out')))"

definition printStopReason :: "('k, 'i) cli \<Rightarrow> StopReason \<Rightarrow> 'k handler" where
  "printStopReason C reason = mbind (mget (\<lambda>p. stop_line C p reason)) (\<lambda>s. prints [s])"

definition handleStop :: "('k, 'i) cli \<Rightarrow> StopReason \<Rightarrow> 'k handler" where
  "handleStop C reason =
     both (printStopReason C reason)
       (if sr_Reason reason \<noteq> ProcessStopped then mret []
        else (\<lambda>p. let (out, shown) = PrintSourceAtPC C 2 p in
                  both (mret out) (if shown then mret [] else printDisassembly C 5 None) p))"

section \<open>Variables, expressions and the call stack\<close>

definition print_env_at :: "('k, 'i) cli \<Rightarrow> 'k target \<Rightarrow> print_env" where
  "print_env_at C p =
     \<lparr>ty_mem = mem (cl_target C) p, ty_ref = te_ref (cl_target C), pr_float32 = cl_float32 C, pr_float64 = cl_float64 C,
      pr_quote = cl_quote C, pr_fuel = te_fuel (cl_target C)\<rparr>"

definition with_text :: "('k, 'i) cli \<Rightarrow> TypedData \<Rightarrow> (string \<Rightarrow> 'k handler) \<Rightarrow> 'k handler" where
  "with_text C td f = mbind (mget (\<lambda>p. Visualize (print_env_at C p) td 0)) f"

definition handleVariableRead :: "('k, 'i) cli \<Rightarrow> string \<Rightarrow> 'k handler" where
  "handleVariableRead C name =
     attempt '''' (ResolveIndirectName (cl_target C) name) (\<lambda>td. with_text C td (\<lambda>s. prints [''Value: '' @ s]))"

fun print_locals :: "('k, 'i) cli \<Rightarrow> (string \<times> TypedData) list \<Rightarrow> 'k handler" where
  "print_locals C [] = mret []"
| "print_locals C ((name, td) # vars) =
     both (with_text C td (\<lambda>s. prints [name @ '': '' @ s])) (print_locals C vars)"

definition handleVariableLocals :: "('k, 'i) cli \<Rightarrow> 'k handler" where
  "handleVariableLocals C =
     attempt '''' (mget (LocalVariables (cl_target C))) (\<lambda>vars.
       if vars = [] then prints [''no local variables in scope''] else print_locals C vars)"

definition simple_location :: "SimpleLocation \<Rightarrow> string" where
  "simple_location loc =
     (case loc of
        LocRegister n \<Rightarrow>
          (case RegisterInfoByDwarf (sint n) of
             Some info \<Rightarrow> ''Register: '' @ ri_Name info
           | None \<Rightarrow> ''Register: dwarf_'' @ fmt_d (uint n))
      | LocAddress a \<Rightarrow> ''Address: '' @ fmt_x (unat a)
      | LocLiteral v \<Rightarrow> ''Literal: '' @ fmt_d (uint v)
      | LocEmpty \<Rightarrow> ''Optimized out''
      | LocData bs \<Rightarrow> ''Location kind: 4'')"

definition piece_line :: "int \<Rightarrow> Piece \<Rightarrow> string" where
  "piece_line i piece =
     ''Piece '' @ fmt_d i @ '': offset='' @ fmt_d (uint (p_Offset piece)) @ '', bit_size='' @ fmt_d (uint (p_BitSize piece)) @
     '', location='' @ simple_location (p_Location piece)"

definition location_lines :: "ExprResult \<Rightarrow> string list" where
  "location_lines r =
     (case r of
        Single loc \<Rightarrow> [simple_location loc]
      | Composite pieces \<Rightarrow> map (\<lambda>(i, piece). piece_line i piece) (zip [0..int (length pieces) - 1] pieces))"

definition handleVariableLocation :: "('k, 'i) cli \<Rightarrow> string \<Rightarrow> 'k handler" where
  "handleVariableLocation C name =
     attempt '''' (VariableLocation (cl_target C) name) (\<lambda>r. prints (location_lines r))"

definition handleVariable :: "('k, 'i) cli \<Rightarrow> string list \<Rightarrow> 'k handler" where
  "handleVariable C args =
     (case args of
        [] \<Rightarrow> prints [''usage: variable <read|locals|location> [args...]'', ''  type 'help variable' for details'']
      | sub # rest \<Rightarrow>
          if sub = ''locals'' then handleVariableLocals C
          else if sub = ''read'' then
            (case rest of [] \<Rightarrow> prints [''usage: variable read <name>''] | name # _ \<Rightarrow> handleVariableRead C name)
          else if sub = ''location'' then
            (case rest of [] \<Rightarrow> prints [''usage: variable location <name>''] | name # _ \<Rightarrow> handleVariableLocation C name)
          else unknown_sub ''variable'' sub)"

text \<open>The expression is what follows the first space of the line.\<close>

definition handleExpression :: "('k, 'i) cli \<Rightarrow> string \<Rightarrow> 'k handler" where
  "handleExpression C line =
     (case index_of (CHR '' '') line of
        None \<Rightarrow> prints [''usage: expression <function-call>'', ''  example: expr print_value(42)'']
      | Some i \<Rightarrow>
          (let expr = TrimSpace (drop (i + 1) line) in
           if expr = [] then prints [''usage: expression <function-call>'']
           else
             attempt '''' (EvaluateExpression (cl_target C) (cl_fuel C) expr) (\<lambda>r.
               case r of
                 None \<Rightarrow> mret []
               | Some (td, n) \<Rightarrow> with_text C td (\<lambda>s. prints [''$'' @ fmt_d (int n) @ '': '' @ s]))))"

definition handleBacktrace :: "('k, 'i) cli \<Rightarrow> 'k handler" where
  "handleBacktrace C =
     mbind (Backtrace (cl_target C) (cl_fuel C) 0) (\<lambda>frames. mret [Out (FormatBacktrace frames)])"

section \<open>The loop\<close>

text \<open>A command returns what it prints and whether the loop ends.\<close>

type_synonym 'k command = "('k target, printed list \<times> bool) st"

definition stays_on :: "'k handler \<Rightarrow> 'k command" where
  "stays_on m = mbind m (\<lambda>out. mret (out, False))"

definition report_stop :: "('k, 'i) cli \<Rightarrow> StopReason \<Rightarrow> 'k command" where
  "report_stop C reason =
     mbind (handleStop C reason) (\<lambda>out. mret (out, sr_Reason reason \<in> {ProcessExited, ProcessTerminated}))"

text \<open>A command that runs the tracee; after an error the loop goes on, or ends when \<open>quits\<close>.\<close>

definition run_tracee :: "('k, 'i) cli \<Rightarrow> bool \<Rightarrow> ('k target, 'a) st \<Rightarrow> ('a \<Rightarrow> 'k command) \<Rightarrow> 'k command" where
  "run_tracee C quits m f =
     mbind (mtry m) (\<lambda>r. case r of
       Inl e \<Rightarrow> mret ([Failed ''toydbg: '' e], quits)
     | Inr x \<Rightarrow> f x)"

definition list_source :: "('k, 'i) cli \<Rightarrow> 'k handler" where
  "list_source C p =
     (let (out, shown) = PrintSourceAtPC C 5 p in
      (Inr (if shown then out else out @ [println ''no source information available at current PC'']), p))"

definition command :: "('k, 'i) cli \<Rightarrow> string \<Rightarrow> 'k command" where
  "command C line =
     (let T = cl_target C; fuel = cl_fuel C; E = cl_env C in
      case Fields line of
        [] \<Rightarrow> stays_on (handleHelp [])
      | w # args \<Rightarrow>
          if w \<in> {''help'', ''h''} then stays_on (handleHelp args)
          else if w \<in> {''continue'', ''c''} then
            run_tracee C False (ResumeAllThreads E) (\<lambda>_. run_tracee C True (WaitOnSignal E fuel) (report_stop C))
          else if w \<in> {''breakpoint'', ''break''} then stays_on (handleBreakpoint C args)
          else if w \<in> {''stepi'', ''si''} then run_tracee C False (StepInstruction E fuel) (report_stop C)
          else if w \<in> {''step'', ''s''} then run_tracee C False (StepIn T fuel) (report_stop C)
          else if w \<in> {''next'', ''n''} then run_tracee C False (StepOver T fuel) (report_stop C)
          else if w \<in> {''finish'', ''fin''} then run_tracee C False (StepOut T fuel) (report_stop C)
          else if w \<in> {''list'', ''l''} then stays_on (list_source C)
          else if w \<in> {''register'', ''reg''} then stays_on (handleRegister C args)
          else if w \<in> {''memory'', ''mem''} then stays_on (handleMemory C args)
          else if w \<in> {''watchpoint'', ''watch''} then stays_on (handleWatchpoint C args)
          else if w \<in> {''disassemble'', ''disas''} then stays_on (handleDisassemble C args)
          else if w \<in> {''catchpoint'', ''catch''} then stays_on (handleCatchpoint C args)
          else if w \<in> {''backtrace'', ''bt''} then stays_on (handleBacktrace C)
          else if w \<in> {''variable'', ''var''} then stays_on (handleVariable C args)
          else if w \<in> {''expression'', ''expr''} then stays_on (handleExpression C line)
          else if w \<in> {''thread'', ''t''} then stays_on (handleThread C args)
          else if w \<in> {''quit'', ''q'', ''exit''} then mret ([], True)
          else mret ([println (''unknown command: '' @ fmt_q w)], False))"

text \<open>What the line editor delivers: a line, an interrupt, or an error; the end of the list is the end of the input.\<close>

datatype input = Typed string | Interrupted | Broken

fun repl :: "('k, 'i) cli \<Rightarrow> input list \<Rightarrow> 'k handler" where
  "repl C [] = prints ['''']"
| "repl C (Interrupted # rest) = repl C rest"
| "repl C (Broken # rest) = mret [Err (''toydbg: REPL read failed'' @ newline)]"
| "repl C (Typed line # rest) =
     mbind (command C line) (\<lambda>(out, quits).
       if quits then mret out else both (mret out) (repl C rest))"

text \<open>A session on a program, or on a running process when its pid is not 0; the target is closed at the end.\<close>

definition session :: "('k, 'i) cli \<Rightarrow> int \<Rightarrow> string \<Rightarrow> input list \<Rightarrow> 'k handler" where
  "session C pid program inputs =
     attempt '''' (if pid \<noteq> 0 then AttachTarget (cl_target C) (cl_fuel C) pid
                 else launchTargetWithOpts (cl_target C) (cl_fuel C) program) (\<lambda>_.
       mbind (repl C inputs) (\<lambda>out.
       mbind (mdrop (CloseTarget (cl_target C) (cl_fuel C))) (\<lambda>_. mret out)))"

end
