(* ===== verification/Prompt.thy ===== *)
theory Prompt
  imports Toydbg
begin

text \<open>
  What a user may rely on at the prompt: commands that only look leave the target alone, breakpoint
  commands keep the program's bytes visible to the others, and what a command prints another one reads.
\<close>

section \<open>Parsing what was printed\<close>

lemma ParseHex_digits: "n < 2 ^ bits \<Longrightarrow> ParseHex (pad_left (CHR ''0'') w (digits 16 n)) bits = Some n"
proof -
  assume n: "n < 2 ^ bits"
  let ?body = "pad_left (CHR ''0'') w (digits 16 n)"
  have "parse_digits 16 (2 ^ bits - 1) ?body 0 = Some n"
    using n by (simp add: pad_left_def parse_digits_zeros parse_digits_digits)
  moreover have "CHR ''_'' \<notin> set ?body" using pad_zero_plain by blast
  moreover have "?body \<noteq> []" by (simp add: pad_left_def)
  ultimately show ?thesis by (simp add: ParseHex_def)
qed

lemma TrimPrefix_append [simp]: "TrimPrefix (p @ s) p = s"
  by (simp add: TrimPrefix_def HasPrefix_def)

lemma ParseHex_fmt_0x: "n < 2 ^ bits \<Longrightarrow> ParseHex (TrimPrefix (fmt_0x w n) ''0x'') bits = Some n"
  unfolding fmt_0x_def TrimPrefix_append by (rule ParseHex_digits)

lemma fmt_x_0x: "fmt_x n = fmt_0x 0 n"
  by (simp add: fmt_x_def fmt_0x_def pad_left_def)

lemma with_address_fmt [simp]: "with_address (fmt_x (unat a)) f = f a"
proof -
  have "unat a < 2 ^ 64" using unsigned_less [of a] by simp
  then show ?thesis by (simp add: with_address_def fmt_x_0x ParseHex_fmt_0x)
qed

lemma parse_hex_bytes_fmt: "parse_hex_bytes (map (\<lambda>v. fmt_0x 2 (unat v)) (bs :: u8 list)) = Inr bs"
proof (induction bs)
  case (Cons b bs)
  have "unat b < 2 ^ 8" using unsigned_less [of b] by simp
  then have "ParseHex (TrimPrefix (fmt_0x 2 (unat b)) ''0x'') 8 = Some (unat b)" by (rule ParseHex_fmt_0x)
  moreover have "TrimSpace (fmt_0x 2 (unat b)) = fmt_0x 2 (unat b)"
    using fmt_0x_plain by (blast intro: TrimSpace_id)
  moreover have "fmt_0x 2 (unat b) \<noteq> []" by (simp add: fmt_0x_def)
  ultimately show ?case using Cons by (simp add: Let_def)
qed simp

lemma TrimSuffix_append [simp]: "TrimSuffix (s @ p) p = s"
  by (simp add: TrimSuffix_def HasPrefix_def)

lemma parseByteList_formatBytes:
  assumes "bs \<noteq> []"
  shows "parseByteList (formatBytes bs) = Inr bs"
proof -
  let ?ws = "map (\<lambda>v. fmt_0x 2 (unat v)) bs"
  have "splits (CHR '','') (join '','' ?ws) = ?ws"
    by (rule splits_join) (use assms fmt_0x_no_comma in auto)
  then show ?thesis
    unfolding parseByteList_def formatBytes_def TrimPrefix_append append_assoc TrimSuffix_append
    using assms by (simp add: parse_hex_bytes_fmt)
qed

section \<open>Memory\<close>

lemma attempt_ok: "m p = (Inr x, q) \<Longrightarrow> attempt s m f p = f x q"
  by (simp add: attempt_def mbind_def mtry_def)

lemma attempt_cases:
  "attempt s m f p = (case m p of
     (Inr x, q) \<Rightarrow> f x q | (Inl (Error e), q) \<Rightarrow> fails s e q | (Inl Panic, q) \<Rightarrow> (Inl Panic, q) | (Inl OutOfFuel, q) \<Rightarrow> (Inl OutOfFuel, q))"
  by (simp add: attempt_def mbind_def mtry_def split: prod.splits sum.splits failure.splits)

lemma memory_write:
  assumes "bs \<noteq> []"
  shows "handleMemory C [''write'', fmt_x (unat a), formatBytes bs] =
    attempt ''memory write failed: '' (write_memory (cl_target C) a bs) (\<lambda>_.
      prints [''wrote '' @ fmt_d (int (length bs)) @ '' bytes at '' @ fmt_x (unat a)])"
  by (rule ext) (simp add: handleMemory_def attempt_ok [OF mget_eq [THEN iffD2]] parseByteList_formatBytes [OF assms])

text \<open>
  C33 (roundtrip).  What \<open>memory write\<close> wrote \<open>memory read\<close> shows: after a write of a byte list, as registers
  are printed, that was reported as done, reading as many bytes at the same address prints the rows of
  these bytes, in hexadecimal and sixteen to a row, if the kernel delivers all of them.
\<close>

theorem memory_written_is_shown:
  assumes "mem_laws (memory (kenv (cl_target C))) (p_pid p) view" "bs \<noteq> []" "length bs < 2 ^ 63"
    and "handleMemory C [''write'', fmt_x (unat a), formatBytes bs] p = (Inr [println s], q)"
    and "mem (cl_target C) q a (int (length bs)) = Inr data" "length data = length bs"
  shows "handleMemory C [''read'', fmt_x (unat a), fmt_d (int (length bs))] q = (Inr (map println (hex_rows a bs)), q)"
proof -
  let ?M = "memory (kenv (cl_target C))"
  have "attempt ''memory write failed: '' (write_memory (cl_target C) a bs) (\<lambda>_.
      prints [''wrote '' @ fmt_d (int (length bs)) @ '' bytes at '' @ fmt_x (unat a)]) p = (Inr [println s], q)"
    using assms(4) by (simp only: memory_write [OF assms(2)])
  then obtain k where w: "WriteMemory ?M (p_pid p) a bs (kernel p) = (Inr (), k)" and q: "q = p\<lparr>kernel := k\<rparr>"
    by (auto simp: attempt_cases write_memory_def fails_def prints_def println_def
        split: prod.splits sum.splits failure.splits)
  have "view k = store a bs (view (kernel p))"
    using write_loop_view [OF assms(1)] w assms(3) by (simp add: WriteMemory_def)
  then have "bytes_at (view k) a (length bs) = bs"
    using assms(3) by (intro nth_equalityI) (simp_all add: store_def bytes_at_def unat_of_nat take_bit_nat_eq_self)
  moreover have "ReadMemory ?M (p_pid p) a (int (length bs)) k = Inr data"
    using assms(5) by (simp add: mem_def q)
  ultimately have "data = bs"
    using ReadMemory_bytes [OF assms(1), of a "int (length bs)" k data] assms(3,6) by simp
  moreover have "Atoi (fmt_d (int (length bs))) = Some (int (length bs))" using assms(3) by (rule Atoi_fmt_d)
  ultimately show ?thesis
    using assms(2,5) by (simp add: handleMemory_def memory_read_def attempt_ok [OF mget_eq [THEN iffD2]] prints_def)
qed

text \<open>A prompt over the flat memory.\<close>

definition demo_cli :: "(u64 \<Rightarrow> u8, nat) cli" where
  "demo_cli = \<lparr>cl_target = demo_tenv, cl_fuel = 3, cl_float = (\<lambda>w. ''0''), cl_float32 = (\<lambda>w. ''0''), cl_float64 = (\<lambda>w. ''0''),
     cl_quote = (\<lambda>bs. []), cl_order = syscallTable, cl_signalName = (\<lambda>s. ''''), cl_stat = (\<lambda>f. False),
     cl_open = (\<lambda>f. None), cl_x86asm = toy_decoder\<rparr>"

lemma lift_mem_laws: "mem_laws M pid view \<Longrightarrow> mem_laws (lift_mem M) pid (view \<circ> fst)"
  by (auto simp: mem_laws_def lift_mem_def lift_get_def lift_req_def split: option.splits)

lemma demo_memory: "memory (kenv demo_tenv) = lift_mem (flat_ops one_page)"
  by (simp add: kenv_def lift_env_def demo_tenv_def flat_env_def)

lemma demo_mem_laws: "mem_laws (memory (kenv demo_tenv)) pid fst"
  using lift_mem_laws [OF flat_ops_laws, of one_page pid] by (simp add: demo_memory comp_def)

lemma ReadMemory_lifted: "ReadMemory (lift_mem M) pid a n k = ReadMemory M pid a n (fst k)"
  by (simp add: ReadMemory_def processVMReadv_def lift_mem_def lift_get_def)

lemma demo_page: "list_all (\<lambda>(a, len). one_page a) (remoteIov 0x401010 (word_of_int 2))"
  by code_simp

lemma demo_stored:
  "fst (WriteMemory (memory (kenv demo_tenv)) 1 0x401010 [0x2A, 7] (code_page, d)) = Inr ()"
  unfolding demo_memory by code_simp

theorem memory_written_is_shown_witness:
  "\<exists>q. handleMemory demo_cli [''read'', fmt_x (unat (0x401010 :: u64)), fmt_d 2] q =
     (Inr (map println (hex_rows 0x401010 [0x2A, 7])), q)"
proof -
  let ?bs = "[0x2A, 7] :: u8 list"
  have t: "cl_target demo_cli = demo_tenv" by (simp add: demo_cli_def)
  obtain k where k: "WriteMemory (memory (kenv demo_tenv)) (p_pid demo_target) 0x401010 ?bs (kernel demo_target) = (Inr (), k)"
    using demo_stored by (simp add: demo_target_def) (metis prod.collapse)
  then have "write_memory demo_tenv 0x401010 ?bs demo_target = (Inr (), demo_target\<lparr>kernel := k\<rparr>)"
    by (simp add: write_memory_def)
  then have w: "handleMemory demo_cli [''write'', fmt_x (unat (0x401010 :: u64)), formatBytes ?bs] demo_target =
      (Inr [println (''wrote '' @ fmt_d (int (length ?bs)) @ '' bytes at '' @ fmt_x (unat (0x401010 :: u64)))], demo_target\<lparr>kernel := k\<rparr>)"
    by (subst memory_write) (simp_all only: t attempt_ok prints_def list.map mret_def list.distinct not_False_eq_True)
  have r: "mem demo_tenv (demo_target\<lparr>kernel := k\<rparr>) 0x401010 (int (length ?bs)) = Inr (bytes_at (fst k) 0x401010 2)"
    using flat_read [of 2 one_page "0x401010" "p_pid demo_target" "fst k"] demo_page
    by (simp add: mem_def demo_memory ReadMemory_lifted)
  have "length (bytes_at (fst k) 0x401010 2) = length ?bs" "?bs \<noteq> []" "length ?bs < 2 ^ 63" by simp_all
  note memory_written_is_shown [of demo_cli, unfolded t, OF demo_mem_laws this(2,3) w [unfolded t] r this(1)]
  moreover have "int (length ?bs) = 2" by simp
  ultimately show ?thesis by metis
qed

section \<open>Commands that only look\<close>

lemma keeps_handlers [keeps_intros]:
  "keeps P (prints ls)" "keeps P (complain s)" "keeps P (fails s e)" "keeps P (unknown_sub k w)"
  by (simp_all add: prints_def complain_def fails_def unknown_sub_def keeps_intros)

lemma keeps_attempt [keeps_intros]: "keeps P m \<Longrightarrow> (\<And>x. keeps P (f x)) \<Longrightarrow> keeps P (attempt s m f)"
  unfolding attempt_def by (intro keeps_intros)

lemma keeps_with_address [keeps_intros]: "(\<And>a. keeps P (f a)) \<Longrightarrow> keeps P (with_address s f)"
  unfolding with_address_def by (intro keeps_intros)

lemma keeps_prints_of [keeps_intros]: "keeps P (\<lambda>p. prints (g p) p)"
  by (simp add: keeps_def prints_def mret_def)

lemma keeps_list_case [keeps_intros]:
  "(xs = [] \<Longrightarrow> keeps P a) \<Longrightarrow> (\<And>y ys. xs = y # ys \<Longrightarrow> keeps P (f y ys)) \<Longrightarrow>
    keeps P (case xs of [] \<Rightarrow> a | y # ys \<Rightarrow> f y ys)"
  by (cases xs) simp_all

lemma keeps_looking_handlers [keeps_intros]:
  "keeps P (handleHelp args)" "keeps P (list_source C)" "keeps P (printDisassembly C n addr)"
  "keeps P (handleDisassemble C args)" "keeps P (memory_read C a amount)" "keeps P (print_registers C regs infos)"
  unfolding handleHelp_def printDisassembly_def handleDisassemble_def memory_read_def print_registers_def
  by (intro keeps_intros | simp add: keeps_def list_source_def Let_def case_prod_beta)+

lemma keeps_handleRegisterRead [keeps_intros]: "keeps P (handleRegisterRead C args)"
  by (rule keeps_at)
    (auto simp: handleRegisterRead_def split: option.split list.split intro!: keeps_app [where P = P] keeps_intros)

lemma keeps_with_text [keeps_intros]: "(\<And>s. keeps P (f s)) \<Longrightarrow> keeps P (with_text C td f)"
  unfolding with_text_def by (intro keeps_intros)

lemma keeps_both [keeps_intros]: "keeps P m \<Longrightarrow> keeps P n \<Longrightarrow> keeps P (both m n)"
  unfolding both_def by (intro keeps_intros)

lemma keeps_print_locals [keeps_intros]: "keeps P (print_locals C vars)"
  by (induction C vars rule: print_locals.induct) (auto intro!: keeps_intros)

lemma keeps_handleVariableLocals [keeps_intros]: "keeps P (handleVariableLocals C)"
  unfolding handleVariableLocals_def by (intro keeps_intros)

lemma keeps_stays_on [keeps_intros]: "keeps P m \<Longrightarrow> keeps P (stays_on m)"
  unfolding stays_on_def by (intro keeps_intros)

definition look_words :: "string list" where
  "look_words = [''help'', ''h'', ''list'', ''l'', ''disassemble'', ''disas'']"

definition look_pairs :: "(string \<times> string) list" where
  "look_pairs =
     [(''breakpoint'', ''list''), (''break'', ''list''), (''watchpoint'', ''list''), (''watch'', ''list''), (''thread'', ''list''),
      (''t'', ''list''), (''register'', ''read''), (''reg'', ''read''), (''memory'', ''read''), (''mem'', ''read''),
      (''variable'', ''locals''), (''var'', ''locals'')]"

fun looks :: "string list \<Rightarrow> bool" where
  "looks [] \<longleftrightarrow> True"
| "looks [w] \<longleftrightarrow> w \<in> set look_words"
| "looks (w # sub # args) \<longleftrightarrow> w \<in> set look_words \<or> (w, sub) \<in> set look_pairs"

lemma keeps_sub_handlers [keeps_intros]:
  "keeps P (handleBreakpoint C (''list'' # args))" "keeps P (handleWatchpoint C (''list'' # args))"
  "keeps P (handleThread C (''list'' # args))" "keeps P (handleRegister C (''read'' # args))"
  "keeps P (handleMemory C (''read'' # args))" "keeps P (handleVariable C (''locals'' # args))"
proof -
  show "keeps P (handleBreakpoint C (''list'' # args))" "keeps P (handleWatchpoint C (''list'' # args))"
    "keeps P (handleThread C (''list'' # args))"
    by (simp_all add: handleBreakpoint_def handleWatchpoint_def handleThread_def [abs_def] keeps_intros)
  show "keeps P (handleRegister C (''read'' # args))" "keeps P (handleVariable C (''locals'' # args))"
    by (simp_all add: handleRegister_def handleVariable_def keeps_intros)
  show "keeps P (handleMemory C (''read'' # args))"
    by (cases args) (auto simp: handleMemory_def intro!: keeps_intros)
qed

lemma keeps_look_words:
  "list_all (\<lambda>w. \<forall>line args. Fields line = w # args \<longrightarrow> keeps P (command C line)) look_words"
  by (simp add: look_words_def command_def keeps_intros)

lemma keeps_look_pairs:
  "list_all (\<lambda>(w, sub). \<forall>line args. Fields line = w # sub # args \<longrightarrow> keeps P (command C line)) look_pairs"
  by (simp add: look_pairs_def command_def keeps_intros)

lemma keeps_snd: "keeps (\<lambda>q. q = p) m \<Longrightarrow> snd (m p) = p"
  by (simp add: keeps_def)

lemma look_steps: "looks (Fields line) \<Longrightarrow> snd (command C line p) = p"
proof (cases "Fields line" rule: looks.cases)
  case 1
  then show ?thesis by (simp add: command_def keeps_snd keeps_intros)
next
  case (2 w)
  assume "looks (Fields line)"
  then show ?thesis using 2 keeps_look_words unfolding list_all_iff by simp (blast intro: keeps_snd)
next
  case (3 w sub args)
  assume "looks (Fields line)"
  then show ?thesis using 3 keeps_look_words keeps_look_pairs unfolding list_all_iff by simp (blast intro: keeps_snd)
qed

text \<open>
  C14 (safety).  The commands that show something leave the tracee and the debugger as they were: help,
  the source listing, a disassembly, the lists of breakpoints, watchpoints and threads, registers,
  memory and local variables, whatever their arguments and whether they succeed.
\<close>

theorem looking_changes_nothing:
  assumes "looks (Fields line)"
  shows "snd (command C line p) = p"
  by (rule look_steps [OF assms])

theorem looking_changes_nothing_witness:
  "snd (command demo_cli ''disas -c 3 -a 0x401000'' demo_target) = demo_target"
proof (rule looking_changes_nothing)
  have "Fields ''disas -c 3 -a 0x401000'' = [''disas'', ''-c'', ''3'', ''-a'', ''0x401000'']" by code_simp
  then show "looks (Fields ''disas -c 3 -a 0x401000'')" by (simp add: look_words_def)
qed

section \<open>Breakpoint commands\<close>

text \<open>
  A breakpoint command that enables a disabled site, or disables an enabled one, or sets a breakpoint
  at an address, or does none of this.
\<close>

definition named_site :: "string list \<Rightarrow> 'k target \<Rightarrow> BreakpointSite option" where
  "named_site args p =
     (case args of [] \<Rightarrow> None
      | w # _ \<Rightarrow> Option.bind (ParseInt32 w) (\<lambda>i. BreakpointSiteByID p (word_of_int i)))"

definition careful :: "string list \<Rightarrow> 'k target \<Rightarrow> bool" where
  "careful args p =
     (case args of
        [] \<Rightarrow> True
      | sub # rest \<Rightarrow>
          if sub = ''set'' then
            (case (if rest \<noteq> [] \<and> hd rest = ''-h'' then tl rest else rest) of [] \<Rightarrow> True | w # _ \<Rightarrow> HasPrefix w ''0x'')
          else if sub = ''enable'' then (case named_site rest p of None \<Rightarrow> True | Some b \<Rightarrow> \<not> bp_isEnabled b)
          else if sub = ''disable'' then (case named_site rest p of None \<Rightarrow> True | Some b \<Rightarrow> bp_isEnabled b)
          else True)"

definition fixed :: "'k handler \<Rightarrow> bool" where
  "fixed m \<longleftrightarrow> (\<forall>p. snd (m p) = p)"

lemma fixed_handlers [simp]:
  "fixed (prints ls)" "fixed (complain s)" "fixed (fails s e)" "fixed (done_with k i w)" "fixed (unknown_sub k w)"
  "fixed (not_found k i)"
  by (simp_all add: fixed_def prints_def complain_def fails_def done_with_def unknown_sub_def not_found_def mret_def)

lemma fixedD: "fixed m \<Longrightarrow> snd (m p) = p"
  by (simp add: fixed_def)

lemma attempt_snd:
  assumes "\<And>x. fixed (f x)"
  shows "snd (attempt s m f p) = snd (m p)"
  using assms fixed_handlers(3) [of s]
  by (auto simp: attempt_cases fixed_def split: prod.splits sum.splits failure.splits)

lemma bp_one: "bp_step E p q \<Longrightarrow> bp_steps E p q"
  by (blast intro: bp_steps.intros)

lemma getByID_mem: "getByID c i = Some s \<Longrightarrow> s \<in> set (sites c)"
  by (auto simp: getByID_def find_Some_iff)

lemma break_at_steps:
  assumes "HasPrefix location ''0x''"
  shows "bp_steps (cl_env C) p (snd (break_at C hw location p))"
proof (cases "ParseHex (TrimPrefix location ''0x'') 64")
  case None
  then show ?thesis using assms by (simp add: break_at_def with_address_def fixedD bp_refl)
next
  case (Some a)
  let ?report = "\<lambda>site _. prints [(if hw then ''hardware '' else ''software '') @ site_line '''' site]"
  let ?enable = "\<lambda>site. attempt '''' (on_site (Enable (cl_env C)) site) (?report site)"
  have run: "break_at C hw location p = attempt '''' (CreateBreakpointSite (of_nat a) hw False) ?enable p"
    using assms Some by (simp add: break_at_def with_address_def)
  obtain r p1 where c: "CreateBreakpointSite (of_nat a) hw False p = (r, p1)" by fastforce
  then have step: "bp_steps (cl_env C) p p1" by (blast intro: bp_one bp_step.create)
  show ?thesis
  proof (cases r)
    case (Inl e)
    then have "snd (break_at C hw location p) = p1" using c
      by (simp add: run attempt_cases fixedD split: failure.split)
    then show ?thesis using step by simp
  next
    case (Inr site)
    have site: "site \<in> set (sites (breakpointSites p1))" "\<not> bp_isEnabled site"
      using c Inr by (auto simp: CreateBreakpointSite_def site_push_def Let_def case_prod_beta split: if_splits)
    have "snd (break_at C hw location p) = snd (on_site (Enable (cl_env C)) site p1)"
      using c Inr by (simp add: run attempt_ok attempt_snd)
    then have "bp_step (cl_env C) p1 (snd (break_at C hw location p))"
      using bp_step.enable [OF site] by (metis prod.collapse)
    then show ?thesis using step by (blast intro: bp_steps.intros)
  qed
qed

lemma break_switch_found:
  "BreakpointSiteByID p (word_of_int i) = Some b \<Longrightarrow> snd (break_switch f what i p) = snd (on_site f b p)"
  by (simp add: break_switch_def attempt_snd)

lemma break_switch_none:
  "BreakpointSiteByID p (word_of_int i) = None \<Longrightarrow> snd (break_switch f what i p) = p"
  by (simp add: break_switch_def fixedD)

lemma with_id_snd:
  "snd (with_id k v args f p) = (case args of [] \<Rightarrow> p | w # _ \<Rightarrow> (case ParseInt32 w of None \<Rightarrow> p | Some i \<Rightarrow> snd (f i p)))"
  by (simp add: with_id_def fixedD split: list.split option.split)

lemma switch_steps:
  assumes "\<And>b q. named_site args p = Some b \<Longrightarrow> b \<in> set (sites (breakpointSites p)) \<Longrightarrow>
      snd (on_site f b p) = q \<Longrightarrow> bp_step (cl_env C) p q"
  shows "bp_steps (cl_env C) p (snd (with_id k v args (break_switch f what) p))"
proof (cases "named_site args p")
  case None
  then have "snd (with_id k v args (break_switch f what) p) = p"
    by (auto simp: with_id_snd named_site_def break_switch_none split: list.splits option.splits)
  then show ?thesis by (simp add: bp_refl)
next
  case (Some b)
  then have "snd (with_id k v args (break_switch f what) p) = snd (on_site f b p)"
    by (auto simp: with_id_snd named_site_def break_switch_found bind_eq_Some_conv split: list.splits)
  moreover have "b \<in> set (sites (breakpointSites p))"
    using Some by (auto simp: named_site_def BreakpointSiteByID_def bind_eq_Some_conv split: list.splits dest: getByID_mem)
  ultimately show ?thesis using assms [OF Some] by (auto intro: bp_one)
qed

lemma breakpoint_steps:
  assumes "careful args p"
  shows "bp_steps (cl_env C) p (snd (handleBreakpoint C args p))"
proof (cases args)
  case Nil
  then show ?thesis by (simp add: handleBreakpoint_def fixedD bp_refl)
next
  case (Cons sub rest)
  consider (set) "sub = ''set''" | (list) "sub = ''list''" | (enable) "sub = ''enable''" | (disable) "sub = ''disable''"
    | (delete) "sub = ''delete''" | (other) "sub \<notin> {''set'', ''list'', ''enable'', ''disable'', ''delete''}"
    by blast
  then show ?thesis
  proof cases
    case set
    then show ?thesis using assms Cons
      by (auto simp: handleBreakpoint_def break_set_def careful_def fixedD bp_refl Let_def split: list.splits
          intro: break_at_steps)
  next
    case list
    then show ?thesis using Cons by (simp add: handleBreakpoint_def fixedD bp_refl)
  next
    case enable
    have "bp_step (cl_env C) p q" if "named_site rest p = Some b" "b \<in> set (sites (breakpointSites p))"
      "snd (on_site (Enable (cl_env C)) b p) = q" for b q
      using bp_step.enable [OF that(2)] assms that Cons enable by (auto simp: careful_def) (metis prod.collapse)
    then show ?thesis using Cons enable switch_steps [of rest p "Enable (cl_env C)" C] by (simp add: handleBreakpoint_def)
  next
    case disable
    have "bp_step (cl_env C) p q" if "named_site rest p = Some b" "b \<in> set (sites (breakpointSites p))"
      "snd (on_site (Disable (cl_env C)) b p) = q" for b q
      using bp_step.disable [OF that(2)] assms that Cons disable by (auto simp: careful_def) (metis prod.collapse)
    then show ?thesis using Cons disable switch_steps [of rest p "Disable (cl_env C)" C] by (simp add: handleBreakpoint_def)
  next
    case delete
    have "bp_step (cl_env C) p (snd (RemoveBreakpointSite (cl_env C) i p))" for i
      by (rule bp_step.remove) (rule prod.collapse [symmetric])
    then show ?thesis using Cons delete
      by (auto simp: handleBreakpoint_def with_id_snd attempt_snd bp_refl intro: bp_one split: list.split option.split)
  next
    case other
    then show ?thesis using Cons by (simp add: handleBreakpoint_def fixedD bp_refl)
  qed
qed

text \<open>A history of commands, each of them careful at its state.\<close>

definition safe_line :: "string \<Rightarrow> 'k target \<Rightarrow> bool" where
  "safe_line line p \<longleftrightarrow>
     looks (Fields line) \<or>
     (case Fields line of [] \<Rightarrow> True | w # args \<Rightarrow> w \<in> {''breakpoint'', ''break''} \<and> careful args p)"

fun after :: "('k, 'i) cli \<Rightarrow> string list \<Rightarrow> 'k target \<Rightarrow> 'k target" where
  "after C [] p = p"
| "after C (line # lines) p = after C lines (snd (command C line p))"

fun safe_history :: "('k, 'i) cli \<Rightarrow> string list \<Rightarrow> 'k target \<Rightarrow> bool" where
  "safe_history C [] p \<longleftrightarrow> True"
| "safe_history C (line # lines) p \<longleftrightarrow> safe_line line p \<and> safe_history C lines (snd (command C line p))"

lemma stays_on_snd: "snd (stays_on m p) = snd (m p)"
  by (auto simp: stays_on_def mbind_def mret_def split: prod.split sum.split)

lemma safe_line_steps: "safe_line line p \<Longrightarrow> bp_steps (cl_env C) p (snd (command C line p))"
proof (cases "looks (Fields line)")
  case True
  then show ?thesis by (simp add: look_steps bp_refl)
next
  case False
  assume "safe_line line p"
  with False obtain w args where w: "Fields line = w # args" "w = ''breakpoint'' \<or> w = ''break''" "careful args p"
    by (auto simp: safe_line_def split: list.splits)
  then have "command C line = stays_on (handleBreakpoint C args)" by (elim disjE) (simp_all add: command_def)
  then show ?thesis using breakpoint_steps [OF w(3)] by (simp add: stays_on_snd)
qed

lemma bp_steps_append: "bp_steps E q r \<Longrightarrow> bp_steps E p q \<Longrightarrow> bp_steps E p r"
  by (induction rule: bp_steps.induct) (auto intro: bp_trans)

lemma history_steps: "safe_history C lines p \<Longrightarrow> bp_steps (cl_env C) p (after C lines p)"
proof (induction lines arbitrary: p)
  case (Cons line lines)
  then show ?case using safe_line_steps [of line p C] bp_steps_append by fastforce
qed (simp add: bp_refl)

text \<open>
  C13 (invariant).  Breakpoints stay invisible at the prompt: after any history of breakpoint commands
  (setting at addresses, enabling what is disabled, disabling what is enabled, deleting, listing) and of
  commands that look, failing ones included, memory is the original with \<open>int3\<close> exactly at the enabled software
  sites, and a read of the kind that disassembly uses returns the original bytes.
\<close>

theorem prompt_hides_breakpoints:
  assumes "mem_laws (memory (cl_env C)) (p_pid p) view" "user_mem_frame (user (cl_env C)) view"
    and "sites (breakpointSites p) = []" "safe_history C lines p"
    and "unat addr + nat amount < 2 ^ 64" "amount < 2 ^ 63" "mem (cl_target C) (after C lines p) addr amount = Inr data"
  shows "trap_inv view (view (kernel p)) (after C lines p) \<and>
    ReadMemoryWithoutTraps (cl_env C) addr amount (after C lines p) =
      Inr (take (length data) (bytes_at (view (kernel p)) addr (nat amount)))"
proof -
  let ?q = "after C lines p"
  have "trap_inv view (view (kernel p)) p" using assms(3) by (simp add: trap_inv_def)
  then have q: "trap_inv view (view (kernel p)) ?q" "p_pid ?q = p_pid p"
    using trap_inv_steps [OF history_steps [OF assms(4)] assms(1,2)] by auto
  have "ReadMemory (memory (cl_env C)) (p_pid ?q) addr amount (kernel ?q) = Inr data"
    using assms(7) by (simp add: mem_def cl_env_def target_env_def)
  then show ?thesis using ReadMemoryWithoutTraps_orig [OF _ q(1) assms(5,6)] assms(1) q by simp
qed

definition demo_lines :: "string list" where
  "demo_lines = [''break set 0x401010'', ''break list'', ''memory read 0x401000'']"

lemma demo_fields:
  "map Fields demo_lines = [[''break'', ''set'', ''0x401010''], [''break'', ''list''], [''memory'', ''read'', ''0x401000'']]"
  by code_simp

lemma demo_safe: "safe_history demo_cli demo_lines demo_target"
  using demo_fields
  by (simp add: demo_lines_def safe_line_def careful_def look_pairs_def HasPrefix_def)

lemma lift_user_frame: "user_mem_frame U view \<Longrightarrow> user_mem_frame (lift_user U) (view \<circ> fst)"
  by (auto simp: user_mem_frame_def lift_user_def lift_req_def split: option.splits)

lemma demo_user_frame: "user_mem_frame (user (cl_env demo_cli)) fst"
  using lift_user_frame [OF flat_user_frame]
  by (simp add: cl_env_def target_env_def demo_cli_def demo_tenv_def kenv_def lift_env_def comp_def)

theorem prompt_hides_breakpoints_witness:
  "ReadMemoryWithoutTraps (cl_env demo_cli) 0x401008 16 (after demo_cli demo_lines demo_target) =
     Inr (bytes_at code_page 0x401008 16)"
proof -
  have t: "cl_target demo_cli = demo_tenv" by (simp add: demo_cli_def)
  have e: "memory (cl_env demo_cli) = lift_mem (flat_ops one_page)"
    using demo_memory by (simp add: cl_env_def target_env_def t)
  have "list_all (\<lambda>(a, len). one_page a) (remoteIov 0x401008 (word_of_int 16))" by code_simp
  then have r: "mem demo_tenv (after demo_cli demo_lines demo_target) 0x401008 16 =
      Inr (bytes_at (fst (kernel (after demo_cli demo_lines demo_target))) 0x401008 16)"
    using flat_read [of 16 one_page "0x401008"] by (simp add: mem_def demo_memory ReadMemory_lifted)
  have k: "fst (kernel demo_target) = code_page" "sites (breakpointSites demo_target) = []" by (simp_all add: demo_target_def)
  show ?thesis
    using prompt_hides_breakpoints [of demo_cli demo_target fst, OF _ demo_user_frame k(2) demo_safe, of "0x401008" 16] r
    by (simp add: t e demo_memory [symmetric] demo_mem_laws k(1))
qed

section \<open>Caught system calls\<close>

text \<open>A word that stands for itself in the list: no number, no comma and no white space in it.\<close>

definition call_name :: "string \<Rightarrow> bool" where
  "call_name s \<longleftrightarrow> s \<noteq> [] \<and> s \<noteq> ''none'' \<and> CHR '','' \<notin> set s \<and> list_all (\<lambda>c. \<not> is_space c) s \<and> Atoi s = None"

lemma found_name:
  assumes "set order = set syscallTable" "(i, s) \<in> set syscallTable"
  obtains k where "SyscallNameToID order s = (k, True)" "SyscallIDToName k = s"
proof -
  have "written order Map.empty s \<noteq> None" using writer_found [of i s order Map.empty] assms by blast
  then obtain k where k: "written order Map.empty s = Some k" by blast
  then have "(k, s) \<in> set syscallTable" using last_writer [OF k] assms by auto
  then show thesis using k that
    by (simp add: SyscallNameToID_def syscallNumbers_def written_def SyscallIDToName_def listed_name)
qed

lemma parse_names:
  assumes "set order = set syscallTable" "list_all call_name names" "set names \<subseteq> snd ` set syscallTable"
  shows "\<exists>ids. parse_calls order names = Inr ids \<and> map SyscallIDToName ids = names"
  using assms(2,3)
proof (induction names)
  case (Cons s names)
  then obtain i where "(i, s) \<in> set syscallTable" by auto
  then obtain k where k: "SyscallNameToID order s = (k, True)" "SyscallIDToName k = s" by (rule found_name [OF assms(1)])
  have "TrimSpace s = s" using Cons.prems(1) by (intro TrimSpace_id) (auto simp: call_name_def list_all_iff)
  moreover obtain ids where "parse_calls order names = Inr ids" "map SyscallIDToName ids = names" using Cons by auto
  ultimately show ?case using Cons.prems(1) k by (simp add: call_name_def Let_def)
qed simp

lemma join_none:
  assumes "names \<noteq> []" "list_all call_name names"
  shows "join '','' names \<noteq> ''none''"
proof (cases names)
  case (Cons s ss)
  show ?thesis
  proof (cases ss)
    case Nil
    then show ?thesis using assms(2) Cons by (simp add: call_name_def)
  next
    case (Cons t ts)
    then have "CHR '','' \<in> set (join '','' names)" using \<open>names = s # ss\<close> by simp
    moreover have "CHR '','' \<notin> set ''none''" by simp
    ultimately show ?thesis by metis
  qed
qed (use assms(1) in simp)

text \<open>
  C34 (functional).  \<open>catchpoint syscall\<close> with names of the table, in any order and number and separated by commas,
  catches exactly the calls of these names: the policy holds a number for each of them in turn, whose
  name it is, and the target changes by this policy alone.
\<close>

theorem catch_by_name:
  assumes "set (cl_order C) = set syscallTable" "names \<noteq> []" "list_all call_name names"
    and "set names \<subseteq> snd ` set syscallTable"
  shows "\<exists>ids. map SyscallIDToName ids = names \<and>
    handleCatchpoint C [''syscall'', join '','' names] p =
      (Inr [println (''catching syscalls: '' @ join '', '' names)], SetSyscallCatchPolicy (CatchSomeSyscalls ids) p)"
proof -
  obtain ids where ids: "parse_calls (cl_order C) names = Inr ids" "map SyscallIDToName ids = names"
    using parse_names [OF assms(1,3,4)] by blast
  have "splits (CHR '','') (join '','' names) = names"
    using assms(2,3) by (intro splits_join) (auto simp: call_name_def list_all_iff)
  moreover have "ids \<noteq> []" using ids(2) assms(2) by auto
  ultimately show ?thesis
    using ids join_none [OF assms(2,3)]
    by (auto simp: handleCatchpoint_def set_policy_def mbind_def mmodify_def prints_def mret_def)
qed

theorem catch_by_name_witness:
  "\<exists>ids. map SyscallIDToName ids = [''write'', ''mseal''] \<and>
    handleCatchpoint demo_cli [''syscall'', ''write,mseal''] demo_target =
      (Inr [println ''catching syscalls: write, mseal''], SetSyscallCatchPolicy (CatchSomeSyscalls ids) demo_target)"
proof -
  have "(1, ''write'') \<in> set syscallTable" "(462, ''mseal'') \<in> set syscallTable"
    by (simp_all add: syscallTable_def syscalls_low_def syscalls_high_def)
  then have m: "set [''write'', ''mseal''] \<subseteq> snd ` set syscallTable" by force
  have n: "list_all call_name [''write'', ''mseal'']"
    by (simp add: call_name_def is_space_def Atoi_def)
  have "set (cl_order demo_cli) = set syscallTable" by (simp add: demo_cli_def)
  from catch_by_name [OF this _ n m, of demo_target] show ?thesis by simp
qed

end
