(* ===== verification/Spec2Isabelle.thy ===== *)
theory Spec2Isabelle
  imports Prompt
begin

text \<open>
  A model of the x86-64 debugger \<open>toydbg\<close> (Go, \<open>src/debugger\<close>) and the properties that make its
  parts correct.  The debugger traces a process through \<open>ptrace\<close>: it sets breakpoints and
  watchpoints, steps and resumes threads, reads and writes registers and memory, and relates the
  stopped program to its source through ELF and DWARF data.

  \<^bold>\<open>Conventions.\<close>  A Go function that can fail returns \<open>'a res\<close> (\<open>Prelude\<close>): a value, a returned
  error, a run-time panic, or the exhaustion of the fuel that stands for a loop that runs on.  A
  method that changes what its receiver points to is a state transformer \<open>('s, 'a) st\<close> (\<open>Effects\<close>),
  which keeps the changes made before an error.  Sized integers are words; a Go \<open>int\<close> is an integer
  with the wrap-around written out where it can matter; a Go map is a HOL map, and where the code
  ranges over one the order is an argument.  Kernel requests, files, the entries that \<open>debug/elf\<close> and
  \<open>debug/dwarf\<close> deliver, and the instruction decoder are arguments; \<open>mem_laws\<close>, \<open>user_laws\<close> and
  \<open>range_law\<close> state the documented behaviour that a theorem relies on.

  \<^bold>\<open>Parts and theories.\<close>
  \<^item> \<open>Reader\<close>: the byte cursor of \<open>cfi.go\<close> and \<open>dwarf_expr.go\<close>, LEB128 and encoded pointers.
  \<^item> \<open>Cfi\<close>: \<open>cfi.go\<close>, the sections \<open>.eh_frame\<close> and \<open>.eh_frame_hdr\<close>, the cache of CIEs, and the two
    ways to find the entry of a program counter.
  \<^item> \<open>Register_Info\<close>, \<open>Registers\<close>: \<open>register_info.go\<close> and \<open>registers_linux.go\<close>, the table of registers and the
    cache of a thread's registers with its write-through to the kernel.
  \<^item> \<open>Dwarf_Expr\<close>: \<open>dwarf_expr.go\<close>, the stack machine of DWARF expressions.
  \<^item> \<open>Unwind\<close>: \<open>unwind.go\<close>, the interpreter of call frame instructions and the restoring of the caller's registers.
  \<^item> \<open>Memory\<close>: \<open>memory_linux.go\<close> and the reads and writes of \<open>process.go\<close>.
  \<^item> \<open>Stoppoints\<close>, \<open>Breakpoints\<close>, \<open>Debug_Registers\<close>: \<open>breakpoint_site.go\<close>, \<open>watchpoint.go\<close>, \<open>stoppoint_mode.go\<close> and the
    debug registers of \<open>process.go\<close>.
  \<^item> \<open>Process_State\<close>, \<open>Process_Control\<close>, \<open>Frame\<close>: \<open>process.go\<close>, threads and stop reasons, waiting, signals,
    resuming, stepping, launching, attaching and closing, and what these leave alone.
  \<^item> \<open>Debug_Info\<close>: \<open>dwarf.go\<close>, the indexes of functions and lines, inlined calls, scopes and local variables.
  \<^item> \<open>Locations\<close>: \<open>dwarf_loc.go\<close>, where a variable is and its bytes.
  \<^item> \<open>Elf\<close>: \<open>elf.go\<close> and \<open>elf_collection.go\<close>, symbols, address ranges and the loaded objects.
  \<^item> \<open>Target\<close>: \<open>target.go\<close>, \<open>dynlib.go\<close> and \<open>auxv_linux.go\<close>, launch and attach with symbols, the load bias, and the
    libraries of the dynamic linker.
  \<^item> \<open>Formatting\<close>: \<open>format.go\<close> and \<open>parse.go\<close>, register values as text.
  \<^item> \<open>Backtrace\<close>, \<open>Stepping\<close>: \<open>stack.go\<close> and \<open>stepping.go\<close>, the call stack and source-level control.
  \<^item> \<open>Typed_Data\<close>: \<open>type.go\<close>, bytes with a type of the debug information: members, bit fields, elements, and their
    text.
  \<^item> \<open>Variables\<close>: the rest of \<open>target.go\<close>, finding a variable and following a compound name such as \<open>a.b->c[2]\<close>.
  \<^item> \<open>Calling\<close>, \<open>Expressions\<close>: \<open>expr.go\<close>, first what needs no tracee (splitting arguments, parameter classes), then
    the call of a function of the tracee from arguments to return value; \<open>Arguments\<close> and \<open>Calls\<close> hold their properties.
  \<^item> \<open>Syscalls\<close>: \<open>syscalls.go\<close>, the names of system calls.
  \<^item> \<open>Disassembler\<close>: \<open>disassembler.go\<close>, the loop over the decoder of \<open>x86asm\<close>.
  \<^item> \<open>Console\<close>, \<open>Toydbg\<close>: \<open>cmd/toydbg/main.go\<close>, the commands with what they print and do, the loop and a session;
    \<open>Prompt\<close> holds their properties.

  \<^bold>\<open>State.\<close>  \<open>'k Process\<close> is the struct \<open>Process\<close>: the thread map is an association list, the two collections of
  stop points are lists, and \<open>kernel\<close> is the state of the tracee and the kernel, of any type.  A target
  is a process whose kernel component carries the fields of \<open>Target\<close>; the callbacks of breakpoints are
  numbers that the environment interprets (\<open>hitHandler\<close>), so that a handler acts on the whole target.

  \<^bold>\<open>Lemmas.\<close>  \<open>Cfi\<close>: the binary search agrees with the scan on a table as linkers build it, and the cache is
  transparent.  \<open>Unwind\<close>: registers come out as the row's rules say, in any iteration order.  \<open>Dwarf_Expr\<close>:
  compiled address expressions evaluate to their value.  \<open>Registers\<close>: after a write, cache and tracee agree.
  \<open>Breakpoints\<close>: enabled sites and nothing else differ from the program's bytes, and reads hide them.
  \<open>Process_Control\<close>: when a wait returns every thread has stopped; a hit rewinds the program counter; the OS
  thread stays locked exactly while attached.  \<open>Debug_Info\<close>, \<open>Elf\<close>: the sorted indexes answer as a search through all
  entries would, and scopes follow the tree of entries.  \<open>Locations\<close>: values assembled bit by bit.  \<open>Target\<close>: the
  load bias and the list of libraries.  \<open>Backtrace\<close>, \<open>Stepping\<close>: bounds of the walk, the sites after a run to an
  address, and where a step over ends.  \<open>Formatting\<close>: what is printed parses back.  \<open>Typed_Data\<close>: the value of a bit
  field and the text of integers.  \<open>Variables\<close>: a compound name denotes the place its path leads to.  \<open>Calling\<close>,
  \<open>Arguments\<close>: classes of structs as the calling convention has them, integer arguments in their registers, and the
  struct whose end is lost.  \<open>Calls\<close>: after a call, on every outcome, sites, handlers and registers are those from
  before.  \<open>Syscalls\<close>: the lookups are inverse.  \<open>Disassembler\<close>: a disassembly lists the original bytes.
  \<open>Prompt\<close>: commands that look change nothing, breakpoint commands stay invisible to reads over any history, and
  what a command prints another one reads back.

  \<^bold>\<open>Interfaces.\<close>  Locales state what a component asks of another: the register file, the site collections, the memory
  a reader sees, and what running the tracee keeps (\<open>request_frame\<close>, \<open>process_frame\<close>); each is interpreted on the
  model's own definitions.

  \<^bold>\<open>Fuel.\<close>  Expressions may loop, so \<open>Eval\<close> takes fuel; straight-line code of \<open>n\<close> bytes needs \<open>n + 1\<close>.  The scan of
  \<open>.eh_frame\<close> and the CFI interpreter need the length of their data.  Waiting retries on stops that the debugger
  hides, \<open>Close\<close> reaps children, and the step loops run until the line changes: nothing bounds these in the source,
  and the theorems say what happens with enough fuel.  The link map walk needs one round more than the list is long;
  the walk over the stack one more than the limit; the walks over debugging entries as many as there are entries.

  \<^bold>\<open>Simplifications.\<close>  Offsets of struct members are not negative where their class is computed.  Text is ASCII.  A
  register write for a thread that has gone fails as the kernel request would.  The handler that a call installs on
  its return site is one that stops; the theorem on calls asks that the program's start is over: no site has the
  handler of the entry point (number 0) any more, which removes its site.

  \<^bold>\<open>Not modelled.\<close>  \<open>ptrace_linux.go\<close> is one system call per function, the parameters above.  Of the command
  line, the parsing of the flags, the line editor, and the goroutine that turns Ctrl+C into a signal for the tracee.
  \<open>error.go\<close> is an error with a message; errors
  are the constructors of \<open>go_error\<close>, and the message that an operation puts around one it passes on is left out.
\<close>

end
